(* ===== verification/Prelude.thy ===== *)
theory Prelude
  imports Main "HOL-Library.Word"
begin

text \<open>
  Shared vocabulary of the development: the machine integers and byte strings of the
  Rust sources, the result type with errors and panics as values, little-endian
  encodings, slices and in-place writes of byte buffers, and the two generic contracts
  (fixed-size codecs and step invariants) that the component theories interpret.
\<close>

unbundle bit_operations_syntax

section \<open>Types\<close>

type_synonym u8 = "8 word"
type_synonym u16 = "16 word"
type_synonym u32 = "32 word"
type_synonym u64 = "64 word"
type_synonym u128 = "128 word"
type_synonym bytes = "u8 list"

text \<open>
  A fixed array \<open>[u8; N]\<close> is a byte list whose length is part of the well-formedness
  predicates; \<open>usize\<close> quantities are \<open>nat\<close>, because every size computed by the
  programs is far below \<open>2 ^ 64\<close>.
\<close>

type_synonym QHash256 = bytes
type_synonym QHash160 = bytes
type_synonym pubkey = bytes

named_theorems codec_simps "unfolding rules of the byte layouts"
named_theorems result_simps "how results compose"

abbreviation zero32 :: bytes where
  "zero32 \<equiv> replicate 32 0"

section \<open>Results: errors and panics as values\<close>

text \<open>
  A Rust function that returns \<open>Result\<close> either succeeds, returns an error value, or
  panics. Both kinds of failure abort the Solana transaction and roll its writes back,
  so the state after a failure is not part of the result.
\<close>

datatype 'e fault = Err 'e | Panic

definition rbind :: "'e + 'a \<Rightarrow> ('a \<Rightarrow> 'e + 'b) \<Rightarrow> 'e + 'b" where
  "rbind m f = (case m of Inl e \<Rightarrow> Inl e | Inr x \<Rightarrow> f x)"

definition map_err :: "('e \<Rightarrow> 'f) \<Rightarrow> 'e fault + 'a \<Rightarrow> 'f fault + 'a" where
  "map_err g m = (case m of Inl (Err e) \<Rightarrow> Inl (Err (g e)) | Inl Panic \<Rightarrow> Inl Panic | Inr x \<Rightarrow> Inr x)"

definition is_ok :: "'e + 'a \<Rightarrow> bool" where
  "is_ok m = (case m of Inl _ \<Rightarrow> False | Inr _ \<Rightarrow> True)"

lemma rbind_Inl [simp]: "rbind (Inl e) f = Inl e"
  by (simp add: rbind_def)

lemma rbind_Inr [simp]: "rbind (Inr x) f = f x"
  by (simp add: rbind_def)

lemma rbind_eq_Inr [result_simps]:
  "rbind m f = Inr y \<longleftrightarrow> (\<exists>x. m = Inr x \<and> f x = Inr y)"
  by (cases m) auto

lemma rbind_eq_Inl [result_simps]:
  "rbind m f = Inl e \<longleftrightarrow> m = Inl e \<or> (\<exists>x. m = Inr x \<and> f x = Inl e)"
  by (cases m) auto

lemma rbind_cong [fundef_cong]:
  "m = m' \<Longrightarrow> (\<And>x. m' = Inr x \<Longrightarrow> f x = g x) \<Longrightarrow> rbind m f = rbind m' g"
  by (cases m') auto

lemma map_err_simps [simp]:
  "map_err g (Inr x) = Inr x"
  "map_err g (Inl Panic) = Inl Panic"
  "map_err g (Inl (Err e)) = Inl (Err (g e))"
  by (simp_all add: map_err_def)

lemma map_err_eq_Inr [simp]: "map_err g m = Inr x \<longleftrightarrow> m = Inr x"
  by (auto simp: map_err_def split: sum.splits fault.splits)

lemma is_ok_simps [simp]: "is_ok (Inl e) = False" "is_ok (Inr x) = True"
  by (simp_all add: is_ok_def)

lemma is_ok_iff: "is_ok m \<longleftrightarrow> (\<exists>x. m = Inr x)"
  by (cases m) auto

lemma if_Inl_eq_Inr [result_simps]:
  "(if b then Inl e else m) = Inr x \<longleftrightarrow> \<not> b \<and> m = Inr x"
  by auto

lemma if_Inr_eq_Inr [result_simps]:
  "(if b then m else Inl e) = Inr x \<longleftrightarrow> b \<and> m = Inr x"
  by auto

section \<open>Little-endian integers\<close>

primrec le_bytes :: "nat \<Rightarrow> nat \<Rightarrow> bytes" where
  "le_bytes 0 x = []"
| "le_bytes (Suc n) x = of_nat x # le_bytes n (x div 256)"

primrec le_nat :: "bytes \<Rightarrow> nat" where
  "le_nat [] = 0"
| "le_nat (b # bs) = unat b + 256 * le_nat bs"

text \<open>The \<open>to_le_bytes\<close> and \<open>from_le_bytes\<close> of the Rust integer types.\<close>

definition to_le_bytes :: "'a::len word \<Rightarrow> bytes" where
  "to_le_bytes w = le_bytes (LENGTH('a) div 8) (unat w)"

definition from_le_bytes :: "bytes \<Rightarrow> 'a::len word" where
  "from_le_bytes bs = of_nat (le_nat bs)"

lemma length_le_bytes [simp]: "length (le_bytes n x) = n"
  by (induction n arbitrary: x) auto

lemma unat_u8_less: "unat (b :: u8) < 256"
  using unsigned_less [of b] by simp

lemma unat_of_nat_u8: "unat (of_nat x :: u8) = x mod 256"
  by (simp add: unat_of_nat)

lemma le_nat_le_bytes: "le_nat (le_bytes n x) = x mod 256 ^ n"
proof (induction n arbitrary: x)
  case 0
  then show ?case by simp
next
  case (Suc n)
  have "le_nat (le_bytes (Suc n) x) = x mod 256 + 256 * (x div 256 mod 256 ^ n)"
    by (simp add: Suc.IH unat_of_nat_u8)
  also have "\<dots> = x mod (256 * 256 ^ n)"
    by (simp add: mod_mult2_eq)
  finally show ?case by simp
qed

lemma le_nat_bound: "le_nat bs < 256 ^ length bs"
proof (induction bs)
  case Nil
  then show ?case by simp
next
  case (Cons b bs)
  have "unat b < 256" by (rule unat_u8_less)
  with Cons.IH show ?case by simp
qed

lemma le_bytes_le_nat: "le_bytes (length bs) (le_nat bs) = bs"
proof (induction bs)
  case Nil
  then show ?case by simp
next
  case (Cons b bs)
  have b: "unat b < 256" by (rule unat_u8_less)
  have "unat (of_nat (unat b + 256 * le_nat bs) :: u8) = unat b"
    unfolding unat_of_nat_u8 using b by simp
  then have "(of_nat (unat b + 256 * le_nat bs) :: u8) = b" by (rule unsigned_word_eqI)
  moreover have "(unat b + 256 * le_nat bs) div 256 = le_nat bs" using b by simp
  ultimately show ?case using Cons.IH by simp
qed

lemma length_to_le_bytes [simp]: "length (to_le_bytes (w :: 'a::len word)) = LENGTH('a) div 8"
  by (simp add: to_le_bytes_def)

lemma power_256_width: "8 dvd LENGTH('a::len) \<Longrightarrow> (256::nat) ^ (LENGTH('a) div 8) = 2 ^ LENGTH('a)"
proof -
  assume "8 dvd LENGTH('a)"
  then obtain k where k: "LENGTH('a) = 8 * k" by blast
  have "(256::nat) ^ k = (2 ^ 8) ^ k" by simp
  then show ?thesis by (simp only: k power_mult) simp
qed

lemma from_to_le_bytes:
  "8 dvd LENGTH('a::len) \<Longrightarrow> from_le_bytes (to_le_bytes (w :: 'a word)) = w"
proof -
  assume d: "8 dvd LENGTH('a)"
  have "unat w mod 2 ^ LENGTH('a) = unat w" by (rule mod_less) (rule unsigned_less)
  then show ?thesis
    unfolding from_le_bytes_def to_le_bytes_def le_nat_le_bytes power_256_width [OF d] by simp
qed

lemma to_from_le_bytes:
  assumes "8 dvd LENGTH('a::len)" and "length bs = LENGTH('a) div 8"
  shows "to_le_bytes (from_le_bytes bs :: 'a word) = bs"
proof -
  have "le_nat bs < 2 ^ LENGTH('a)"
    using le_nat_bound [of bs] assms by (simp add: power_256_width)
  then have "unat (of_nat (le_nat bs) :: 'a word) = le_nat bs"
    by (simp add: unat_of_nat)
  then show ?thesis
    using le_bytes_le_nat [of bs] assms(2) by (simp add: to_le_bytes_def from_le_bytes_def)
qed

lemma from_to_le_bytes_sized [simp]:
  "from_le_bytes (to_le_bytes (a :: u16)) = a"
  "from_le_bytes (to_le_bytes (b :: u32)) = b"
  "from_le_bytes (to_le_bytes (c :: u64)) = c"
  by (rule from_to_le_bytes, simp)+

lemma to_from_le_bytes_sized [simp]:
  "length bs = 2 \<Longrightarrow> to_le_bytes (from_le_bytes bs :: u16) = bs"
  "length bs = 4 \<Longrightarrow> to_le_bytes (from_le_bytes bs :: u32) = bs"
  "length bs = 8 \<Longrightarrow> to_le_bytes (from_le_bytes bs :: u64) = bs"
  by (rule to_from_le_bytes, simp_all)+

lemma to_le_bytes_inject:
  assumes "8 dvd LENGTH('a::len)"
  shows "to_le_bytes (v :: 'a word) = to_le_bytes w \<longleftrightarrow> v = w"
  using from_to_le_bytes [OF assms, of v] from_to_le_bytes [OF assms, of w] by metis

lemmas to_le_bytes_inject_sized [simp] =
  to_le_bytes_inject [where 'a = 16, simplified]
  to_le_bytes_inject [where 'a = 32, simplified]
  to_le_bytes_inject [where 'a = 64, simplified]

lemma unat_ucast_mod: "unat (ucast (x :: 'a::len word) :: 'b::len word) = unat x mod 2 ^ LENGTH('b)"
  by (simp add: unsigned_ucast_eq take_bit_eq_mod)

section \<open>Slices and in-place writes\<close>

text \<open>
  \<open>bslice xs a b\<close> is \<open>&xs[a..b]\<close> for \<open>a \<le> b \<le> xs.len()\<close>; out of range the source panics,
  and the models test the range before they slice. \<open>write_at\<close> is
  \<open>xs[off..off + ys.len()].copy_from_slice(ys)\<close>. \<open>realloc\<close> is the Solana
  \<open>AccountInfo::realloc\<close>, which truncates or extends with zero bytes.
\<close>

definition bslice :: "'a list \<Rightarrow> nat \<Rightarrow> nat \<Rightarrow> 'a list" where
  "bslice xs a b = take (b - a) (drop a xs)"

definition write_at :: "'a list \<Rightarrow> nat \<Rightarrow> 'a list \<Rightarrow> 'a list" where
  "write_at xs off ys = take off xs @ ys @ drop (off + length ys) xs"

definition realloc :: "bytes \<Rightarrow> nat \<Rightarrow> bytes" where
  "realloc xs n = take n xs @ replicate (n - length xs) 0"

lemma length_slice [simp]: "length (bslice xs a b) = min (b - a) (length xs - a)"
  by (simp add: bslice_def min.commute)

lemma slice_full: "bslice xs 0 (length xs) = xs"
  by (simp add: bslice_def)

lemma slice_same [simp]: "bslice xs a a = []"
  by (simp add: bslice_def)

lemma slice_append_slice:
  "a \<le> b \<Longrightarrow> b \<le> c \<Longrightarrow> bslice xs a b @ bslice xs b c = bslice xs a c"
proof -
  assume le: "a \<le> b" "b \<le> c"
  have d: "drop b xs = drop (b - a) (drop a xs)" using le by simp
  have n: "c - a = (b - a) + (c - b)" using le by simp
  show ?thesis unfolding bslice_def d n take_add ..
qed

lemma nth_slice: "a + i < b \<Longrightarrow> b \<le> length xs \<Longrightarrow> bslice xs a b ! i = xs ! (a + i)"
  by (simp add: bslice_def)

lemma length_write_at [simp]:
  "off + length ys \<le> length xs \<Longrightarrow> length (write_at xs off ys) = length xs"
  by (simp add: write_at_def)

lemma nth_write_at:
  "off + length ys \<le> length xs \<Longrightarrow> i < length xs \<Longrightarrow>
   write_at xs off ys ! i = (if off \<le> i \<and> i < off + length ys then ys ! (i - off) else xs ! i)"
  by (auto simp: write_at_def nth_append)

lemma slice_write_at_same:
  "off + length ys \<le> length xs \<Longrightarrow> bslice (write_at xs off ys) off (off + length ys) = ys"
  by (simp add: bslice_def write_at_def)

lemma slice_write_at_other:
  assumes "off + length ys \<le> length xs" and "b \<le> off \<or> off + length ys \<le> a"
  shows "bslice (write_at xs off ys) a b = bslice xs a b"
proof (rule nth_equalityI)
  show len: "length (bslice (write_at xs off ys) a b) = length (bslice xs a b)"
    using assms(1) by simp
  fix i assume "i < length (bslice (write_at xs off ys) a b)"
  then have i: "i < b - a" "i < length xs - a" unfolding len by simp_all
  then show "bslice (write_at xs off ys) a b ! i = bslice xs a b ! i"
    using assms by (auto simp: bslice_def nth_write_at)
qed

text \<open>How the slices of a concatenation and the concatenation of slices simplify.\<close>

lemma bslice_append_left [codec_simps]: "b \<le> length xs \<Longrightarrow> bslice (xs @ ys) a b = bslice xs a b"
  by (cases "a \<le> b") (simp_all add: bslice_def)

lemma bslice_append_right [codec_simps]:
  "length xs \<le> a \<Longrightarrow> bslice (xs @ ys) a b = bslice ys (a - length xs) (b - length xs)"
  by (simp add: bslice_def)

lemma bslice_Cons [codec_simps]: "0 < a \<Longrightarrow> bslice (x # xs) a b = bslice xs (a - 1) (b - 1)"
  by (cases a) (simp_all add: bslice_def)

lemma bslice_whole [codec_simps]: "length xs = n \<Longrightarrow> bslice xs 0 n = xs"
  by (simp add: bslice_def)

lemma bslice_bslice [codec_simps]:
  "b' \<le> b - a \<Longrightarrow> bslice (bslice xs a b) a' b' = bslice xs (a + a') (a + b')"
  by (cases "a' \<le> b'") (simp_all add: bslice_def drop_take min_def add.commute)

lemma bslice_join [codec_simps]:
  "a \<le> b \<Longrightarrow> b \<le> c \<Longrightarrow> bslice xs a b @ bslice xs b c @ zs = bslice xs a c @ zs"
  using slice_append_slice [of a b c xs] by (metis append.assoc)

lemmas bslice_join_last [codec_simps] = slice_append_slice

lemma length_realloc [simp]: "length (realloc xs n) = n"
  by (simp add: realloc_def)

lemma slice_realloc: "b \<le> n \<Longrightarrow> b \<le> length xs \<Longrightarrow> bslice (realloc xs n) a b = bslice xs a b"
  by (rule nth_equalityI) (auto simp: bslice_def realloc_def nth_append less_diff_conv add.commute)

lemma nth_realloc: "i < n \<Longrightarrow> realloc xs n ! i = (if i < length xs then xs ! i else 0)"
  by (auto simp: realloc_def nth_append)

section \<open>The contract of a fixed-size record layout\<close>

text \<open>
  Every \<open>#[repr(C)]\<close> struct that the programs read with \<open>bytemuck::from_bytes\<close> or hash
  with \<open>bytemuck::bytes_of\<close> has an encoder and a decoder of a fixed size. The clients
  (account parsing, public-input hashing) only rely on these laws.
\<close>

locale fixed_codec =
  fixes enc :: "'a \<Rightarrow> bytes"
    and dec :: "bytes \<Rightarrow> 'a"
    and wf :: "'a \<Rightarrow> bool"
    and sz :: nat
  assumes enc_length: "wf x \<Longrightarrow> length (enc x) = sz"
    and dec_enc: "wf x \<Longrightarrow> dec (enc x) = x"
    and enc_dec: "length bs = sz \<Longrightarrow> enc (dec bs) = bs"
    and wf_dec: "length bs = sz \<Longrightarrow> wf (dec bs)"
begin

lemma enc_inject: "wf x \<Longrightarrow> wf y \<Longrightarrow> enc x = enc y \<longleftrightarrow> x = y"
  by (metis dec_enc)

lemma dec_inject: "length bs = sz \<Longrightarrow> length cs = sz \<Longrightarrow> dec bs = dec cs \<longleftrightarrow> bs = cs"
  by (metis enc_dec)

lemma read_prefix: "wf x \<Longrightarrow> dec (bslice (enc x @ ys) 0 sz) = x"
  by (simp add: bslice_append_left bslice_whole enc_length dec_enc)

lemma read_after_write:
  assumes "wf x" and "off + sz \<le> length buf"
  shows "dec (bslice (write_at buf off (enc x)) off (off + sz)) = x"
  using slice_write_at_same [of off "enc x" buf] assms by (simp add: enc_length dec_enc)

lemma write_prefix:
  assumes "wf x" and "sz \<le> length buf"
  shows "write_at buf 0 (enc x) = enc x @ drop sz buf" and "length (write_at buf 0 (enc x)) = length buf"
    and "dec (bslice (write_at buf 0 (enc x)) 0 sz) = x" and "drop sz (write_at buf 0 (enc x)) = drop sz buf"
    and "sz \<le> a \<Longrightarrow> bslice (write_at buf 0 (enc x)) a b = bslice buf a b"
  using assms read_prefix [OF assms(1)] by (simp_all add: write_at_def enc_length bslice_append_right) (simp add: bslice_def)

lemma read_other_write:
  assumes "off + length ys \<le> length buf" and "p + sz \<le> off \<or> off + length ys \<le> p"
  shows "dec (bslice (write_at buf off ys) p (p + sz)) = dec (bslice buf p (p + sz))"
  using assms by (simp add: slice_write_at_other)

lemma sequence_length: "\<forall>x \<in> set xs. wf x \<Longrightarrow> length (concat (map enc xs)) = sz * length xs"
  by (induction xs) (simp_all add: enc_length)

lemma sequence_nth:
  "\<forall>x \<in> set xs. wf x \<Longrightarrow> j < length xs \<Longrightarrow> bslice (concat (map enc xs)) (sz * j) (sz * j + sz) = enc (xs ! j)"
proof (induction xs arbitrary: j)
  case (Cons x xs)
  then show ?case by (cases j) (simp_all add: bslice_def enc_length)
qed simp

end

section \<open>The contract of an invariant of a state machine\<close>

text \<open>
  A program account is a state machine: a start predicate, a step relation given by its
  instructions, and an invariant. A component interprets the contract once; that the
  invariant holds in every reachable state then follows here.
\<close>

locale step_invariant =
  fixes init :: "'s \<Rightarrow> bool"
    and step :: "'s \<Rightarrow> 's \<Rightarrow> bool"
    and inv :: "'s \<Rightarrow> bool"
  assumes inv_init: "init s \<Longrightarrow> inv s"
    and inv_step: "inv s \<Longrightarrow> step s t \<Longrightarrow> inv t"
begin

lemma inv_steps:
  assumes "step\<^sup>*\<^sup>* s t" and "inv s"
  shows "inv t"
  using assms by (induction rule: rtranclp_induct) (auto intro: inv_step)

lemma inv_reachable: "init s \<Longrightarrow> step\<^sup>*\<^sup>* s t \<Longrightarrow> inv t"
  by (blast intro: inv_init inv_steps)

end

end
