(* ===== verification/Errors.thy ===== *)
theory Errors
  imports Prelude
begin

text \<open>
  The error values of the bridge. \<open>DogeBridgeError\<close> (\<open>psy-bridge-core/src/error.rs\<close>)
  has one constructor per variant that some library or program of the repository
  raises, with the source's discriminants in \<open>error_code\<close>; the variants that only the
  declaration mentions (AuxPoW parsing, block-cache and bit-list errors) are left out.
  \<open>ProgramError\<close> has the constructors of Solana's error type that the programs return.
\<close>

datatype (plugins only: code size) DogeBridgeError =
    SerializationError
  | AccountMismatch
  | InvalidAccountKey
  | RevertIndexTooHigh
  | NotEnoughChangedLeftSiblings
  | TooManyChangedLeftSiblings
  | BridgeZKPError
  | InvalidBridgeInputZKP
  | AutoClaimedDepositTreeRootNotRecentEnough
  | BlockMerkleTreeRootNotRecentEnough
  | InsufficientBridgeFees
  | PendingFinalizedBlockMintsNotEmpty
  | NoPendingMintsToProcess
  | PendingMintsGroupIndexOutOfBounds
  | PendingMintsGroupAlreadyProcessed
  | PendingFinalizedBlockMintsInvalidGroupCount
  | PendingFinalizedBlockMintsInvalidAutoClaimMintsData
  | ProgramStateNotReadyForBlockUpdate
  | InvalidZKProofSize
  | InvalidZKVerifierKeySize
  | InvalidBlockHeightForSingleBlockTransition
  | InvalidAutoClaimedDepositsNextIndex
  | InvalidMintBufferPdaProgram
  | InvalidAutoClaimMintBufferDataAccountSize
  | InvalidMintBufferLockingPermission
  | InvalidMintBufferPendingMintGroupsCount
  | InvalidMintBufferPendingMintsCount
  | TooManyNewAutoClaimedDeposits
  | InvalidPendingMintsBufferHash
  | InvalidAutoClaimTxoBufferDataAccountSize
  | InvalidAutoClaimTxoBufferPendingMintsCount
  | InvalidAutoClaimTxoBufferHash
  | InvalidBlockHeightForReorgTransition
  | InvalidExtraFinalizedBlocksLengthForReorg
  | InvalidPendingMintsCountForTransition
  | NoPendingMintsToAutoProcess
  | RemainingPendingMintsInPreviousState
  | InvalidWithdrawalAmount
  | NoOperatorFeesToWithdraw
  | InvalidPDAForManualDepositManager
  | CpiLockCallError
  | CpiUnlockCallError
  | CpiTokenMintToCallError
  | CpiTokenBurnCallError
  | CpiManualDepositCallError
  | AttemptedUnlockPendingMintBuffer
  | FailedUnlockPendingMintBuffer
  | InvalidMintBufferPDA
  | InvalidTxoBufferPDA
  | CannotUnlockAfterAutoAdvance
  | InvalidDogeTxHash

text \<open>\<open>e as u32\<close>, which \<open>From<DogeBridgeError> for ProgramError\<close> wraps in \<open>Custom\<close>.\<close>

primrec error_code :: "DogeBridgeError \<Rightarrow> u32" where
  "error_code SerializationError = 1"
| "error_code AccountMismatch = 8"
| "error_code InvalidAccountKey = 9"
| "error_code RevertIndexTooHigh = 724"
| "error_code NotEnoughChangedLeftSiblings = 725"
| "error_code TooManyChangedLeftSiblings = 727"
| "error_code BridgeZKPError = 750"
| "error_code InvalidBridgeInputZKP = 751"
| "error_code AutoClaimedDepositTreeRootNotRecentEnough = 901"
| "error_code BlockMerkleTreeRootNotRecentEnough = 902"
| "error_code InsufficientBridgeFees = 903"
| "error_code PendingFinalizedBlockMintsNotEmpty = 905"
| "error_code NoPendingMintsToProcess = 906"
| "error_code PendingMintsGroupIndexOutOfBounds = 907"
| "error_code PendingMintsGroupAlreadyProcessed = 908"
| "error_code PendingFinalizedBlockMintsInvalidGroupCount = 909"
| "error_code PendingFinalizedBlockMintsInvalidAutoClaimMintsData = 910"
| "error_code ProgramStateNotReadyForBlockUpdate = 911"
| "error_code InvalidZKProofSize = 912"
| "error_code InvalidZKVerifierKeySize = 913"
| "error_code InvalidBlockHeightForSingleBlockTransition = 914"
| "error_code InvalidAutoClaimedDepositsNextIndex = 915"
| "error_code InvalidMintBufferPdaProgram = 916"
| "error_code InvalidAutoClaimMintBufferDataAccountSize = 918"
| "error_code InvalidMintBufferLockingPermission = 919"
| "error_code InvalidMintBufferPendingMintGroupsCount = 920"
| "error_code InvalidMintBufferPendingMintsCount = 921"
| "error_code TooManyNewAutoClaimedDeposits = 922"
| "error_code InvalidPendingMintsBufferHash = 923"
| "error_code InvalidAutoClaimTxoBufferDataAccountSize = 924"
| "error_code InvalidAutoClaimTxoBufferPendingMintsCount = 925"
| "error_code InvalidAutoClaimTxoBufferHash = 926"
| "error_code InvalidBlockHeightForReorgTransition = 927"
| "error_code InvalidExtraFinalizedBlocksLengthForReorg = 928"
| "error_code InvalidPendingMintsCountForTransition = 929"
| "error_code NoPendingMintsToAutoProcess = 930"
| "error_code RemainingPendingMintsInPreviousState = 931"
| "error_code InvalidWithdrawalAmount = 932"
| "error_code NoOperatorFeesToWithdraw = 934"
| "error_code InvalidPDAForManualDepositManager = 935"
| "error_code CpiLockCallError = 936"
| "error_code CpiUnlockCallError = 937"
| "error_code CpiTokenMintToCallError = 944"
| "error_code CpiTokenBurnCallError = 945"
| "error_code CpiManualDepositCallError = 946"
| "error_code AttemptedUnlockPendingMintBuffer = 947"
| "error_code FailedUnlockPendingMintBuffer = 948"
| "error_code InvalidMintBufferPDA = 949"
| "error_code InvalidTxoBufferPDA = 950"
| "error_code CannotUnlockAfterAutoAdvance = 951"
| "error_code InvalidDogeTxHash = 952"

type_synonym 'a QDogeResult = "DogeBridgeError fault + 'a"

text \<open>\<open>doge_bail!\<close> and the \<open>?\<close> operator are \<open>Inl (Err e)\<close> and \<^const>\<open>rbind\<close>.\<close>

datatype ProgramError =
    Custom u32
  | InvalidArgument
  | InvalidInstructionData
  | InvalidAccountData
  | AccountDataTooSmall
  | InsufficientFunds
  | IncorrectProgramId
  | MissingRequiredSignature
  | AccountAlreadyInitialized
  | UninitializedAccount
  | NotEnoughAccountKeys
  | InvalidSeeds
  | IllegalOwner
  | ArithmeticOverflow
  | BorshIoError
  | AccountBorrowFailed

type_synonym 'a ProgramResult = "ProgramError fault + 'a"

definition program_error_from :: "DogeBridgeError \<Rightarrow> ProgramError" where
  "program_error_from e = Custom (error_code e)"

text \<open>The \<open>?\<close> operator where a program calls library code that returns \<open>QDogeResult\<close>.\<close>

abbreviation lift_doge :: "'a QDogeResult \<Rightarrow> 'a ProgramResult" where
  "lift_doge m \<equiv> map_err program_error_from m"

end
