(* ===== verification/Hashing.thy ===== *)
theory Hashing
  imports ZeroHashes Errors
begin

text \<open>
  Hash functions and Merkle hashing (\<open>psy-bridge-core/src/crypto/hash\<close>): the byte
  hashers of \<open>sha256_impl.rs\<close>, \<open>sha256.rs\<close> and \<open>ripemd160_impl.rs\<close>, the hasher traits
  of \<open>traits.rs\<close> and the root computations of \<open>merkle/utils.rs\<close>. SHA-256 and RIPEMD-160
  come from other crates and are the parameters \<open>sha\<close> and \<open>rmd\<close>.

  The locale \<open>merkle_zero_hasher\<close> is the interface of \<open>MerkleZeroHasher\<close>: a two-to-one
  hash and the table of empty-subtree hashes. Its reference semantics is \<open>mnode\<close>, the
  root of the complete binary tree over a leaf function.
\<close>

section \<open>Byte hashers\<close>

definition hash_impl_sha256_bytes :: "(bytes \<Rightarrow> bytes) \<Rightarrow> bytes \<Rightarrow> QHash256" where
  "hash_impl_sha256_bytes sha bs = sha bs"

definition hashv_impl_sha256_bytes :: "(bytes \<Rightarrow> bytes) \<Rightarrow> bytes list \<Rightarrow> QHash256" where
  "hashv_impl_sha256_bytes sha bytes_vec = sha (concat bytes_vec)"

definition hash_impl_sha256_two_to_one_bytes ::
  "(bytes \<Rightarrow> bytes) \<Rightarrow> QHash256 \<Rightarrow> QHash256 \<Rightarrow> QHash256" where
  "hash_impl_sha256_two_to_one_bytes sha left right = hash_impl_sha256_bytes sha (left @ right)"

definition hash_impl_btc_hash256_two_to_one_bytes ::
  "(bytes \<Rightarrow> bytes) \<Rightarrow> QHash256 \<Rightarrow> QHash256 \<Rightarrow> QHash256" where
  "hash_impl_btc_hash256_two_to_one_bytes sha left right =
     hash_impl_sha256_bytes sha (hashv_impl_sha256_bytes sha [left, right])"

text \<open>The caller's 64-byte buffer is returned as well: it holds the two inputs afterwards.\<close>

definition hash_impl_sha256_two_to_one_bytes_buf ::
  "(bytes \<Rightarrow> bytes) \<Rightarrow> bytes \<Rightarrow> QHash256 \<Rightarrow> QHash256 \<Rightarrow> QHash256 \<times> bytes" where
  "hash_impl_sha256_two_to_one_bytes_buf sha buf left right =
     (let buf = write_at buf 0 left; buf = write_at buf 32 right
      in (hash_impl_sha256_bytes sha buf, buf))"

definition hash_impl_sha256_hash_two_buffers_concat ::
  "(bytes \<Rightarrow> bytes) \<Rightarrow> bytes \<Rightarrow> bytes \<Rightarrow> QHash256" where
  "hash_impl_sha256_hash_two_buffers_concat sha left right = hashv_impl_sha256_bytes sha [left, right]"

definition hash_impl_sha256_hash_three_buffers_concat ::
  "(bytes \<Rightarrow> bytes) \<Rightarrow> bytes \<Rightarrow> bytes \<Rightarrow> bytes \<Rightarrow> QHash256" where
  "hash_impl_sha256_hash_three_buffers_concat sha a b c = hashv_impl_sha256_bytes sha [a, b, c]"

definition hash_impl_sha256_hash_four_buffers_concat ::
  "(bytes \<Rightarrow> bytes) \<Rightarrow> bytes \<Rightarrow> bytes \<Rightarrow> bytes \<Rightarrow> bytes \<Rightarrow> QHash256" where
  "hash_impl_sha256_hash_four_buffers_concat sha a b c d = hashv_impl_sha256_bytes sha [a, b, c, d]"

definition btc_hash256_bytes :: "(bytes \<Rightarrow> bytes) \<Rightarrow> bytes \<Rightarrow> QHash256" where
  "btc_hash256_bytes sha bs = hash_impl_sha256_bytes sha (hash_impl_sha256_bytes sha bs)"

definition hash_impl_btc_hash160_bytes ::
  "(bytes \<Rightarrow> bytes) \<Rightarrow> (bytes \<Rightarrow> bytes) \<Rightarrow> bytes \<Rightarrow> QHash160" where
  "hash_impl_btc_hash160_bytes sha rmd bs = rmd (hash_impl_sha256_bytes sha bs)"

lemmas sha_impl_defs = hash_impl_sha256_bytes_def hashv_impl_sha256_bytes_def
  hash_impl_sha256_two_to_one_bytes_def hash_impl_btc_hash256_two_to_one_bytes_def
  hash_impl_sha256_hash_two_buffers_concat_def hash_impl_sha256_hash_three_buffers_concat_def
  hash_impl_sha256_hash_four_buffers_concat_def btc_hash256_bytes_def

section \<open>The hasher traits\<close>

definition two_to_one_swap :: "('h \<Rightarrow> 'h \<Rightarrow> 'h) \<Rightarrow> bool \<Rightarrow> 'h \<Rightarrow> 'h \<Rightarrow> 'h" where
  "two_to_one_swap H swap left right = (if swap then H right left else H left right)"

primrec iterate_merkle_hasher :: "('h \<Rightarrow> 'h \<Rightarrow> 'h) \<Rightarrow> 'h \<Rightarrow> nat \<Rightarrow> 'h" where
  "iterate_merkle_hasher H current 0 = current"
| "iterate_merkle_hasher H current (Suc reverse_level) =
     iterate_merkle_hasher H (H current current) reverse_level"

text \<open>The loop \<open>for i in 1..count\<close> of \<open>get_zero_hashes\<close>; \<open>hashes[i - 1]\<close> is the last entry.\<close>

primrec get_zero_hashes_loop :: "('h \<Rightarrow> 'h \<Rightarrow> 'h) \<Rightarrow> nat \<Rightarrow> 'h list \<Rightarrow> 'h list" where
  "get_zero_hashes_loop H 0 hashes = hashes"
| "get_zero_hashes_loop H (Suc k) hashes =
     get_zero_hashes_loop H k (hashes @ [H (last hashes) (last hashes)])"

definition get_zero_hashes :: "('h \<Rightarrow> 'h \<Rightarrow> 'h) \<Rightarrow> 'h \<Rightarrow> nat \<Rightarrow> 'h list" where
  "get_zero_hashes H zero_value count = get_zero_hashes_loop H (count - 1) [zero_value]"

text \<open>The blanket \<open>MerkleZeroHasher\<close> of a hasher with a cache of 128 zero hashes.\<close>

definition get_zero_hash_cached :: "('h \<Rightarrow> 'h \<Rightarrow> 'h) \<Rightarrow> 'h list \<Rightarrow> nat \<Rightarrow> 'h" where
  "get_zero_hash_cached H cache reverse_level =
     (if reverse_level < 128 then cache ! reverse_level
      else iterate_merkle_hasher H (cache ! (128 - 1)) (reverse_level - 128 + 1))"

text \<open>The two instances for SHA-256: \<open>QSha256Hasher\<close> and \<open>QBTCHash256Hasher\<close>.\<close>

definition QSha256Hasher_get_zero_hash :: "(bytes \<Rightarrow> bytes) \<Rightarrow> nat \<Rightarrow> QHash256" where
  "QSha256Hasher_get_zero_hash sha reverse_level =
     iterate_merkle_hasher (hash_impl_sha256_two_to_one_bytes sha) zero32 reverse_level"

definition QBTCHash256Hasher_two_to_one ::
  "(bytes \<Rightarrow> bytes) \<Rightarrow> QHash256 \<Rightarrow> QHash256 \<Rightarrow> QHash256" where
  "QBTCHash256Hasher_two_to_one sha left right =
     hash_impl_sha256_bytes sha (hash_impl_sha256_bytes sha (left @ right))"

definition QBTCHash256Hasher_get_zero_hash :: "(bytes \<Rightarrow> bytes) \<Rightarrow> nat \<Rightarrow> QHash256" where
  "QBTCHash256Hasher_get_zero_hash sha reverse_level =
     iterate_merkle_hasher (QBTCHash256Hasher_two_to_one sha) zero32 reverse_level"

section \<open>Root computations\<close>

fun compute_root_merkle_proof_generic ::
  "('h \<Rightarrow> 'h \<Rightarrow> 'h) \<Rightarrow> 'h \<Rightarrow> u64 \<Rightarrow> 'h list \<Rightarrow> 'h" where
  "compute_root_merkle_proof_generic H current ind_tracker [] = current"
| "compute_root_merkle_proof_generic H current ind_tracker (sibling # siblings) =
     compute_root_merkle_proof_generic H
       (two_to_one_swap H (ind_tracker AND 1 = 1) current sibling)
       (drop_bit 1 ind_tracker) siblings"

text \<open>One level of \<open>compute_partial_merkle_root_from_leaves\<close>: an odd last node moves up as it is.\<close>

fun merkle_level :: "('h \<Rightarrow> 'h \<Rightarrow> 'h) \<Rightarrow> 'h list \<Rightarrow> 'h list" where
  "merkle_level H (a # b # rest) = H a b # merkle_level H rest"
| "merkle_level H current = current"

lemma length_merkle_level: "length (merkle_level H xs) = (length xs + 1) div 2"
  by (induction H xs rule: merkle_level.induct) auto

function compute_partial_merkle_root_from_leaves ::
  "('h \<Rightarrow> 'h \<Rightarrow> 'h) \<Rightarrow> 'h list \<Rightarrow> 'h option" where
  "compute_partial_merkle_root_from_leaves H current =
     (if 1 < length current
      then compute_partial_merkle_root_from_leaves H (merkle_level H current)
      else if current = [] then None else Some (current ! 0))"
  by pat_completeness auto
termination
  by (relation "measure (\<lambda>(H, current). length current)") (auto simp: length_merkle_level)

declare compute_partial_merkle_root_from_leaves.simps [simp del]

text \<open>
  \<open>hash_impl_sha256_compute_merkle_root\<close>: the two assertions of the source are the panic
  branches. The loop also returns the remaining index, which the last assertion tests.
\<close>

fun sha256_merkle_root_loop ::
  "(bytes \<Rightarrow> bytes) \<Rightarrow> QHash256 \<Rightarrow> u64 \<Rightarrow> QHash256 list \<Rightarrow> QHash256 \<times> u64" where
  "sha256_merkle_root_loop sha current_hash idx [] = (current_hash, idx)"
| "sha256_merkle_root_loop sha current_hash idx (sibling # siblings) =
     sha256_merkle_root_loop sha
       (if idx AND 1 = 0 then hash_impl_sha256_two_to_one_bytes sha current_hash sibling
        else hash_impl_sha256_two_to_one_bytes sha sibling current_hash)
       (drop_bit 1 idx) siblings"

definition hash_impl_sha256_compute_merkle_root ::
  "(bytes \<Rightarrow> bytes) \<Rightarrow> QHash256 \<Rightarrow> u64 \<Rightarrow> QHash256 list \<Rightarrow> 'e fault + QHash256" where
  "hash_impl_sha256_compute_merkle_root sha value index siblings =
     (if \<not> length siblings \<le> 64 then Inl Panic
      else let (current_hash, idx) = sha256_merkle_root_loop sha value index siblings
           in if idx \<noteq> 0 then Inl Panic else Inr current_hash)"

section \<open>Bits of an index\<close>

lemma and_1_eq_1_iff: "(w :: 'a::len word) AND 1 = 1 \<longleftrightarrow> bit w 0"
  by (simp add: and_one_eq odd_iff_mod_2_eq_one bit_0 mod2_eq_if)

lemma and_1_eq_0_iff: "(w :: 'a::len word) AND 1 = 0 \<longleftrightarrow> \<not> bit w 0"
  by (simp add: and_one_eq bit_0 mod2_eq_if)

lemma drop_bit_and_1: "drop_bit i (w :: 'a::len word) AND 1 = 1 \<longleftrightarrow> bit w i"
  by (simp add: and_1_eq_1_iff bit_drop_bit_eq)

lemma bit_word_iff_unat: "bit (w :: 'a::len word) i \<longleftrightarrow> odd (unat w div 2 ^ i)"
proof -
  have "bit w i = bit (unat w) i"
    using bit_imp_le_length [of w i] by (auto simp: bit_unsigned_iff)
  then show ?thesis by (simp only: bit_iff_odd)
qed

lemma unat_drop_bit: "unat (drop_bit i (w :: 'a::len word)) = unat w div 2 ^ i"
proof -
  have "unat (drop_bit i w) = drop_bit i (unat w)"
    by (rule bit_eqI) (auto simp: bit_unsigned_iff bit_drop_bit_eq dest: bit_imp_le_length)
  then show ?thesis by (simp only: drop_bit_eq_div)
qed

lemma drop_bit_eq_0_iff: "drop_bit i (w :: 'a::len word) = 0 \<longleftrightarrow> unat w < 2 ^ i"
proof -
  have "drop_bit i w = 0 \<longleftrightarrow> unat (drop_bit i w) = 0" by (simp only: unsigned_eq_0_iff)
  then show ?thesis by (simp only: unat_drop_bit) (simp add: div_eq_0_iff)
qed

end
