(* ===== verification/MerkleSpec.thy ===== *)
theory MerkleSpec
  imports Hashing
begin

text \<open>
  The reference semantics of Merkle trees and the interface of the zero hashers.
  \<open>mnode H leaf d i\<close> is the node with index \<open>i\<close> at height \<open>d\<close> of the complete binary tree
  whose leaves are \<open>leaf 0, leaf 1, \<dots>\<close>. The lemmas of this theory relate the loops of the
  code to it; those that need the table of empty-subtree hashes are proved once in the
  locale \<open>merkle_zero_hasher\<close>, which both SHA-256 hashers of the code interpret.
\<close>

section \<open>Reference trees\<close>

primrec mnode :: "('h \<Rightarrow> 'h \<Rightarrow> 'h) \<Rightarrow> (nat \<Rightarrow> 'h) \<Rightarrow> nat \<Rightarrow> nat \<Rightarrow> 'h" where
  "mnode H leaf 0 i = leaf i"
| "mnode H leaf (Suc d) i = H (mnode H leaf d (2 * i)) (mnode H leaf d (2 * i + 1))"

definition padded :: "'h \<Rightarrow> 'h list \<Rightarrow> nat \<Rightarrow> 'h" where
  "padded z xs i = (if i < length xs then xs ! i else z)"

text \<open>The index of the sibling of node \<open>k\<close>.\<close>

definition sibling_index :: "nat \<Rightarrow> nat" where
  "sibling_index k = (if odd k then k - 1 else k + 1)"

lemma mnode_cong:
  assumes "\<And>j. i * 2 ^ d \<le> j \<Longrightarrow> j < (i + 1) * 2 ^ d \<Longrightarrow> f j = g j"
  shows "mnode H f d i = mnode H g d i"
  using assms
proof (induction d arbitrary: i)
  case 0
  then show ?case by simp
next
  case (Suc d)
  have "mnode H f d (2 * i) = mnode H g d (2 * i)"
    by (rule Suc.IH) (rule Suc.prems; simp add: algebra_simps)
  moreover have "mnode H f d (2 * i + 1) = mnode H g d (2 * i + 1)"
    by (rule Suc.IH) (rule Suc.prems; simp add: algebra_simps)
  ultimately show ?case by simp
qed

lemma div_pow_Suc: "(n :: nat) div 2 ^ Suc j = n div 2 ^ j div 2"
  by (simp only: power_Suc2 div_mult2_eq)

lemma mnode_step:
  "(if odd k then H (mnode H f d (sibling_index k)) (mnode H f d k)
    else H (mnode H f d k) (mnode H f d (sibling_index k))) = mnode H f (Suc d) (k div 2)"
  by (cases "odd k") (auto elim!: oddE evenE simp: sibling_index_def)

section \<open>A Merkle path computes the node above it\<close>

lemma two_to_one_swap_simps [simp]:
  "two_to_one_swap H True l r = H r l"
  "two_to_one_swap H False l r = H l r"
  by (simp_all add: two_to_one_swap_def)

lemma merkle_path_nodes:
  assumes "\<And>j. j < length ss \<Longrightarrow>
      (if bit w (i + j) then H (ss ! j) (N (i + j)) else H (N (i + j)) (ss ! j)) = N (Suc (i + j))"
  shows "compute_root_merkle_proof_generic H (N i) (drop_bit i w) ss = N (i + length ss)"
  using assms
proof (induction ss arbitrary: i)
  case Nil
  then show ?case by simp
next
  case (Cons s ss)
  have here: "two_to_one_swap H (drop_bit i w AND 1 = 1) (N i) s = N (Suc i)"
    using Cons.prems [of 0] by (auto simp: drop_bit_and_1 split: if_splits)
  have "compute_root_merkle_proof_generic H (N (Suc i)) (drop_bit (Suc i) w) ss = N (Suc i + length ss)"
  proof (rule Cons.IH)
    fix j assume "j < length ss"
    then show "(if bit w (Suc i + j) then H (ss ! j) (N (Suc i + j)) else H (N (Suc i + j)) (ss ! j))
        = N (Suc (Suc i + j))"
      using Cons.prems [of "Suc j"] by (auto split: if_splits)
  qed
  with here show ?case by (simp add: drop_bit_drop_bit)
qed

lemma merkle_path_mnode:
  assumes "\<And>j. j < length ss \<Longrightarrow> ss ! j = mnode H f j (sibling_index (unat w div 2 ^ j))"
  shows "compute_root_merkle_proof_generic H (f (unat w)) w ss
    = mnode H f (length ss) (unat w div 2 ^ length ss)"
proof -
  let ?N = "\<lambda>j. mnode H f j (unat w div 2 ^ j)"
  have "compute_root_merkle_proof_generic H (?N 0) (drop_bit 0 w) ss = ?N (0 + length ss)"
  proof (rule merkle_path_nodes)
    fix j assume "j < length ss"
    with assms have s: "ss ! j = mnode H f j (sibling_index (unat w div 2 ^ j))" by simp
    show "(if bit w (0 + j) then H (ss ! j) (?N (0 + j)) else H (?N (0 + j)) (ss ! j)) = ?N (Suc (0 + j))"
      using mnode_step [of "unat w div 2 ^ j" H f j] by (simp only: s bit_word_iff_unat div_pow_Suc add_0)
  qed
  then show ?thesis by simp
qed

section \<open>Two proofs of one root\<close>

text \<open>
  \<open>path_pairs\<close> lists the pairs that a path computation hashes. Two computations of the same
  root at the same index start from the same value, unless two different pairs among the
  ones they hash collide.
\<close>

fun path_pairs :: "('h \<Rightarrow> 'h \<Rightarrow> 'h) \<Rightarrow> 'h \<Rightarrow> u64 \<Rightarrow> 'h list \<Rightarrow> ('h \<times> 'h) list" where
  "path_pairs H v w [] = []"
| "path_pairs H v w (s # ss) =
     (if w AND 1 = 1 then (s, v) else (v, s)) #
     path_pairs H (two_to_one_swap H (w AND 1 = 1) v s) (drop_bit 1 w) ss"

definition collision_free :: "('h \<Rightarrow> 'h \<Rightarrow> 'h) \<Rightarrow> ('h \<times> 'h) set \<Rightarrow> bool" where
  "collision_free H P \<longleftrightarrow> inj_on (\<lambda>(l, r). H l r) P"

lemma collision_freeD:
  "collision_free H P \<Longrightarrow> (a, b) \<in> P \<Longrightarrow> (c, d) \<in> P \<Longrightarrow> H a b = H c d \<Longrightarrow> a = c \<and> b = d"
  unfolding collision_free_def by (drule inj_onD [of _ _ "(a, b)" "(c, d)"]) simp_all

lemma collision_free_subset: "collision_free H P \<Longrightarrow> Q \<subseteq> P \<Longrightarrow> collision_free H Q"
  unfolding collision_free_def by (rule inj_on_subset)

lemma merkle_binding:
  assumes "length ss = length ts"
    and "compute_root_merkle_proof_generic H v w ss = compute_root_merkle_proof_generic H u w ts"
    and "collision_free H (set (path_pairs H v w ss) \<union> set (path_pairs H u w ts))"
  shows "v = u \<and> ss = ts"
  using assms
proof (induction ss ts arbitrary: v u w rule: list_induct2)
  case Nil
  then show ?case by simp
next
  case (Cons s ss t ts)
  let ?b = "w AND 1 = 1"
  have free: "collision_free H (set (path_pairs H v w (s # ss)) \<union> set (path_pairs H u w (t # ts)))"
    by (rule Cons.prems(2))
  have rest: "collision_free H (set (path_pairs H (two_to_one_swap H ?b v s) (drop_bit 1 w) ss) \<union>
      set (path_pairs H (two_to_one_swap H ?b u t) (drop_bit 1 w) ts))"
    by (rule collision_free_subset [OF free]) auto
  have up: "two_to_one_swap H ?b v s = two_to_one_swap H ?b u t \<and> ss = ts"
    by (rule Cons.IH [OF _ rest]) (use Cons.prems(1) in simp)
  show ?case
  proof (cases ?b)
    case True
    have "s = t \<and> v = u" by (rule collision_freeD [OF free]) (use True up in simp_all)
    with up show ?thesis by simp
  next
    case False
    have "v = u \<and> s = t" by (rule collision_freeD [OF free]) (use False up in simp_all)
    with up show ?thesis by simp
  qed
qed

text \<open>The siblings of leaf \<open>n\<close> in the reference tree.\<close>

definition true_siblings :: "('h \<Rightarrow> 'h \<Rightarrow> 'h) \<Rightarrow> (nat \<Rightarrow> 'h) \<Rightarrow> nat \<Rightarrow> nat \<Rightarrow> 'h list" where
  "true_siblings H f d n = map (\<lambda>j. mnode H f j (sibling_index (n div 2 ^ j))) [0..<d]"

text \<open>
  An opening of the root of a reference tree at an index below its size shows the leaf
  stored there, unless the hashes on the two paths collide.
\<close>

lemma opening_shows_leaf:
  assumes "compute_root_merkle_proof_generic H v w ss = mnode H f (length ss) 0"
    and "unat w < 2 ^ length ss"
    and "collision_free H (set (path_pairs H v w ss) \<union>
        set (path_pairs H (f (unat w)) w (true_siblings H f (length ss) (unat w))))"
  shows "v = f (unat w)"
proof -
  have "compute_root_merkle_proof_generic H (f (unat w)) w (true_siblings H f (length ss) (unat w)) =
      mnode H f (length ss) (unat w div 2 ^ length ss)"
    using merkle_path_mnode [of "true_siblings H f (length ss) (unat w)" H f w] by (simp add: true_siblings_def)
  then have "compute_root_merkle_proof_generic H v w ss =
      compute_root_merkle_proof_generic H (f (unat w)) w (true_siblings H f (length ss) (unat w))"
    using assms(1,2) by simp
  then show ?thesis
    using merkle_binding [OF _ _ assms(3)] by (simp add: true_siblings_def)
qed

lemma sha256_loop_generic:
  "sha256_merkle_root_loop sha v w ss =
     (compute_root_merkle_proof_generic (hash_impl_sha256_two_to_one_bytes sha) v w ss,
      drop_bit (length ss) w)"
  by (induction sha v w ss rule: sha256_merkle_root_loop.induct)
     (simp_all add: and_1_eq_0_iff and_1_eq_1_iff drop_bit_drop_bit)

text \<open>
  With at most 64 siblings and an index that fits under them, the asserting routine is the
  generic one.
\<close>

lemma sha256_compute_merkle_root_generic:
  "length ss \<le> 64 \<Longrightarrow> hash_impl_sha256_compute_merkle_root sha v w ss =
     (if unat w < 2 ^ length ss
      then Inr (compute_root_merkle_proof_generic (hash_impl_sha256_two_to_one_bytes sha) v w ss)
      else Inl Panic)"
  by (auto simp: hash_impl_sha256_compute_merkle_root_def sha256_loop_generic drop_bit_eq_0_iff)

section \<open>The interface of the zero hashers\<close>

locale merkle_zero_hasher =
  fixes two_to_one :: "'h \<Rightarrow> 'h \<Rightarrow> 'h"
    and get_zero_hash :: "nat \<Rightarrow> 'h"
  assumes zero_Suc: "get_zero_hash (Suc i) = two_to_one (get_zero_hash i) (get_zero_hash i)"
begin

lemma mnode_zero:
  assumes "\<And>j. i * 2 ^ d \<le> j \<Longrightarrow> j < (i + 1) * 2 ^ d \<Longrightarrow> f j = get_zero_hash 0"
  shows "mnode two_to_one f d i = get_zero_hash d"
proof -
  have "mnode two_to_one (\<lambda>_. get_zero_hash 0) d k = get_zero_hash d" for k
    by (induction d arbitrary: k) (simp_all add: zero_Suc)
  moreover have "mnode two_to_one f d i = mnode two_to_one (\<lambda>_. get_zero_hash 0) d i"
    by (rule mnode_cong) (rule assms)
  ultimately show ?thesis by simp
qed

text \<open>A node to the right of the leaves is the hash of an empty subtree.\<close>

lemma mnode_right_of_leaves:
  "length xs \<le> i * 2 ^ d \<Longrightarrow> mnode two_to_one (padded (get_zero_hash 0) xs) d i = get_zero_hash d"
  by (rule mnode_zero) (simp add: padded_def)

text \<open>The path of the first leaf of an empty tree.\<close>

lemma zero_path_pairs:
  "path_pairs two_to_one (get_zero_hash i) 0 (map get_zero_hash [i..<n]) =
     map (\<lambda>j. (get_zero_hash j, get_zero_hash j)) [i..<n]"
proof (induction "n - i" arbitrary: i)
  case 0
  then show ?case by simp
next
  case (Suc k)
  then have i: "[i..<n] = i # [Suc i..<n]" by (simp add: upt_conv_Cons)
  have "path_pairs two_to_one (get_zero_hash (Suc i)) 0 (map get_zero_hash [Suc i..<n]) =
     map (\<lambda>j. (get_zero_hash j, get_zero_hash j)) [Suc i..<n]"
    by (rule Suc.hyps(1)) (use Suc.hyps(2) in simp)
  then show ?case unfolding i by (simp add: two_to_one_swap_def zero_Suc)
qed

lemma zero_true_siblings:
  "true_siblings two_to_one (padded (get_zero_hash 0) []) n 0 = map get_zero_hash [0..<n]"
  unfolding true_siblings_def
  by (rule map_cong) (auto simp: padded_def intro: mnode_zero)

text \<open>A node left of position \<open>n\<close> does not see the leaves from \<open>n\<close> on.\<close>

lemma mnode_left_of:
  "(i + 1) * 2 ^ d \<le> n \<Longrightarrow>
   mnode two_to_one (padded z (take n xs)) d i = mnode two_to_one (padded z xs) d i"
  by (rule mnode_cong) (auto simp: padded_def)

end

lemma iterate_merkle_hasher_Suc:
  "iterate_merkle_hasher H c (Suc n) = H (iterate_merkle_hasher H c n) (iterate_merkle_hasher H c n)"
  by (induction n arbitrary: c) simp_all

interpretation sha_hasher: merkle_zero_hasher
  "hash_impl_sha256_two_to_one_bytes sha" "QSha256Hasher_get_zero_hash sha" for sha
  by unfold_locales (simp only: QSha256Hasher_get_zero_hash_def iterate_merkle_hasher_Suc)

interpretation btc_hasher: merkle_zero_hasher
  "QBTCHash256Hasher_two_to_one sha" "QBTCHash256Hasher_get_zero_hash sha" for sha
  by unfold_locales (simp only: QBTCHash256Hasher_get_zero_hash_def iterate_merkle_hasher_Suc)

section \<open>The literal table\<close>

text \<open>
  What the code relies on when it uses the table in place of computed zero hashes: each of
  the 64 entries is the zero hash of its level.
\<close>

definition zero_table_ok :: "(bytes \<Rightarrow> bytes) \<Rightarrow> bool" where
  "zero_table_ok sha \<longleftrightarrow> (\<forall>i < 64. sha256_zero_hash i = QSha256Hasher_get_zero_hash sha i)"

lemma zero_table_entry:
  "zero_table_ok sha \<Longrightarrow> i < 64 \<Longrightarrow> sha256_zero_hash i = QSha256Hasher_get_zero_hash sha i"
  by (simp add: zero_table_ok_def)

lemma QSha256_zero_0 [simp]: "QSha256Hasher_get_zero_hash sha 0 = zero32"
  by (simp add: QSha256Hasher_get_zero_hash_def)

text \<open>A concrete hash function with that property: a lookup in the table itself.\<close>

definition table_key :: "bytes \<Rightarrow> nat" where
  "table_key h = unat (h ! 0) + 256 * unat (h ! 1) + 65536 * unat (h ! 2)"

definition table_hash :: "bytes \<Rightarrow> bytes" where
  "table_hash bs = (case map_of (zip (map table_key SHA256_ZERO_HASHES) (tl SHA256_ZERO_HASHES)) (table_key bs)
     of Some h \<Rightarrow> h | None \<Rightarrow> take 32 (bs @ zero32))"

lemma table_keys_distinct: "distinct (map table_key SHA256_ZERO_HASHES)"
  by (simp add: SHA256_ZERO_HASHES_def table_key_def)

lemma zero_table_inject:
  "i < 64 \<Longrightarrow> j < 64 \<Longrightarrow> sha256_zero_hash i = sha256_zero_hash j \<Longrightarrow> i = j"
  using table_keys_distinct nth_eq_iff_index_eq [of SHA256_ZERO_HASHES i j]
  by (simp add: sha256_zero_hash_def distinct_map)

lemma table_hash_step:
  assumes "Suc i < 64"
  shows "table_hash (sha256_zero_hash i @ sha256_zero_hash i) = sha256_zero_hash (Suc i)"
proof -
  have k: "table_key (sha256_zero_hash i @ sha256_zero_hash i) = map table_key SHA256_ZERO_HASHES ! i"
    using assms length_sha256_zero_hash [of i]
    by (simp add: table_key_def nth_append) (simp add: sha256_zero_hash_def table_key_def)
  have "(map table_key SHA256_ZERO_HASHES ! i, tl SHA256_ZERO_HASHES ! i)
      \<in> set (zip (map table_key SHA256_ZERO_HASHES) (tl SHA256_ZERO_HASHES))"
    using assms by (auto simp: set_zip intro!: exI [of _ i])
  moreover have "distinct (map fst (zip (map table_key SHA256_ZERO_HASHES) (tl SHA256_ZERO_HASHES)))"
    using table_keys_distinct by (simp add: map_fst_zip_take distinct_take)
  ultimately have "map_of (zip (map table_key SHA256_ZERO_HASHES) (tl SHA256_ZERO_HASHES))
      (map table_key SHA256_ZERO_HASHES ! i) = Some (tl SHA256_ZERO_HASHES ! i)"
    by (rule map_of_is_SomeI [rotated])
  then show ?thesis
    unfolding table_hash_def k using assms by (simp add: sha256_zero_hash_def nth_tl)
qed

lemma zero_table_ok_table_hash: "zero_table_ok table_hash"
  unfolding zero_table_ok_def
proof (intro allI impI)
  fix i :: nat
  show "i < 64 \<Longrightarrow> sha256_zero_hash i = QSha256Hasher_get_zero_hash table_hash i"
  proof (induction i)
    case 0
    then show ?case by simp
  next
    case (Suc i)
    then show ?case
      using table_hash_step [of i]
      by (simp add: sha_hasher.zero_Suc hash_impl_sha256_two_to_one_bytes_def hash_impl_sha256_bytes_def)
  qed
qed

end
