(* ===== verification/MerkleProof.thy ===== *)
theory MerkleProof
  imports MerkleSpec
begin

text \<open>
  Merkle proofs as data (\<open>merkle/merkle_proof.rs\<close>, \<open>merkle/delta_merkle_proof.rs\<close>) and
  the proof checks over raw sibling bytes (\<open>merkle/in_memory.rs\<close>), with the duplicate
  guard for Dogecoin transaction trees. The proof types are generic in the hash; the
  hasher is the argument \<open>H\<close>.
\<close>

section \<open>Proof structures\<close>

record 'h MerkleProofCore =
  mp_root :: 'h
  mp_value :: 'h
  mp_index :: u64
  mp_siblings :: "'h list"

record 'h MerkleProofCorePartial =
  mpp_value :: 'h
  mpp_index :: u64
  mpp_siblings :: "'h list"

record 'h DeltaMerkleProofCore =
  dmp_old_root :: 'h
  dmp_old_value :: 'h
  dmp_new_root :: 'h
  dmp_new_value :: 'h
  dmp_index :: u64
  dmp_siblings :: "'h list"

record 'h DeltaMerkleProofCorePartial =
  dmpp_old_value :: 'h
  dmpp_new_value :: 'h
  dmpp_index :: u64
  dmpp_siblings :: "'h list"

definition merkle_proof_new_from_params ::
  "('h \<Rightarrow> 'h \<Rightarrow> 'h) \<Rightarrow> u64 \<Rightarrow> 'h \<Rightarrow> 'h list \<Rightarrow> 'h MerkleProofCore" where
  "merkle_proof_new_from_params H index value siblings =
     \<lparr> mp_root = compute_root_merkle_proof_generic H value index siblings,
       mp_value = value, mp_index = index, mp_siblings = siblings \<rparr>"

definition merkle_proof_verify :: "('h \<Rightarrow> 'h \<Rightarrow> 'h) \<Rightarrow> 'h MerkleProofCore \<Rightarrow> bool" where
  "merkle_proof_verify H p \<longleftrightarrow>
     compute_root_merkle_proof_generic H (mp_value p) (mp_index p) (mp_siblings p) = mp_root p"

text \<open>The loop of \<open>verify_btc_block_tx_tree\<close>: \<open>None\<close> is the early \<open>return false\<close>.\<close>

fun btc_block_tx_tree_loop :: "('h \<Rightarrow> 'h \<Rightarrow> 'h) \<Rightarrow> 'h \<Rightarrow> u64 \<Rightarrow> 'h list \<Rightarrow> ('h \<times> u64) option" where
  "btc_block_tx_tree_loop H current index_tracker [] = Some (current, index_tracker)"
| "btc_block_tx_tree_loop H current index_tracker (sibling # siblings) =
     (if index_tracker AND 1 = 0
      then btc_block_tx_tree_loop H (H current sibling) (drop_bit 1 index_tracker) siblings
      else if sibling = current then None
      else btc_block_tx_tree_loop H (H sibling current) (drop_bit 1 index_tracker) siblings)"

definition verify_btc_block_tx_tree :: "('h \<Rightarrow> 'h \<Rightarrow> 'h) \<Rightarrow> 'h MerkleProofCore \<Rightarrow> bool" where
  "verify_btc_block_tx_tree H p =
     (case btc_block_tx_tree_loop H (mp_value p) (mp_index p) (mp_siblings p) of
        None \<Rightarrow> False
      | Some (current, index_tracker) \<Rightarrow> index_tracker = 0 \<and> current = mp_root p)"

definition to_delta_merkle_proof :: "'h MerkleProofCore \<Rightarrow> 'h DeltaMerkleProofCore" where
  "to_delta_merkle_proof p =
     \<lparr> dmp_old_root = mp_root p, dmp_old_value = mp_value p, dmp_new_root = mp_root p,
       dmp_new_value = mp_value p, dmp_index = mp_index p, dmp_siblings = mp_siblings p \<rparr>"

definition partial_merkle_proof_to_full ::
  "('h \<Rightarrow> 'h \<Rightarrow> 'h) \<Rightarrow> 'h MerkleProofCorePartial \<Rightarrow> 'h MerkleProofCore" where
  "partial_merkle_proof_to_full H p =
     \<lparr> mp_root = compute_root_merkle_proof_generic H (mpp_value p) (mpp_index p) (mpp_siblings p),
       mp_value = mpp_value p, mp_index = mpp_index p, mp_siblings = mpp_siblings p \<rparr>"

definition partial_merkle_proof_from_full :: "'h MerkleProofCore \<Rightarrow> 'h MerkleProofCorePartial" where
  "partial_merkle_proof_from_full p =
     \<lparr> mpp_value = mp_value p, mpp_index = mp_index p, mpp_siblings = mp_siblings p \<rparr>"

definition delta_from_params ::
  "('h \<Rightarrow> 'h \<Rightarrow> 'h) \<Rightarrow> u64 \<Rightarrow> 'h \<Rightarrow> 'h \<Rightarrow> 'h list \<Rightarrow> 'h DeltaMerkleProofCore" where
  "delta_from_params H index old_value new_value siblings =
     \<lparr> dmp_old_root = compute_root_merkle_proof_generic H old_value index siblings,
       dmp_old_value = old_value,
       dmp_new_root = compute_root_merkle_proof_generic H new_value index siblings,
       dmp_new_value = new_value, dmp_index = index, dmp_siblings = siblings \<rparr>"

definition delta_verify :: "('h \<Rightarrow> 'h \<Rightarrow> 'h) \<Rightarrow> 'h DeltaMerkleProofCore \<Rightarrow> bool" where
  "delta_verify H p \<longleftrightarrow>
     compute_root_merkle_proof_generic H (dmp_old_value p) (dmp_index p) (dmp_siblings p) = dmp_old_root p \<and>
     compute_root_merkle_proof_generic H (dmp_new_value p) (dmp_index p) (dmp_siblings p) = dmp_new_root p"

definition delta_single_value :: "u64 \<Rightarrow> 'h \<Rightarrow> 'h \<Rightarrow> 'h DeltaMerkleProofCore" where
  "delta_single_value index old_value new_value =
     \<lparr> dmp_old_root = old_value, dmp_old_value = old_value, dmp_new_root = new_value,
       dmp_new_value = new_value, dmp_index = index, dmp_siblings = [] \<rparr>"

text \<open>Shift amounts of \<open>u64\<close> are taken modulo 64 in a release build.\<close>

definition with_shortened_height_from_bottom ::
  "('h \<Rightarrow> 'h \<Rightarrow> 'h) \<Rightarrow> 'h DeltaMerkleProofCore \<Rightarrow> nat \<Rightarrow> 'e fault + 'h DeltaMerkleProofCore" where
  "with_shortened_height_from_bottom H p new_height =
     (if \<not> new_height \<le> length (dmp_siblings p) then Inl Panic
      else if new_height = length (dmp_siblings p) then Inr p
      else let height_diff = length (dmp_siblings p) - new_height;
               low_index = dmp_index p AND (push_bit (height_diff mod 64) 1 - 1);
               new_index = drop_bit (height_diff mod 64) (dmp_index p);
               old_value = compute_root_merkle_proof_generic H (dmp_old_value p) low_index
                             (bslice (dmp_siblings p) 0 height_diff);
               new_value = compute_root_merkle_proof_generic H (dmp_new_value p) low_index
                             (bslice (dmp_siblings p) 0 height_diff)
           in Inr (delta_from_params H new_index old_value new_value (drop height_diff (dmp_siblings p))))"

definition shorten_height ::
  "('h \<Rightarrow> 'h \<Rightarrow> 'h) \<Rightarrow> 'h DeltaMerkleProofCore \<Rightarrow> nat \<Rightarrow> 'e fault + 'h DeltaMerkleProofCore" where
  "shorten_height H p new_height =
     (if \<not> new_height \<le> length (dmp_siblings p) then Inl Panic
      else if new_height = length (dmp_siblings p) then Inr p
      else Inr (delta_from_params H (dmp_index p) (dmp_old_value p) (dmp_new_value p)
                  (bslice (dmp_siblings p) 0 new_height)))"

definition partial_delta_to_full ::
  "('h \<Rightarrow> 'h \<Rightarrow> 'h) \<Rightarrow> 'h DeltaMerkleProofCorePartial \<Rightarrow> 'h DeltaMerkleProofCore" where
  "partial_delta_to_full H p =
     \<lparr> dmp_old_root = compute_root_merkle_proof_generic H (dmpp_old_value p) (dmpp_index p) (dmpp_siblings p),
       dmp_old_value = dmpp_old_value p,
       dmp_new_root = compute_root_merkle_proof_generic H (dmpp_new_value p) (dmpp_index p) (dmpp_siblings p),
       dmp_new_value = dmpp_new_value p, dmp_index = dmpp_index p, dmp_siblings = dmpp_siblings p \<rparr>"

definition partial_delta_from_full :: "'h DeltaMerkleProofCore \<Rightarrow> 'h DeltaMerkleProofCorePartial" where
  "partial_delta_from_full p =
     \<lparr> dmpp_old_value = dmp_old_value p, dmpp_new_value = dmp_new_value p,
       dmpp_index = dmp_index p, dmpp_siblings = dmp_siblings p \<rparr>"

section \<open>Proof checks over raw sibling bytes\<close>

text \<open>
  The loop shared by the two Dogecoin routines over raw bytes: sibling \<open>i\<close> is
  \<open>siblings[i * 32..(i + 1) * 32]\<close>; the two copies into \<open>buf\<close> followed by the double hash
  are the hash of the concatenation. \<open>i\<close> counts up to \<open>siblings_count\<close>.
\<close>

function doge_proof_loop ::
  "(bytes \<Rightarrow> bytes) \<Rightarrow> bytes \<Rightarrow> nat \<Rightarrow> nat \<Rightarrow> QHash256 \<Rightarrow> u32 \<Rightarrow> (QHash256 \<times> u32) option" where
  "doge_proof_loop sha siblings i siblings_count current index =
     (if siblings_count \<le> i then Some (current, index)
      else let sibling = bslice siblings (i * 32) ((i + 1) * 32)
           in if index AND 1 = 0
              then doge_proof_loop sha siblings (i + 1) siblings_count
                     (btc_hash256_bytes sha (current @ sibling)) (drop_bit 1 index)
              else if sibling = current then None
              else doge_proof_loop sha siblings (i + 1) siblings_count
                     (btc_hash256_bytes sha (sibling @ current)) (drop_bit 1 index))"
  by pat_completeness auto
termination
  by (relation "measure (\<lambda>(sha, siblings, i, n, c, x). n - i)") auto

declare doge_proof_loop.simps [simp del]

definition compute_dogecoin_last_transaction_in_block_merkle_root_in_memory ::
  "(bytes \<Rightarrow> bytes) \<Rightarrow> QHash256 \<Rightarrow> bytes \<Rightarrow> u32 \<Rightarrow> u32 \<Rightarrow> nat \<Rightarrow> QHash256 option" where
  "compute_dogecoin_last_transaction_in_block_merkle_root_in_memory
       sha value siblings index claimed_total_transaction_count siblings_count =
     (if claimed_total_transaction_count = 0 then None
      else if index \<noteq> claimed_total_transaction_count - 1 then None
      else if length siblings < 32 * siblings_count then None
      else case doge_proof_loop sha siblings 0 siblings_count value index of
             None \<Rightarrow> None
           | Some (current, index) \<Rightarrow> if index \<noteq> 0 then None else Some current)"

definition compute_dogecoin_block_transaction_merkle_proof_tree_root_in_memory ::
  "(bytes \<Rightarrow> bytes) \<Rightarrow> QHash256 \<Rightarrow> bytes \<Rightarrow> u32 \<Rightarrow> nat \<Rightarrow> QHash256 option" where
  "compute_dogecoin_block_transaction_merkle_proof_tree_root_in_memory
       sha value siblings index siblings_count =
     (if length siblings < 32 * siblings_count then None
      else case doge_proof_loop sha siblings 0 siblings_count value index of
             None \<Rightarrow> None
           | Some (current, index) \<Rightarrow> if index \<noteq> 0 then None else Some current)"

fun doge_hash256_loop ::
  "(bytes \<Rightarrow> bytes) \<Rightarrow> QHash256 \<Rightarrow> u32 \<Rightarrow> QHash256 list \<Rightarrow> (QHash256 \<times> u32) option" where
  "doge_hash256_loop sha current index [] = Some (current, index)"
| "doge_hash256_loop sha current index (sibling # siblings) =
     (if index AND 1 = 0
      then doge_hash256_loop sha (hash_impl_btc_hash256_two_to_one_bytes sha current sibling)
             (drop_bit 1 index) siblings
      else if sibling = current then None
      else doge_hash256_loop sha (hash_impl_btc_hash256_two_to_one_bytes sha sibling current)
             (drop_bit 1 index) siblings)"

definition compute_dogecoin_block_transaction_merkle_proof_tree_root_hash256 ::
  "(bytes \<Rightarrow> bytes) \<Rightarrow> QHash256 \<Rightarrow> QHash256 list \<Rightarrow> u32 \<Rightarrow> QHash256 option" where
  "compute_dogecoin_block_transaction_merkle_proof_tree_root_hash256 sha value siblings index =
     (case doge_hash256_loop sha value index siblings of
        None \<Rightarrow> None
      | Some (current, index) \<Rightarrow> if index \<noteq> 0 then None else Some current)"

text \<open>
  The loop of the two asserting routines; reading a sibling past the end of the bytes
  panics. \<open>hash2\<close> is the hash of the 64-byte buffer.
\<close>

function raw_root_loop ::
  "(bytes \<Rightarrow> bytes) \<Rightarrow> bytes \<Rightarrow> nat \<Rightarrow> nat \<Rightarrow> QHash256 \<Rightarrow> 'w::len word \<Rightarrow> 'e fault + QHash256 \<times> 'w word" where
  "raw_root_loop hash2 siblings i siblings_count current index =
     (if siblings_count \<le> i then Inr (current, index)
      else if length siblings < (i + 1) * 32 then Inl Panic
      else let sibling = bslice siblings (i * 32) ((i + 1) * 32)
           in raw_root_loop hash2 siblings (i + 1) siblings_count
                (if index AND 1 = 0 then hash2 (current @ sibling) else hash2 (sibling @ current))
                (drop_bit 1 index))"
  by pat_completeness auto
termination
  by (relation "measure (\<lambda>(hash2, siblings, i, n, c, x). n - i)") auto

declare raw_root_loop.simps [simp del]

definition compute_btc_hash256_merkle_root_in_memory ::
  "(bytes \<Rightarrow> bytes) \<Rightarrow> QHash256 \<Rightarrow> bytes \<Rightarrow> u32 \<Rightarrow> nat \<Rightarrow> 'e fault + QHash256" where
  "compute_btc_hash256_merkle_root_in_memory sha value siblings index siblings_count =
     (if \<not> length siblings \<le> 32 * siblings_count then Inl Panic
      else rbind (raw_root_loop (\<lambda>buf. hash_impl_sha256_bytes sha (hash_impl_sha256_bytes sha buf))
                    siblings 0 siblings_count value index)
             (\<lambda>(current, index). if index \<noteq> 0 then Inl Panic else Inr current))"

definition compute_sha256_merkle_root_in_memory ::
  "(bytes \<Rightarrow> bytes) \<Rightarrow> QHash256 \<Rightarrow> bytes \<Rightarrow> u64 \<Rightarrow> nat \<Rightarrow> 'e fault + QHash256" where
  "compute_sha256_merkle_root_in_memory sha value siblings index siblings_count =
     (if \<not> length siblings \<le> 32 * siblings_count then Inl Panic
      else rbind (raw_root_loop (hash_impl_sha256_bytes sha) siblings 0 siblings_count value index)
             (\<lambda>(current, index). if index \<noteq> 0 then Inl Panic else Inr current))"


section \<open>Paths in two parts\<close>

lemma compute_root_append:
  "compute_root_merkle_proof_generic H v w (xs @ ys) =
     compute_root_merkle_proof_generic H (compute_root_merkle_proof_generic H v w xs)
       (drop_bit (length xs) w) ys"
  by (induction xs arbitrary: v w) (simp_all add: drop_bit_drop_bit)

lemma compute_root_index_bits:
  assumes "\<And>j. j < length ss \<Longrightarrow> bit w j = bit w' j"
  shows "compute_root_merkle_proof_generic H v w ss = compute_root_merkle_proof_generic H v w' ss"
  using assms
proof (induction ss arbitrary: v w w')
  case Nil
  then show ?case by simp
next
  case (Cons s ss)
  have "bit w 0 = bit w' 0" using Cons.prems [of 0] by simp
  moreover have "bit (drop_bit 1 w) j = bit (drop_bit 1 w') j" if "j < length ss" for j
    using Cons.prems [of "Suc j"] that by (simp add: bit_drop_bit_eq)
  ultimately show ?case
    using Cons.IH [of "drop_bit 1 w" "drop_bit 1 w'"] by (simp add: and_1_eq_1_iff del: drop_bit_eq_div)
qed

lemma shortened_path_root:
  assumes "length xs < 64"
  shows "compute_root_merkle_proof_generic H
      (compute_root_merkle_proof_generic H v (w AND (push_bit (length xs) 1 - 1)) xs)
      (drop_bit (length xs) w) ys = compute_root_merkle_proof_generic H v w (xs @ ys)"
proof -
  have "(push_bit (length xs) 1 - 1 :: u64) = mask (length xs)"
    by (simp add: mask_eq_exp_minus_1 push_bit_eq_mult)
  then have "compute_root_merkle_proof_generic H v (w AND (push_bit (length xs) 1 - 1)) xs
      = compute_root_merkle_proof_generic H v w xs"
    using assms by (intro compute_root_index_bits) (simp add: bit_and_iff bit_mask_iff)
  then show ?thesis by (simp add: compute_root_append)
qed

section \<open>Raw siblings as a list of hashes\<close>

definition sibling_chunks :: "bytes \<Rightarrow> nat \<Rightarrow> nat \<Rightarrow> QHash256 list" where
  "sibling_chunks siblings i n = map (\<lambda>k. bslice siblings (k * 32) ((k + 1) * 32)) [i..<n]"

lemma length_sibling_chunks [simp]: "length (sibling_chunks siblings i n) = n - i"
  by (simp add: sibling_chunks_def)

lemma sibling_chunks_done [simp]: "n \<le> i \<Longrightarrow> sibling_chunks siblings i n = []"
  by (simp add: sibling_chunks_def)

lemma sibling_chunks_step:
  "i < n \<Longrightarrow> sibling_chunks siblings i n =
     bslice siblings (i * 32) ((i + 1) * 32) # sibling_chunks siblings (i + 1) n"
  by (simp add: sibling_chunks_def upt_conv_Cons)

lemma doge_proof_loop_hash256:
  "doge_proof_loop sha siblings i n current index =
     doge_hash256_loop sha current index (sibling_chunks siblings i n)"
proof (induction sha siblings i n current index rule: doge_proof_loop.induct)
  case (1 sha siblings i n current index)
  show ?case
  proof (cases "n \<le> i")
    case True
    then show ?thesis by (simp add: doge_proof_loop.simps)
  next
    case False
    with 1 show ?thesis
      by (subst doge_proof_loop.simps)
         (simp add: Let_def sibling_chunks_step sha_impl_defs)
  qed
qed

lemma doge_hash256_loop_Some:
  fixes w :: u64
  assumes "doge_hash256_loop sha current index ss = Some (r, index')"
    and "\<And>j. bit w j = bit index j"
  shows "index' = drop_bit (length ss) index \<and>
    r = compute_root_merkle_proof_generic (QBTCHash256Hasher_two_to_one sha) current w ss"
  using assms
proof (induction sha current index ss arbitrary: w rule: doge_hash256_loop.induct)
  case (1 sha current index)
  then show ?case by simp
next
  case (2 sha current index sibling siblings)
  have bits: "bit (drop_bit 1 w) j = bit (drop_bit 1 index) j" for j
    using "2.prems"(2) [of "1 + j"] by (simp only: bit_drop_bit_eq o_def)
  have b: "bit w 0 = bit index 0" by (rule "2.prems"(2))
  show ?case
  proof (cases "bit index 0")
    case False
    with "2.IH"(1) [OF _ _ bits] "2.prems"(1) b show ?thesis
      by (simp add: and_1_eq_0_iff and_1_eq_1_iff drop_bit_drop_bit
          QBTCHash256Hasher_two_to_one_def sha_impl_defs del: drop_bit_eq_div)
  next
    case True
    with "2.IH"(2) [OF _ _ _ bits] "2.prems"(1) b show ?thesis
      by (auto simp: and_1_eq_0_iff and_1_eq_1_iff drop_bit_drop_bit
          QBTCHash256Hasher_two_to_one_def sha_impl_defs simp del: drop_bit_eq_div split: if_splits)
  qed
qed

lemma bit_ucast_u64: "bit (ucast (x :: u32) :: u64) j = bit x j"
  using bit_imp_le_length [of x j] by (auto simp: bit_unsigned_iff)

lemma raw_root_loop_ok:
  fixes w :: u64
  assumes "\<And>j. bit w j = bit index j" and "n * 32 \<le> length siblings"
  shows "raw_root_loop hash2 siblings i n current index =
    Inr (compute_root_merkle_proof_generic (\<lambda>l r. hash2 (l @ r)) current w (sibling_chunks siblings i n),
         drop_bit (n - i) index)"
  using assms
proof (induction hash2 siblings i n current index arbitrary: w rule: raw_root_loop.induct)
  case (1 hash2 siblings i n current index)
  show ?case
  proof (cases "n \<le> i")
    case True
    then show ?thesis by (simp add: raw_root_loop.simps)
  next
    case False
    have bits: "bit (drop_bit 1 w) j = bit (drop_bit 1 index) j" for j
      using "1.prems"(1) [of "1 + j"] by (simp only: bit_drop_bit_eq o_def)
    have room: "\<not> length siblings < (i + 1) * 32" using False "1.prems"(2) by simp
    have d: "drop_bit (n - (i + 1)) (drop_bit 1 index) = drop_bit (n - i) index"
      using False by (simp add: drop_bit_drop_bit Suc_diff_Suc)
    have b: "bit w 0 = bit index 0" by (rule "1.prems"(1))
    show ?thesis
      using "1.IH" [OF False room refl bits "1.prems"(2)] False room d b
      by (subst raw_root_loop.simps)
         (simp add: Let_def sibling_chunks_step two_to_one_swap_def and_1_eq_0_iff and_1_eq_1_iff
           if_distrib cong: if_cong del: drop_bit_eq_div)
  qed
qed

lemma raw_root_loop_panic:
  "i < n \<Longrightarrow> length siblings < n * 32 \<Longrightarrow> raw_root_loop hash2 siblings i n current index = Inl Panic"
proof (induction hash2 siblings i n current index rule: raw_root_loop.induct)
  case (1 hash2 siblings i n current index)
  show ?case
  proof (cases "length siblings < (i + 1) * 32")
    case True
    with 1 show ?thesis by (subst raw_root_loop.simps) simp
  next
    case False
    with 1 have "i + 1 < n" by simp
    with 1 False show ?thesis by (subst raw_root_loop.simps) (simp add: Let_def)
  qed
qed


section \<open>Properties\<close>

text \<open>Shortening a delta proof from the bottom keeps both roots: for a proof that
  verifies, and for a cut of fewer than 64 levels, the shortened proof has the requested
  height, verifies, and connects the same old root to the same new root.\<close>

theorem shortened_delta_keeps_roots:
  assumes "delta_verify H p" and "new_height \<le> length (dmp_siblings p)"
    and "length (dmp_siblings p) - new_height < 64"
  shows "\<exists>q. with_shortened_height_from_bottom H p new_height = (Inr q :: unit fault + _) \<and>
    delta_verify H q \<and> length (dmp_siblings q) = new_height \<and>
    dmp_old_root q = dmp_old_root p \<and> dmp_new_root q = dmp_new_root p"
proof (cases "new_height = length (dmp_siblings p)")
  case True
  with assms show ?thesis by (simp add: with_shortened_height_from_bottom_def)
next
  case False
  let ?d = "length (dmp_siblings p) - new_height"
  have split: "dmp_siblings p = take ?d (dmp_siblings p) @ drop ?d (dmp_siblings p)" by simp
  have len: "length (take ?d (dmp_siblings p)) = ?d" by simp
  note cut = shortened_path_root [of "take ?d (dmp_siblings p)" H _ "dmp_index p" "drop ?d (dmp_siblings p)",
      unfolded len, folded split, OF assms(3)]
  show ?thesis
    using False assms cut
    by (simp add: with_shortened_height_from_bottom_def Let_def delta_from_params_def delta_verify_def
        bslice_def del: drop_bit_eq_div push_bit_eq_mult)
qed

theorem shortened_delta_keeps_roots_witness:
  "\<exists>q. with_shortened_height_from_bottom (\<lambda>l r. l + 2 * r)
        (delta_from_params (\<lambda>l r. l + 2 * r) 2 (10 :: nat) 11 [1, 2, 3]) 1 = (Inr q :: unit fault + _) \<and>
    delta_verify (\<lambda>l r. l + 2 * r) q \<and> length (dmp_siblings q) = 1 \<and>
    dmp_old_root q = 32 \<and> dmp_new_root q = 34"
  using shortened_delta_keeps_roots [of "\<lambda>l r. l + 2 * r"
      "delta_from_params (\<lambda>l r. l + 2 * r) 2 (10 :: nat) 11 [1, 2, 3]" 1]
  by (simp add: delta_from_params_def delta_verify_def two_to_one_swap_def)

text \<open>The two Dogecoin proof checks agree: reading \<open>siblings_count\<close> hashes out of a byte
  buffer that holds them gives the same verdict and the same root as the routine over a
  list of hashes.\<close>

theorem doge_proof_in_memory_equiv:
  assumes "32 * siblings_count \<le> length siblings"
  shows "compute_dogecoin_block_transaction_merkle_proof_tree_root_in_memory sha value siblings index siblings_count
    = compute_dogecoin_block_transaction_merkle_proof_tree_root_hash256 sha value
        (sibling_chunks siblings 0 siblings_count) index"
  using assms
  by (simp add: compute_dogecoin_block_transaction_merkle_proof_tree_root_in_memory_def
      compute_dogecoin_block_transaction_merkle_proof_tree_root_hash256_def doge_proof_loop_hash256)

theorem doge_proof_in_memory_equiv_witness:
  "compute_dogecoin_block_transaction_merkle_proof_tree_root_in_memory rev zero32
      (replicate 32 1 @ replicate 32 2) 3 2
    = compute_dogecoin_block_transaction_merkle_proof_tree_root_hash256 rev zero32
        [replicate 32 1, replicate 32 2] 3"
  using doge_proof_in_memory_equiv [of 2 "replicate 32 1 @ replicate 32 2" rev zero32 3]
  by (simp add: sibling_chunks_def bslice_def upt_rec)



text \<open>The name promises the last transaction, but nothing tests it: for a block of two
  transactions \<open>a\<close> and \<open>b\<close>, the proof of \<open>a\<close> with a claimed count of one is accepted and
  gives the block's own root.\<close>

theorem doge_last_transaction_not_last:
  assumes "length b = 32"
  shows "compute_dogecoin_last_transaction_in_block_merkle_root_in_memory sha a b 0 1 1
    = compute_partial_merkle_root_from_leaves (QBTCHash256Hasher_two_to_one sha) [a, b]"
  using assms
  by (simp add: compute_dogecoin_last_transaction_in_block_merkle_root_in_memory_def
      doge_proof_loop_hash256 sibling_chunks_def bslice_def compute_partial_merkle_root_from_leaves.simps
      QBTCHash256Hasher_two_to_one_def sha_impl_defs)

theorem doge_last_transaction_not_last_witness:
  "compute_dogecoin_last_transaction_in_block_merkle_root_in_memory rev [5] zero32 0 1 1
    = compute_partial_merkle_root_from_leaves (QBTCHash256Hasher_two_to_one rev) [[5], zero32]"
  using doge_last_transaction_not_last [of zero32 rev "[5]"] by simp

text \<open>The asserting SHA-256 routine over raw bytes, on every input: it returns the root
  of the path exactly when the byte count is 32 times the number of siblings and the index
  fits under them, and panics otherwise. (Its first assertion has the comparison the wrong
  way round for a size check, and reading past the end panics in its place.)\<close>

theorem sha256_root_in_memory_total:
  "compute_sha256_merkle_root_in_memory sha value siblings index n =
     (if length siblings = 32 * n \<and> unat index < 2 ^ n
      then Inr (compute_root_merkle_proof_generic (hash_impl_sha256_two_to_one_bytes sha) value index
                  (sibling_chunks siblings 0 n))
      else Inl (Panic :: DogeBridgeError fault))"
proof -
  have two: "(\<lambda>l r. hash_impl_sha256_bytes sha (l @ r)) = hash_impl_sha256_two_to_one_bytes sha"
    by (simp add: fun_eq_iff hash_impl_sha256_two_to_one_bytes_def)
  consider "32 * n < length siblings" | "length siblings < n * 32" | "length siblings = 32 * n" by linarith
  then show ?thesis
  proof cases
    case 1
    then show ?thesis by (simp add: compute_sha256_merkle_root_in_memory_def)
  next
    case 2
    then have "0 < n" by (cases n) simp_all
    with 2 show ?thesis
      by (simp add: compute_sha256_merkle_root_in_memory_def raw_root_loop_panic)
  next
    case 3
    then show ?thesis
      by (simp add: compute_sha256_merkle_root_in_memory_def raw_root_loop_ok [of index index] two
          drop_bit_eq_0_iff)
  qed
qed

end
