(* ===== verification/AppendTree.thy ===== *)
theory AppendTree
  imports MerkleProof
begin

text \<open>
  The fixed append tree (\<open>merkle/append.rs\<close>, \<open>merkle/fixed_append_tree.rs\<close>): a Merkle
  tree of height 32 that stores only the next index, the root and one sibling per level.
  \<open>tree_inv\<close> ties such a tree to the list of leaves appended so far; every mutation
  refines the corresponding list operation (append an element, truncate), and the proofs
  the tree hands out are paths of the reference tree over the zero-padded leaves.
\<close>

section \<open>Appending\<close>

text \<open>
  The loop of \<open>update_siblings_append_merkle_tree\<close>. The slice is updated in place, so the
  loop returns its remaining part; level \<open>i\<close> reads entry \<open>i\<close> of the zero table.
\<close>

fun append_loop ::
  "(bytes \<Rightarrow> bytes) \<Rightarrow> nat \<Rightarrow> QHash256 list \<Rightarrow> u64 \<Rightarrow> u64 \<Rightarrow> QHash256 \<Rightarrow> QHash256 \<times> QHash256 list" where
  "append_loop sha i [] index next_changes current = (current, [])"
| "append_loop sha i (s # rest) index next_changes current =
     (if index AND 1 = 0 then
        let s' = (if next_changes AND 1 = 1 then current else s);
            current' = hash_impl_sha256_two_to_one_bytes sha current (sha256_zero_hash i);
            (root, rest') = append_loop sha (i + 1) rest (drop_bit 1 index) (drop_bit 1 next_changes) current'
        in (root, s' # rest')
      else
        let current' = hash_impl_sha256_two_to_one_bytes sha s current;
            s' = (if next_changes AND 1 = 1 then sha256_zero_hash i else s);
            (root, rest') = append_loop sha (i + 1) rest (drop_bit 1 index) (drop_bit 1 next_changes) current'
        in (root, s' # rest'))"

definition update_siblings_append_merkle_tree ::
  "(bytes \<Rightarrow> bytes) \<Rightarrow> QHash256 list \<Rightarrow> QHash256 \<Rightarrow> u64 \<Rightarrow> QHash256 \<times> QHash256 list" where
  "update_siblings_append_merkle_tree sha next_siblings next_value next_index =
     append_loop sha 0 next_siblings next_index (next_index XOR (next_index + 1)) next_value"

section \<open>The tree and its operations\<close>

abbreviation TREE_HEIGHT :: nat where
  "TREE_HEIGHT \<equiv> 32"

record FixedMerkleAppendTree =
  next_index :: u64
  current_root :: QHash256
  next_siblings :: "QHash256 list"

record FixedMerkleAppendTreePartialMerkleProof =
  pp_index :: u64
  pp_value :: QHash256
  pp_siblings :: "QHash256 list"

record FixedMerkleAppendTreeDeltaPartialMerkleProof =
  dp_new_value :: QHash256
  dp_old_value :: QHash256
  dp_index :: u64
  dp_siblings :: "QHash256 list"

definition compute_root_sha256 ::
  "(bytes \<Rightarrow> bytes) \<Rightarrow> FixedMerkleAppendTreePartialMerkleProof \<Rightarrow> 'e fault + QHash256" where
  "compute_root_sha256 sha p = hash_impl_sha256_compute_merkle_root sha (pp_value p) (pp_index p) (pp_siblings p)"

definition new_empty :: FixedMerkleAppendTree where
  "new_empty = \<lparr> next_index = 0, current_root = sha256_zero_hash TREE_HEIGHT,
                 next_siblings = map sha256_zero_hash [0..<TREE_HEIGHT] \<rparr>"

definition tree_new :: "(bytes \<Rightarrow> bytes) \<Rightarrow> u64 \<Rightarrow> QHash256 list \<Rightarrow> 'e fault + FixedMerkleAppendTree" where
  "tree_new sha idx siblings =
     (if idx = 0 then Inr new_empty
      else rbind (hash_impl_sha256_compute_merkle_root sha zero32 idx siblings) (\<lambda>root.
        Inr \<lparr> next_index = idx, current_root = root, next_siblings = siblings \<rparr>))"

definition new_vec :: "(bytes \<Rightarrow> bytes) \<Rightarrow> u64 \<Rightarrow> QHash256 list \<Rightarrow> 'e fault + FixedMerkleAppendTree" where
  "new_vec sha idx siblings =
     (if length siblings \<noteq> TREE_HEIGHT then Inl Panic else tree_new sha idx siblings)"

definition get_value :: "FixedMerkleAppendTree \<Rightarrow> QHash256" where
  "get_value t = (if next_index t AND 1 = 1 then next_siblings t ! 0 else sha256_zero_hash 0)"

definition append_tree :: "(bytes \<Rightarrow> bytes) \<Rightarrow> FixedMerkleAppendTree \<Rightarrow> QHash256 \<Rightarrow> FixedMerkleAppendTree" where
  "append_tree sha t new_value =
     (let (new_root, siblings) = update_siblings_append_merkle_tree sha (next_siblings t) new_value (next_index t)
      in t \<lparr> next_siblings := siblings, current_root := new_root, next_index := next_index t + 1 \<rparr>)"

text \<open>
  The two proofs for the empty slot at \<open>next_index\<close>: the loop with a running index and the
  closure over \<open>i\<close> of the source are both one expression per level.
\<close>

definition get_partial_merkle_proof_for_current_index ::
  "FixedMerkleAppendTree \<Rightarrow> QHash256 MerkleProofCorePartial" where
  "get_partial_merkle_proof_for_current_index t =
     \<lparr> mpp_value = sha256_zero_hash 0, mpp_index = next_index t,
       mpp_siblings = map (\<lambda>i. if drop_bit i (next_index t) AND 1 = 1 then next_siblings t ! i
                               else sha256_zero_hash i) [0..<TREE_HEIGHT] \<rparr>"

definition get_partial_merkle_proof_fixed_for_current_index ::
  "FixedMerkleAppendTree \<Rightarrow> FixedMerkleAppendTreePartialMerkleProof" where
  "get_partial_merkle_proof_fixed_for_current_index t =
     \<lparr> pp_index = next_index t, pp_value = sha256_zero_hash 0,
       pp_siblings = map (\<lambda>i. if drop_bit i (next_index t) AND 1 = 1 then next_siblings t ! i
                              else sha256_zero_hash i) [0..<TREE_HEIGHT] \<rparr>"

definition append_delta_merkle_proof ::
  "(bytes \<Rightarrow> bytes) \<Rightarrow> FixedMerkleAppendTree \<Rightarrow> QHash256 \<Rightarrow> FixedMerkleAppendTree \<times> QHash256 DeltaMerkleProofCore" where
  "append_delta_merkle_proof sha t new_value =
     (let proof = get_partial_merkle_proof_for_current_index t;
          zero_leaf = sha256_zero_hash 0;
          t' = append_tree sha t new_value
      in (t', delta_from_params (hash_impl_sha256_two_to_one_bytes sha) (mpp_index proof) zero_leaf new_value
                (mpp_siblings proof)))"

definition append_partial_delta_merkle_proof ::
  "(bytes \<Rightarrow> bytes) \<Rightarrow> FixedMerkleAppendTree \<Rightarrow> QHash256 \<Rightarrow>
   FixedMerkleAppendTree \<times> FixedMerkleAppendTreeDeltaPartialMerkleProof" where
  "append_partial_delta_merkle_proof sha t new_value =
     (let proof = get_partial_merkle_proof_fixed_for_current_index t;
          t' = append_tree sha t new_value
      in (t', \<lparr> dp_new_value = new_value, dp_old_value = sha256_zero_hash 0,
                dp_index = pp_index proof, dp_siblings = pp_siblings proof \<rparr>))"

text \<open>
  \<open>get_merkle_proof_for_current_index\<close> walks from the last appended leaf (with a
  placeholder value, as the source says); both of its paths share the loop.
\<close>

definition get_merkle_proof_for_current_index ::
  "(bytes \<Rightarrow> bytes) \<Rightarrow> FixedMerkleAppendTree \<Rightarrow> QHash256 MerkleProofCore" where
  "get_merkle_proof_for_current_index sha t =
     (if next_index t = 0 then
        merkle_proof_new_from_params (hash_impl_sha256_two_to_one_bytes sha) 0 (sha256_zero_hash 0)
          (map sha256_zero_hash [0..<TREE_HEIGHT])
      else let index = next_index t - 1 in
        merkle_proof_new_from_params (hash_impl_sha256_two_to_one_bytes sha) index (sha256_zero_hash 0)
          (map (\<lambda>i. if drop_bit i index AND 1 = 1 then next_siblings t ! i else sha256_zero_hash i)
             [0..<TREE_HEIGHT]))"

section \<open>Reverting\<close>

text \<open>
  The sibling list a client must supply to revert: the stored left siblings of the target
  at the levels whose index differs. Reading past the end of the slice panics.
\<close>

definition get_changed_next_siblings_for_revert ::
  "u64 \<Rightarrow> u64 \<Rightarrow> QHash256 list \<Rightarrow> QHash256 list QDogeResult" where
  "get_changed_next_siblings_for_revert current_next_index target_next_index target_next_siblings =
     (if current_next_index = 0 \<or> target_next_index \<ge> current_next_index then Inl (Err RevertIndexTooHigh)
      else let levels = filter (\<lambda>i. drop_bit i target_next_index AND 1 \<noteq> 0 \<and>
                                   drop_bit i (target_next_index XOR current_next_index) \<noteq> 0) [0..<TREE_HEIGHT]
           in if \<exists>i \<in> set levels. length target_next_siblings \<le> i then Inl Panic
              else Inr (map (\<lambda>i. target_next_siblings ! i) levels))"

text \<open>
  The loop of \<open>revert_to_next_index\<close> over the stored siblings: \<open>changed\<close> is the part of
  \<open>changed_left_next_siblings\<close> not yet consumed, \<open>changed_index\<close> the shifted difference. It
  stops at the first level where the two indices agree.
\<close>

fun revert_next_loop ::
  "u64 \<Rightarrow> nat \<Rightarrow> QHash256 list \<Rightarrow> u64 \<Rightarrow> QHash256 list \<Rightarrow> QHash256 list QDogeResult" where
  "revert_next_loop target i [] changed_index changed = Inr []"
| "revert_next_loop target i (s # rest) changed_index changed =
     (if changed_index = 0 then Inr (s # rest)
      else if target AND push_bit i 1 \<noteq> 0 then
        (case changed of
           [] \<Rightarrow> Inl (Err NotEnoughChangedLeftSiblings)
         | c # changed' \<Rightarrow> rbind (revert_next_loop target (i + 1) rest (drop_bit 1 changed_index) changed')
                            (\<lambda>rest'. Inr (c # rest')))
      else rbind (revert_next_loop target (i + 1) rest (drop_bit 1 changed_index) changed)
             (\<lambda>rest'. Inr (sha256_zero_hash i # rest')))"

definition revert_to_next_index ::
  "(bytes \<Rightarrow> bytes) \<Rightarrow> FixedMerkleAppendTree \<Rightarrow> u64 \<Rightarrow> QHash256 list \<Rightarrow> FixedMerkleAppendTree QDogeResult" where
  "revert_to_next_index sha t target_next_index changed_left_next_siblings =
     (if next_index t = 0 \<or> target_next_index \<ge> next_index t then Inl (Err RevertIndexTooHigh)
      else if target_next_index = 0 then
        Inr (t \<lparr> next_siblings := map sha256_zero_hash [0..<TREE_HEIGHT],
                 current_root := sha256_zero_hash TREE_HEIGHT, next_index := 0 \<rparr>)
      else rbind (revert_next_loop target_next_index 0 (next_siblings t)
                    (target_next_index XOR next_index t) changed_left_next_siblings) (\<lambda>siblings.
           rbind (hash_impl_sha256_compute_merkle_root sha zero32 target_next_index siblings) (\<lambda>root.
           Inr (t \<lparr> next_siblings := siblings, current_root := root, next_index := target_next_index \<rparr>))))"

text \<open>The loop of \<open>revert_to_index\<close>; it also returns the part of the siblings not consumed.\<close>

fun revert_index_loop ::
  "(bytes \<Rightarrow> bytes) \<Rightarrow> nat \<Rightarrow> QHash256 list \<Rightarrow> u64 \<Rightarrow> QHash256 list \<Rightarrow> QHash256 \<Rightarrow>
   (QHash256 \<times> QHash256 list \<times> QHash256 list) QDogeResult" where
  "revert_index_loop sha i [] revert_path_index changed current_hash = Inr (current_hash, [], changed)"
| "revert_index_loop sha i (s # rest) revert_path_index changed current_hash =
     (if revert_path_index AND 1 = 1 then
        (case changed of
           [] \<Rightarrow> Inl (Err NotEnoughChangedLeftSiblings)
         | left # changed' \<Rightarrow>
             rbind (revert_index_loop sha (i + 1) rest (drop_bit 1 revert_path_index) changed'
                      (hash_impl_sha256_two_to_one_bytes sha left current_hash))
               (\<lambda>(root, rest', left_over). Inr (root, sha256_zero_hash i # rest', left_over)))
      else rbind (revert_index_loop sha (i + 1) rest (drop_bit 1 revert_path_index) changed
                    (hash_impl_sha256_two_to_one_bytes sha current_hash (sha256_zero_hash i)))
             (\<lambda>(root, rest', left_over). Inr (root, current_hash # rest', left_over)))"

definition revert_to_index ::
  "(bytes \<Rightarrow> bytes) \<Rightarrow> FixedMerkleAppendTree \<Rightarrow> u64 \<Rightarrow> QHash256 list \<Rightarrow> QHash256 \<Rightarrow> FixedMerkleAppendTree QDogeResult" where
  "revert_to_index sha t index changed_left_siblings value =
     (if next_index t = 0 \<or> index \<ge> next_index t then Inl (Err RevertIndexTooHigh)
      else if index = 0 then Inr new_empty
      else rbind (revert_index_loop sha 0 (next_siblings t) (index - 1) changed_left_siblings value)
             (\<lambda>(root, siblings, left_over).
                if left_over \<noteq> [] then Inl (Err TooManyChangedLeftSiblings)
                else Inr (t \<lparr> next_siblings := siblings, current_root := root, next_index := index \<rparr>)))"


section \<open>The tree represents a list of leaves\<close>

text \<open>
  \<open>stored_sibling\<close> is what level \<open>j\<close> of a tree with leaves \<open>xs\<close> must hold: where the next
  leaf's path turns right, the complete left subtree; elsewhere the empty subtree.
\<close>

definition leaf_node :: "(bytes \<Rightarrow> bytes) \<Rightarrow> QHash256 list \<Rightarrow> nat \<Rightarrow> nat \<Rightarrow> QHash256" where
  "leaf_node sha xs = mnode (hash_impl_sha256_two_to_one_bytes sha) (padded zero32 xs)"

definition stored_sibling :: "(bytes \<Rightarrow> bytes) \<Rightarrow> QHash256 list \<Rightarrow> nat \<Rightarrow> QHash256" where
  "stored_sibling sha xs j =
     (if odd (length xs div 2 ^ j) then leaf_node sha xs j (length xs div 2 ^ j - 1)
      else sha256_zero_hash j)"

definition tree_inv :: "(bytes \<Rightarrow> bytes) \<Rightarrow> FixedMerkleAppendTree \<Rightarrow> QHash256 list \<Rightarrow> bool" where
  "tree_inv sha t xs \<longleftrightarrow>
     length xs \<le> 2 ^ TREE_HEIGHT \<and> unat (next_index t) = length xs \<and>
     next_siblings t = map (stored_sibling sha xs) [0..<TREE_HEIGHT] \<and>
     current_root t = leaf_node sha xs TREE_HEIGHT 0"

lemma leaf_node_right:
  "zero_table_ok sha \<Longrightarrow> d < 64 \<Longrightarrow> length xs \<le> i * 2 ^ d \<Longrightarrow> leaf_node sha xs d i = sha256_zero_hash d"
  using sha_hasher.mnode_right_of_leaves [of xs i d sha] by (simp add: leaf_node_def zero_table_entry)

lemma leaf_node_left:
  "(i + 1) * 2 ^ d \<le> n \<Longrightarrow> leaf_node sha (take n xs) d i = leaf_node sha xs d i"
  unfolding leaf_node_def by (rule sha_hasher.mnode_left_of)

lemma leaf_node_left_append:
  "(i + 1) * 2 ^ d \<le> length xs \<Longrightarrow> leaf_node sha xs d i = leaf_node sha (xs @ ys) d i"
  using leaf_node_left [of i d "length xs" sha "xs @ ys"] by simp

lemma left_of_next: "odd ((n :: nat) div 2 ^ j) \<Longrightarrow> (n div 2 ^ j - 1 + 1) * 2 ^ j \<le> n"
  by (simp add: odd_pos)

lemma right_of_next: "(n :: nat) < (n div 2 ^ j + 1) * 2 ^ j"
  using dividend_less_div_times [of "2 ^ j" n] by simp

text \<open>One level up from the path of leaf \<open>n = length xs\<close>, when that leaf is \<open>v\<close> or empty.\<close>

lemma path_step:
  assumes "zero_table_ok sha" and "j < 64" and "length ys \<le> length xs + 1" and "take (length xs) ys = xs"
  defines "k \<equiv> length xs div 2 ^ j"
  shows "(if odd k then hash_impl_sha256_two_to_one_bytes sha (stored_sibling sha xs j) (leaf_node sha ys j k)
          else hash_impl_sha256_two_to_one_bytes sha (leaf_node sha ys j k) (sha256_zero_hash j))
    = leaf_node sha ys (Suc j) (length xs div 2 ^ Suc j)"
proof -
  let ?H = "hash_impl_sha256_two_to_one_bytes sha"
  have up: "leaf_node sha ys (Suc j) (length xs div 2 ^ Suc j) =
      (if odd k then ?H (leaf_node sha ys j (k - 1)) (leaf_node sha ys j k)
       else ?H (leaf_node sha ys j k) (leaf_node sha ys j (k + 1)))"
    unfolding leaf_node_def div_pow_Suc k_def mnode_step [symmetric] sibling_index_def by (simp only: if_True if_False split: if_split) simp
  show ?thesis
  proof (cases "odd k")
    case True
    have "leaf_node sha xs j (k - 1) = leaf_node sha ys j (k - 1)"
      using leaf_node_left [of "k - 1" j "length xs" sha ys] left_of_next [of "length xs" j] True assms(4)
      unfolding k_def by simp
    with True show ?thesis unfolding up by (simp add: stored_sibling_def k_def [symmetric])
  next
    case False
    have "length ys \<le> (k + 1) * 2 ^ j"
      using right_of_next [of "length xs" j] assms(3) unfolding k_def by linarith
    then have "leaf_node sha ys j (k + 1) = sha256_zero_hash j"
      by (rule leaf_node_right [OF assms(1,2)])
    with False show ?thesis unfolding up by simp
  qed
qed

lemma append_loop_nodes:
  fixes N :: "nat \<Rightarrow> QHash256"
  assumes "\<And>j. j < length ss \<Longrightarrow>
      (if bit w (i + j) then hash_impl_sha256_two_to_one_bytes sha (ss ! j) (N (i + j))
       else hash_impl_sha256_two_to_one_bytes sha (N (i + j)) (sha256_zero_hash (i + j))) = N (Suc (i + j))"
  shows "append_loop sha i ss (drop_bit i w) (drop_bit i c) (N i) =
    (N (i + length ss),
     map (\<lambda>j. if bit c (i + j) then (if bit w (i + j) then sha256_zero_hash (i + j) else N (i + j)) else ss ! j)
       [0..<length ss])"
  using assms
proof (induction ss arbitrary: i)
  case Nil
  then show ?case by simp
next
  case (Cons s ss)
  have here: "(if bit w i then hash_impl_sha256_two_to_one_bytes sha s (N i)
      else hash_impl_sha256_two_to_one_bytes sha (N i) (sha256_zero_hash i)) = N (Suc i)"
    using Cons.prems [of 0] by (auto split: if_splits)
  have "append_loop sha (Suc i) ss (drop_bit (Suc i) w) (drop_bit (Suc i) c) (N (Suc i)) =
    (N (Suc i + length ss),
     map (\<lambda>j. if bit c (Suc i + j) then (if bit w (Suc i + j) then sha256_zero_hash (Suc i + j) else N (Suc i + j))
              else ss ! j) [0..<length ss])"
  proof (rule Cons.IH)
    fix j assume "j < length ss"
    then show "(if bit w (Suc i + j) then hash_impl_sha256_two_to_one_bytes sha (ss ! j) (N (Suc i + j))
        else hash_impl_sha256_two_to_one_bytes sha (N (Suc i + j)) (sha256_zero_hash (Suc i + j)))
        = N (Suc (Suc i + j))"
      using Cons.prems [of "Suc j"] by (auto split: if_splits)
  qed
  with here show ?case
    by (auto simp: drop_bit_and_1 and_1_eq_0_iff bit_drop_bit_eq drop_bit_drop_bit Let_def map_upt_Suc
        simp del: upt_Suc split: if_splits)
qed

lemma stored_sibling_append:
  fixes xs :: "QHash256 list"
  assumes "zero_table_ok sha" and "j < 64"
  defines "k \<equiv> length xs div 2 ^ j" and "k' \<equiv> Suc (length xs) div 2 ^ j"
  shows "(if odd k \<noteq> odd k' then (if odd k then sha256_zero_hash j else leaf_node sha (xs @ [v]) j k)
          else stored_sibling sha xs j) = stored_sibling sha (xs @ [v]) j"
proof -
  have "k' = k \<or> k' = Suc k" unfolding k_def k'_def by (simp add: div_Suc)
  then consider "k' = k" | "k' = Suc k" by blast
  then show ?thesis
  proof cases
    case 1
    then show ?thesis
      using leaf_node_left_append [OF left_of_next, of xs j sha "[v]"]
      by (simp add: stored_sibling_def k_def k'_def)
  next
    case 2
    then show ?thesis by (simp add: stored_sibling_def k_def k'_def)
  qed
qed


section \<open>Every mutation keeps the representation\<close>

lemma tree_inv_index_bit: "tree_inv sha t xs \<Longrightarrow> bit (next_index t) j \<longleftrightarrow> odd (length xs div 2 ^ j)"
  by (simp add: bit_word_iff_unat tree_inv_def)

lemma tree_inv_nth: "tree_inv sha t xs \<Longrightarrow> j < TREE_HEIGHT \<Longrightarrow> next_siblings t ! j = stored_sibling sha xs j"
  by (simp add: tree_inv_def)

lemma tree_inv_new_empty: "zero_table_ok sha \<Longrightarrow> tree_inv sha new_empty []"
  using leaf_node_right [of sha TREE_HEIGHT "[]" 0]
  by (simp add: tree_inv_def new_empty_def stored_sibling_def)

lemma tree_inv_append:
  assumes z: "zero_table_ok sha" and t: "tree_inv sha t xs" and n: "length xs < 2 ^ TREE_HEIGHT"
  shows "tree_inv sha (append_tree sha t v) (xs @ [v])"
proof -
  let ?N = "\<lambda>j. leaf_node sha (xs @ [v]) j (length xs div 2 ^ j)"
  let ?w = "next_index t"
  have w: "unat ?w = length xs" using t by (simp add: tree_inv_def)
  then have w1: "unat (?w + 1) = Suc (length xs)" using n by (simp add: unat_word_ariths)
  have ss: "next_siblings t = map (stored_sibling sha xs) [0..<TREE_HEIGHT]" using t by (simp add: tree_inv_def)
  have bw: "bit ?w j \<longleftrightarrow> odd (length xs div 2 ^ j)" for j by (simp add: bit_word_iff_unat w)
  have bc: "bit (?w XOR (?w + 1)) j \<longleftrightarrow> odd (length xs div 2 ^ j) \<noteq> odd (Suc (length xs) div 2 ^ j)" for j
    by (simp only: bit_xor_iff) (simp only: bit_word_iff_unat w w1)
  have len: "length (next_siblings t) = TREE_HEIGHT" by (simp add: ss)
  let ?new = "\<lambda>j. if bit (?w XOR (?w + 1)) (0 + j) then (if bit ?w (0 + j) then sha256_zero_hash (0 + j) else ?N (0 + j))
              else next_siblings t ! j"
  have loop: "append_loop sha 0 (next_siblings t) (drop_bit 0 ?w) (drop_bit 0 (?w XOR (?w + 1))) (?N 0) =
    (?N (0 + length (next_siblings t)), map ?new [0..<length (next_siblings t)])"
    by (rule append_loop_nodes)
       (simp add: ss bw path_step [OF z, of _ "xs @ [v]" xs, symmetric] del: power_Suc)
  have new: "map ?new [0..<TREE_HEIGHT] = map (stored_sibling sha (xs @ [v])) [0..<TREE_HEIGHT]"
    by (rule map_cong [OF refl])
       (simp add: bc bw ss stored_sibling_append [OF z, of _ xs v, symmetric] del: power_Suc upt_Suc)
  have v: "?N 0 = v" by (simp add: leaf_node_def padded_def)
  have "length xs div 2 ^ TREE_HEIGHT = 0" using n by simp
  then show ?thesis
    using loop [unfolded len, unfolded new, unfolded v drop_bit_0 id_apply add_0] n w1
    by (simp add: tree_inv_def append_tree_def update_siblings_append_merkle_tree_def del: upt_Suc)
qed


lemma tree_inv_unique: "tree_inv sha t xs \<Longrightarrow> tree_inv sha u xs \<Longrightarrow> t = u"
  by (auto simp: tree_inv_def word_unat_eq_iff intro!: FixedMerkleAppendTree.equality)

lemma tree_inv_foldl:
  assumes "zero_table_ok sha" and "length (xs @ ys) \<le> 2 ^ TREE_HEIGHT" and "tree_inv sha t xs"
  shows "tree_inv sha (foldl (append_tree sha) t ys) (xs @ ys)"
  using assms(2,3)
proof (induction ys arbitrary: t xs)
  case Nil
  then show ?case by simp
next
  case (Cons y ys)
  have "tree_inv sha (append_tree sha t y) (xs @ [y])"
    using Cons.prems by (intro tree_inv_append [OF assms(1)]) simp_all
  then show ?case using Cons.IH [of "xs @ [y]"] Cons.prems(1) by simp
qed

section \<open>The stored siblings are the path of the next leaf\<close>

text \<open>
  Along the stored siblings, the root of the tree over \<open>ys\<close> is computed from the leaf at
  position \<open>length xs\<close>, whether that leaf is still empty (\<open>ys = xs\<close>) or just added.
\<close>

lemma stored_path_root:
  assumes z: "zero_table_ok sha" and n: "length xs < 2 ^ TREE_HEIGHT" and w: "unat w = length xs"
    and ys: "length ys \<le> length xs + 1" "take (length xs) ys = xs"
  shows "compute_root_merkle_proof_generic (hash_impl_sha256_two_to_one_bytes sha)
      (padded zero32 ys (length xs)) w (map (stored_sibling sha xs) [0..<TREE_HEIGHT]) = leaf_node sha ys TREE_HEIGHT 0"
proof -
  let ?N = "\<lambda>j. leaf_node sha ys j (length xs div 2 ^ j)"
  let ?ss = "map (stored_sibling sha xs) [0..<TREE_HEIGHT]"
  have "compute_root_merkle_proof_generic (hash_impl_sha256_two_to_one_bytes sha) (?N 0) (drop_bit 0 w) ?ss
      = ?N (0 + length ?ss)"
  proof (rule merkle_path_nodes)
    fix j assume j: "j < length ?ss"
    show "(if bit w (0 + j) then hash_impl_sha256_two_to_one_bytes sha (?ss ! j) (?N (0 + j))
        else hash_impl_sha256_two_to_one_bytes sha (?N (0 + j)) (?ss ! j)) = ?N (Suc (0 + j))"
      using j path_step [OF z _ ys, of j]
      by (auto simp: bit_word_iff_unat w stored_sibling_def simp del: power_Suc)
  qed
  moreover have "?N 0 = padded zero32 ys (length xs)" by (simp add: leaf_node_def)
  moreover have "length xs div 2 ^ TREE_HEIGHT = 0" using n by simp
  ultimately show ?thesis by simp
qed

lemma stored_path_empty_leaf:
  assumes "zero_table_ok sha" and "length xs < 2 ^ TREE_HEIGHT" and "unat w = length xs"
  shows "hash_impl_sha256_compute_merkle_root sha zero32 w (map (stored_sibling sha xs) [0..<TREE_HEIGHT])
    = Inr (leaf_node sha xs TREE_HEIGHT 0)"
proof -
  have "padded zero32 xs (length xs) = zero32" by (simp add: padded_def)
  then show ?thesis
    using stored_path_root [OF assms, of xs] assms(2,3) by (simp add: sha256_compute_merkle_root_generic del: upt_Suc)
qed

lemma current_proof_siblings:
  assumes "tree_inv sha t xs"
  shows "map (\<lambda>i. if drop_bit i (next_index t) AND 1 = 1 then next_siblings t ! i else sha256_zero_hash i) [0..<TREE_HEIGHT]
    = map (stored_sibling sha xs) [0..<TREE_HEIGHT]"
  using assms
  by (intro map_cong)
     (auto simp: drop_bit_and_1 tree_inv_index_bit [OF assms] tree_inv_def stored_sibling_def simp del: upt_Suc)

section \<open>Reverting is truncation\<close>

lemma drop_bit_mono_zero: "drop_bit i (c :: 'a::len word) = 0 \<Longrightarrow> i \<le> j \<Longrightarrow> drop_bit j c = 0"
  unfolding drop_bit_eq_0_iff by (meson order_less_le_trans power_increasing one_le_numeral)

lemma revert_next_loop_map:
  assumes "i \<le> n" and "n \<le> 64"
  shows "revert_next_loop w i (map f [i..<n]) (drop_bit i c)
      (map g (filter (\<lambda>j. bit w j \<and> drop_bit j c \<noteq> 0) [i..<n]))
    = Inr (map (\<lambda>j. if drop_bit j c = 0 then f j else if bit w j then g j else sha256_zero_hash j) [i..<n])"
  using assms
proof (induction "n - i" arbitrary: i)
  case 0
  then show ?case by simp
next
  case (Suc k)
  then have i: "i < n" by simp
  then have step: "[i..<n] = i # [Suc i..<n]" by (simp add: upt_conv_Cons)
  have bit: "w AND push_bit i 1 \<noteq> 0 \<longleftrightarrow> bit w i" by (simp add: bit_iff_and_push_bit_not_eq_0)
  have IH: "revert_next_loop w (Suc i) (map f [Suc i..<n]) (drop_bit (Suc i) c)
      (map g (filter (\<lambda>j. bit w j \<and> drop_bit j c \<noteq> 0) [Suc i..<n]))
    = Inr (map (\<lambda>j. if drop_bit j c = 0 then f j else if bit w j then g j else sha256_zero_hash j) [Suc i..<n])"
    using Suc.hyps(2) Suc.prems by (intro Suc.hyps(1)) simp_all
  show ?case
  proof (cases "drop_bit i c = 0")
    case True
    then have "drop_bit j c = 0" if "j \<in> set [i..<n]" for j
      using that by (intro drop_bit_mono_zero [OF True]) simp
    then show ?thesis unfolding step using True by (auto simp del: drop_bit_eq_div)
  next
    case False
    with IH bit show ?thesis
      unfolding step by (simp add: drop_bit_drop_bit del: drop_bit_eq_div)
  qed
qed

lemma drop_bit_xor_zero:
  "drop_bit j ((v :: 'a::len word) XOR w) = 0 \<longleftrightarrow> unat v div 2 ^ j = unat w div 2 ^ j"
proof -
  have "drop_bit j (v XOR w) = 0 \<longleftrightarrow> drop_bit j v = drop_bit j w"
    by (auto simp: bit_eq_iff bit_drop_bit_eq bit_xor_iff)
  also have "\<dots> \<longleftrightarrow> unat (drop_bit j v) = unat (drop_bit j w)" by (simp only: unsigned_word_eqI word_unat_eq_iff)
  finally show ?thesis by (simp only: unat_drop_bit)
qed

text \<open>Above the highest level where the indices differ, truncation keeps the stored sibling.\<close>

lemma stored_sibling_take:
  assumes "m \<le> length ys" and "m div 2 ^ j = length ys div 2 ^ j"
  shows "stored_sibling sha (take m ys) j = stored_sibling sha ys j"
  using assms leaf_node_left [OF left_of_next, of m j sha ys] by (simp add: stored_sibling_def min_absorb2)


lemma revert_siblings:
  assumes t: "tree_inv sha t ys" and u: "tree_inv sha u (take m ys)" and m: "m < length ys"
  shows "map (\<lambda>j. if drop_bit j (next_index u XOR next_index t) = 0 then stored_sibling sha ys j
      else if bit (next_index u) j then next_siblings u ! j else sha256_zero_hash j) [0..<TREE_HEIGHT]
    = map (stored_sibling sha (take m ys)) [0..<TREE_HEIGHT]"
proof (rule map_cong [OF refl])
  fix j assume "j \<in> set [0..<TREE_HEIGHT]"
  then have s: "next_siblings u ! j = stored_sibling sha (take m ys) j" using u by (simp add: tree_inv_def)
  have idx: "unat (next_index u) = m" "unat (next_index t) = length ys"
    using t u m by (simp_all add: tree_inv_def)
  show "(if drop_bit j (next_index u XOR next_index t) = 0 then stored_sibling sha ys j
      else if bit (next_index u) j then next_siblings u ! j else sha256_zero_hash j)
    = stored_sibling sha (take m ys) j"
  proof (cases "drop_bit j (next_index u XOR next_index t) = 0")
    case True
    then have "m div 2 ^ j = length ys div 2 ^ j" by (simp only: drop_bit_xor_zero idx)
    with True m show ?thesis by (simp add: stored_sibling_take del: drop_bit_eq_div)
  next
    case False
    then show ?thesis
      using m by (simp add: s tree_inv_index_bit [OF u] del: drop_bit_eq_div) (simp add: stored_sibling_def)
  qed
qed

lemma revert_to_next_index_inv:
  assumes z: "zero_table_ok sha" and t: "tree_inv sha t ys" and u: "tree_inv sha u (take m ys)" and m: "m < length ys"
  defines "ch \<equiv> map (\<lambda>i. next_siblings u ! i) (filter (\<lambda>j. bit (next_index u) j \<and>
      drop_bit j (next_index u XOR next_index t) \<noteq> 0) [0..<TREE_HEIGHT])"
  shows "revert_to_next_index sha t (next_index u) ch = Inr u"
proof -
  let ?S = "map (stored_sibling sha (take m ys)) [0..<TREE_HEIGHT]"
  have idx: "unat (next_index u) = m" "unat (next_index t) = length ys"
    using t u m by (simp_all add: tree_inv_def)
  have small: "m < 2 ^ TREE_HEIGHT" using m t by (simp add: tree_inv_def)
  have guard: "\<not> (next_index t = 0 \<or> next_index t \<le> next_index u)"
    using idx m by (auto simp: word_le_nat_alt)
  have ts: "next_siblings t = map (stored_sibling sha ys) [0..<TREE_HEIGHT]" using t by (simp add: tree_inv_def)
  have loop: "revert_next_loop (next_index u) 0 (next_siblings t) (next_index u XOR next_index t) ch = Inr ?S"
    using revert_next_loop_map [of 0 TREE_HEIGHT "next_index u" "stored_sibling sha ys"
        "next_index u XOR next_index t" "\<lambda>i. next_siblings u ! i"]
    unfolding ts ch_def revert_siblings [OF t u m] by simp
  have root: "hash_impl_sha256_compute_merkle_root sha zero32 (next_index u) ?S
      = (Inr (leaf_node sha (take m ys) TREE_HEIGHT 0) :: QHash256 QDogeResult)"
    by (rule stored_path_empty_leaf [OF z]) (use small idx m in simp_all)
  have "tree_inv sha (t \<lparr> next_siblings := ?S, current_root := leaf_node sha (take m ys) TREE_HEIGHT 0,
      next_index := next_index u \<rparr>) (take m ys)"
    using u by (simp add: tree_inv_def)
  note result = tree_inv_unique [OF this u]
  show ?thesis
  proof (cases "next_index u = 0")
    case True
    then have "m = 0" using idx by simp
    with u True have "u = new_empty" using tree_inv_unique [OF _ tree_inv_new_empty [OF z]] by simp
    with guard True show ?thesis by (simp add: revert_to_next_index_def new_empty_def del: upt_Suc)
  next
    case False
    with guard loop root result show ?thesis by (simp add: revert_to_next_index_def del: upt_Suc)
  qed
qed

lemma get_changed_siblings:
  assumes t: "tree_inv sha t ys" and u: "tree_inv sha u (take m ys)" and m: "m < length ys"
  shows "get_changed_next_siblings_for_revert (next_index t) (next_index u) (next_siblings u) =
    Inr (map (\<lambda>i. next_siblings u ! i) (filter (\<lambda>j. bit (next_index u) j \<and>
      drop_bit j (next_index u XOR next_index t) \<noteq> 0) [0..<TREE_HEIGHT]))"
proof -
  have "\<not> (next_index t = 0 \<or> next_index t \<le> next_index u)"
    using t u m by (auto simp: word_le_nat_alt tree_inv_def)
  moreover have "length (next_siblings u) = TREE_HEIGHT" using u by (simp add: tree_inv_def)
  moreover have "drop_bit i (next_index u) AND 1 \<noteq> 0 \<longleftrightarrow> bit (next_index u) i" for i
    by (simp add: and_1_eq_0_iff bit_drop_bit_eq del: drop_bit_eq_div)
  ultimately show ?thesis
    by (auto simp: get_changed_next_siblings_for_revert_def Let_def simp del: upt_Suc drop_bit_eq_div)
qed


lemma current_proof_root:
  assumes "zero_table_ok sha" and "tree_inv sha t xs" and "length xs < 2 ^ TREE_HEIGHT"
  shows "compute_root_sha256 sha (get_partial_merkle_proof_fixed_for_current_index t) = Inr (current_root t)"
proof -
  have w: "unat (next_index t) = length xs" and r: "current_root t = leaf_node sha xs TREE_HEIGHT 0"
    using assms(2) by (simp_all add: tree_inv_def)
  show ?thesis
    using stored_path_empty_leaf [OF assms(1,3) w]
    by (simp add: compute_root_sha256_def get_partial_merkle_proof_fixed_for_current_index_def
        current_proof_siblings [OF assms(2)] r del: upt_Suc)
qed

section \<open>What a proof against the root shows\<close>

text \<open>The pairs hashed by a proof and by the true path of its index.\<close>

definition proof_pairs :: "(bytes \<Rightarrow> bytes) \<Rightarrow> QHash256 list \<Rightarrow> FixedMerkleAppendTreePartialMerkleProof \<Rightarrow> (bytes \<times> bytes) set" where
  "proof_pairs sha xs p =
     set (path_pairs (hash_impl_sha256_two_to_one_bytes sha) (pp_value p) (pp_index p) (pp_siblings p)) \<union>
     set (path_pairs (hash_impl_sha256_two_to_one_bytes sha) (padded zero32 xs (unat (pp_index p))) (pp_index p)
       (true_siblings (hash_impl_sha256_two_to_one_bytes sha) (padded zero32 xs) TREE_HEIGHT (unat (pp_index p))))"

lemma append_tree_opening:
  assumes "tree_inv sha t xs" and "length (pp_siblings p) = TREE_HEIGHT"
    and "compute_root_sha256 sha p = Inr (current_root t)"
    and "collision_free (hash_impl_sha256_two_to_one_bytes sha) (proof_pairs sha xs p)"
  shows "unat (pp_index p) < 2 ^ TREE_HEIGHT \<and> pp_value p = padded zero32 xs (unat (pp_index p))"
proof -
  have root: "current_root t = mnode (hash_impl_sha256_two_to_one_bytes sha) (padded zero32 xs) TREE_HEIGHT 0"
    using assms(1) by (simp add: tree_inv_def leaf_node_def)
  have small: "unat (pp_index p) < 2 ^ TREE_HEIGHT"
    using assms(2,3) by (simp add: compute_root_sha256_def sha256_compute_merkle_root_generic split: if_splits)
  then have "compute_root_merkle_proof_generic (hash_impl_sha256_two_to_one_bytes sha) (pp_value p) (pp_index p)
      (pp_siblings p) = current_root t"
    using assms(2,3) by (simp add: compute_root_sha256_def sha256_compute_merkle_root_generic)
  then have "pp_value p = padded zero32 xs (unat (pp_index p))"
    using opening_shows_leaf [of "hash_impl_sha256_two_to_one_bytes sha" "pp_value p" "pp_index p" "pp_siblings p"
        "padded zero32 xs"] small assms(2,4)
    by (simp add: root proof_pairs_def)
  with small show ?thesis by simp
qed

text \<open>Trees over the concrete hash function, for the examples below.\<close>

lemma table_tree:
  "length xs \<le> 2 ^ TREE_HEIGHT \<Longrightarrow> tree_inv table_hash (foldl (append_tree table_hash) new_empty xs) xs"
  using tree_inv_foldl [OF zero_table_ok_table_hash, of "[]" xs]
    tree_inv_new_empty [OF zero_table_ok_table_hash] by simp

lemma table_hash_zero_hashes: "map sha256_zero_hash [0..<TREE_HEIGHT] = map (QSha256Hasher_get_zero_hash table_hash) [0..<TREE_HEIGHT]"
  by (rule map_cong) (auto simp: zero_table_entry [OF zero_table_ok_table_hash])

lemma table_hash_empty_tree_collision_free:
  "collision_free (hash_impl_sha256_two_to_one_bytes table_hash)
     (proof_pairs table_hash [] (get_partial_merkle_proof_fixed_for_current_index new_empty))"
proof -
  let ?Z = "QSha256Hasher_get_zero_hash table_hash" and ?H = "hash_impl_sha256_two_to_one_bytes table_hash"
  have p: "get_partial_merkle_proof_fixed_for_current_index new_empty =
      \<lparr> pp_index = 0, pp_value = zero32, pp_siblings = map ?Z [0..<TREE_HEIGHT] \<rparr>"
    by (simp add: get_partial_merkle_proof_fixed_for_current_index_def new_empty_def
        table_hash_zero_hashes [symmetric] del: upt_Suc)
  have pairs: "proof_pairs table_hash [] (get_partial_merkle_proof_fixed_for_current_index new_empty)
      = set (map (\<lambda>j. (?Z j, ?Z j)) [0..<TREE_HEIGHT])"
    using sha_hasher.zero_path_pairs [of table_hash 0 TREE_HEIGHT]
      sha_hasher.zero_true_siblings [of table_hash TREE_HEIGHT]
    by (simp add: proof_pairs_def p padded_def del: upt_Suc)
  have inj: "i = j" if "i < TREE_HEIGHT" "j < TREE_HEIGHT" "?H (?Z i) (?Z i) = ?H (?Z j) (?Z j)" for i j
  proof -
    have "sha256_zero_hash (Suc i) = sha256_zero_hash (Suc j)"
      using that by (simp add: zero_table_entry [OF zero_table_ok_table_hash] sha_hasher.zero_Suc)
    then show ?thesis using zero_table_inject [of "Suc i" "Suc j"] that by simp
  qed
  show ?thesis
    unfolding collision_free_def pairs
  proof (rule inj_onI)
    fix x y
    assume "x \<in> set (map (\<lambda>j. (?Z j, ?Z j)) [0..<TREE_HEIGHT])" "y \<in> set (map (\<lambda>j. (?Z j, ?Z j)) [0..<TREE_HEIGHT])"
    then obtain i j where ij: "x = (?Z i, ?Z i)" "y = (?Z j, ?Z j)" "i < TREE_HEIGHT" "j < TREE_HEIGHT" by auto
    assume "(case x of (l, r) \<Rightarrow> ?H l r) = (case y of (l, r) \<Rightarrow> ?H l r)"
    then have "i = j" using inj [OF ij(3,4)] ij(1,2) by simp
    then show "x = y" using ij by simp
  qed
qed

section \<open>Properties\<close>

text \<open>C13. The append tree implements the Merkle tree of its leaves: after appending any list
  of at most \<open>2 ^ 32\<close> leaves to the empty tree, the index is their number, the root is the
  root of the height-32 reference tree over the zero-padded leaves, and every level stores
  what the next append needs.\<close>

theorem append_refines_list:
  assumes "zero_table_ok sha" and "length xs \<le> 2 ^ TREE_HEIGHT"
  shows "tree_inv sha (foldl (append_tree sha) new_empty xs) xs"
  using tree_inv_foldl [OF assms(1), of "[]" xs] tree_inv_new_empty [OF assms(1)] assms(2) by simp

theorem append_refines_list_witness:
  "tree_inv table_hash (foldl (append_tree table_hash) new_empty [replicate 32 1, replicate 32 2, replicate 32 3])
     [replicate 32 1, replicate 32 2, replicate 32 3]"
  using append_refines_list [OF zero_table_ok_table_hash, of "[replicate 32 1, replicate 32 2, replicate 32 3]"]
  by simp

text \<open>The delta proof that an append hands out connects the root before to the root after:
  it verifies, its old value is the empty leaf, and its two roots are the tree's.\<close>

theorem append_delta_proof_connects_roots:
  assumes "zero_table_ok sha" and "tree_inv sha t xs" and "length xs < 2 ^ TREE_HEIGHT"
    and "append_delta_merkle_proof sha t v = (t', p)"
  shows "delta_verify (hash_impl_sha256_two_to_one_bytes sha) p \<and> t' = append_tree sha t v \<and>
    dmp_old_root p = current_root t \<and> dmp_new_root p = current_root t' \<and>
    dmp_old_value p = zero32 \<and> dmp_new_value p = v \<and> unat (dmp_index p) = length xs"
proof -
  have inv': "tree_inv sha (append_tree sha t v) (xs @ [v])" by (rule tree_inv_append [OF assms(1-3)])
  have w: "unat (next_index t) = length xs" using assms(2) by (simp add: tree_inv_def)
  have old: "compute_root_merkle_proof_generic (hash_impl_sha256_two_to_one_bytes sha) zero32 (next_index t)
      (map (stored_sibling sha xs) [0..<TREE_HEIGHT]) = current_root t"
    using stored_path_root [OF assms(1,3) w, of xs] assms(2) by (simp add: padded_def tree_inv_def del: upt_Suc)
  have new: "compute_root_merkle_proof_generic (hash_impl_sha256_two_to_one_bytes sha) v (next_index t)
      (map (stored_sibling sha xs) [0..<TREE_HEIGHT]) = current_root (append_tree sha t v)"
    using stored_path_root [OF assms(1,3) w, of "xs @ [v]"] inv' by (simp add: padded_def tree_inv_def del: upt_Suc)
  show ?thesis
    using assms(4) old new w
    by (auto simp: append_delta_merkle_proof_def Let_def get_partial_merkle_proof_for_current_index_def
        current_proof_siblings [OF assms(2)] delta_from_params_def delta_verify_def simp del: upt_Suc)
qed

theorem append_delta_proof_connects_roots_witness:
  "delta_verify (hash_impl_sha256_two_to_one_bytes table_hash)
      (snd (append_delta_merkle_proof table_hash new_empty (replicate 32 7)))"
  using append_delta_proof_connects_roots [OF zero_table_ok_table_hash
      tree_inv_new_empty [OF zero_table_ok_table_hash], of "replicate 32 7"
      "fst (append_delta_merkle_proof table_hash new_empty (replicate 32 7))"
      "snd (append_delta_merkle_proof table_hash new_empty (replicate 32 7))"]
  by simp

text \<open>The proof for the empty slot at the next index opens the tree's own root, and
  rebuilding a tree from its index and siblings gives the tree back.\<close>

theorem current_index_proof_opens_root:
  assumes "zero_table_ok sha" and "tree_inv sha t xs" and "length xs < 2 ^ TREE_HEIGHT"
  shows "compute_root_sha256 sha (get_partial_merkle_proof_fixed_for_current_index t)
      = (Inr (current_root t) :: QHash256 QDogeResult)
    \<and> new_vec sha (next_index t) (next_siblings t) = (Inr t :: FixedMerkleAppendTree QDogeResult)"
proof -
  have w: "unat (next_index t) = length xs" and
    t: "next_siblings t = map (stored_sibling sha xs) [0..<TREE_HEIGHT]" "current_root t = leaf_node sha xs TREE_HEIGHT 0"
    using assms(2) by (simp_all add: tree_inv_def)
  note root = stored_path_empty_leaf [OF assms(1,3) w]
  note opens = current_proof_root [OF assms]
  have empty: "t = new_empty" if "next_index t = 0"
    using that w tree_inv_unique [OF assms(2)] tree_inv_new_empty [OF assms(1)] by simp
  have same: "\<lparr> next_index = next_index t, current_root = current_root t, next_siblings = next_siblings t \<rparr> = t"
    by simp
  show ?thesis
    using empty same by (auto simp: new_vec_def tree_new_def t root opens simp del: upt_Suc)
qed

theorem current_index_proof_opens_root_witness:
  "compute_root_sha256 table_hash (get_partial_merkle_proof_fixed_for_current_index
       (append_tree table_hash new_empty (replicate 32 7)))
     = (Inr (current_root (append_tree table_hash new_empty (replicate 32 7))) :: QHash256 QDogeResult)"
  using current_index_proof_opens_root [OF zero_table_ok_table_hash
      tree_inv_append [OF zero_table_ok_table_hash tree_inv_new_empty [OF zero_table_ok_table_hash]]]
  by simp

text \<open>C36. Reverting is truncation: with the siblings that \<open>get_changed_next_siblings_for_revert\<close>
  selects from an earlier tree, \<open>revert_to_next_index\<close> turns a tree over \<open>ys\<close> into exactly the
  tree over the first \<open>m\<close> leaves.\<close>

theorem revert_to_next_index_truncates:
  assumes "zero_table_ok sha" and "tree_inv sha t ys" and "tree_inv sha u (take m ys)" and "m < length ys"
  shows "\<exists>ch. get_changed_next_siblings_for_revert (next_index t) (next_index u) (next_siblings u) = Inr ch \<and>
    revert_to_next_index sha t (next_index u) ch = Inr u"
  using get_changed_siblings [OF assms(2-4)] revert_to_next_index_inv [OF assms] by blast

theorem revert_to_next_index_truncates_witness:
  "\<exists>ch. get_changed_next_siblings_for_revert
      (next_index (foldl (append_tree table_hash) new_empty [[1], [2], [3], [4]]))
      (next_index (foldl (append_tree table_hash) new_empty [[1], [2], [3]]))
      (next_siblings (foldl (append_tree table_hash) new_empty [[1], [2], [3]])) = Inr ch \<and>
    revert_to_next_index table_hash (foldl (append_tree table_hash) new_empty [[1], [2], [3], [4]])
      (next_index (foldl (append_tree table_hash) new_empty [[1], [2], [3]])) ch
    = Inr (foldl (append_tree table_hash) new_empty [[1], [2], [3]])"
  using revert_to_next_index_truncates [OF zero_table_ok_table_hash table_tree, of "[[1], [2], [3], [4]]"
      "foldl (append_tree table_hash) new_empty [[1], [2], [3]]" 3] table_tree [of "[[1], [2], [3]]"]
  by simp

text \<open>The other revert routine loses a sibling: after \<open>revert_to_index\<close> to three leaves
  with the correct left sibling, level 1 holds the empty subtree instead of the hash of the
  first two leaves, so the result represents the three leaves only if those two hash to
  the empty-subtree hash.\<close>

theorem revert_to_index_loses_sibling:
  assumes "tree_inv sha t ys" and "3 < length ys"
  shows "\<exists>u. revert_to_index sha t 3 [hash_impl_sha256_two_to_one_bytes sha (ys ! 0) (ys ! 1)] (ys ! 2) = Inr u \<and>
    next_siblings u ! 1 = sha256_zero_hash 1 \<and>
    (tree_inv sha u (take 3 ys) \<longrightarrow>
      hash_impl_sha256_two_to_one_bytes sha (ys ! 0) (ys ! 1) = sha256_zero_hash 1)"
proof -
  have left: "\<exists>r ss'. revert_index_loop sha i ss 0 [] cur = Inr (r, ss', [])" for i ss cur
  proof (induction ss arbitrary: i cur)
    case (Cons s ss)
    obtain r ss' where "revert_index_loop sha (Suc i) ss 0 []
        (hash_impl_sha256_two_to_one_bytes sha cur (sha256_zero_hash i)) = Inr (r, ss', [])"
      using Cons.IH by blast
    then show ?case by simp
  qed simp
  have w: "unat (next_index t) = length ys" using assms(1) by (simp add: tree_inv_def)
  then have guard: "\<not> (next_index t = 0 \<or> next_index t \<le> 3)"
    using assms(2) by (auto simp: word_le_nat_alt)
  have "length (next_siblings t) = TREE_HEIGHT" using assms(1) by (simp add: tree_inv_def)
  then obtain s0 s1 rest where ss: "next_siblings t = s0 # s1 # rest"
    by (cases "next_siblings t"; cases "tl (next_siblings t)") auto
  let ?ab = "hash_impl_sha256_two_to_one_bytes sha (ys ! 0) (ys ! 1)"
  obtain r ss' where "revert_index_loop sha (Suc (Suc 0)) rest 0 []
      (hash_impl_sha256_two_to_one_bytes sha ?ab
        (hash_impl_sha256_two_to_one_bytes sha (ys ! 2) (sha256_zero_hash 0))) = Inr (r, ss', [])"
    using left by blast
  moreover define u where
    "u = t \<lparr> next_siblings := (ys ! 2) # sha256_zero_hash 1 # ss', current_root := r, next_index := 3 \<rparr>"
  ultimately have run: "revert_to_index sha t 3 [?ab] (ys ! 2) = Inr u"
    using guard by (simp add: revert_to_index_def ss)
  have lost: "next_siblings u ! 1 = sha256_zero_hash 1" by (simp add: u_def)
  have "stored_sibling sha (take 3 ys) 1 = ?ab"
    using assms(2) by (simp add: stored_sibling_def leaf_node_def padded_def)
  with run lost show ?thesis using tree_inv_nth [of sha u "take 3 ys" 1] by auto
qed

theorem revert_to_index_loses_sibling_witness:
  "\<exists>u. revert_to_index table_hash (foldl (append_tree table_hash) new_empty [[1], [2], [3], [4]]) 3
      [hash_impl_sha256_two_to_one_bytes table_hash [1] [2]] [3] = Inr u \<and>
    next_siblings u ! 1 = sha256_zero_hash 1"
  using revert_to_index_loses_sibling [OF table_tree, of "[[1], [2], [3], [4]]"] by auto

end
