(* ===== verification/Layouts.thy ===== *)
theory Layouts
  imports AppendTree
begin

text \<open>
  The \<open>#[repr(C)]\<close> structs of the bridge that are hashed or stored in accounts
  (\<open>psy-bridge-core/src/header.rs\<close>, \<open>program_state/withdrawal.rs\<close>, \<open>program_state/core.rs\<close>,
  \<open>data_accounts/pending_mint.rs\<close>, \<open>program_state/mint_group.rs\<close>), with the byte layout that
  \<open>bytemuck::bytes_of\<close> and \<open>bytemuck::from_bytes\<close> give them: the fields in order, integers
  little-endian, and no padding (the field offsets are multiples of the alignments). Each
  layout interprets \<open>fixed_codec\<close>.
\<close>

section \<open>Headers\<close>

record PsyBridgeStateCommitment =
  sc_block_hash :: QHash256
  sc_block_merkle_tree_root :: QHash256
  sc_pending_mints_finalized_hash :: QHash256
  sc_txo_output_list_finalized_hash :: QHash256
  sc_auto_claimed_txo_tree_root :: QHash256
  sc_auto_claimed_deposits_tree_root :: QHash256
  sc_auto_claimed_deposits_next_index :: u32
  sc_block_height :: u32

record PsyBridgeTipStateCommitment =
  ts_block_hash :: QHash256
  ts_block_merkle_tree_root :: QHash256
  ts_block_time :: u32
  ts_block_height :: u32

record PsyBridgeHeader =
  tip_state :: PsyBridgeTipStateCommitment
  finalized_state :: PsyBridgeStateCommitment
  bridge_state_hash :: QHash256
  last_rollback_at_secs :: u32
  paused_until_secs :: u32
  total_finalized_fees_collected_chain_history :: u64

record PsyBridgeHeaderUpdate =
  hu_tip_state :: PsyBridgeTipStateCommitment
  hu_finalized_block_hash :: QHash256
  hu_finalized_block_merkle_tree_root :: QHash256
  hu_finalized_auto_claimed_txo_tree_root :: QHash256
  hu_finalized_auto_claimed_deposits_tree_root :: QHash256
  hu_bridge_state_hash :: QHash256
  hu_last_rollback_at_secs :: u32
  hu_paused_until_secs :: u32
  hu_total_finalized_fees_collected_chain_history :: u64

definition to_header :: "PsyBridgeHeaderUpdate \<Rightarrow> u32 \<Rightarrow> QHash256 \<Rightarrow> QHash256 \<Rightarrow> u32 \<Rightarrow> PsyBridgeHeader" where
  "to_header u required_confirmations pending_mints_hash txo_output_list_hash deposits_next_index =
     \<lparr> tip_state = hu_tip_state u,
       finalized_state =
         \<lparr> sc_block_hash = hu_finalized_block_hash u,
           sc_block_merkle_tree_root = hu_finalized_block_merkle_tree_root u,
           sc_pending_mints_finalized_hash = pending_mints_hash,
           sc_txo_output_list_finalized_hash = txo_output_list_hash,
           sc_auto_claimed_txo_tree_root = hu_finalized_auto_claimed_txo_tree_root u,
           sc_auto_claimed_deposits_tree_root = hu_finalized_auto_claimed_deposits_tree_root u,
           sc_auto_claimed_deposits_next_index = deposits_next_index,
           sc_block_height = (if required_confirmations \<le> ts_block_height (hu_tip_state u)
                              then ts_block_height (hu_tip_state u) - required_confirmations else 0) \<rparr>,
       bridge_state_hash = hu_bridge_state_hash u,
       last_rollback_at_secs = hu_last_rollback_at_secs u,
       paused_until_secs = hu_paused_until_secs u,
       total_finalized_fees_collected_chain_history = hu_total_finalized_fees_collected_chain_history u \<rparr>"

definition header_is_paused :: "PsyBridgeHeader \<Rightarrow> u32 \<Rightarrow> bool" where
  "header_is_paused h current_unix_timestamp_secs \<longleftrightarrow> paused_until_secs h > current_unix_timestamp_secs"

definition enc_state_commitment :: "PsyBridgeStateCommitment \<Rightarrow> bytes" where
  "enc_state_commitment c = sc_block_hash c @ sc_block_merkle_tree_root c @ sc_pending_mints_finalized_hash c @
     sc_txo_output_list_finalized_hash c @ sc_auto_claimed_txo_tree_root c @ sc_auto_claimed_deposits_tree_root c @
     to_le_bytes (sc_auto_claimed_deposits_next_index c) @ to_le_bytes (sc_block_height c)"

definition dec_state_commitment :: "bytes \<Rightarrow> PsyBridgeStateCommitment" where
  "dec_state_commitment bs =
     \<lparr> sc_block_hash = bslice bs 0 32, sc_block_merkle_tree_root = bslice bs 32 64,
       sc_pending_mints_finalized_hash = bslice bs 64 96, sc_txo_output_list_finalized_hash = bslice bs 96 128,
       sc_auto_claimed_txo_tree_root = bslice bs 128 160, sc_auto_claimed_deposits_tree_root = bslice bs 160 192,
       sc_auto_claimed_deposits_next_index = from_le_bytes (bslice bs 192 196),
       sc_block_height = from_le_bytes (bslice bs 196 200) \<rparr>"

definition wf_state_commitment :: "PsyBridgeStateCommitment \<Rightarrow> bool" where
  "wf_state_commitment c \<longleftrightarrow> length (sc_block_hash c) = 32 \<and> length (sc_block_merkle_tree_root c) = 32 \<and>
     length (sc_pending_mints_finalized_hash c) = 32 \<and> length (sc_txo_output_list_finalized_hash c) = 32 \<and>
     length (sc_auto_claimed_txo_tree_root c) = 32 \<and> length (sc_auto_claimed_deposits_tree_root c) = 32"

interpretation state_commitment: fixed_codec enc_state_commitment dec_state_commitment wf_state_commitment 200
  by unfold_locales
     (simp_all add: enc_state_commitment_def dec_state_commitment_def wf_state_commitment_def codec_simps)

definition enc_tip_state :: "PsyBridgeTipStateCommitment \<Rightarrow> bytes" where
  "enc_tip_state t = ts_block_hash t @ ts_block_merkle_tree_root t @ to_le_bytes (ts_block_time t) @
     to_le_bytes (ts_block_height t)"

definition dec_tip_state :: "bytes \<Rightarrow> PsyBridgeTipStateCommitment" where
  "dec_tip_state bs =
     \<lparr> ts_block_hash = bslice bs 0 32, ts_block_merkle_tree_root = bslice bs 32 64,
       ts_block_time = from_le_bytes (bslice bs 64 68), ts_block_height = from_le_bytes (bslice bs 68 72) \<rparr>"

definition wf_tip_state :: "PsyBridgeTipStateCommitment \<Rightarrow> bool" where
  "wf_tip_state t \<longleftrightarrow> length (ts_block_hash t) = 32 \<and> length (ts_block_merkle_tree_root t) = 32"

interpretation tip_codec: fixed_codec enc_tip_state dec_tip_state wf_tip_state 72
  by unfold_locales (simp_all add: enc_tip_state_def dec_tip_state_def wf_tip_state_def codec_simps)

definition enc_header :: "PsyBridgeHeader \<Rightarrow> bytes" where
  "enc_header h = enc_tip_state (tip_state h) @ enc_state_commitment (finalized_state h) @ bridge_state_hash h @
     to_le_bytes (last_rollback_at_secs h) @ to_le_bytes (paused_until_secs h) @
     to_le_bytes (total_finalized_fees_collected_chain_history h)"

definition dec_header :: "bytes \<Rightarrow> PsyBridgeHeader" where
  "dec_header bs =
     \<lparr> tip_state = dec_tip_state (bslice bs 0 72), finalized_state = dec_state_commitment (bslice bs 72 272),
       bridge_state_hash = bslice bs 272 304, last_rollback_at_secs = from_le_bytes (bslice bs 304 308),
       paused_until_secs = from_le_bytes (bslice bs 308 312),
       total_finalized_fees_collected_chain_history = from_le_bytes (bslice bs 312 320) \<rparr>"

definition wf_header :: "PsyBridgeHeader \<Rightarrow> bool" where
  "wf_header h \<longleftrightarrow> wf_tip_state (tip_state h) \<and> wf_state_commitment (finalized_state h) \<and>
     length (bridge_state_hash h) = 32"

interpretation header: fixed_codec enc_header dec_header wf_header 320
  by unfold_locales
     (simp_all add: enc_header_def dec_header_def wf_header_def codec_simps
       tip_codec.enc_length tip_codec.dec_enc tip_codec.enc_dec tip_codec.wf_dec
       state_commitment.enc_length state_commitment.dec_enc state_commitment.enc_dec state_commitment.wf_dec)

definition get_hash_canonical :: "(bytes \<Rightarrow> bytes) \<Rightarrow> PsyBridgeHeader \<Rightarrow> QHash256" where
  "get_hash_canonical sha h = hash_impl_sha256_bytes sha (enc_header h)"


section \<open>Withdrawals, configuration and pending-mint records\<close>

record PsyWithdrawalRequest =
  wr_amount_sats :: u64
  wr_address_type :: u32
  wr_recipient_address :: bytes

definition withdrawal_request_new :: "bytes \<Rightarrow> u64 \<Rightarrow> u32 \<Rightarrow> PsyWithdrawalRequest" where
  "withdrawal_request_new recipient_address amount_sats address_type =
     \<lparr> wr_amount_sats = amount_sats, wr_address_type = address_type, wr_recipient_address = recipient_address \<rparr>"

definition to_leaf :: "PsyWithdrawalRequest \<Rightarrow> QHash256" where
  "to_leaf r =
     (let bs = replicate 32 0;
          bs = write_at bs 0 (to_le_bytes (wr_amount_sats r));
          bs = write_at bs 8 (to_le_bytes (wr_address_type r));
          bs = write_at bs 12 (wr_recipient_address r)
      in bs)"

definition from_leaf :: "QHash256 \<Rightarrow> PsyWithdrawalRequest" where
  "from_leaf leaf =
     \<lparr> wr_amount_sats = from_le_bytes (bslice leaf 0 8), wr_address_type = from_le_bytes (bslice leaf 8 12),
       wr_recipient_address = bslice leaf 12 32 \<rparr>"

definition wf_withdrawal_request :: "PsyWithdrawalRequest \<Rightarrow> bool" where
  "wf_withdrawal_request r \<longleftrightarrow> length (wr_recipient_address r) = 20"

lemma to_leaf_append:
  "wf_withdrawal_request r \<Longrightarrow>
   to_leaf r = to_le_bytes (wr_amount_sats r) @ to_le_bytes (wr_address_type r) @ wr_recipient_address r"
  by (simp add: to_leaf_def Let_def write_at_def wf_withdrawal_request_def)

interpretation withdrawal_leaf: fixed_codec to_leaf from_leaf wf_withdrawal_request 32
proof
  fix x assume wf: "wf_withdrawal_request x"
  then show "length (to_leaf x) = 32" by (simp add: to_leaf_append) (simp add: wf_withdrawal_request_def)
  from wf show "from_leaf (to_leaf x) = x"
    by (simp add: to_leaf_append from_leaf_def) (simp add: wf_withdrawal_request_def codec_simps)
next
  fix bs :: bytes assume len: "length bs = 32"
  then show wf: "wf_withdrawal_request (from_leaf bs)" by (simp add: wf_withdrawal_request_def from_leaf_def)
  from len show "to_leaf (from_leaf bs) = bs"
    by (simp add: to_leaf_append [OF wf]) (simp add: from_leaf_def codec_simps)
qed

record PsyWithdrawalChainSnapshot =
  ws_auto_claimed_deposits_tree_root :: QHash256
  ws_requested_withdrawals_tree_root :: QHash256
  ws_block_merkle_tree_root :: QHash256
  ws_manual_deposits_tree_root :: QHash256
  ws_block_height :: u32
  ws_last_snapshotted_for_withdrawals_seconds :: u32
  ws_next_requested_withdrawals_tree_index :: u64
  ws_next_manual_deposits_tree_index :: u64

definition enc_snapshot :: "PsyWithdrawalChainSnapshot \<Rightarrow> bytes" where
  "enc_snapshot s = ws_auto_claimed_deposits_tree_root s @ ws_requested_withdrawals_tree_root s @
     ws_block_merkle_tree_root s @ ws_manual_deposits_tree_root s @ to_le_bytes (ws_block_height s) @
     to_le_bytes (ws_last_snapshotted_for_withdrawals_seconds s) @
     to_le_bytes (ws_next_requested_withdrawals_tree_index s) @ to_le_bytes (ws_next_manual_deposits_tree_index s)"

definition dec_snapshot :: "bytes \<Rightarrow> PsyWithdrawalChainSnapshot" where
  "dec_snapshot bs =
     \<lparr> ws_auto_claimed_deposits_tree_root = bslice bs 0 32, ws_requested_withdrawals_tree_root = bslice bs 32 64,
       ws_block_merkle_tree_root = bslice bs 64 96, ws_manual_deposits_tree_root = bslice bs 96 128,
       ws_block_height = from_le_bytes (bslice bs 128 132),
       ws_last_snapshotted_for_withdrawals_seconds = from_le_bytes (bslice bs 132 136),
       ws_next_requested_withdrawals_tree_index = from_le_bytes (bslice bs 136 144),
       ws_next_manual_deposits_tree_index = from_le_bytes (bslice bs 144 152) \<rparr>"

definition wf_snapshot :: "PsyWithdrawalChainSnapshot \<Rightarrow> bool" where
  "wf_snapshot s \<longleftrightarrow> length (ws_auto_claimed_deposits_tree_root s) = 32 \<and>
     length (ws_requested_withdrawals_tree_root s) = 32 \<and> length (ws_block_merkle_tree_root s) = 32 \<and>
     length (ws_manual_deposits_tree_root s) = 32"

interpretation snapshot: fixed_codec enc_snapshot dec_snapshot wf_snapshot 152
  by unfold_locales (simp_all add: enc_snapshot_def dec_snapshot_def wf_snapshot_def codec_simps)

definition snapshot_get_hash :: "(bytes \<Rightarrow> bytes) \<Rightarrow> PsyWithdrawalChainSnapshot \<Rightarrow> QHash256" where
  "snapshot_get_hash sha s = hash_impl_sha256_bytes sha (enc_snapshot s)"

record PsyReturnTxOutput =
  ro_sighash :: QHash256
  ro_output_index :: u64
  ro_amount_sats :: u64

definition enc_return_output :: "PsyReturnTxOutput \<Rightarrow> bytes" where
  "enc_return_output r = ro_sighash r @ to_le_bytes (ro_output_index r) @ to_le_bytes (ro_amount_sats r)"

definition dec_return_output :: "bytes \<Rightarrow> PsyReturnTxOutput" where
  "dec_return_output bs =
     \<lparr> ro_sighash = bslice bs 0 32, ro_output_index = from_le_bytes (bslice bs 32 40),
       ro_amount_sats = from_le_bytes (bslice bs 40 48) \<rparr>"

definition wf_return_output :: "PsyReturnTxOutput \<Rightarrow> bool" where
  "wf_return_output r \<longleftrightarrow> length (ro_sighash r) = 32"

interpretation return_output: fixed_codec enc_return_output dec_return_output wf_return_output 48
  by unfold_locales (simp_all add: enc_return_output_def dec_return_output_def wf_return_output_def codec_simps)

definition return_output_get_hash :: "(bytes \<Rightarrow> bytes) \<Rightarrow> PsyReturnTxOutput \<Rightarrow> QHash256" where
  "return_output_get_hash sha r = hash_impl_sha256_bytes sha (enc_return_output r)"

record PsyBridgeConfig =
  deposit_fee_rate_numerator :: u64
  deposit_fee_rate_denominator :: u64
  withdrawal_fee_rate_numerator :: u64
  withdrawal_fee_rate_denominator :: u64
  deposit_flat_fee_sats :: u64
  withdrawal_flat_fee_sats :: u64

definition enc_config :: "PsyBridgeConfig \<Rightarrow> bytes" where
  "enc_config c = to_le_bytes (deposit_fee_rate_numerator c) @ to_le_bytes (deposit_fee_rate_denominator c) @
     to_le_bytes (withdrawal_fee_rate_numerator c) @ to_le_bytes (withdrawal_fee_rate_denominator c) @
     to_le_bytes (deposit_flat_fee_sats c) @ to_le_bytes (withdrawal_flat_fee_sats c)"

definition dec_config :: "bytes \<Rightarrow> PsyBridgeConfig" where
  "dec_config bs =
     \<lparr> deposit_fee_rate_numerator = from_le_bytes (bslice bs 0 8),
       deposit_fee_rate_denominator = from_le_bytes (bslice bs 8 16),
       withdrawal_fee_rate_numerator = from_le_bytes (bslice bs 16 24),
       withdrawal_fee_rate_denominator = from_le_bytes (bslice bs 24 32),
       deposit_flat_fee_sats = from_le_bytes (bslice bs 32 40),
       withdrawal_flat_fee_sats = from_le_bytes (bslice bs 40 48) \<rparr>"

interpretation config: fixed_codec enc_config dec_config "\<lambda>_. True" 48
  by unfold_locales (simp_all add: enc_config_def dec_config_def codec_simps)

definition config_get_hash :: "(bytes \<Rightarrow> bytes) \<Rightarrow> PsyBridgeConfig \<Rightarrow> QHash256" where
  "config_get_hash sha c = hash_impl_sha256_bytes sha (enc_config c)"

record FinalizedBlockMintTxoInfo =
  fi_pending_mints_finalized_hash :: QHash256
  fi_txo_output_list_finalized_hash :: QHash256

definition enc_mint_txo_info :: "FinalizedBlockMintTxoInfo \<Rightarrow> bytes" where
  "enc_mint_txo_info i = fi_pending_mints_finalized_hash i @ fi_txo_output_list_finalized_hash i"

definition dec_mint_txo_info :: "bytes \<Rightarrow> FinalizedBlockMintTxoInfo" where
  "dec_mint_txo_info bs =
     \<lparr> fi_pending_mints_finalized_hash = bslice bs 0 32, fi_txo_output_list_finalized_hash = bslice bs 32 64 \<rparr>"

definition wf_mint_txo_info :: "FinalizedBlockMintTxoInfo \<Rightarrow> bool" where
  "wf_mint_txo_info i \<longleftrightarrow> length (fi_pending_mints_finalized_hash i) = 32 \<and>
     length (fi_txo_output_list_finalized_hash i) = 32"

interpretation mint_txo_info: fixed_codec enc_mint_txo_info dec_mint_txo_info wf_mint_txo_info 64
  by unfold_locales (simp_all add: enc_mint_txo_info_def dec_mint_txo_info_def wf_mint_txo_info_def codec_simps)

end
