(* ===== verification/PendingMintData.thy ===== *)
theory PendingMintData
  imports Layouts
begin

text \<open>
  The account data of the two mint buffers (\<open>data_accounts/pending_mint.rs\<close>): the
  pending-mint record, the two buffer headers with their layouts, the sizes, and the two
  hashes that stand for empty buffers. A mint buffer is a header of 72 bytes, one 32-byte
  hash per group of 24 mints, and 40 bytes per mint; a txo buffer is a header of 48 bytes
  and 4 bytes per output.
\<close>

record PendingMint =
  pm_recipient :: pubkey
  pm_amount :: u64

definition enc_pending_mint :: "PendingMint \<Rightarrow> bytes" where
  "enc_pending_mint m = pm_recipient m @ to_le_bytes (pm_amount m)"

definition dec_pending_mint :: "bytes \<Rightarrow> PendingMint" where
  "dec_pending_mint bs = \<lparr> pm_recipient = bslice bs 0 32, pm_amount = from_le_bytes (bslice bs 32 40) \<rparr>"

definition wf_pending_mint :: "PendingMint \<Rightarrow> bool" where
  "wf_pending_mint m \<longleftrightarrow> length (pm_recipient m) = 32"

abbreviation PM_DA_PENDING_MINT_SIZE :: nat where
  "PM_DA_PENDING_MINT_SIZE \<equiv> 40"

interpretation pending_mint: fixed_codec enc_pending_mint dec_pending_mint wf_pending_mint PM_DA_PENDING_MINT_SIZE
  by unfold_locales (simp_all add: enc_pending_mint_def dec_pending_mint_def wf_pending_mint_def codec_simps)

record PendingMintsBufferStateHeader =
  bh_authorized_locker_public_key :: pubkey
  bh_authorized_writer_public_key :: pubkey
  bh_is_locked :: u8
  bh_mode :: u8
  bh_pending_mint_groups_count :: u16
  bh_pending_mints_initialized :: u16
  bh_pending_mints_count :: u16

abbreviation PM_DA_PENDING_MINTS_BUFFER_STATE_HEADER_SIZE :: nat where
  "PM_DA_PENDING_MINTS_BUFFER_STATE_HEADER_SIZE \<equiv> 72"

definition enc_buffer_header :: "PendingMintsBufferStateHeader \<Rightarrow> bytes" where
  "enc_buffer_header h = bh_authorized_locker_public_key h @ bh_authorized_writer_public_key h @
     [bh_is_locked h] @ [bh_mode h] @ to_le_bytes (bh_pending_mint_groups_count h) @
     to_le_bytes (bh_pending_mints_initialized h) @ to_le_bytes (bh_pending_mints_count h)"

definition dec_buffer_header :: "bytes \<Rightarrow> PendingMintsBufferStateHeader" where
  "dec_buffer_header bs =
     \<lparr> bh_authorized_locker_public_key = bslice bs 0 32, bh_authorized_writer_public_key = bslice bs 32 64,
       bh_is_locked = bs ! 64, bh_mode = bs ! 65,
       bh_pending_mint_groups_count = from_le_bytes (bslice bs 66 68),
       bh_pending_mints_initialized = from_le_bytes (bslice bs 68 70),
       bh_pending_mints_count = from_le_bytes (bslice bs 70 72) \<rparr>"

definition wf_buffer_header :: "PendingMintsBufferStateHeader \<Rightarrow> bool" where
  "wf_buffer_header h \<longleftrightarrow> length (bh_authorized_locker_public_key h) = 32 \<and>
     length (bh_authorized_writer_public_key h) = 32"

lemma single_byte_slice: "i < length bs \<Longrightarrow> [bs ! i] = bslice bs i (Suc i)"
  by (simp add: bslice_def take_Suc_conv_app_nth [of 0, simplified] Cons_nth_drop_Suc [symmetric])

interpretation buffer_header: fixed_codec enc_buffer_header dec_buffer_header wf_buffer_header
  PM_DA_PENDING_MINTS_BUFFER_STATE_HEADER_SIZE
proof
  fix bs :: bytes assume len: "length bs = PM_DA_PENDING_MINTS_BUFFER_STATE_HEADER_SIZE"
  have "[bs ! 64] = bslice bs 64 65" "[bs ! 65] = bslice bs 65 66"
    using len single_byte_slice [of 64 bs] single_byte_slice [of 65 bs] by simp_all
  then show "enc_buffer_header (dec_buffer_header bs) = bs"
    using len unfolding enc_buffer_header_def dec_buffer_header_def by (simp add: codec_simps)
qed (simp_all add: enc_buffer_header_def dec_buffer_header_def wf_buffer_header_def codec_simps nth_append)

abbreviation PM_MAX_PENDING_MINTS_PER_GROUP :: nat where
  "PM_MAX_PENDING_MINTS_PER_GROUP \<equiv> 24"

abbreviation PM_MAX_PENDING_MINTS_PER_GROUP_U16 :: u16 where
  "PM_MAX_PENDING_MINTS_PER_GROUP_U16 \<equiv> 24"

definition pm_calculate_data_account_min_size :: "u16 \<Rightarrow> nat" where
  "pm_calculate_data_account_min_size pending_mints_count =
     (let groups = (unat pending_mints_count + PM_MAX_PENDING_MINTS_PER_GROUP - 1) div PM_MAX_PENDING_MINTS_PER_GROUP
      in PM_DA_PENDING_MINTS_BUFFER_STATE_HEADER_SIZE + groups * 32 + unat pending_mints_count * PM_DA_PENDING_MINT_SIZE)"

definition PM_DA_DEFAULT_PENDING_MINTS_BUFFER_HASH :: QHash256 where
  "PM_DA_DEFAULT_PENDING_MINTS_BUFFER_HASH =
     [150, 162, 150, 210, 36, 242, 133, 198, 123, 238, 147, 195, 15, 138, 48, 145, 87, 240, 218, 163,
      93, 197, 184, 126, 65, 11, 120, 99, 10, 9, 207, 199]"

record PendingMintsTxoBufferHeader =
  th_authorized_writer :: pubkey
  th_init_status :: u16
  th_finalized_status :: u16
  th_doge_block_height :: u32
  th_batch_id :: u32
  th_data_size :: u32

abbreviation PM_TXO_BUFFER_HEADER_SIZE :: nat where
  "PM_TXO_BUFFER_HEADER_SIZE \<equiv> 48"

definition enc_txo_header :: "PendingMintsTxoBufferHeader \<Rightarrow> bytes" where
  "enc_txo_header h = th_authorized_writer h @ to_le_bytes (th_init_status h) @ to_le_bytes (th_finalized_status h) @
     to_le_bytes (th_doge_block_height h) @ to_le_bytes (th_batch_id h) @ to_le_bytes (th_data_size h)"

definition dec_txo_header :: "bytes \<Rightarrow> PendingMintsTxoBufferHeader" where
  "dec_txo_header bs =
     \<lparr> th_authorized_writer = bslice bs 0 32, th_init_status = from_le_bytes (bslice bs 32 34),
       th_finalized_status = from_le_bytes (bslice bs 34 36), th_doge_block_height = from_le_bytes (bslice bs 36 40),
       th_batch_id = from_le_bytes (bslice bs 40 44), th_data_size = from_le_bytes (bslice bs 44 48) \<rparr>"

definition wf_txo_header :: "PendingMintsTxoBufferHeader \<Rightarrow> bool" where
  "wf_txo_header h \<longleftrightarrow> length (th_authorized_writer h) = 32"

interpretation txo_header: fixed_codec enc_txo_header dec_txo_header wf_txo_header PM_TXO_BUFFER_HEADER_SIZE
  by unfold_locales (simp_all add: enc_txo_header_def dec_txo_header_def wf_txo_header_def codec_simps)

definition PM_TXO_DEFAULT_BUFFER_HASH :: QHash256 where
  "PM_TXO_DEFAULT_BUFFER_HASH =
     [227, 176, 196, 66, 152, 252, 28, 20, 154, 251, 244, 200, 153, 111, 185, 36, 39, 174, 65, 228,
      100, 155, 147, 76, 164, 149, 153, 27, 120, 82, 184, 85]"

definition pm_txo_data_account_min_size :: "u16 \<Rightarrow> nat" where
  "pm_txo_data_account_min_size total_pending_mints = PM_TXO_BUFFER_HEADER_SIZE + unat total_pending_mints * 4"

text \<open>The emptiness test of \<open>FinalizedBlockMintTxoInfo\<close> in \<open>mint_group.rs\<close>.\<close>

definition info_is_empty :: "FinalizedBlockMintTxoInfo \<Rightarrow> bool" where
  "info_is_empty i \<longleftrightarrow>
     fi_pending_mints_finalized_hash i = PM_DA_DEFAULT_PENDING_MINTS_BUFFER_HASH \<and>
     fi_txo_output_list_finalized_hash i = PM_TXO_DEFAULT_BUFFER_HASH"

lemma zero32_not_default: "zero32 \<noteq> PM_DA_DEFAULT_PENDING_MINTS_BUFFER_HASH"
proof
  assume "zero32 = PM_DA_DEFAULT_PENDING_MINTS_BUFFER_HASH"
  then have "zero32 ! 0 = PM_DA_DEFAULT_PENDING_MINTS_BUFFER_HASH ! 0" by simp
  then show False by (simp add: PM_DA_DEFAULT_PENDING_MINTS_BUFFER_HASH_def)
qed

section \<open>Groups of mints\<close>

text \<open>\<open>compute_mint_group_info\<close> of \<open>block_update.rs\<close>: the number of groups and the size of the last.\<close>

definition compute_mint_group_info :: "u16 \<Rightarrow> u16 \<times> u16" where
  "compute_mint_group_info total_mints =
     (if total_mints = 0 then (0, 0)
      else let rem = total_mints mod PM_MAX_PENDING_MINTS_PER_GROUP_U16;
               last_group_size = (if rem = 0 then PM_MAX_PENDING_MINTS_PER_GROUP_U16 else rem)
           in if rem = 0 then (total_mints div PM_MAX_PENDING_MINTS_PER_GROUP_U16, last_group_size)
              else (total_mints div PM_MAX_PENDING_MINTS_PER_GROUP_U16 + 1, last_group_size))"

definition group_count :: "nat \<Rightarrow> nat" where
  "group_count n = (n + 23) div 24"

lemma group_count_zero_iff [simp]: "group_count n = 0 \<longleftrightarrow> n = 0"
  by (auto simp: group_count_def div_eq_0_iff)

lemma group_count_0 [simp]: "group_count 0 = 0"
  by simp

lemma u16_bound: "unat (x :: u16) < 65536"
proof -
  have "unat x < 2 ^ LENGTH(16)" by (rule unsigned_less)
  then show ?thesis by simp
qed

lemma unat_mod_24: "unat (x mod 24 :: u16) = unat x mod 24"
  by (simp add: unat_mod)

lemma unat_div_24: "unat (x div 24 :: u16) = unat x div 24"
  by (simp add: unat_div)

lemma mod_24_eq_0: "x mod 24 = (0 :: u16) \<longleftrightarrow> unat x mod 24 = 0"
  by (simp only: word_unat_eq_iff unat_mod_24) simp

lemma unat_div_24_Suc: "unat (x div 24 + 1 :: u16) = unat x div 24 + 1"
  using u16_bound [of x] by (simp add: unat_word_ariths(1) unat_div_24)

lemma group_count_div_mod: "group_count n = n div 24 + (if n mod 24 = 0 then 0 else 1)"
proof -
  have "n + 23 = 24 * (n div 24) + (n mod 24 + 23)" using div_mult_mod_eq [of n 24] by linarith
  then have "group_count n = n div 24 + (n mod 24 + 23) div 24"
    unfolding group_count_def by (metis div_mult_self4 zero_neq_numeral)
  moreover have "(r + 23) div 24 = (if r = 0 then 0 else 1)" if "r < 24" for r :: nat
    using that by (auto simp: div_if)
  ultimately show ?thesis by simp
qed

text \<open>The two components in natural numbers.\<close>

lemma mint_group_info_nat:
  "unat (fst (compute_mint_group_info n)) = unat n div 24 + (if unat n mod 24 = 0 then 0 else 1)"
  "unat (snd (compute_mint_group_info n)) =
     (if n = 0 then 0 else if unat n mod 24 = 0 then 24 else unat n mod 24)"
  by (auto simp: compute_mint_group_info_def Let_def mod_24_eq_0 unat_div_24 unat_div_24_Suc unat_mod_24
      simp del: One_nat_def)

lemma mint_group_count: "unat (fst (compute_mint_group_info n)) = group_count (unat n)"
  by (simp only: mint_group_info_nat group_count_div_mod)

text \<open>All groups but the last are full, and the sizes add up to the number of mints.\<close>

lemma mint_group_sizes:
  assumes "n \<noteq> 0"
  shows "1 \<le> unat (snd (compute_mint_group_info n)) \<and> unat (snd (compute_mint_group_info n)) \<le> 24 \<and>
    unat n = 24 * (unat (fst (compute_mint_group_info n)) - 1) + unat (snd (compute_mint_group_info n))"
proof -
  have pos: "0 < unat n" using assms by (simp add: unat_gt_0)
  have split: "unat n = 24 * (unat n div 24) + unat n mod 24" "unat n mod 24 < 24" by simp_all
  show ?thesis
  proof (cases "unat n mod 24 = 0")
    case True
    then have "0 < unat n div 24" using split(1) pos by (cases "unat n div 24") simp_all
    then have "unat n = 24 * (unat n div 24 - 1) + 24" using split(1) True by (cases "unat n div 24") simp_all
    with True assms show ?thesis unfolding mint_group_info_nat by simp
  next
    case False
    with split assms show ?thesis unfolding mint_group_info_nat by simp
  qed
qed

lemma min_size_group_count:
  "pm_calculate_data_account_min_size n = 72 + group_count (unat n) * 32 + unat n * 40"
  by (simp add: pm_calculate_data_account_min_size_def group_count_def Let_def)

end
