(* ===== verification/MintGroup.thy ===== *)
theory MintGroup
  imports PendingMintData
begin

text \<open>
  The bookkeeping of pending mints (\<open>program_state/mint_group.rs\<close>): the tracker of the block
  whose mints are being paid out (a bitmap of claimed groups and a counter), and the manager
  of up to eight finalized blocks with pending mints. Indexing the 32-byte bitmap past its
  end panics, as in the source.
\<close>

section \<open>The tracker\<close>

record PendingMintsTracker =
  pt_storage_account :: pubkey
  pt_claimed :: bytes
  pt_total_pending_mints :: u32
  pt_groups_remaining :: u32

definition empty_tracker :: PendingMintsTracker where
  "empty_tracker = \<lparr> pt_storage_account = zero32, pt_claimed = zero32,
                     pt_total_pending_mints = 0, pt_groups_remaining = 0 \<rparr>"

definition tracker_is_empty :: "PendingMintsTracker \<Rightarrow> bool" where
  "tracker_is_empty t \<longleftrightarrow> pt_groups_remaining t = 0"

definition is_pending_mints_group_already_claimed :: "PendingMintsTracker \<Rightarrow> u16 \<Rightarrow> bool QDogeResult" where
  "is_pending_mints_group_already_claimed t group_index =
     (let byte_index = unat (drop_bit 3 group_index)
      in if length (pt_claimed t) \<le> byte_index then Inl Panic
         else Inr (drop_bit (unat (group_index AND 7)) (pt_claimed t ! byte_index) AND 1 = 1))"

definition get_current_total_pending_mints_groups :: "PendingMintsTracker \<Rightarrow> u16" where
  "get_current_total_pending_mints_groups t =
     (if (ucast (pt_total_pending_mints t) :: u16) mod PM_MAX_PENDING_MINTS_PER_GROUP_U16 = 0
      then ucast (pt_total_pending_mints t) div PM_MAX_PENDING_MINTS_PER_GROUP_U16
      else ucast (pt_total_pending_mints t) div PM_MAX_PENDING_MINTS_PER_GROUP_U16 + 1)"

definition ensure_can_claim_pending_mints_group :: "PendingMintsTracker \<Rightarrow> u16 \<Rightarrow> unit QDogeResult" where
  "ensure_can_claim_pending_mints_group t group_index =
     (if pt_total_pending_mints t = 0 \<or> pt_groups_remaining t = 0 then Inl (Err NoPendingMintsToProcess)
      else if group_index > 256 then Inl (Err PendingMintsGroupIndexOutOfBounds)
      else if group_index \<ge> get_current_total_pending_mints_groups t then Inl (Err PendingMintsGroupIndexOutOfBounds)
      else rbind (is_pending_mints_group_already_claimed t group_index) (\<lambda>claimed.
           if claimed then Inl (Err PendingMintsGroupAlreadyProcessed) else Inr ()))"

definition tracker_mark_pending_mints_group_claimed ::
  "PendingMintsTracker \<Rightarrow> u16 \<Rightarrow> (PendingMintsTracker \<times> bool) QDogeResult" where
  "tracker_mark_pending_mints_group_claimed t group_index =
     (if pt_total_pending_mints t \<le> 0 \<or> pt_groups_remaining t \<le> 0 then Inl (Err NoPendingMintsToProcess)
      else if group_index > 256 then Inl (Err PendingMintsGroupIndexOutOfBounds)
      else rbind (is_pending_mints_group_already_claimed t group_index) (\<lambda>claimed.
           if claimed then Inl (Err PendingMintsGroupAlreadyProcessed)
           else let byte_index = unat (drop_bit 3 group_index);
                    t' = t \<lparr> pt_claimed := (pt_claimed t)[byte_index :=
                               pt_claimed t ! byte_index OR push_bit (unat (group_index AND 7)) 1],
                             pt_groups_remaining := pt_groups_remaining t - 1 \<rparr>
                in Inr (t', pt_groups_remaining t' = 0)))"

section \<open>The manager\<close>

record FinalizedBlockMintTxoManager =
  fm_infos :: "FinalizedBlockMintTxoInfo list"
  fm_current_index :: u16
  fm_total_count :: u16
  fm_start_block_height :: u32
  fm_tracker :: PendingMintsTracker

definition default_info :: FinalizedBlockMintTxoInfo where
  "default_info = \<lparr> fi_pending_mints_finalized_hash = zero32, fi_txo_output_list_finalized_hash = zero32 \<rparr>"

definition manager_reset :: "FinalizedBlockMintTxoManager \<Rightarrow> FinalizedBlockMintTxoManager" where
  "manager_reset m = m \<lparr> fm_infos := replicate 8 default_info, fm_current_index := 0, fm_total_count := 0,
                         fm_start_block_height := 0, fm_tracker := empty_tracker \<rparr>"

definition manager_new_empty :: FinalizedBlockMintTxoManager where
  "manager_new_empty = \<lparr> fm_infos = replicate 8 default_info, fm_current_index = 0, fm_total_count = 0,
                         fm_start_block_height = 0, fm_tracker = empty_tracker \<rparr>"

definition manager_is_empty :: "FinalizedBlockMintTxoManager \<Rightarrow> bool" where
  "manager_is_empty m \<longleftrightarrow> fm_total_count m = 0 \<or>
     (fm_total_count m = fm_current_index m \<and> tracker_is_empty (fm_tracker m))"

text \<open>The loop of \<open>fast_forward_empty\<close>: how many entries from \<open>i\<close> on are empty, looking at \<open>k\<close> of them.\<close>

primrec count_empty_infos :: "FinalizedBlockMintTxoInfo list \<Rightarrow> nat \<Rightarrow> nat \<Rightarrow> nat QDogeResult" where
  "count_empty_infos infos i 0 = Inr 0"
| "count_empty_infos infos i (Suc k) =
     (if length infos \<le> i then Inl Panic
      else if \<not> info_is_empty (infos ! i) then Inr 0
      else rbind (count_empty_infos infos (Suc i) k) (\<lambda>n. Inr (Suc n)))"

definition fast_forward_empty :: "FinalizedBlockMintTxoManager \<Rightarrow> FinalizedBlockMintTxoManager QDogeResult" where
  "fast_forward_empty m =
     (if fm_current_index m \<ge> fm_total_count m \<or> \<not> tracker_is_empty (fm_tracker m) \<or> manager_is_empty m then Inr m
      else rbind (count_empty_infos (fm_infos m) (unat (fm_current_index m))
                    (unat (fm_total_count m) - unat (fm_current_index m))) (\<lambda>n.
           Inr (if n = 0 then m
                else m \<lparr> fm_current_index := fm_current_index m + of_nat n, fm_tracker := empty_tracker \<rparr>)))"

definition manager_mark_pending_mints_group_claimed ::
  "FinalizedBlockMintTxoManager \<Rightarrow> u16 \<Rightarrow> (FinalizedBlockMintTxoManager \<times> bool) QDogeResult" where
  "manager_mark_pending_mints_group_claimed m group_index =
     rbind (tracker_mark_pending_mints_group_claimed (fm_tracker m) group_index) (\<lambda>(t, result).
     let m' = m \<lparr> fm_tracker := t \<rparr>;
         m'' = (if result \<and> fm_current_index m' < fm_total_count m'
                then m' \<lparr> fm_current_index := fm_current_index m' + 1 \<rparr> else m')
     in Inr (m'', result))"

definition ensure_ready_to_start_next_pending_finalized_info :: "FinalizedBlockMintTxoManager \<Rightarrow> unit QDogeResult" where
  "ensure_ready_to_start_next_pending_finalized_info m =
     (if \<not> tracker_is_empty (fm_tracker m) then Inl (Err RemainingPendingMintsInPreviousState)
      else if fm_current_index m \<ge> fm_total_count m then Inl (Err NoPendingMintsToAutoProcess)
      else Inr ())"

definition standard_append_block ::
  "FinalizedBlockMintTxoManager \<Rightarrow> u32 \<Rightarrow> FinalizedBlockMintTxoInfo list \<Rightarrow> pubkey \<Rightarrow> u32 \<Rightarrow> u32 \<Rightarrow>
   FinalizedBlockMintTxoManager QDogeResult" where
  "standard_append_block m block_height block_groups auto_claim_mints_storage_account
       total_pending_mints_for_first_block total_pending_mints_groups_for_first_block =
     (if \<not> manager_is_empty m then Inl (Err PendingFinalizedBlockMintsNotEmpty)
      else if length block_groups > 8 then Inl (Err PendingFinalizedBlockMintsInvalidGroupCount)
      else if length block_groups = 0 then Inr m
      else let m1 = m \<lparr> fm_infos := write_at (fm_infos m) 0 block_groups,
                        fm_current_index := 0,
                        fm_total_count := of_nat (length block_groups),
                        fm_start_block_height := block_height,
                        fm_tracker := \<lparr> pt_storage_account = auto_claim_mints_storage_account, pt_claimed = zero32,
                                        pt_total_pending_mints = 0, pt_groups_remaining = 0 \<rparr> \<rparr>
      in rbind (fast_forward_empty m1) (\<lambda>m2.
         if manager_is_empty m2 then
           (if total_pending_mints_for_first_block \<noteq> 0 \<or> total_pending_mints_groups_for_first_block \<noteq> 0
            then Inl (Err PendingFinalizedBlockMintsInvalidAutoClaimMintsData) else Inr m2)
         else Inr (m2 \<lparr> fm_tracker := (fm_tracker m2)
                     \<lparr> pt_total_pending_mints := total_pending_mints_for_first_block,
                       pt_groups_remaining := total_pending_mints_groups_for_first_block \<rparr> \<rparr>)))"

section \<open>The bitmap as a set of groups\<close>

definition claimed_groups :: "PendingMintsTracker \<Rightarrow> nat set" where
  "claimed_groups t = {g. g < 256 \<and> bit (pt_claimed t ! (g div 8)) (g mod 8)}"

text \<open>
  The invariant: the claimed groups are groups of the block, and the counter is the number
  of groups that are not claimed.
\<close>

definition tracker_inv :: "PendingMintsTracker \<Rightarrow> bool" where
  "tracker_inv t \<longleftrightarrow> length (pt_claimed t) = 32 \<and> unat (pt_total_pending_mints t) < 65536 \<and>
     claimed_groups t \<subseteq> {..<group_count (unat (pt_total_pending_mints t))} \<and>
     unat (pt_groups_remaining t) + card (claimed_groups t) = group_count (unat (pt_total_pending_mints t))"

lemma finite_claimed_groups [simp]: "finite (claimed_groups t)"
  by (rule finite_subset [of _ "{..<256}"]) (auto simp: claimed_groups_def)

lemma card_claimed_groups: "card (claimed_groups t) \<le> 256"
proof -
  have "card (claimed_groups t) \<le> card {..<256 :: nat}"
    by (rule card_mono) (auto simp: claimed_groups_def)
  then show ?thesis by simp
qed

lemma unat_byte_index: "unat (drop_bit 3 (g :: u16)) = unat g div 8"
  by (simp only: unat_drop_bit) simp

lemma unat_bit_index: "unat ((g :: u16) AND 7) = unat g mod 8"
proof -
  have "(7 :: u16) = mask 3" by (simp add: mask_eq_exp_minus_1)
  then have "unat (g AND 7) = take_bit 3 (unat g)"
    by (simp only: take_bit_eq_mask [symmetric] unsigned_take_bit_eq)
  then show ?thesis by (simp only: take_bit_eq_mod) simp
qed

lemma already_claimed_iff:
  assumes "length (pt_claimed t) = 32"
  shows "is_pending_mints_group_already_claimed t g =
    (if 256 \<le> unat g then Inl Panic else Inr (unat g \<in> claimed_groups t))"
proof -
  have "32 \<le> unat g div 8 \<longleftrightarrow> 256 \<le> unat g" by auto
  then show ?thesis
    using assms
    by (simp add: is_pending_mints_group_already_claimed_def Let_def unat_byte_index unat_bit_index
        drop_bit_and_1 claimed_groups_def)
qed

lemma total_groups:
  "unat (pt_total_pending_mints t) < 65536 \<Longrightarrow>
   unat (get_current_total_pending_mints_groups t) = group_count (unat (pt_total_pending_mints t))"
  by (simp add: get_current_total_pending_mints_groups_def mod_24_eq_0 unat_div_24 unat_div_24_Suc
      unat_ucast_mod group_count_div_mod)

lemma claimed_groups_mark:
  assumes "length (pt_claimed t) = 32" and "g < 256"
  shows "claimed_groups (t \<lparr> pt_claimed := (pt_claimed t)[g div 8 := pt_claimed t ! (g div 8) OR push_bit (g mod 8) 1],
      pt_groups_remaining := r \<rparr>) = insert g (claimed_groups t)"
proof (rule set_eqI)
  fix k
  have "g div 8 < 32" using assms(2) by simp
  moreover have "k div 8 = g div 8 \<and> k mod 8 = g mod 8 \<longleftrightarrow> k = g" by (metis div_mult_mod_eq)
  moreover have "k mod 8 < 8" by simp
  ultimately show "k \<in> claimed_groups (t \<lparr> pt_claimed := (pt_claimed t)[g div 8 := pt_claimed t ! (g div 8) OR
      push_bit (g mod 8) 1], pt_groups_remaining := r \<rparr>) \<longleftrightarrow> k \<in> insert g (claimed_groups t)"
    using assms by (auto simp: claimed_groups_def nth_list_update bit_or_iff bit_exp_iff)
qed


lemma remaining_total: "tracker_inv t \<Longrightarrow> pt_groups_remaining t \<noteq> 0 \<Longrightarrow> pt_total_pending_mints t \<noteq> 0"
  by (auto simp: tracker_inv_def unat_eq_zero)

text \<open>Claiming a group: what a successful check and mark do to the invariant's quantities.\<close>

lemma ensure_can_claim_iff:
  assumes "tracker_inv t"
  shows "ensure_can_claim_pending_mints_group t g = Inr () \<longleftrightarrow>
    pt_groups_remaining t \<noteq> 0 \<and> unat g < 256 \<and>
    unat g < group_count (unat (pt_total_pending_mints t)) \<and> unat g \<notin> claimed_groups t"
proof -
  have len: "length (pt_claimed t) = 32" and tot: "unat (pt_total_pending_mints t) < 65536"
    using assms by (simp_all add: tracker_inv_def)
  show ?thesis
    using remaining_total [OF assms]
    by (auto simp: ensure_can_claim_pending_mints_group_def already_claimed_iff [OF len] word_le_nat_alt
        word_less_nat_alt total_groups [OF tot] result_simps not_le split: if_splits)
qed

lemma mark_claimed_ok:
  assumes inv: "tracker_inv t" and ok: "ensure_can_claim_pending_mints_group t g = Inr ()"
  obtains t' where "tracker_mark_pending_mints_group_claimed t g = Inr (t', pt_groups_remaining t' = 0)"
    and "claimed_groups t' = insert (unat g) (claimed_groups t)" and "tracker_inv t'"
    and "pt_total_pending_mints t' = pt_total_pending_mints t" and "pt_storage_account t' = pt_storage_account t"
    and "unat (pt_groups_remaining t') + 1 = unat (pt_groups_remaining t)"
proof -
  define t' where "t' = t \<lparr> pt_claimed := (pt_claimed t)[unat g div 8 := pt_claimed t ! (unat g div 8) OR
      push_bit (unat g mod 8) 1], pt_groups_remaining := pt_groups_remaining t - 1 \<rparr>"
  have len: "length (pt_claimed t) = 32" using inv by (simp add: tracker_inv_def)
  from ensure_can_claim_iff [OF inv] ok have g: "pt_groups_remaining t \<noteq> 0" "unat g < 256"
    "unat g < group_count (unat (pt_total_pending_mints t))" "unat g \<notin> claimed_groups t" by simp_all
  have tot: "pt_total_pending_mints t \<noteq> 0" using remaining_total [OF inv] g(1) .
  have rem: "unat (pt_groups_remaining t - 1) + 1 = unat (pt_groups_remaining t)"
    using g(1) by (simp add: unat_sub word_le_nat_alt unat_gt_0 Suc_le_eq)
  have cl: "claimed_groups t' = insert (unat g) (claimed_groups t)"
    unfolding t'_def by (rule claimed_groups_mark [OF len g(2)])
  have fields: "length (pt_claimed t') = length (pt_claimed t)" "pt_total_pending_mints t' = pt_total_pending_mints t"
    "pt_groups_remaining t' = pt_groups_remaining t - 1" by (simp_all add: t'_def)
  have "tracker_inv t'"
    using inv g rem unfolding tracker_inv_def cl fields by auto
  moreover have "\<not> 256 < g" using g(2) by (simp add: word_less_nat_alt)
  then have "tracker_mark_pending_mints_group_claimed t g = Inr (t', pt_groups_remaining t' = 0)"
    using g tot
    by (simp add: tracker_mark_pending_mints_group_claimed_def already_claimed_iff [OF len] Let_def
        unat_byte_index unat_bit_index t'_def word_le_nat_alt unat_eq_zero)
  ultimately show thesis using that cl rem by (simp add: t'_def)
qed

section \<open>Claiming as a step relation\<close>

inductive claim_step :: "PendingMintsTracker \<Rightarrow> PendingMintsTracker \<Rightarrow> bool" where
  claim: "ensure_can_claim_pending_mints_group t g = Inr () \<Longrightarrow>
    tracker_mark_pending_mints_group_claimed t g = Inr (t', finished) \<Longrightarrow> claim_step t t'"

inductive_cases claim_stepE: "claim_step t t'"

text \<open>A tracker as \<open>standard_append_block\<close> and \<open>run_setup_next_pending_buffer\<close> set it up.\<close>

definition fresh_tracker :: "PendingMintsTracker \<Rightarrow> bool" where
  "fresh_tracker t \<longleftrightarrow> pt_claimed t = zero32 \<and> unat (pt_total_pending_mints t) < 65536 \<and>
     unat (pt_groups_remaining t) = group_count (unat (pt_total_pending_mints t))"

lemma fresh_claimed_groups: "pt_claimed t = zero32 \<Longrightarrow> claimed_groups t = {}"
  by (auto simp: claimed_groups_def)

lemma fresh_tracker_inv: "fresh_tracker t \<Longrightarrow> tracker_inv t"
  by (simp add: fresh_tracker_def tracker_inv_def fresh_claimed_groups)

interpretation claims: step_invariant fresh_tracker claim_step tracker_inv
proof
  fix t t' assume "tracker_inv t" "claim_step t t'"
  then show "tracker_inv t'" by (auto elim!: claim_stepE elim: mark_claimed_ok)
qed (rule fresh_tracker_inv)

section \<open>The manager's invariant\<close>

definition manager_inv :: "FinalizedBlockMintTxoManager \<Rightarrow> bool" where
  "manager_inv m \<longleftrightarrow> length (fm_infos m) = 8 \<and> fm_current_index m \<le> fm_total_count m \<and>
     unat (fm_total_count m) \<le> 8 \<and> tracker_inv (fm_tracker m)"

lemma empty_tracker_inv: "tracker_inv empty_tracker"
  by (simp add: tracker_inv_def empty_tracker_def fresh_claimed_groups)

lemma manager_new_empty_inv: "manager_inv manager_new_empty"
  by (simp add: manager_inv_def manager_new_empty_def empty_tracker_inv)

lemma count_empty_infos_ok:
  "i + k \<le> length infos \<Longrightarrow> \<exists>n. count_empty_infos infos i k = Inr n \<and> n \<le> k \<and>
     (\<forall>j < n. info_is_empty (infos ! (i + j))) \<and> (n < k \<longrightarrow> \<not> info_is_empty (infos ! (i + n)))"
proof (induction k arbitrary: i)
  case 0
  then show ?case by simp
next
  case (Suc k)
  show ?case
  proof (cases "info_is_empty (infos ! i)")
    case False
    with Suc.prems show ?thesis by simp
  next
    case True
    obtain n where n: "count_empty_infos infos (Suc i) k = Inr n" "n \<le> k"
      "\<forall>j < n. info_is_empty (infos ! (Suc i + j))" "n < k \<longrightarrow> \<not> info_is_empty (infos ! (Suc i + n))"
      using Suc.IH [of "Suc i"] Suc.prems by auto
    have "info_is_empty (infos ! (i + j))" if "j < Suc n" for j
      using n(3) True that by (cases j) simp_all
    with n True Suc.prems show ?thesis by auto
  qed
qed

text \<open>
  Fast-forwarding skips exactly the leading empty entries: afterwards the manager is
  finished, or its current entry has mints, or its tracker is still busy.
\<close>

lemma fast_forward_empty_ok:
  assumes inv: "manager_inv m"
  obtains m' where "fast_forward_empty m = Inr m'" and "manager_inv m'"
    and "fm_infos m' = fm_infos m" and "fm_total_count m' = fm_total_count m"
    and "fm_start_block_height m' = fm_start_block_height m" and "fm_current_index m \<le> fm_current_index m'"
    and "tracker_is_empty (fm_tracker m) \<Longrightarrow> tracker_is_empty (fm_tracker m')"
    and "tracker_is_empty (fm_tracker m) \<Longrightarrow> fm_current_index m' < fm_total_count m' \<Longrightarrow>
      \<not> info_is_empty (fm_infos m' ! unat (fm_current_index m'))"
    and "\<And>j. unat (fm_current_index m) \<le> j \<Longrightarrow> j < unat (fm_current_index m') \<Longrightarrow> info_is_empty (fm_infos m ! j)"
    and "fm_current_index m' = fm_current_index m \<Longrightarrow> m' = m"
proof (cases "fm_current_index m \<ge> fm_total_count m \<or> \<not> tracker_is_empty (fm_tracker m) \<or> manager_is_empty m")
  case True
  have "fm_current_index m < fm_total_count m \<Longrightarrow> tracker_is_empty (fm_tracker m) \<Longrightarrow> False"
    using True by (auto simp: manager_is_empty_def)
  with True inv show thesis by (intro that [of m]) (auto simp: fast_forward_empty_def)
next
  case False
  let ?i = "unat (fm_current_index m)" and ?k = "unat (fm_total_count m) - unat (fm_current_index m)"
  have lt: "?i < unat (fm_total_count m)" using False by (simp add: word_less_nat_alt [symmetric] not_le)
  have "?i + ?k \<le> length (fm_infos m)" using inv lt by (simp add: manager_inv_def)
  from count_empty_infos_ok [OF this] obtain n where
    n: "count_empty_infos (fm_infos m) ?i ?k = Inr n" "n \<le> ?k" "\<forall>j < n. info_is_empty (fm_infos m ! (?i + j))"
      "n < ?k \<longrightarrow> \<not> info_is_empty (fm_infos m ! (?i + n))" by blast
  define m' where "m' = (if n = 0 then m
    else m \<lparr> fm_current_index := fm_current_index m + of_nat n, fm_tracker := empty_tracker \<rparr>)"
  have small: "n \<le> 8" "?i \<le> 8" using n(2) inv lt by (auto simp: manager_inv_def)
  have idx: "unat (fm_current_index m + of_nat n) = ?i + n"
    using small by (simp add: unat_word_ariths unat_of_nat)
  have i': "unat (fm_current_index m') = ?i + n" by (simp add: m'_def idx)
  have run: "fast_forward_empty m = Inr m'" using False n(1) by (simp add: fast_forward_empty_def m'_def)
  have inv': "manager_inv m'"
    using inv n(2) lt by (auto simp: m'_def manager_inv_def word_le_nat_alt idx empty_tracker_inv)
  show thesis
  proof (rule that [OF run inv'])
    show "\<And>j. ?i \<le> j \<Longrightarrow> j < unat (fm_current_index m') \<Longrightarrow> info_is_empty (fm_infos m ! j)"
      using n(3) i' by (metis add.commute less_diff_conv2 le_add_diff_inverse nat_add_left_cancel_less)
    show "fm_current_index m' < fm_total_count m' \<Longrightarrow> \<not> info_is_empty (fm_infos m' ! unat (fm_current_index m'))"
      using n(4) i' lt by (auto simp: word_less_nat_alt m'_def idx)
    show "fm_current_index m' = fm_current_index m \<Longrightarrow> m' = m"
      using i' by (simp add: m'_def split: if_splits)
  qed (use i' in \<open>auto simp: m'_def word_le_nat_alt tracker_is_empty_def empty_tracker_def idx\<close>)
qed


lemma claim_step_facts:
  assumes "tracker_inv t" and "claim_step t t'"
  obtains g :: u16 where "unat g \<notin> claimed_groups t" and "claimed_groups t' = insert (unat g) (claimed_groups t)"
    and "pt_total_pending_mints t' = pt_total_pending_mints t"
proof (rule claim_stepE [OF assms(2)])
  fix g finished
  assume ok: "ensure_can_claim_pending_mints_group t g = Inr ()"
    and mark: "tracker_mark_pending_mints_group_claimed t g = Inr (t', finished)"
  have "unat g \<notin> claimed_groups t" using ok by (simp add: ensure_can_claim_iff [OF assms(1)])
  moreover obtain u where "tracker_mark_pending_mints_group_claimed t g = Inr (u, pt_groups_remaining u = 0)"
    "claimed_groups u = insert (unat g) (claimed_groups t)" "pt_total_pending_mints u = pt_total_pending_mints t"
    by (rule mark_claimed_ok [OF assms(1) ok])
  ultimately show thesis using that [of g] mark by simp
qed

lemma claim_steps_total:
  assumes "claim_step\<^sup>*\<^sup>* s t" and "tracker_inv s"
  shows "pt_total_pending_mints t = pt_total_pending_mints s \<and> claimed_groups s \<subseteq> claimed_groups t"
  using assms(1)
proof (induction rule: rtranclp_induct)
  case base
  then show ?case by simp
next
  case (step t u)
  obtain g :: u16 where "claimed_groups u = insert (unat g) (claimed_groups t)"
    "pt_total_pending_mints u = pt_total_pending_mints t"
    by (rule claim_step_facts [OF claims.inv_steps [OF step.hyps(1) assms(2)] step.hyps(2)])
  with step.IH show ?case by auto
qed

lemma remaining_zero_iff:
  assumes "tracker_inv t"
  shows "pt_groups_remaining t = 0 \<longleftrightarrow> claimed_groups t = {..<group_count (unat (pt_total_pending_mints t))}"
proof
  assume "pt_groups_remaining t = 0"
  with assms have "claimed_groups t \<subseteq> {..<group_count (unat (pt_total_pending_mints t))}"
    "card {..<group_count (unat (pt_total_pending_mints t))} \<le> card (claimed_groups t)"
    by (simp_all add: tracker_inv_def)
  then show "claimed_groups t = {..<group_count (unat (pt_total_pending_mints t))}"
    by (simp add: card_seteq)
next
  assume "claimed_groups t = {..<group_count (unat (pt_total_pending_mints t))}"
  then show "pt_groups_remaining t = 0" using assms by (simp add: tracker_inv_def unat_eq_zero)
qed

lemma claim_progress:
  assumes inv: "tracker_inv t" and small: "group_count (unat (pt_total_pending_mints t)) \<le> 256"
    and busy: "pt_groups_remaining t \<noteq> 0"
  shows "\<exists>t'. claim_step t t' \<and> unat (pt_groups_remaining t') < unat (pt_groups_remaining t)"
proof -
  obtain g where g: "g < group_count (unat (pt_total_pending_mints t))" "g \<notin> claimed_groups t"
    using inv busy remaining_zero_iff [OF inv] by (auto simp: tracker_inv_def)
  have "unat (of_nat g :: u16) = g" using g(1) small by (simp add: unat_of_nat)
  then have "ensure_can_claim_pending_mints_group t (of_nat g) = Inr ()"
    using g small busy by (simp add: ensure_can_claim_iff [OF inv])
  then obtain t' where "claim_step t t'" "unat (pt_groups_remaining t') + 1 = unat (pt_groups_remaining t)"
    by (metis claim_step.claim mark_claimed_ok [OF inv])
  then show ?thesis by (intro exI [of _ t']) simp
qed

lemma claims_can_finish:
  assumes "tracker_inv t" and "group_count (unat (pt_total_pending_mints t)) \<le> 256"
  shows "\<exists>u. claim_step\<^sup>*\<^sup>* t u \<and> pt_groups_remaining u = 0"
  using assms
proof (induction "unat (pt_groups_remaining t)" arbitrary: t rule: less_induct)
  case less
  show ?case
  proof (cases "pt_groups_remaining t = 0")
    case True
    then show ?thesis by blast
  next
    case False
    obtain t' where t': "claim_step t t'" "unat (pt_groups_remaining t') < unat (pt_groups_remaining t)"
      using claim_progress [OF less.prems False] by blast
    have "pt_total_pending_mints t' = pt_total_pending_mints t"
      by (rule claim_step_facts [OF less.prems(1) t'(1)])
    then have "\<exists>u. claim_step\<^sup>*\<^sup>* t' u \<and> pt_groups_remaining u = 0"
      using less.hyps [OF t'(2)] claims.inv_step [OF less.prems(1) t'(1)] less.prems(2) by simp
    with t'(1) show ?thesis by (meson converse_rtranclp_into_rtranclp)
  qed
qed

lemma fresh_tracker_of:
  "n < 65536 \<Longrightarrow> fresh_tracker \<lparr> pt_storage_account = a, pt_claimed = zero32, pt_total_pending_mints = of_nat n,
     pt_groups_remaining = of_nat (group_count n) \<rparr>"
proof -
  assume n: "n < 65536"
  then have "group_count n < 65536" by (simp add: group_count_def)
  with n show ?thesis by (simp add: fresh_tracker_def unat_of_nat)
qed

lemma standard_append_block_ok:
  assumes inv: "manager_inv m" and empty: "manager_is_empty m" and len: "0 < length gs" "length gs \<le> 8"
    and n: "unat n < 65536" "unat k = group_count (unat n)"
    and run: "standard_append_block m h gs acc n k = Inr m'"
  shows "manager_inv m'" and "take (length gs) (fm_infos m') = gs" and "unat (fm_total_count m') = length gs"
    and "fm_start_block_height m' = h" and "\<forall>j < unat (fm_current_index m'). info_is_empty (gs ! j)"
    and "\<not> info_is_empty (gs ! 0) \<Longrightarrow> fm_current_index m' = 0 \<and> fm_tracker m' =
      \<lparr> pt_storage_account = acc, pt_claimed = zero32, pt_total_pending_mints = n, pt_groups_remaining = k \<rparr>"
proof -
  define m1 where "m1 = m \<lparr> fm_infos := write_at (fm_infos m) 0 gs, fm_current_index := 0,
      fm_total_count := of_nat (length gs), fm_start_block_height := h,
      fm_tracker := \<lparr> pt_storage_account = acc, pt_claimed = zero32, pt_total_pending_mints = 0, pt_groups_remaining = 0 \<rparr> \<rparr>"
  have cnt: "unat (of_nat (length gs) :: u16) = length gs" using len by (simp add: unat_of_nat)
  have i8: "length (fm_infos m) = 8" using inv by (simp add: manager_inv_def)
  have inv1: "manager_inv m1"
    using len i8 by (simp add: m1_def manager_inv_def word_le_nat_alt cnt tracker_inv_def fresh_claimed_groups)
  have infos1: "take (length gs) (fm_infos m1) = gs" "\<And>j. j < length gs \<Longrightarrow> fm_infos m1 ! j = gs ! j"
    using len i8 by (simp_all add: m1_def write_at_def nth_append)
  from fast_forward_empty_ok [OF inv1] obtain m2 where m2: "fast_forward_empty m1 = Inr m2" "manager_inv m2"
    "fm_infos m2 = fm_infos m1" "fm_total_count m2 = fm_total_count m1" "fm_start_block_height m2 = h"
    "\<And>j. j < unat (fm_current_index m2) \<Longrightarrow> info_is_empty (fm_infos m1 ! j)"
    "fm_current_index m2 = 0 \<Longrightarrow> m2 = m1" "tracker_is_empty (fm_tracker m2)"
    by (auto simp: m1_def tracker_is_empty_def)
  have run': "(if manager_is_empty m2 then (if n \<noteq> 0 \<or> k \<noteq> 0
        then Inl (Err PendingFinalizedBlockMintsInvalidAutoClaimMintsData) else Inr m2)
      else Inr (m2 \<lparr> fm_tracker := (fm_tracker m2) \<lparr> pt_total_pending_mints := n, pt_groups_remaining := k \<rparr> \<rparr>)) = Inr m'"
    using run empty len m2(1) by (simp add: standard_append_block_def m1_def [symmetric] Let_def)
  have cases: "m' = m2 \<and> manager_is_empty m2 \<or> \<not> manager_is_empty m2 \<and>
      m' = m2 \<lparr> fm_tracker := (fm_tracker m2) \<lparr> pt_total_pending_mints := n, pt_groups_remaining := k \<rparr> \<rparr>"
    using run' by (auto split: if_splits)
  have same: "fm_infos m' = fm_infos m2" "fm_total_count m' = fm_total_count m2"
    "fm_start_block_height m' = fm_start_block_height m2" "fm_current_index m' = fm_current_index m2"
    using cases by auto
  have claimed: "pt_claimed (fm_tracker m2) = zero32"
    using m2(1) by (auto simp: fast_forward_empty_def m1_def empty_tracker_def result_simps split: if_splits)
  show "manager_inv m'"
    using cases m2(2) claimed n by (auto simp: manager_inv_def tracker_inv_def fresh_claimed_groups)
  show "take (length gs) (fm_infos m') = gs" by (simp add: same m2(3) infos1)
  show total: "unat (fm_total_count m') = length gs" by (simp add: same m2(4) m1_def cnt)
  show "fm_start_block_height m' = h" by (simp add: same m2(5))
  have le: "unat (fm_current_index m2) \<le> length gs"
    using m2(2) total by (simp add: same manager_inv_def word_le_nat_alt)
  show "\<forall>j < unat (fm_current_index m'). info_is_empty (gs ! j)"
    using m2(6) infos1(2) le by (auto simp: same)
  assume first: "\<not> info_is_empty (gs ! 0)"
  then have "unat (fm_current_index m2) = 0" using m2(6) [of 0] infos1(2) [of 0] len by fastforce
  then have z: "fm_current_index m2 = 0" by (simp add: unat_eq_zero)
  then have "m2 = m1" by (rule m2(7))
  moreover have "\<not> manager_is_empty m1"
    using cnt len by (auto simp: manager_is_empty_def m1_def word_unat_eq_iff)
  ultimately show "fm_current_index m' = 0 \<and> fm_tracker m' =
      \<lparr> pt_storage_account = acc, pt_claimed = zero32, pt_total_pending_mints = n, pt_groups_remaining = k \<rparr>"
    using cases z by (auto simp: m1_def)
qed


section \<open>Properties\<close>

text \<open>C25. Every group of a block is claimed at most once, and the counter is exact: in every
  state reachable from a fresh tracker by successful claims, a claimed group can no longer be
  claimed, the number of remaining groups is the number of groups minus the number of claimed
  ones, and it is zero exactly when all groups are claimed.\<close>

theorem groups_claimed_once:
  assumes "fresh_tracker s" and "claim_step\<^sup>*\<^sup>* s t"
  shows "(\<forall>g. unat g \<in> claimed_groups t \<longrightarrow> \<not> is_ok (ensure_can_claim_pending_mints_group t g)) \<and>
    unat (pt_groups_remaining t) = group_count (unat (pt_total_pending_mints s)) - card (claimed_groups t) \<and>
    (pt_groups_remaining t = 0 \<longleftrightarrow> claimed_groups t = {..<group_count (unat (pt_total_pending_mints s))})"
proof -
  have inv: "tracker_inv t" by (rule claims.inv_reachable [OF assms])
  have total: "pt_total_pending_mints t = pt_total_pending_mints s"
    using claim_steps_total [OF assms(2) fresh_tracker_inv [OF assms(1)]] by simp
  have "\<not> is_ok (ensure_can_claim_pending_mints_group t g)" if "unat g \<in> claimed_groups t" for g
    using that ensure_can_claim_iff [OF inv, of g] by (auto simp: is_ok_iff)
  with inv show ?thesis by (auto simp: total tracker_inv_def remaining_zero_iff [OF inv])
qed

theorem groups_claimed_once_witness:
  "\<exists>t. unat (pt_groups_remaining t) = 2 - card (claimed_groups t) \<and> claim_step\<^sup>*\<^sup>*
     \<lparr> pt_storage_account = zero32, pt_claimed = zero32, pt_total_pending_mints = 30, pt_groups_remaining = 2 \<rparr> t
     \<and> claimed_groups t = {..<2}"
proof -
  let ?s = "\<lparr> pt_storage_account = zero32, pt_claimed = zero32, pt_total_pending_mints = 30, pt_groups_remaining = 2 \<rparr>"
  have gc: "group_count 30 = 2" by (simp add: group_count_def)
  have fresh: "fresh_tracker ?s" by (simp add: fresh_tracker_def gc)
  obtain u where u: "claim_step\<^sup>*\<^sup>* ?s u" "pt_groups_remaining u = 0"
    using claims_can_finish [OF fresh_tracker_inv [OF fresh]] by (auto simp: gc)
  with groups_claimed_once [OF fresh u(1)] show ?thesis by (intro exI [of _ u]) (simp add: gc)
qed

text \<open>Claiming always can be finished: from every state reachable from a fresh tracker of a
  block with at most 256 groups (6144 mints), some sequence of claims completes the block.\<close>

theorem claims_complete:
  assumes "fresh_tracker s" and "claim_step\<^sup>*\<^sup>* s t" and "unat (pt_total_pending_mints s) \<le> 6144"
  shows "\<exists>u. claim_step\<^sup>*\<^sup>* t u \<and> pt_groups_remaining u = 0 \<and>
    claimed_groups u = {..<group_count (unat (pt_total_pending_mints s))}"
proof -
  have inv: "tracker_inv t" by (rule claims.inv_reachable [OF assms(1,2)])
  have total: "pt_total_pending_mints t = pt_total_pending_mints s"
    using claim_steps_total [OF assms(2) fresh_tracker_inv [OF assms(1)]] by simp
  have "group_count (unat (pt_total_pending_mints t)) \<le> 256" using assms(3) by (simp add: total group_count_def)
  then obtain u where u: "claim_step\<^sup>*\<^sup>* t u" "pt_groups_remaining u = 0" using claims_can_finish [OF inv] by blast
  moreover have "pt_total_pending_mints u = pt_total_pending_mints t" using claim_steps_total [OF u(1) inv] by simp
  ultimately show ?thesis using remaining_zero_iff [OF claims.inv_steps [OF u(1) inv]] total by auto
qed

theorem claims_complete_witness:
  "\<exists>u. claim_step\<^sup>*\<^sup>* \<lparr> pt_storage_account = zero32, pt_claimed = zero32, pt_total_pending_mints = 6144,
      pt_groups_remaining = 256 \<rparr> u \<and> pt_groups_remaining u = 0 \<and> claimed_groups u = {..<256}"
  using claims_complete [of "\<lparr> pt_storage_account = zero32, pt_claimed = zero32, pt_total_pending_mints = 6144,
      pt_groups_remaining = 256 \<rparr>" "\<lparr> pt_storage_account = zero32, pt_claimed = zero32,
      pt_total_pending_mints = 6144, pt_groups_remaining = 256 \<rparr>"]
  by (simp add: fresh_tracker_def group_count_def)

text \<open>A block with more than 256 groups can never be completed: the bitmap has 256 bits, the
  claim of group 256 passes the range check and then panics, and no sequence of claims brings
  the counter to zero, so the bridge never becomes ready for the next block.\<close>

theorem too_many_groups_stuck:
  assumes "fresh_tracker s" and "claim_step\<^sup>*\<^sup>* s t" and "6144 < unat (pt_total_pending_mints s)"
  shows "pt_groups_remaining t \<noteq> 0 \<and> ensure_can_claim_pending_mints_group t 256 = Inl Panic"
proof -
  have inv: "tracker_inv t" by (rule claims.inv_reachable [OF assms(1,2)])
  have total: "pt_total_pending_mints t = pt_total_pending_mints s"
    using claim_steps_total [OF assms(2) fresh_tracker_inv [OF assms(1)]] by simp
  have "6145 + 23 \<le> unat (pt_total_pending_mints s) + 23" using assms(3) by simp
  then have "(6145 + 23) div 24 \<le> group_count (unat (pt_total_pending_mints s))"
    unfolding group_count_def by (rule div_le_mono)
  then have many: "257 \<le> group_count (unat (pt_total_pending_mints t))" by (simp add: total)
  then have busy: "pt_groups_remaining t \<noteq> 0"
    using inv card_claimed_groups [of t] by (auto simp: tracker_inv_def unat_eq_zero)
  have len: "length (pt_claimed t) = 32" and tot: "unat (pt_total_pending_mints t) < 65536"
    using inv by (simp_all add: tracker_inv_def)
  have "ensure_can_claim_pending_mints_group t 256 = Inl Panic"
    using busy many remaining_total [OF inv busy]
    by (simp add: ensure_can_claim_pending_mints_group_def already_claimed_iff [OF len] word_le_nat_alt total_groups [OF tot])
  with busy show ?thesis by simp
qed

theorem too_many_groups_stuck_witness:
  "ensure_can_claim_pending_mints_group \<lparr> pt_storage_account = zero32, pt_claimed = zero32,
      pt_total_pending_mints = 6145, pt_groups_remaining = 257 \<rparr> 256 = Inl Panic"
  using too_many_groups_stuck [of "\<lparr> pt_storage_account = zero32, pt_claimed = zero32,
      pt_total_pending_mints = 6145, pt_groups_remaining = 257 \<rparr>" "\<lparr> pt_storage_account = zero32,
      pt_claimed = zero32, pt_total_pending_mints = 6145, pt_groups_remaining = 257 \<rparr>"]
  by (simp add: fresh_tracker_def group_count_def)

text \<open>Appending blocks to an idle manager keeps its invariant, stores the blocks in order,
  skips only empty blocks, and, when the first block has mints, starts at that block with a
  fresh tracker for it.\<close>

theorem append_block_sets_up_first_block:
  assumes "manager_inv m" and "manager_is_empty m" and "0 < length gs" and "unat n < 65536"
    and "unat k = group_count (unat n)" and "standard_append_block m h gs acc n k = Inr m'"
  shows "manager_inv m' \<and> take (length gs) (fm_infos m') = gs \<and> unat (fm_total_count m') = length gs \<and>
    fm_start_block_height m' = h \<and> (\<forall>j < unat (fm_current_index m'). info_is_empty (gs ! j)) \<and>
    (\<not> info_is_empty (gs ! 0) \<longrightarrow> fm_current_index m' = 0 \<and> fresh_tracker (fm_tracker m') \<and>
       pt_storage_account (fm_tracker m') = acc \<and> pt_total_pending_mints (fm_tracker m') = n)"
proof -
  have len: "length gs \<le> 8"
    using assms(2,3,6) by (auto simp: standard_append_block_def split: if_splits)
  note facts = standard_append_block_ok [OF assms(1-3) len assms(4-6)]
  show ?thesis using facts(1-5) facts(6) assms(4,5) by (auto simp: fresh_tracker_def)
qed

theorem append_block_sets_up_first_block_witness:
  "\<exists>m'. standard_append_block manager_new_empty 7 [default_info] zero32 30 2 = Inr m' \<and> manager_inv m' \<and>
    fm_current_index m' = 0 \<and> fresh_tracker (fm_tracker m')"
proof -
  have ne: "\<not> info_is_empty default_info"
    using zero32_not_default by (simp add: info_is_empty_def default_info_def)
  obtain m' where m': "standard_append_block manager_new_empty 7 [default_info] zero32 30 2 = Inr m'"
    using ne by (simp add: standard_append_block_def manager_is_empty_def manager_new_empty_def fast_forward_empty_def
        tracker_is_empty_def empty_tracker_def Let_def write_at_def)
  moreover have "manager_is_empty manager_new_empty" by (simp add: manager_is_empty_def manager_new_empty_def)
  ultimately show ?thesis
    using append_block_sets_up_first_block [OF manager_new_empty_inv _ _ _ _ m'] ne by (simp add: group_count_def)
qed

end
