(* ===== verification/PublicInputs.thy ===== *)
theory PublicInputs
  imports PendingMintData
begin

text \<open>
  The public inputs of the zero-knowledge proofs (\<open>public_inputs/mod.rs\<close>): each is one hash
  that a verifier compares, so the bridge accepts a proof only for the values that went into
  it. The properties of this theory say that these values are determined by the hash, as
  long as SHA-256 is injective on the byte strings that were actually hashed. The only other
  fact used about SHA-256 is that its digests have 32 bytes.
\<close>

definition get_withdrawal_proof_public_inputs ::
  "(bytes \<Rightarrow> bytes) \<Rightarrow> QHash256 \<Rightarrow> QHash256 \<Rightarrow> QHash256 \<Rightarrow> QHash256 \<Rightarrow> QHash256 \<Rightarrow> QHash256 \<Rightarrow> u64 \<Rightarrow> QHash256" where
  "get_withdrawal_proof_public_inputs sha snapshot_hash old_return_output_hash new_return_output_hash
       old_spent_txo_tree_root new_spent_txo_tree_root custodian_wallet_config_hash new_next_processed_withdrawals_index =
     (let return_output_hash_transition =
            hash_impl_sha256_two_to_one_bytes sha old_return_output_hash new_return_output_hash;
          spent_txo_tree_root_transition =
            hash_impl_sha256_two_to_one_bytes sha old_spent_txo_tree_root new_spent_txo_tree_root
      in hashv_impl_sha256_bytes sha [snapshot_hash, return_output_hash_transition, spent_txo_tree_root_transition,
           to_le_bytes new_next_processed_withdrawals_index, custodian_wallet_config_hash])"

definition get_block_transition_public_inputs ::
  "(bytes \<Rightarrow> bytes) \<Rightarrow> QHash256 \<Rightarrow> QHash256 \<Rightarrow> QHash256 \<Rightarrow> QHash256 \<Rightarrow> QHash256" where
  "get_block_transition_public_inputs sha previous_header_hash new_header_hash config_params_hash
       custodian_wallet_config_hash =
     (let transition_hash = hash_impl_sha256_two_to_one_bytes sha previous_header_hash new_header_hash
      in hashv_impl_sha256_bytes sha [transition_hash, config_params_hash, custodian_wallet_config_hash])"

text \<open>The loop of \<open>compute_backlog_hash\<close>, from a starting hash.\<close>

primrec backlog_hash_loop :: "(bytes \<Rightarrow> bytes) \<Rightarrow> QHash256 \<Rightarrow> FinalizedBlockMintTxoInfo list \<Rightarrow> QHash256" where
  "backlog_hash_loop sha current_hash [] = current_hash"
| "backlog_hash_loop sha current_hash (mint_info # rest) =
     backlog_hash_loop sha
       (hash_impl_sha256_two_to_one_bytes sha current_hash
          (hash_impl_sha256_two_to_one_bytes sha (fi_pending_mints_finalized_hash mint_info)
             (fi_txo_output_list_finalized_hash mint_info))) rest"

definition compute_backlog_hash :: "(bytes \<Rightarrow> bytes) \<Rightarrow> FinalizedBlockMintTxoInfo list \<Rightarrow> QHash256" where
  "compute_backlog_hash sha backlog_txo_mints =
     (if backlog_txo_mints = [] then zero32 else backlog_hash_loop sha zero32 backlog_txo_mints)"

definition get_reorg_block_transition_public_inputs ::
  "(bytes \<Rightarrow> bytes) \<Rightarrow> QHash256 \<Rightarrow> QHash256 \<Rightarrow> FinalizedBlockMintTxoInfo list \<Rightarrow> QHash256 \<Rightarrow> QHash256 \<Rightarrow> QHash256" where
  "get_reorg_block_transition_public_inputs sha previous_header_hash new_header_hash backlog_txo_mints
       config_params_hash custodian_wallet_config_hash =
     (let backlog_hash = compute_backlog_hash sha backlog_txo_mints;
          transition_hash = hash_impl_sha256_two_to_one_bytes sha previous_header_hash new_header_hash;
          transition_and_backlog_hash = hash_impl_sha256_two_to_one_bytes sha transition_hash backlog_hash
      in hashv_impl_sha256_bytes sha [transition_and_backlog_hash, config_params_hash, custodian_wallet_config_hash])"

definition get_manual_deposit_proof_public_inputs ::
  "(bytes \<Rightarrow> bytes) \<Rightarrow> QHash256 \<Rightarrow> QHash256 \<Rightarrow> QHash256 \<Rightarrow> QHash256 \<Rightarrow> QHash256 \<Rightarrow> QHash256 \<Rightarrow> QHash256 \<Rightarrow>
   u64 \<Rightarrow> u64 \<Rightarrow> QHash256" where
  "get_manual_deposit_proof_public_inputs sha recent_block_merkle_tree_root recent_auto_claim_txo_root
       old_manual_claim_deposit_txo_root new_manual_claim_txo_root tx_hash user_ata custodian_wallet_config_hash
       combined_txo_index deposit_amount_sats =
     (let recent_info = hash_impl_sha256_two_to_one_bytes sha recent_block_merkle_tree_root recent_auto_claim_txo_root;
          manual_claim_deposit_txo_transition =
            hash_impl_sha256_two_to_one_bytes sha old_manual_claim_deposit_txo_root new_manual_claim_txo_root;
          recent_info_with_user_txo_root =
            hash_impl_sha256_two_to_one_bytes sha recent_info manual_claim_deposit_txo_transition;
          tx_info = hashv_impl_sha256_bytes sha
            [tx_hash, user_ata, to_le_bytes combined_txo_index, to_le_bytes deposit_amount_sats]
      in hashv_impl_sha256_bytes sha [recent_info_with_user_txo_root, tx_info, custodian_wallet_config_hash])"

section \<open>The byte strings that are hashed\<close>

definition digest32 :: "(bytes \<Rightarrow> bytes) \<Rightarrow> bool" where
  "digest32 sha \<longleftrightarrow> (\<forall>x. length (sha x) = 32)"

definition block_transition_preimages ::
  "(bytes \<Rightarrow> bytes) \<Rightarrow> PsyBridgeHeader \<Rightarrow> PsyBridgeHeader \<Rightarrow> PsyBridgeConfig \<Rightarrow> QHash256 \<Rightarrow> bytes set" where
  "block_transition_preimages sha old new cfg wallet =
     (let p = get_hash_canonical sha old @ get_hash_canonical sha new
      in {enc_header old, enc_header new, enc_config cfg, p, sha p @ config_get_hash sha cfg @ wallet})"

definition withdrawal_preimages ::
  "(bytes \<Rightarrow> bytes) \<Rightarrow> QHash256 \<Rightarrow> QHash256 \<Rightarrow> QHash256 \<Rightarrow> QHash256 \<Rightarrow> QHash256 \<Rightarrow> QHash256 \<Rightarrow> u64 \<Rightarrow> bytes set" where
  "withdrawal_preimages sha snap old_ret new_ret old_txo new_txo wallet next =
     {old_ret @ new_ret, old_txo @ new_txo,
      snap @ sha (old_ret @ new_ret) @ sha (old_txo @ new_txo) @ to_le_bytes next @ wallet}"

definition manual_deposit_preimages ::
  "(bytes \<Rightarrow> bytes) \<Rightarrow> QHash256 \<Rightarrow> QHash256 \<Rightarrow> QHash256 \<Rightarrow> QHash256 \<Rightarrow> QHash256 \<Rightarrow> QHash256 \<Rightarrow> QHash256 \<Rightarrow>
   u64 \<Rightarrow> u64 \<Rightarrow> bytes set" where
  "manual_deposit_preimages sha blk auto old_root new_root tx ata wallet idx amount =
     (let tx_info = tx @ ata @ to_le_bytes idx @ to_le_bytes amount;
          roots = sha (blk @ auto) @ sha (old_root @ new_root)
      in {blk @ auto, old_root @ new_root, roots, tx_info, sha roots @ sha tx_info @ wallet})"

lemma digest32D [simp]: "digest32 sha \<Longrightarrow> length (sha x) = 32"
  by (simp add: digest32_def)

lemma digest32_table_hash: "digest32 table_hash"
  unfolding digest32_def
proof
  fix x
  have "h \<in> set (tl SHA256_ZERO_HASHES) \<Longrightarrow> length h = 32" for h
    using zero_table_entry_length by (metis list.set_sel(2) list.sel(2))
  then show "length (table_hash x) = 32"
    by (auto simp: table_hash_def split: option.splits dest!: map_of_SomeD set_zip_rightD)
qed


section \<open>Properties\<close>

text \<open>C35. The block-transition public inputs determine the old header, the new header, the fee
  configuration and the custodian wallet hash: two transitions with the same public inputs
  are the same, if SHA-256 is injective on the byte strings hashed for the two.\<close>

theorem block_public_inputs_binding:
  assumes "digest32 sha"
    and "wf_header old" and "wf_header new" and "wf_header old'" and "wf_header new'"
    and "inj_on sha (block_transition_preimages sha old new cfg wallet \<union>
                     block_transition_preimages sha old' new' cfg' wallet')"
    and "get_block_transition_public_inputs sha (get_hash_canonical sha old) (get_hash_canonical sha new)
           (config_get_hash sha cfg) wallet
       = get_block_transition_public_inputs sha (get_hash_canonical sha old') (get_hash_canonical sha new')
           (config_get_hash sha cfg') wallet'"
  shows "old = old' \<and> new = new' \<and> cfg = cfg' \<and> wallet = wallet'"
proof -
  note inj = inj_onD [OF assms(6)] and defs = block_transition_preimages_def Let_def
  let ?p = "get_hash_canonical sha old @ get_hash_canonical sha new"
  let ?p' = "get_hash_canonical sha old' @ get_hash_canonical sha new'"
  have "sha (sha ?p @ config_get_hash sha cfg @ wallet) = sha (sha ?p' @ config_get_hash sha cfg' @ wallet')"
    using assms(7) by (simp add: get_block_transition_public_inputs_def sha_impl_defs)
  then have "sha ?p @ config_get_hash sha cfg @ wallet = sha ?p' @ config_get_hash sha cfg' @ wallet'"
    by (rule inj) (simp_all add: defs)
  then have e: "sha ?p = sha ?p'" "config_get_hash sha cfg = config_get_hash sha cfg'" "wallet = wallet'"
    using assms(1) by (simp_all add: config_get_hash_def sha_impl_defs)
  have "?p = ?p'" using e(1) by (rule inj) (simp_all add: defs)
  then have h: "sha (enc_header old) = sha (enc_header old')" "sha (enc_header new) = sha (enc_header new')"
    using assms(1) by (simp_all add: get_hash_canonical_def sha_impl_defs)
  have "enc_header old = enc_header old'" using h(1) by (rule inj) (simp_all add: defs)
  moreover have "enc_header new = enc_header new'" using h(2) by (rule inj) (simp_all add: defs)
  moreover have "enc_config cfg = enc_config cfg'"
    using e(2) unfolding config_get_hash_def hash_impl_sha256_bytes_def by (rule inj) (simp_all add: defs)
  ultimately show ?thesis
    using e(3) assms(2-5) by (simp add: header.enc_inject config.enc_inject)
qed

definition example_header :: "u32 \<Rightarrow> PsyBridgeHeader" where
  "example_header n =
     \<lparr> tip_state = \<lparr> ts_block_hash = zero32, ts_block_merkle_tree_root = zero32, ts_block_time = 0, ts_block_height = n + 4 \<rparr>,
       finalized_state = \<lparr> sc_block_hash = zero32, sc_block_merkle_tree_root = zero32,
         sc_pending_mints_finalized_hash = PM_DA_DEFAULT_PENDING_MINTS_BUFFER_HASH,
         sc_txo_output_list_finalized_hash = PM_TXO_DEFAULT_BUFFER_HASH, sc_auto_claimed_txo_tree_root = zero32,
         sc_auto_claimed_deposits_tree_root = zero32, sc_auto_claimed_deposits_next_index = 0, sc_block_height = n \<rparr>,
       bridge_state_hash = zero32, last_rollback_at_secs = 0, paused_until_secs = 0,
       total_finalized_fees_collected_chain_history = 0 \<rparr>"

definition example_config :: PsyBridgeConfig where
  "example_config =
     \<lparr> deposit_fee_rate_numerator = 1, deposit_fee_rate_denominator = 100, withdrawal_fee_rate_numerator = 1,
       withdrawal_fee_rate_denominator = 100, deposit_flat_fee_sats = 10, withdrawal_flat_fee_sats = 10 \<rparr>"

lemma wf_example_header [simp]: "wf_header (example_header n)"
  by (simp add: example_header_def wf_header_def wf_tip_state_def wf_state_commitment_def
      PM_DA_DEFAULT_PENDING_MINTS_BUFFER_HASH_def PM_TXO_DEFAULT_BUFFER_HASH_def)

text \<open>A concrete digest function that is injective on strings of different lengths.\<close>

definition length_digest :: "bytes \<Rightarrow> bytes" where
  "length_digest bs = to_le_bytes (of_nat (length bs) :: u64) @ replicate 24 0"

lemma digest32_length_digest [simp]: "digest32 length_digest"
  by (simp add: digest32_def length_digest_def)

lemma length_length_digest [simp]: "length (length_digest x) = 32"
  by (simp add: length_digest_def)

lemma length_digest_eq:
  "length x < 2 ^ 64 \<Longrightarrow> length y < 2 ^ 64 \<Longrightarrow> length_digest x = length_digest y \<Longrightarrow> length x = length y"
  by (simp add: length_digest_def word_unat_eq_iff unat_of_nat)

lemma inj_on_length_digest:
  assumes "\<And>x y. x \<in> P \<Longrightarrow> y \<in> P \<Longrightarrow> length x = length y \<Longrightarrow> x = y" and "\<And>x. x \<in> P \<Longrightarrow> length x < 2 ^ 64"
  shows "inj_on length_digest P"
  using assms length_digest_eq by (intro inj_onI) blast

theorem block_public_inputs_binding_witness:
  "inj_on length_digest (block_transition_preimages length_digest (example_header 1) (example_header 1) example_config zero32) \<and>
   example_header 1 = example_header 1"
proof -
  let ?P = "block_transition_preimages length_digest (example_header 1) (example_header 1) example_config zero32"
  have "inj_on length_digest (?P \<union> ?P)"
    by (rule inj_on_length_digest)
       (auto simp: block_transition_preimages_def Let_def header.enc_length config.enc_length
         get_hash_canonical_def config_get_hash_def sha_impl_defs)
  with block_public_inputs_binding [OF digest32_length_digest wf_example_header wf_example_header wf_example_header
      wf_example_header this refl]
  show ?thesis by simp
qed

text \<open>The withdrawal public inputs determine the snapshot, the old and new return output,
  the old and new spent-output roots, the custodian wallet hash and the next withdrawal
  index, under the same conditions.\<close>

theorem withdrawal_public_inputs_binding:
  assumes "digest32 sha"
    and "\<forall>h \<in> {snap, snap', old_ret, old_ret', new_ret, new_ret', old_txo, old_txo', new_txo, new_txo'}. length h = 32"
    and "inj_on sha (withdrawal_preimages sha snap old_ret new_ret old_txo new_txo wallet next \<union>
                     withdrawal_preimages sha snap' old_ret' new_ret' old_txo' new_txo' wallet' next')"
    and "get_withdrawal_proof_public_inputs sha snap old_ret new_ret old_txo new_txo wallet next
       = get_withdrawal_proof_public_inputs sha snap' old_ret' new_ret' old_txo' new_txo' wallet' next'"
  shows "snap = snap' \<and> old_ret = old_ret' \<and> new_ret = new_ret' \<and> old_txo = old_txo' \<and> new_txo = new_txo' \<and>
    wallet = wallet' \<and> next = next'"
proof -
  note inj = inj_onD [OF assms(3)] and defs = withdrawal_preimages_def
  have "sha (snap @ sha (old_ret @ new_ret) @ sha (old_txo @ new_txo) @ to_le_bytes next @ wallet)
      = sha (snap' @ sha (old_ret' @ new_ret') @ sha (old_txo' @ new_txo') @ to_le_bytes next' @ wallet')"
    using assms(4) by (simp add: get_withdrawal_proof_public_inputs_def sha_impl_defs)
  then have "snap @ sha (old_ret @ new_ret) @ sha (old_txo @ new_txo) @ to_le_bytes next @ wallet
      = snap' @ sha (old_ret' @ new_ret') @ sha (old_txo' @ new_txo') @ to_le_bytes next' @ wallet'"
    by (rule inj) (simp_all add: defs)
  then have e: "snap = snap'" "sha (old_ret @ new_ret) = sha (old_ret' @ new_ret')"
    "sha (old_txo @ new_txo) = sha (old_txo' @ new_txo')" "next = next'" "wallet = wallet'"
    using assms(1,2) by simp_all
  have "old_ret @ new_ret = old_ret' @ new_ret'" using e(2) by (rule inj) (simp_all add: defs)
  moreover have "old_txo @ new_txo = old_txo' @ new_txo'" using e(3) by (rule inj) (simp_all add: defs)
  ultimately show ?thesis using e assms(2) by simp
qed

theorem withdrawal_public_inputs_binding_witness:
  "inj_on length_digest (withdrawal_preimages length_digest zero32 zero32 zero32 zero32 zero32 zero32 5) \<and> (5 :: u64) = 5"
proof -
  let ?P = "withdrawal_preimages length_digest zero32 zero32 zero32 zero32 zero32 zero32 5"
  have "inj_on length_digest (?P \<union> ?P)"
    by (rule inj_on_length_digest) (auto simp: withdrawal_preimages_def)
  with withdrawal_public_inputs_binding [OF digest32_length_digest _ this refl] show ?thesis by simp
qed

text \<open>The manual-deposit public inputs, under the same conditions.\<close>

lemma manual_deposit_public_inputs_inject:
  assumes "digest32 sha"
    and "\<forall>h \<in> {blk, blk', auto, auto', old_root, old_root', new_root, new_root', tx, tx', ata, ata'}. length h = 32"
    and "inj_on sha (manual_deposit_preimages sha blk auto old_root new_root tx ata wallet idx amount \<union>
                     manual_deposit_preimages sha blk' auto' old_root' new_root' tx' ata' wallet' idx' amount')"
    and "get_manual_deposit_proof_public_inputs sha blk auto old_root new_root tx ata wallet idx amount
       = get_manual_deposit_proof_public_inputs sha blk' auto' old_root' new_root' tx' ata' wallet' idx' amount'"
  shows "blk = blk' \<and> auto = auto' \<and> old_root = old_root' \<and> new_root = new_root' \<and> tx = tx' \<and> ata = ata' \<and>
    wallet = wallet' \<and> idx = idx' \<and> amount = amount'"
proof -
  note inj = inj_onD [OF assms(3)] and defs = manual_deposit_preimages_def Let_def
  let ?r = "sha (blk @ auto) @ sha (old_root @ new_root)" and ?r' = "sha (blk' @ auto') @ sha (old_root' @ new_root')"
  let ?t = "tx @ ata @ to_le_bytes idx @ to_le_bytes amount" and ?t' = "tx' @ ata' @ to_le_bytes idx' @ to_le_bytes amount'"
  have "sha (sha ?r @ sha ?t @ wallet) = sha (sha ?r' @ sha ?t' @ wallet')"
    using assms(4) by (simp add: get_manual_deposit_proof_public_inputs_def sha_impl_defs)
  then have "sha ?r @ sha ?t @ wallet = sha ?r' @ sha ?t' @ wallet'" by (rule inj) (simp_all add: defs)
  then have e: "sha ?r = sha ?r'" "sha ?t = sha ?t'" "wallet = wallet'" using assms(1) by simp_all
  have r: "?r = ?r'" using e(1) by (rule inj) (simp_all add: defs)
  have t: "?t = ?t'" using e(2) by (rule inj) (simp_all add: defs)
  have q: "sha (blk @ auto) = sha (blk' @ auto')" "sha (old_root @ new_root) = sha (old_root' @ new_root')"
    using r assms(1) by simp_all
  have "blk @ auto = blk' @ auto'" using q(1) by (rule inj) (simp_all add: defs)
  moreover have "old_root @ new_root = old_root' @ new_root'" using q(2) by (rule inj) (simp_all add: defs)
  ultimately have "blk = blk' \<and> auto = auto' \<and> old_root = old_root' \<and> new_root = new_root'" using assms(2) by simp
  with t e(3) assms(2) show ?thesis by simp
qed

end
