(* ===== verification/Fees.thy ===== *)
theory Fees
  imports Errors
begin

text \<open>
  Fee arithmetic (\<open>psy-doge-solana-core/src/utils/fees.rs\<close>): a proportional fee computed
  in \<open>u128\<close> with checked operations, plus a flat fee, then cast to \<open>u64\<close> and subtracted
  from the amount. The three error messages are the constructors of \<open>FeeError\<close>.
\<close>

datatype FeeError = FeeOverflow | FeeDivisionByZero | FeeUnderflow

record FeeResult =
  fees_generated :: u64
  amount_after_fees :: u64

text \<open>The checked operations of Rust's unsigned integers.\<close>

definition checked_mul :: "'a::len word \<Rightarrow> 'a word \<Rightarrow> 'a word option" where
  "checked_mul a b = (if unat a * unat b < 2 ^ LENGTH('a) then Some (a * b) else None)"

definition checked_div :: "'a::len word \<Rightarrow> 'a word \<Rightarrow> 'a word option" where
  "checked_div a b = (if b = 0 then None else Some (a div b))"

definition checked_add :: "'a::len word \<Rightarrow> 'a word \<Rightarrow> 'a word option" where
  "checked_add a b = (if unat a + unat b < 2 ^ LENGTH('a) then Some (a + b) else None)"

definition checked_sub :: "'a::len word \<Rightarrow> 'a word \<Rightarrow> 'a word option" where
  "checked_sub a b = (if unat b \<le> unat a then Some (a - b) else None)"

definition ok_or :: "'e \<Rightarrow> 'a option \<Rightarrow> 'e fault + 'a" where
  "ok_or e m = (case m of None \<Rightarrow> Inl (Err e) | Some x \<Rightarrow> Inr x)"

lemma ok_or_simps [simp]: "ok_or e None = Inl (Err e)" "ok_or e (Some x) = Inr x"
  by (simp_all add: ok_or_def)

definition calcuate_deposit_fee :: "u64 \<Rightarrow> u64 \<Rightarrow> u64 \<Rightarrow> u64 \<Rightarrow> FeeError fault + FeeResult" where
  "calcuate_deposit_fee total_deposit_amount flat_fee_per_deposit_sats
       deposit_fee_rate_numerator deposit_fee_rate_denominator =
     rbind (ok_or FeeOverflow (checked_mul (ucast total_deposit_amount :: u128) (ucast deposit_fee_rate_numerator))) (\<lambda>product.
     rbind (ok_or FeeDivisionByZero (checked_div product (ucast deposit_fee_rate_denominator))) (\<lambda>quotient.
     rbind (ok_or FeeOverflow (checked_add quotient (ucast flat_fee_per_deposit_sats))) (\<lambda>sum.
     let fees = (ucast sum :: u64) in
     rbind (ok_or FeeUnderflow (checked_sub total_deposit_amount fees)) (\<lambda>after.
     Inr \<lparr> fees_generated = fees, amount_after_fees = after \<rparr>))))"

definition calcuate_withdrawal_fee :: "u64 \<Rightarrow> u64 \<Rightarrow> u64 \<Rightarrow> u64 \<Rightarrow> FeeError fault + FeeResult" where
  "calcuate_withdrawal_fee total_withdrawal_amount flat_fee_per_withdrawal_sats
       withdrawal_fee_rate_numerator withdrawal_fee_rate_denominator =
     rbind (ok_or FeeOverflow (checked_mul (ucast total_withdrawal_amount :: u128) (ucast withdrawal_fee_rate_numerator))) (\<lambda>product.
     rbind (ok_or FeeDivisionByZero (checked_div product (ucast withdrawal_fee_rate_denominator))) (\<lambda>quotient.
     rbind (ok_or FeeOverflow (checked_add quotient (ucast flat_fee_per_withdrawal_sats))) (\<lambda>sum.
     let fees = (ucast sum :: u64) in
     rbind (ok_or FeeUnderflow (checked_sub total_withdrawal_amount fees)) (\<lambda>after.
     Inr \<lparr> fees_generated = fees, amount_after_fees = after \<rparr>))))"

section \<open>The fee as a natural number\<close>

text \<open>The fee the code means to take, before the cast back to \<open>u64\<close>.\<close>

definition exact_fee :: "u64 \<Rightarrow> u64 \<Rightarrow> u64 \<Rightarrow> u64 \<Rightarrow> nat" where
  "exact_fee amount flat num den = unat amount * unat num div unat den + unat flat"

lemma u64_bound: "unat (x :: u64) \<le> 2 ^ 64 - 1"
proof -
  have "unat x < 2 ^ LENGTH(64)" by (rule unsigned_less)
  then show ?thesis by simp
qed

lemma unat_ucast_u128 [simp]: "unat (ucast (x :: u64) :: u128) = unat x"
  using u64_bound [of x] by (simp add: unat_ucast_mod)

lemma u64_product_bound: "unat (x :: u64) * unat (y :: u64) \<le> (2 ^ 64 - 1) * (2 ^ 64 - 1)"
  by (rule mult_le_mono [OF u64_bound u64_bound])

lemma exact_fee_bound: "exact_fee a f n d < 2 ^ 128"
proof -
  have "unat a * unat n div unat d \<le> (2 ^ 64 - 1) * (2 ^ 64 - 1)"
    using div_le_dividend u64_product_bound by (rule order_trans)
  then have "exact_fee a f n d \<le> (2 ^ 64 - 1) * (2 ^ 64 - 1) + (2 ^ 64 - 1)"
    unfolding exact_fee_def using u64_bound by (rule add_mono)
  then show ?thesis by simp
qed

text \<open>Neither overflow branch is reachable; the cast is the only place where bits are lost.\<close>

lemma calcuate_deposit_fee_eq:
  "calcuate_deposit_fee a f n d =
     (if d = 0 then Inl (Err FeeDivisionByZero)
      else if unat a < exact_fee a f n d mod 2 ^ 64 then Inl (Err FeeUnderflow)
      else Inr \<lparr> fees_generated = of_nat (exact_fee a f n d), amount_after_fees = a - of_nat (exact_fee a f n d) \<rparr>)"
proof -
  have mul: "checked_mul (ucast a :: u128) (ucast n) = Some (ucast a * ucast n)"
    using u64_product_bound [of a n] by (simp add: checked_mul_def)
  have prod: "unat (ucast a * ucast n :: u128) = unat a * unat n"
    using u64_product_bound [of a n] by (simp add: unat_word_ariths)
  show ?thesis
  proof (cases "d = 0")
    case True
    then show ?thesis by (simp add: calcuate_deposit_fee_def mul checked_div_def)
  next
    case False
    then have d: "(ucast d :: u128) \<noteq> 0" by (simp add: word_unat_eq_iff)
    let ?q = "(ucast a * ucast n :: u128) div ucast d"
    have q: "unat ?q = unat a * unat n div unat d" by (simp add: unat_div prod)
    have sum: "unat (?q + ucast f) = exact_fee a f n d"
      unfolding unat_word_ariths(1) q unat_ucast_u128 exact_fee_def [symmetric]
      using exact_fee_bound [of a f n d] by simp
    have fee: "(ucast (?q + ucast f) :: u64) = of_nat (exact_fee a f n d)"
      by (simp only: word_unat_eq_iff unat_ucast_mod sum unat_of_nat)
    show ?thesis
      using d False exact_fee_bound [of a f n d] fee
      by (auto simp: calcuate_deposit_fee_def mul checked_div_def checked_add_def q exact_fee_def [symmetric]
          checked_sub_def Let_def unat_of_nat)
  qed
qed

lemma calcuate_withdrawal_fee_eq:
  "calcuate_withdrawal_fee a f n d = calcuate_deposit_fee a f n d"
  by (simp add: calcuate_withdrawal_fee_def calcuate_deposit_fee_def)

lemma calcuate_deposit_fee_Inr:
  "calcuate_deposit_fee a f n d = Inr r \<longleftrightarrow> d \<noteq> 0 \<and> exact_fee a f n d mod 2 ^ 64 \<le> unat a \<and>
     r = \<lparr> fees_generated = of_nat (exact_fee a f n d), amount_after_fees = a - of_nat (exact_fee a f n d) \<rparr>"
  by (auto simp: calcuate_deposit_fee_eq)

lemma fee_split:
  assumes "calcuate_deposit_fee a f n d = Inr r"
  shows "unat (fees_generated r) + unat (amount_after_fees r) = unat a"
  using assms by (auto simp: calcuate_deposit_fee_Inr unat_sub word_le_nat_alt unat_of_nat)

section \<open>Properties\<close>



text \<open>The cast to \<open>u64\<close> loses the high bits instead of failing: at a rate of 200 per cent
  an amount of \<open>2 ^ 63\<close> is accepted with a fee of zero.\<close>

theorem fee_cast_truncates:
  "calcuate_deposit_fee (2 ^ 63) 0 2 1 = Inr \<lparr> fees_generated = 0, amount_after_fees = 2 ^ 63 \<rparr> \<and>
   exact_fee (2 ^ 63) 0 2 1 = 2 ^ 64"
  by (simp add: calcuate_deposit_fee_eq exact_fee_def)

end
