(* ===== verification/TxoIndex.thy ===== *)
theory TxoIndex
  imports ZeroHashes
begin

text \<open>
  Transaction-output indices (\<open>psy-bridge-core/src/txo_constants.rs\<close>): a combined index packs
  a 28-bit block number, a 13-bit transaction number and a 12-bit output number; the leaf of
  the output tree is a 256-bit string, so the top four output bits select a leaf and the low
  eight a bit of it.
\<close>

abbreviation TXO_TREE_INDEX_BITS_BLOCK_NUM_LENGTH :: nat where
  "TXO_TREE_INDEX_BITS_BLOCK_NUM_LENGTH \<equiv> 28"
abbreviation TXO_TREE_INDEX_BITS_TX_NUM_LENGTH :: nat where
  "TXO_TREE_INDEX_BITS_TX_NUM_LENGTH \<equiv> 13"
abbreviation TXO_TREE_INDEX_BITS_TOP_OUTPUT_NUM_LENGTH :: nat where
  "TXO_TREE_INDEX_BITS_TOP_OUTPUT_NUM_LENGTH \<equiv> 4"
abbreviation TXO_TREE_LEAF_BIT_INDEX_LENGTH :: nat where
  "TXO_TREE_LEAF_BIT_INDEX_LENGTH \<equiv> 8"
abbreviation TXO_TREE_COMBINED_INDEX_BITS_OUTPUT_NUM_LENGTH :: nat where
  "TXO_TREE_COMBINED_INDEX_BITS_OUTPUT_NUM_LENGTH \<equiv> 4 + 8"
abbreviation TXO_MERKLE_INDEX_TOTAL_BITS :: nat where
  "TXO_MERKLE_INDEX_TOTAL_BITS \<equiv> 28 + 13 + 4"
abbreviation TXO_COMBINED_INDEX_TOTAL_BITS :: nat where
  "TXO_COMBINED_INDEX_TOTAL_BITS \<equiv> 28 + 13 + (4 + 8)"

definition TXO_MERKLE_INDEX_MASK :: u64 where
  "TXO_MERKLE_INDEX_MASK = push_bit TXO_MERKLE_INDEX_TOTAL_BITS 1 - 1"

definition TXO_COMBINED_INDEX_MASK :: u64 where
  "TXO_COMBINED_INDEX_MASK = push_bit TXO_COMBINED_INDEX_TOTAL_BITS 1 - 1"

definition TXO_TREE_INDEX_BLOCK_NUM_LOWERED_MASK :: u64 where
  "TXO_TREE_INDEX_BLOCK_NUM_LOWERED_MASK = push_bit TXO_TREE_INDEX_BITS_BLOCK_NUM_LENGTH 1 - 1"

definition TXO_TREE_INDEX_TX_NUM_LOWERED_MASK :: u64 where
  "TXO_TREE_INDEX_TX_NUM_LOWERED_MASK = push_bit TXO_TREE_INDEX_BITS_TX_NUM_LENGTH 1 - 1"

definition TXO_TREE_INDEX_OUTPUT_NUM_LOWERED_MASK :: u64 where
  "TXO_TREE_INDEX_OUTPUT_NUM_LOWERED_MASK = push_bit TXO_TREE_COMBINED_INDEX_BITS_OUTPUT_NUM_LENGTH 1 - 1"

definition TXO_EMPTY_MERKLE_TREE_ROOT :: QHash256 where
  "TXO_EMPTY_MERKLE_TREE_ROOT = sha256_zero_hash TXO_MERKLE_INDEX_TOTAL_BITS"

definition is_valid_txo_combined_index :: "u64 \<Rightarrow> bool" where
  "is_valid_txo_combined_index index \<longleftrightarrow> index AND TXO_COMBINED_INDEX_MASK = index"

definition is_valid_txo_merkle_index :: "u64 \<Rightarrow> bool" where
  "is_valid_txo_merkle_index index \<longleftrightarrow> index AND TXO_MERKLE_INDEX_MASK = index"

definition get_txo_block_number_tx_number_output_leaf_merkle_index :: "u64 \<Rightarrow> u32 \<times> u16 \<times> u8" where
  "get_txo_block_number_tx_number_output_leaf_merkle_index index =
     (ucast (drop_bit (13 + (4 + 8)) index AND TXO_TREE_INDEX_BLOCK_NUM_LOWERED_MASK),
      ucast (drop_bit (4 + 8) index AND TXO_TREE_INDEX_TX_NUM_LOWERED_MASK),
      ucast (index AND TXO_TREE_INDEX_OUTPUT_NUM_LOWERED_MASK))"

definition get_txo_merkle_index :: "u32 \<Rightarrow> u16 \<Rightarrow> u8 \<Rightarrow> u64" where
  "get_txo_merkle_index block_num tx_num output_leaf_index =
     push_bit (13 + (4 + 8)) (ucast block_num) OR push_bit (4 + 8) (ucast tx_num) OR ucast output_leaf_index"

definition get_txo_merkle_index_with_output_index :: "u32 \<Rightarrow> u16 \<Rightarrow> u16 \<Rightarrow> u64" where
  "get_txo_merkle_index_with_output_index block_num tx_num output_index_in_tx =
     get_txo_merkle_index block_num tx_num (ucast (drop_bit 8 output_index_in_tx))"

definition get_txo_merkle_index_and_bit_index :: "u32 \<Rightarrow> u16 \<Rightarrow> u16 \<Rightarrow> u64 \<times> u8" where
  "get_txo_merkle_index_and_bit_index block_num tx_num output_index_in_tx =
     (get_txo_merkle_index block_num tx_num (ucast (drop_bit 8 output_index_in_tx)),
      ucast (output_index_in_tx AND 0xFF))"

definition get_txo_combined_index :: "u32 \<Rightarrow> u16 \<Rightarrow> u16 \<Rightarrow> u64" where
  "get_txo_combined_index block_num tx_num output_index_in_tx =
     push_bit (13 + (4 + 8)) (ucast block_num) OR push_bit (4 + 8) (ucast tx_num) OR ucast output_index_in_tx"

definition get_txo_combined_index_for_merkle_index_bit_index :: "u32 \<Rightarrow> u16 \<Rightarrow> u8 \<Rightarrow> u8 \<Rightarrow> u64" where
  "get_txo_combined_index_for_merkle_index_bit_index block_num tx_num output_merkle_index output_bit_index =
     push_bit (13 + (4 + 8)) (ucast block_num) OR push_bit (4 + 8) (ucast tx_num) OR
     (push_bit 8 (ucast output_merkle_index) OR ucast output_bit_index)"

definition get_txo_block_number_tx_number_output_index_from_combined_index :: "u64 \<Rightarrow> u32 \<times> u16 \<times> u16" where
  "get_txo_block_number_tx_number_output_index_from_combined_index index =
     (ucast (drop_bit (13 + (4 + 8)) index AND TXO_TREE_INDEX_BLOCK_NUM_LOWERED_MASK),
      ucast (drop_bit (4 + 8) index AND TXO_TREE_INDEX_TX_NUM_LOWERED_MASK),
      ucast (index AND TXO_TREE_INDEX_OUTPUT_NUM_LOWERED_MASK))"

definition is_valid_block_num_tx_num_output_index :: "u32 \<Rightarrow> u16 \<Rightarrow> u16 \<Rightarrow> bool" where
  "is_valid_block_num_tx_num_output_index block_num tx_num output_index_in_tx \<longleftrightarrow>
     block_num AND ucast TXO_TREE_INDEX_BLOCK_NUM_LOWERED_MASK = block_num \<and>
     tx_num AND ucast TXO_TREE_INDEX_TX_NUM_LOWERED_MASK = tx_num \<and>
     output_index_in_tx AND ucast TXO_TREE_INDEX_OUTPUT_NUM_LOWERED_MASK = output_index_in_tx"

definition is_valid_siblings_length_for_txo_merkle_proof :: "nat \<Rightarrow> bool" where
  "is_valid_siblings_length_for_txo_merkle_proof siblings_length \<longleftrightarrow> siblings_length = TXO_MERKLE_INDEX_TOTAL_BITS"

definition get_output_in_tx_merkle_index_bit_index :: "u16 \<Rightarrow> u8 \<times> u8" where
  "get_output_in_tx_merkle_index_bit_index output_index_in_tx =
     (let bit_index = ucast (output_index_in_tx AND 0xFF); merkle_index = ucast (drop_bit 8 output_index_in_tx)
      in (merkle_index, bit_index))"

definition get_output_index_from_combined_index :: "u64 \<Rightarrow> u16" where
  "get_output_index_from_combined_index combined_index =
     ucast (combined_index AND TXO_TREE_INDEX_OUTPUT_NUM_LOWERED_MASK)"

definition get_output_in_tx_merkle_index_bit_index_byte_index_bit_mask :: "u16 \<Rightarrow> u8 \<times> u8 \<times> u8 \<times> u8" where
  "get_output_in_tx_merkle_index_bit_index_byte_index_bit_mask output_index_in_tx =
     (let merkle_index = (ucast (drop_bit TXO_TREE_LEAF_BIT_INDEX_LENGTH output_index_in_tx) :: u8);
          bit_index = (ucast (output_index_in_tx - push_bit TXO_TREE_LEAF_BIT_INDEX_LENGTH (ucast merkle_index)) :: u8);
          bit_mask = bit_index AND 7;
          byte_index = drop_bit 3 bit_index
      in (merkle_index, bit_index, byte_index, bit_mask))"

definition get_output_bit_index_in_leaf :: "u16 \<Rightarrow> u8 \<times> u8 \<times> u8" where
  "get_output_bit_index_in_leaf output_index_in_tx =
     (let merkle_index = (ucast (drop_bit 8 output_index_in_tx) :: u8);
          byte_bit_index = (ucast (output_index_in_tx - ucast merkle_index * 256) :: u8);
          bit_mask = byte_bit_index AND 7;
          byte_index = drop_bit 3 byte_bit_index
      in (merkle_index, byte_index, bit_mask))"

definition get_txo_merkle_index_and_leaf_bit_index_from_combined_index :: "u64 \<Rightarrow> u64 \<times> u8" where
  "get_txo_merkle_index_and_leaf_bit_index_from_combined_index combined_index =
     (drop_bit TXO_TREE_LEAF_BIT_INDEX_LENGTH combined_index,
      ucast (combined_index AND (push_bit TXO_TREE_LEAF_BIT_INDEX_LENGTH 1 - 1)))"

section \<open>Masks and bits\<close>

lemma shift_minus_1: "(push_bit n 1 - 1 :: 'a::len word) = mask n"
  by (simp add: mask_eq_exp_minus_1 push_bit_eq_mult)

lemmas txo_masks = TXO_MERKLE_INDEX_MASK_def TXO_COMBINED_INDEX_MASK_def
  TXO_TREE_INDEX_BLOCK_NUM_LOWERED_MASK_def TXO_TREE_INDEX_TX_NUM_LOWERED_MASK_def
  TXO_TREE_INDEX_OUTPUT_NUM_LOWERED_MASK_def

lemma and_mask_iff_bound: "(w :: 'a::len word) AND mask n = w \<longleftrightarrow> unat w < 2 ^ n"
proof -
  have "unat (w AND mask n) = take_bit n (unat w)"
    by (simp only: take_bit_eq_mask [symmetric] unsigned_take_bit_eq)
  then have "w AND mask n = w \<longleftrightarrow> unat w mod 2 ^ n = unat w"
    by (simp only: word_unat_eq_iff take_bit_eq_mod)
  then show ?thesis by (metis mod_less mod_less_divisor zero_less_numeral zero_less_power)
qed

lemma valid_bits: "(w :: 'a::len word) AND mask n = w \<Longrightarrow> bit w j \<Longrightarrow> j < n"
  by (metis bit_and_iff bit_mask_iff)

lemma valid_indices:
  "is_valid_block_num_tx_num_output_index b t v \<longleftrightarrow> unat b < 2 ^ 28 \<and> unat t < 2 ^ 13 \<and> unat v < 2 ^ 12"
proof -
  have m: "(ucast (mask n :: u64) :: 'a::len word) = mask n" if "n \<le> LENGTH('a)" "n \<le> 64" for n
    using that by (auto simp: bit_eq_iff bit_unsigned_iff bit_mask_iff)
  show ?thesis
    unfolding is_valid_block_num_tx_num_output_index_def txo_masks shift_minus_1
    by (simp add: m and_mask_iff_bound)
qed


text \<open>Packing three fields that fit and reading them back, on the level of bits.\<close>

lemma packed_fields:
  fixes b :: u32 and t :: u16 and v :: u16
  assumes "unat b < 2 ^ 28" and "unat t < 2 ^ 13" and "unat v < 2 ^ 12"
  defines "c \<equiv> push_bit 25 (ucast b) OR push_bit 12 (ucast t) OR (ucast v :: u64)"
  shows "ucast (drop_bit 25 c AND mask 28) = b" and "ucast (drop_bit 12 c AND mask 13) = t"
    and "ucast (c AND mask 12) = v" and "unat c < 2 ^ 53"
proof -
  have b: "bit b j \<Longrightarrow> j < 28" and t: "bit t j \<Longrightarrow> j < 13" and v: "bit v j \<Longrightarrow> j < 12" for j
    using assms(1-3) valid_bits and_mask_iff_bound by metis+
  note bits = bit_unsigned_iff bit_and_iff bit_or_iff bit_drop_bit_eq bit_push_bit_iff bit_mask_iff
  show "ucast (drop_bit 25 c AND mask 28) = b"
    unfolding c_def by (rule bit_eqI) (auto simp: bits dest: b t v)
  show "ucast (drop_bit 12 c AND mask 13) = t"
    unfolding c_def by (rule bit_eqI) (auto simp: bits dest: b t v)
  show "ucast (c AND mask 12) = v"
    unfolding c_def by (rule bit_eqI) (auto simp: bits dest: b t v)
  have "c AND mask 53 = c"
    unfolding c_def by (rule bit_eqI) (auto simp: bits dest: b t v)
  then show "unat c < 2 ^ 53" by (simp only: and_mask_iff_bound)
qed

section \<open>Properties\<close>

text \<open>Packing and unpacking of combined indices are inverse: for a valid block number,
  transaction number and output number, the combined index is a valid 53-bit index and
  unpacking it gives the three numbers back.\<close>

theorem combined_index_round_trip:
  assumes "is_valid_block_num_tx_num_output_index b t v"
  shows "is_valid_txo_combined_index (get_txo_combined_index b t v) \<and>
    get_txo_block_number_tx_number_output_index_from_combined_index (get_txo_combined_index b t v) = (b, t, v) \<and>
    get_output_index_from_combined_index (get_txo_combined_index b t v) = v"
proof -
  have widths: "13 + 12 = (25 :: nat)" "4 + 8 = (12 :: nat)" "28 + 13 + 12 = (53 :: nat)" by simp_all
  show ?thesis
    unfolding is_valid_txo_combined_index_def get_txo_combined_index_def
      get_txo_block_number_tx_number_output_index_from_combined_index_def
      get_output_index_from_combined_index_def txo_masks shift_minus_1 widths and_mask_iff_bound prod.inject
    using packed_fields [of b t v] assms unfolding valid_indices by blast
qed

theorem combined_index_round_trip_witness:
  "get_txo_block_number_tx_number_output_index_from_combined_index
     (get_txo_combined_index 236520000 6000 2800) = (236520000, 6000, 2800)"
  using combined_index_round_trip [of 236520000 6000 2800] by (simp add: valid_indices)

text \<open>The two ways to name a leaf of the output tree disagree: splitting a combined index
  gives a leaf index of at most 45 bits, but \<open>get_txo_merkle_index\<close> keeps the combined
  layout's shifts, so already for block 1 its leaf index differs, and block \<open>2 ^ 20\<close> gives an
  index outside the tree.\<close>

theorem txo_merkle_index_layout_mismatch:
  "fst (get_txo_merkle_index_and_leaf_bit_index_from_combined_index (get_txo_combined_index 1 0 0)) = 2 ^ 17 \<and>
   get_txo_merkle_index_with_output_index 1 0 0 = 2 ^ 25 \<and>
   is_valid_block_num_tx_num_output_index (2 ^ 20) 0 0 \<and>
   \<not> is_valid_txo_merkle_index (get_txo_merkle_index_with_output_index (2 ^ 20) 0 0)"
  by (simp add: get_txo_merkle_index_and_leaf_bit_index_from_combined_index_def get_txo_combined_index_def
      get_txo_merkle_index_with_output_index_def get_txo_merkle_index_def valid_indices
      is_valid_txo_merkle_index_def txo_masks)

end
