(* ===== verification/BridgeState.thy ===== *)
theory BridgeState
  imports MintGroup PublicInputs Fees TxoIndex
begin

text \<open>
  The bridge's program state and the operations on it that do not touch the mint buffers
  (\<open>program_state/core.rs\<close>, \<open>deposit.rs\<close>, \<open>operator.rs\<close>, \<open>proc_withdrawal.rs\<close>,
  \<open>utils/deposit_leaf.rs\<close>). The zero-knowledge verifier is the parameter \<open>zkv\<close>
  (proof, key, public inputs); the token calls behind \<open>MintCPIHelper\<close> and \<open>BurnCPIHelper\<close> are
  the parameters \<open>mint_to\<close> and \<open>burn_from\<close>, which may refuse, and an operation that mints or
  burns also returns the calls it made. Unsigned additions wrap, as in a release build.
\<close>

section \<open>The state\<close>

record PsyBridgeAccessControlHeader =
  operator_pubkey :: pubkey
  fee_spender_pubkey :: pubkey

record PsyBridgeProgramState =
  bs_bridge_header :: PsyBridgeHeader
  bs_recent_finalized_blocks :: "PsyBridgeStateCommitment list"
  bs_last_return_output :: PsyReturnTxOutput
  bs_pending_mint_txos :: FinalizedBlockMintTxoManager
  bs_spent_txo_tree_root :: QHash256
  bs_withdrawal_snapshot :: PsyWithdrawalChainSnapshot
  bs_next_processed_withdrawals_index :: u64
  bs_sent_transactions_tree :: FixedMerkleAppendTree
  bs_manual_deposits_tree :: FixedMerkleAppendTree
  bs_requested_withdrawals_tree :: FixedMerkleAppendTree
  bs_custodian_wallet_config_hash :: QHash256
  bs_bridge_control_mode :: u32
  bs_next_recent_finalized_block_index :: u32
  bs_last_processed_withdrawals_at_ms :: u64
  bs_total_requested_withdrawals_sats :: u64
  bs_total_fees_withdrawn_sats :: u64
  bs_total_manual_deposit_fees_sats :: u64
  bs_total_withdrawal_fees_sats :: u64
  bs_last_received_block_at_ms :: u64
  bs_last_replayed_withdrawal_at_ms :: u64
  bs_config_params :: PsyBridgeConfig
  bs_access_control :: PsyBridgeAccessControlHeader

record InitializeBridgeInstructionData =
  ii_operator_pubkey :: pubkey
  ii_fee_spender_pubkey :: pubkey
  ii_doge_mint :: pubkey
  ii_bridge_header :: PsyBridgeHeader
  ii_start_return_txo_output :: PsyReturnTxOutput
  ii_config_params :: PsyBridgeConfig
  ii_custodian_wallet_config_hash :: QHash256

definition default_snapshot :: PsyWithdrawalChainSnapshot where
  "default_snapshot =
     \<lparr> ws_auto_claimed_deposits_tree_root = zero32, ws_requested_withdrawals_tree_root = zero32,
       ws_block_merkle_tree_root = zero32, ws_manual_deposits_tree_root = zero32, ws_block_height = 0,
       ws_last_snapshotted_for_withdrawals_seconds = 0, ws_next_requested_withdrawals_tree_index = 0,
       ws_next_manual_deposits_tree_index = 0 \<rparr>"

text \<open>\<open>initialize\<close> assigns every field, so the previous state does not matter.\<close>

definition state_initialize :: "InitializeBridgeInstructionData \<Rightarrow> PsyBridgeProgramState" where
  "state_initialize i =
     \<lparr> bs_bridge_header = ii_bridge_header i,
       bs_recent_finalized_blocks = replicate 8 (finalized_state (ii_bridge_header i)),
       bs_last_return_output = ii_start_return_txo_output i,
       bs_pending_mint_txos = manager_new_empty,
       bs_spent_txo_tree_root = sha256_zero_hash TXO_MERKLE_INDEX_TOTAL_BITS,
       bs_withdrawal_snapshot = default_snapshot,
       bs_next_processed_withdrawals_index = 0,
       bs_sent_transactions_tree = new_empty,
       bs_manual_deposits_tree = new_empty,
       bs_requested_withdrawals_tree = new_empty,
       bs_custodian_wallet_config_hash = ii_custodian_wallet_config_hash i,
       bs_bridge_control_mode = 0,
       bs_next_recent_finalized_block_index = 0,
       bs_last_processed_withdrawals_at_ms = 0,
       bs_total_requested_withdrawals_sats = 0,
       bs_total_fees_withdrawn_sats = 0,
       bs_total_manual_deposit_fees_sats = 0,
       bs_total_withdrawal_fees_sats = 0,
       bs_last_received_block_at_ms = 0,
       bs_last_replayed_withdrawal_at_ms = 0,
       bs_config_params = ii_config_params i,
       bs_access_control = \<lparr> operator_pubkey = ii_operator_pubkey i, fee_spender_pubkey = ii_fee_spender_pubkey i \<rparr> \<rparr>"

section \<open>Fees and pausing\<close>

definition get_total_finalized_fees :: "PsyBridgeProgramState \<Rightarrow> u64" where
  "get_total_finalized_fees s = bs_total_manual_deposit_fees_sats s + bs_total_withdrawal_fees_sats s +
     total_finalized_fees_collected_chain_history (bs_bridge_header s)"

definition get_operator_withdrawable_fees :: "PsyBridgeProgramState \<Rightarrow> u64" where
  "get_operator_withdrawable_fees s = get_total_finalized_fees s - bs_total_fees_withdrawn_sats s"

definition state_is_paused :: "PsyBridgeProgramState \<Rightarrow> u32 \<Rightarrow> bool" where
  "state_is_paused s now = header_is_paused (bs_bridge_header s) now"

definition run_bridge_operator_withdraw_fees_precheck ::
  "PsyBridgeProgramState \<Rightarrow> (PsyBridgeProgramState \<times> u64) QDogeResult" where
  "run_bridge_operator_withdraw_fees_precheck s =
     (if get_total_finalized_fees s \<le> bs_total_fees_withdrawn_sats s then Inl (Err NoOperatorFeesToWithdraw)
      else let fees_to_withdraw = get_total_finalized_fees s - bs_total_fees_withdrawn_sats s
           in if fees_to_withdraw = 0 then Inl (Err NoOperatorFeesToWithdraw)
              else Inr (s \<lparr> bs_total_fees_withdrawn_sats := bs_total_fees_withdrawn_sats s + fees_to_withdraw \<rparr>,
                        fees_to_withdraw))"

type_synonym mint_call = "nat \<times> pubkey \<times> u64"

definition run_bridge_operator_withdraw_fees ::
  "(nat \<Rightarrow> pubkey \<Rightarrow> u64 \<Rightarrow> unit QDogeResult) \<Rightarrow> PsyBridgeProgramState \<Rightarrow> pubkey \<Rightarrow>
   (PsyBridgeProgramState \<times> mint_call list) QDogeResult" where
  "run_bridge_operator_withdraw_fees mint_to s operator_ata =
     rbind (run_bridge_operator_withdraw_fees_precheck s) (\<lambda>(s', fees_to_withdraw).
     rbind (mint_to 0 operator_ata fees_to_withdraw) (\<lambda>_. Inr (s', [(0, operator_ata, fees_to_withdraw)])))"

section \<open>Withdrawals\<close>

definition snapshot_for_withdrawal :: "PsyBridgeProgramState \<Rightarrow> u32 \<Rightarrow> PsyBridgeProgramState" where
  "snapshot_for_withdrawal s current_unix_timestamp_secs =
     s \<lparr> bs_withdrawal_snapshot :=
          \<lparr> ws_auto_claimed_deposits_tree_root = sc_auto_claimed_deposits_tree_root (finalized_state (bs_bridge_header s)),
            ws_requested_withdrawals_tree_root = current_root (bs_requested_withdrawals_tree s),
            ws_block_merkle_tree_root = sc_block_merkle_tree_root (finalized_state (bs_bridge_header s)),
            ws_manual_deposits_tree_root = current_root (bs_manual_deposits_tree s),
            ws_block_height = sc_block_height (finalized_state (bs_bridge_header s)),
            ws_last_snapshotted_for_withdrawals_seconds = current_unix_timestamp_secs,
            ws_next_requested_withdrawals_tree_index = next_index (bs_requested_withdrawals_tree s),
            ws_next_manual_deposits_tree_index = next_index (bs_manual_deposits_tree s) \<rparr> \<rparr>"

definition get_expected_public_inputs_for_withdrawal_proof ::
  "(bytes \<Rightarrow> bytes) \<Rightarrow> PsyBridgeProgramState \<Rightarrow> PsyReturnTxOutput \<Rightarrow> QHash256 \<Rightarrow> u64 \<Rightarrow> QHash256" where
  "get_expected_public_inputs_for_withdrawal_proof sha s new_return_output new_spent_txo_tree_root
       new_next_processed_withdrawals_index =
     (let snapshot_hash = snapshot_get_hash sha (bs_withdrawal_snapshot s);
          new_return_output_hash = return_output_get_hash sha new_return_output;
          old_return_output_hash = return_output_get_hash sha (bs_last_return_output s);
          old_spent_txo_tree_root = bs_spent_txo_tree_root s
      in get_withdrawal_proof_public_inputs sha snapshot_hash old_return_output_hash new_return_output_hash
           old_spent_txo_tree_root new_spent_txo_tree_root (bs_custodian_wallet_config_hash s)
           new_next_processed_withdrawals_index)"

text \<open>\<open>unwrap_or\<close> with zero fees and a zero remainder, for both fee computations.\<close>

definition fee_or_zero :: "FeeError fault + FeeResult \<Rightarrow> FeeResult" where
  "fee_or_zero m = (case m of Inl _ \<Rightarrow> \<lparr> fees_generated = 0, amount_after_fees = 0 \<rparr> | Inr r \<Rightarrow> r)"

text \<open>The result is the returned flag and the state.\<close>

definition state_process_request_withdrawal ::
  "(bytes \<Rightarrow> bytes) \<Rightarrow> PsyBridgeProgramState \<Rightarrow> u32 \<Rightarrow> bytes \<Rightarrow> u64 \<Rightarrow> bool \<times> PsyBridgeProgramState" where
  "state_process_request_withdrawal sha s address_type address amount_burned_sats =
     (let fee_result = fee_or_zero (calcuate_withdrawal_fee amount_burned_sats
            (withdrawal_flat_fee_sats (bs_config_params s)) (withdrawal_fee_rate_numerator (bs_config_params s))
            (withdrawal_fee_rate_denominator (bs_config_params s)))
      in if fees_generated fee_result = 0 \<or> amount_after_fees fee_result = 0 then (False, s)
         else let s = s \<lparr> bs_total_withdrawal_fees_sats := bs_total_withdrawal_fees_sats s + fees_generated fee_result \<rparr>;
                  withdrawal_request = withdrawal_request_new address (amount_after_fees fee_result) address_type;
                  leaf = to_leaf withdrawal_request;
                  s = s \<lparr> bs_requested_withdrawals_tree := append_tree sha (bs_requested_withdrawals_tree s) leaf \<rparr>;
                  s = s \<lparr> bs_total_requested_withdrawals_sats :=
                            bs_total_requested_withdrawals_sats s + amount_burned_sats \<rparr>
              in (True, s))"

definition update_for_withdrawal ::
  "(bytes \<Rightarrow> bytes) \<Rightarrow> PsyBridgeProgramState \<Rightarrow> PsyReturnTxOutput \<Rightarrow> QHash256 \<Rightarrow> u64 \<Rightarrow> PsyBridgeProgramState" where
  "update_for_withdrawal sha s new_return_output new_spent_txo_tree_root new_next_processed_withdrawals_index =
     s \<lparr> bs_last_return_output := new_return_output,
         bs_spent_txo_tree_root := new_spent_txo_tree_root,
         bs_next_processed_withdrawals_index := new_next_processed_withdrawals_index,
         bs_sent_transactions_tree := append_tree sha (bs_sent_transactions_tree s) (ro_sighash new_return_output) \<rparr>"

abbreviation MIN_WAIT_TIME_REPLAY_WITHDRAWAL_SECS :: u32 where
  "MIN_WAIT_TIME_REPLAY_WITHDRAWAL_SECS \<equiv> 60"

definition process_replay_withdrawal_proof ::
  "(bytes \<Rightarrow> bytes) \<Rightarrow> PsyBridgeProgramState \<Rightarrow> FixedMerkleAppendTreePartialMerkleProof \<Rightarrow> u32 \<Rightarrow>
   (bool \<times> PsyBridgeProgramState) QDogeResult" where
  "process_replay_withdrawal_proof sha s proof current_unix_timestamp_secs =
     rbind (compute_root_sha256 sha proof) (\<lambda>proof_root.
     if proof_root \<noteq> current_root (bs_sent_transactions_tree s) then Inr (False, s)
     else if bs_last_processed_withdrawals_at_ms s div 1000 + ucast MIN_WAIT_TIME_REPLAY_WITHDRAWAL_SECS
               > ucast current_unix_timestamp_secs then Inr (False, s)
     else Inr (True, s \<lparr> bs_last_processed_withdrawals_at_ms := ucast current_unix_timestamp_secs * 1000 \<rparr>))"

definition run_process_bridge_withdrawal ::
  "(bytes \<Rightarrow> bytes) \<Rightarrow> (bytes \<Rightarrow> bytes \<Rightarrow> bytes \<Rightarrow> bool) \<Rightarrow> PsyBridgeProgramState \<Rightarrow> bytes \<Rightarrow> bytes \<Rightarrow> bytes \<Rightarrow>
   PsyReturnTxOutput \<Rightarrow> QHash256 \<Rightarrow> u64 \<Rightarrow> (PsyBridgeProgramState \<times> QHash256) QDogeResult" where
  "run_process_bridge_withdrawal sha zkv s proof vk dogecoin_tx new_return_output new_spent_txo_tree_root
       new_next_processed_withdrawals_index =
     (let doge_tx_hash = hash_impl_sha256_bytes sha dogecoin_tx
      in if doge_tx_hash \<noteq> ro_sighash new_return_output then Inl (Err InvalidDogeTxHash)
         else let expected_public_inputs = get_expected_public_inputs_for_withdrawal_proof sha s new_return_output
                    new_spent_txo_tree_root new_next_processed_withdrawals_index
              in if \<not> zkv proof vk expected_public_inputs then Inl (Err BridgeZKPError)
                 else Inr (update_for_withdrawal sha s new_return_output new_spent_txo_tree_root
                             new_next_processed_withdrawals_index, doge_tx_hash))"

definition request_withdrawal ::
  "(bytes \<Rightarrow> bytes) \<Rightarrow> (pubkey \<Rightarrow> u64 \<Rightarrow> unit QDogeResult) \<Rightarrow> PsyBridgeProgramState \<Rightarrow> pubkey \<Rightarrow> PsyWithdrawalRequest \<Rightarrow>
   (PsyBridgeProgramState \<times> (pubkey \<times> u64) list) QDogeResult" where
  "request_withdrawal sha burn_from s requester request =
     (case state_process_request_withdrawal sha s (wr_address_type request) (wr_recipient_address request)
             (wr_amount_sats request) of
        (ok, s') \<Rightarrow>
          if \<not> ok then Inl (Err InvalidWithdrawalAmount)
          else rbind (burn_from requester (wr_amount_sats request)) (\<lambda>_.
               Inr (s', [(requester, wr_amount_sats request)])))"

section \<open>Manual deposits\<close>

definition hash_deposit_leaf :: "(bytes \<Rightarrow> bytes) \<Rightarrow> QHash256 \<Rightarrow> u64 \<Rightarrow> QHash256 \<Rightarrow> u64 \<Rightarrow> QHash256" where
  "hash_deposit_leaf sha tx_hash txo_combined_index depositor_ata amount =
     hashv_impl_sha256_bytes sha [tx_hash, depositor_ata, to_le_bytes txo_combined_index, to_le_bytes amount]"

abbreviation INVALID_BLOCK_HEIGHT :: u32 where
  "INVALID_BLOCK_HEIGHT \<equiv> 0xFFFFFFFF"

definition find_recent_auto_claim_txo_tree_root :: "PsyBridgeProgramState \<Rightarrow> QHash256 \<Rightarrow> u32" where
  "find_recent_auto_claim_txo_tree_root s recent_auto_claim_txo_root =
     (let fin = finalized_state (bs_bridge_header s)
      in if sc_auto_claimed_deposits_tree_root fin = recent_auto_claim_txo_root then sc_block_height fin
         else case find (\<lambda>b. sc_auto_claimed_deposits_tree_root b = recent_auto_claim_txo_root)
                     (bs_recent_finalized_blocks s) of
                Some b \<Rightarrow> sc_block_height b
              | None \<Rightarrow> INVALID_BLOCK_HEIGHT)"

definition find_recent_auto_claim_txo_tree_root_and_block_merkle_root ::
  "PsyBridgeProgramState \<Rightarrow> QHash256 \<Rightarrow> u32 \<times> QHash256" where
  "find_recent_auto_claim_txo_tree_root_and_block_merkle_root s recent_auto_claim_txo_root =
     (let fin = finalized_state (bs_bridge_header s)
      in if sc_auto_claimed_deposits_tree_root fin = recent_auto_claim_txo_root
         then (sc_block_height fin, sc_block_merkle_tree_root fin)
         else case find (\<lambda>b. sc_auto_claimed_deposits_tree_root b = recent_auto_claim_txo_root)
                     (bs_recent_finalized_blocks s) of
                Some b \<Rightarrow> (sc_block_height b, sc_block_merkle_tree_root b)
              | None \<Rightarrow> (INVALID_BLOCK_HEIGHT, zero32))"

definition process_manual_claimed_deposit ::
  "(bytes \<Rightarrow> bytes) \<Rightarrow> PsyBridgeProgramState \<Rightarrow> QHash256 \<Rightarrow> QHash256 \<Rightarrow> QHash256 \<Rightarrow> u64 \<Rightarrow> pubkey \<Rightarrow> u64 \<Rightarrow>
   (PsyBridgeProgramState \<times> u64) QDogeResult" where
  "process_manual_claimed_deposit sha s tx_hash recent_block_merkle_tree_root recent_auto_claim_txo_root
       combined_txo_index depositor_ata deposit_amount_sats =
     (let (block_height, _, _) = get_txo_block_number_tx_number_output_index_from_combined_index combined_txo_index;
          (block_height_for_auto_claim_txo_root, block_merkle_tree_root) =
            find_recent_auto_claim_txo_tree_root_and_block_merkle_root s recent_auto_claim_txo_root
      in if block_height_for_auto_claim_txo_root = INVALID_BLOCK_HEIGHT \<or>
            block_height > block_height_for_auto_claim_txo_root
         then Inl (Err AutoClaimedDepositTreeRootNotRecentEnough)
         else if block_merkle_tree_root \<noteq> recent_block_merkle_tree_root
         then Inl (Err BlockMerkleTreeRootNotRecentEnough)
         else let fee_result = fee_or_zero (calcuate_deposit_fee deposit_amount_sats
                    (deposit_flat_fee_sats (bs_config_params s)) (deposit_fee_rate_numerator (bs_config_params s))
                    (deposit_fee_rate_denominator (bs_config_params s)))
              in if fees_generated fee_result = 0 \<or> amount_after_fees fee_result = 0
                 then Inl (Err InsufficientBridgeFees)
                 else let leaf_hash = hash_deposit_leaf sha tx_hash combined_txo_index depositor_ata
                            (amount_after_fees fee_result)
                      in Inr (s \<lparr> bs_total_manual_deposit_fees_sats :=
                                   bs_total_manual_deposit_fees_sats s + fees_generated fee_result,
                                 bs_manual_deposits_tree := append_tree sha (bs_manual_deposits_tree s) leaf_hash \<rparr>,
                              amount_after_fees fee_result))"

definition run_claim_deposit_manual ::
  "(bytes \<Rightarrow> bytes) \<Rightarrow> (nat \<Rightarrow> pubkey \<Rightarrow> u64 \<Rightarrow> unit QDogeResult) \<Rightarrow> PsyBridgeProgramState \<Rightarrow> QHash256 \<Rightarrow> QHash256 \<Rightarrow>
   QHash256 \<Rightarrow> u64 \<Rightarrow> pubkey \<Rightarrow> u64 \<Rightarrow> (PsyBridgeProgramState \<times> mint_call list) QDogeResult" where
  "run_claim_deposit_manual sha mint_to s recent_block_merkle_tree_root recent_auto_claim_txo_root tx_hash
       combined_txo_index depositor_public_key deposit_amount_sats =
     rbind (process_manual_claimed_deposit sha s tx_hash recent_block_merkle_tree_root recent_auto_claim_txo_root
              combined_txo_index depositor_public_key deposit_amount_sats) (\<lambda>(s', mint_amount).
     rbind (mint_to 0 depositor_public_key mint_amount) (\<lambda>_. Inr (s', [(0, depositor_public_key, mint_amount)])))"


section \<open>Lemmas\<close>

lemma fee_or_zero_Inr:
  "fee_or_zero m = r \<Longrightarrow> fees_generated r \<noteq> 0 \<or> amount_after_fees r \<noteq> 0 \<Longrightarrow> m = Inr r"
  by (auto simp: fee_or_zero_def split: sum.splits)

lemma find_Some_member: "find P xs = Some x \<Longrightarrow> x \<in> set xs \<and> P x"
  by (auto simp: find_Some_iff)

text \<open>The commitments a manual deposit may refer to.\<close>

definition recent_commitments :: "PsyBridgeProgramState \<Rightarrow> PsyBridgeStateCommitment set" where
  "recent_commitments s = insert (finalized_state (bs_bridge_header s)) (set (bs_recent_finalized_blocks s))"

lemma find_recent_sound:
  assumes "find_recent_auto_claim_txo_tree_root_and_block_merkle_root s root = (h, mroot)" and "h \<noteq> INVALID_BLOCK_HEIGHT"
  shows "\<exists>c \<in> recent_commitments s. sc_auto_claimed_deposits_tree_root c = root \<and> sc_block_height c = h \<and>
    sc_block_merkle_tree_root c = mroot"
  using assms
  by (auto simp: find_recent_auto_claim_txo_tree_root_and_block_merkle_root_def recent_commitments_def Let_def
      split: if_splits option.splits dest!: find_Some_member)

lemma withdrawal_leaf_decodes:
  "length address = 20 \<Longrightarrow> from_leaf (to_leaf (withdrawal_request_new address amount ty)) =
     \<lparr> wr_amount_sats = amount, wr_address_type = ty, wr_recipient_address = address \<rparr>"
  by (subst withdrawal_leaf.dec_enc) (simp_all add: wf_withdrawal_request_def withdrawal_request_new_def)

section \<open>Properties\<close>

text \<open>C15. A withdrawal request is accounted for exactly: when it is accepted, the burned amount
  splits into a non-zero fee and a non-zero net amount, the fee and request totals grow by
  the fee and by the burned amount, and the requested-withdrawals tree gains one leaf that
  decodes to the net amount and the recipient; when it is refused, the state is unchanged.\<close>

theorem request_withdrawal_accounting:
  assumes "zero_table_ok sha" and "tree_inv sha (bs_requested_withdrawals_tree s) xs"
    and "length xs < 2 ^ 32" and "length address = 20"
    and "state_process_request_withdrawal sha s ty address amount = (accepted, s')"
  shows "if accepted
    then \<exists>fee net leaf. unat fee + unat net = unat amount \<and> fee \<noteq> 0 \<and> net \<noteq> 0 \<and>
        bs_total_withdrawal_fees_sats s' = bs_total_withdrawal_fees_sats s + fee \<and>
        bs_total_requested_withdrawals_sats s' = bs_total_requested_withdrawals_sats s + amount \<and>
        tree_inv sha (bs_requested_withdrawals_tree s') (xs @ [leaf]) \<and>
        from_leaf leaf = \<lparr> wr_amount_sats = net, wr_address_type = ty, wr_recipient_address = address \<rparr>
    else s' = s"
proof -
  define r where "r = fee_or_zero (calcuate_withdrawal_fee amount (withdrawal_flat_fee_sats (bs_config_params s))
      (withdrawal_fee_rate_numerator (bs_config_params s)) (withdrawal_fee_rate_denominator (bs_config_params s)))"
  show ?thesis
  proof (cases "fees_generated r = 0 \<or> amount_after_fees r = 0")
    case True
    then show ?thesis using assms(5) by (auto simp: state_process_request_withdrawal_def r_def [symmetric])
  next
    case False
    have split: "unat (fees_generated r) + unat (amount_after_fees r) = unat amount"
      using fee_or_zero_Inr [OF r_def [symmetric]] False by (auto simp: calcuate_withdrawal_fee_eq intro: fee_split)
    have tree: "tree_inv sha (append_tree sha (bs_requested_withdrawals_tree s) v) (xs @ [v])" for v
      using tree_inv_append [OF assms(1,2)] assms(3) by simp
    let ?leaf = "to_leaf (withdrawal_request_new address (amount_after_fees r) ty)"
    have run: "accepted"
      "s' = s \<lparr> bs_total_withdrawal_fees_sats := bs_total_withdrawal_fees_sats s + fees_generated r,
          bs_requested_withdrawals_tree := append_tree sha (bs_requested_withdrawals_tree s) ?leaf,
          bs_total_requested_withdrawals_sats := bs_total_requested_withdrawals_sats s + amount \<rparr>"
      using assms(5) False by (auto simp: state_process_request_withdrawal_def r_def [symmetric] Let_def)
    show ?thesis
      unfolding if_P [OF run(1)]
      by (rule exI [of _ "fees_generated r"], rule exI [of _ "amount_after_fees r"], rule exI [of _ ?leaf])
         (use False split tree [of ?leaf] withdrawal_leaf_decodes [OF assms(4)] run(2) in simp)
  qed
qed

definition example_init :: "InitializeBridgeInstructionData" where
  "example_init = \<lparr> ii_operator_pubkey = replicate 32 1, ii_fee_spender_pubkey = replicate 32 2,
     ii_doge_mint = replicate 32 3, ii_bridge_header = example_header 1,
     ii_start_return_txo_output = \<lparr> ro_sighash = zero32, ro_output_index = 0, ro_amount_sats = 0 \<rparr>,
     ii_config_params = example_config, ii_custodian_wallet_config_hash = zero32 \<rparr>"

lemma example_trees [simp]:
  "bs_requested_withdrawals_tree (state_initialize i) = new_empty"
  "bs_manual_deposits_tree (state_initialize i) = new_empty"
  "bs_sent_transactions_tree (state_initialize i) = new_empty"
  by (simp_all add: state_initialize_def)

theorem request_withdrawal_accounting_witness:
  "\<exists>s' (fee :: u64) net leaf. state_process_request_withdrawal table_hash (state_initialize example_init) 0 (replicate 20 9) 1000
      = (True, s') \<and> unat fee + unat net = 1000 \<and> fee \<noteq> 0 \<and> net \<noteq> 0 \<and>
     tree_inv table_hash (bs_requested_withdrawals_tree s') [leaf] \<and>
     from_leaf leaf = \<lparr> wr_amount_sats = net, wr_address_type = 0, wr_recipient_address = replicate 20 9 \<rparr>"
proof -
  obtain s' where s': "state_process_request_withdrawal table_hash (state_initialize example_init) 0 (replicate 20 9) 1000
      = (True, s')"
    by (simp add: state_process_request_withdrawal_def Let_def calcuate_withdrawal_fee_eq calcuate_deposit_fee_eq
        exact_fee_def fee_or_zero_def state_initialize_def example_init_def example_config_def)
  show ?thesis
    using request_withdrawal_accounting [OF zero_table_ok_table_hash, of "state_initialize example_init" "[]"
        "replicate 20 9" 0 1000 True s'] s' tree_inv_new_empty [OF zero_table_ok_table_hash]
    by auto
qed

text \<open>C27. A manual deposit is accepted only against a recent finalized block: on success there is
  a commitment among the current and the eight recent ones with the given deposits root and
  block root whose height covers the deposit's block, the deposited amount splits into a
  non-zero fee and the non-zero minted amount, and the deposits tree gains the leaf that
  hashes transaction, index, recipient and minted amount.\<close>

theorem manual_deposit_accounting:
  assumes "zero_table_ok sha" and "tree_inv sha (bs_manual_deposits_tree s) xs" and "length xs < 2 ^ 32"
    and "process_manual_claimed_deposit sha s tx blk_root auto_root idx ata amount = Inr (s', minted)"
  shows "(\<exists>c \<in> recent_commitments s. sc_auto_claimed_deposits_tree_root c = auto_root \<and>
        sc_block_merkle_tree_root c = blk_root \<and>
        fst (get_txo_block_number_tx_number_output_index_from_combined_index idx) \<le> sc_block_height c) \<and>
    (\<exists>fee. unat fee + unat minted = unat amount \<and> fee \<noteq> 0 \<and> minted \<noteq> 0 \<and>
        bs_total_manual_deposit_fees_sats s' = bs_total_manual_deposit_fees_sats s + fee) \<and>
    tree_inv sha (bs_manual_deposits_tree s') (xs @ [sha (tx @ ata @ to_le_bytes idx @ to_le_bytes minted)])"
proof -
  define r where "r = fee_or_zero (calcuate_deposit_fee amount (deposit_flat_fee_sats (bs_config_params s))
      (deposit_fee_rate_numerator (bs_config_params s)) (deposit_fee_rate_denominator (bs_config_params s)))"
  obtain h mroot where f: "find_recent_auto_claim_txo_tree_root_and_block_merkle_root s auto_root = (h, mroot)" by force
  obtain b t v where c: "get_txo_block_number_tx_number_output_index_from_combined_index idx = (b, t, v)"
    using prod_cases3 by blast
  have ok: "h \<noteq> INVALID_BLOCK_HEIGHT" "b \<le> h" "mroot = blk_root" "fees_generated r \<noteq> 0" "amount_after_fees r \<noteq> 0"
    "minted = amount_after_fees r"
    "s' = s \<lparr> bs_total_manual_deposit_fees_sats := bs_total_manual_deposit_fees_sats s + fees_generated r,
        bs_manual_deposits_tree := append_tree sha (bs_manual_deposits_tree s)
          (hash_deposit_leaf sha tx idx ata (amount_after_fees r)) \<rparr>"
    using assms(4) by (auto simp: process_manual_claimed_deposit_def f c r_def [symmetric] Let_def split: if_splits)
  have split: "unat (fees_generated r) + unat (amount_after_fees r) = unat amount"
    using fee_or_zero_Inr [OF r_def [symmetric]] ok(4) by (auto intro: fee_split)
  have tree: "tree_inv sha (append_tree sha (bs_manual_deposits_tree s) v) (xs @ [v])" for v
    using tree_inv_append [OF assms(1,2)] assms(3) by simp
  show ?thesis
    using find_recent_sound [OF f ok(1)] ok split tree by (auto simp: c hash_deposit_leaf_def sha_impl_defs)
qed

theorem manual_deposit_accounting_witness:
  "\<exists>s' minted. process_manual_claimed_deposit table_hash (state_initialize example_init) zero32 zero32 zero32 0
      (replicate 32 5) 1000 = Inr (s', minted) \<and> minted \<noteq> 0 \<and>
    tree_inv table_hash (bs_manual_deposits_tree s')
      [table_hash (zero32 @ replicate 32 5 @ to_le_bytes (0 :: u64) @ to_le_bytes minted)]"
proof -
  obtain s' minted where r: "process_manual_claimed_deposit table_hash (state_initialize example_init) zero32 zero32
      zero32 0 (replicate 32 5) 1000 = Inr (s', minted)"
    by (simp add: process_manual_claimed_deposit_def Let_def calcuate_deposit_fee_eq exact_fee_def fee_or_zero_def
        state_initialize_def example_init_def example_config_def example_header_def
        find_recent_auto_claim_txo_tree_root_and_block_merkle_root_def
        get_txo_block_number_tx_number_output_index_from_combined_index_def)
  show ?thesis
    using manual_deposit_accounting [OF zero_table_ok_table_hash, where xs = "[]", OF _ _ r] r
      tree_inv_new_empty [OF zero_table_ok_table_hash]
    by auto
qed


text \<open>C29. Fee withdrawals are exact and cannot be repeated: a successful operator withdrawal
  returns the positive difference between the fees collected and the fees withdrawn so far,
  brings the withdrawn total up to the collected one, changes nothing else, and an immediate
  second withdrawal is refused.\<close>

theorem operator_fee_withdrawal_exact:
  assumes "run_bridge_operator_withdraw_fees_precheck s = Inr (s', fees)"
  shows "unat fees = unat (get_total_finalized_fees s) - unat (bs_total_fees_withdrawn_sats s) \<and> 0 < unat fees \<and>
    s' = s \<lparr> bs_total_fees_withdrawn_sats := get_total_finalized_fees s \<rparr> \<and>
    run_bridge_operator_withdraw_fees_precheck s' = Inl (Err NoOperatorFeesToWithdraw)"
proof -
  have r: "bs_total_fees_withdrawn_sats s < get_total_finalized_fees s"
    "fees = get_total_finalized_fees s - bs_total_fees_withdrawn_sats s"
    "s' = s \<lparr> bs_total_fees_withdrawn_sats := get_total_finalized_fees s \<rparr>"
    using assms by (auto simp: run_bridge_operator_withdraw_fees_precheck_def Let_def not_le split: if_splits)
  have "unat fees = unat (get_total_finalized_fees s) - unat (bs_total_fees_withdrawn_sats s)"
    using r(1,2) by (simp add: unat_sub word_le_nat_alt word_less_nat_alt)
  moreover have "get_total_finalized_fees s' = get_total_finalized_fees s"
    by (simp add: r(3) get_total_finalized_fees_def)
  ultimately show ?thesis
    using r by (simp add: run_bridge_operator_withdraw_fees_precheck_def word_less_nat_alt)
qed

theorem operator_fee_withdrawal_exact_witness:
  "\<exists>s'. run_bridge_operator_withdraw_fees_precheck
      ((state_initialize example_init) \<lparr> bs_total_withdrawal_fees_sats := 70, bs_total_fees_withdrawn_sats := 20 \<rparr>)
    = Inr (s', 50) \<and> run_bridge_operator_withdraw_fees_precheck s' = Inl (Err NoOperatorFeesToWithdraw)"
proof -
  obtain s' where s': "run_bridge_operator_withdraw_fees_precheck
      ((state_initialize example_init) \<lparr> bs_total_withdrawal_fees_sats := 70, bs_total_fees_withdrawn_sats := 20 \<rparr>)
    = Inr (s', 50)"
    by (simp add: run_bridge_operator_withdraw_fees_precheck_def get_total_finalized_fees_def state_initialize_def
        example_init_def example_header_def)
  with operator_fee_withdrawal_exact [OF s'] show ?thesis by auto
qed

text \<open>A replay is accepted only for a transaction that was sent: if the proof is accepted, then,
  unless the hashes on the proof's path and on the true path collide, its value is the
  sighash at that position of the sent-transactions tree (or the empty leaf past its end).
  At least a minute has passed since the last one, and only the time stamp changes.\<close>

theorem replay_proof_sound:
  assumes "tree_inv sha (bs_sent_transactions_tree s) sent" and "length (pp_siblings p) = 32"
    and "collision_free (hash_impl_sha256_two_to_one_bytes sha) (proof_pairs sha sent p)"
    and "process_replay_withdrawal_proof sha s p now = Inr (True, s')"
  shows "pp_value p = padded zero32 sent (unat (pp_index p)) \<and>
    bs_last_processed_withdrawals_at_ms s div 1000 + 60 \<le> ucast now \<and>
    s' = s \<lparr> bs_last_processed_withdrawals_at_ms := ucast now * 1000 \<rparr>"
proof -
  have root: "compute_root_sha256 sha p = (Inr (current_root (bs_sent_transactions_tree s)) :: QHash256 QDogeResult)"
    using assms(4) by (auto simp: process_replay_withdrawal_proof_def result_simps split: if_splits)
  have "pp_value p = padded zero32 sent (unat (pp_index p))"
    using append_tree_opening [OF assms(1,2) root assms(3)] by simp
  then show ?thesis
    using assms(4) by (auto simp: process_replay_withdrawal_proof_def result_simps not_less split: if_splits)
qed

theorem replay_proof_sound_witness:
  "\<exists>s'. process_replay_withdrawal_proof table_hash (state_initialize example_init)
      (get_partial_merkle_proof_fixed_for_current_index new_empty) 60 = Inr (True, s') \<and>
    pp_value (get_partial_merkle_proof_fixed_for_current_index new_empty) = zero32 \<and>
    bs_last_processed_withdrawals_at_ms s' = 60000"
proof -
  let ?s = "state_initialize example_init" and ?p = "get_partial_merkle_proof_fixed_for_current_index new_empty"
  note empty = tree_inv_new_empty [OF zero_table_ok_table_hash]
  have run: "process_replay_withdrawal_proof table_hash ?s ?p 60
      = Inr (True, ?s \<lparr> bs_last_processed_withdrawals_at_ms := ucast (60 :: u32) * 1000 \<rparr>)"
    by (simp add: process_replay_withdrawal_proof_def state_initialize_def
        current_proof_root [OF zero_table_ok_table_hash empty])
  have "length (pp_siblings ?p) = 32"
    by (simp add: get_partial_merkle_proof_fixed_for_current_index_def)
  then show ?thesis
    using replay_proof_sound [OF _ _ table_hash_empty_tree_collision_free run] run empty by (simp add: padded_def)
qed

text \<open>A bridge configured without fees cannot be used: with a zero flat fee and a zero rate,
  every withdrawal request is refused, and so is every manual deposit.\<close>

theorem zero_fees_block_the_bridge:
  assumes "deposit_flat_fee_sats (bs_config_params s) = 0" and "deposit_fee_rate_numerator (bs_config_params s) = 0"
    and "withdrawal_flat_fee_sats (bs_config_params s) = 0" and "withdrawal_fee_rate_numerator (bs_config_params s) = 0"
  shows "state_process_request_withdrawal sha s ty address amount = (False, s) \<and>
    \<not> is_ok (process_manual_claimed_deposit sha s tx blk_root auto_root idx ata deposit)"
proof -
  have "fees_generated (fee_or_zero (calcuate_deposit_fee a 0 0 d)) = 0" for a d
    by (simp add: calcuate_deposit_fee_eq exact_fee_def fee_or_zero_def)
  then show ?thesis
    using assms
    by (auto simp: state_process_request_withdrawal_def process_manual_claimed_deposit_def Let_def
        calcuate_withdrawal_fee_eq split: prod.splits)
qed

theorem zero_fees_block_the_bridge_witness:
  "state_process_request_withdrawal table_hash
     ((state_initialize example_init) \<lparr> bs_config_params := example_config
        \<lparr> deposit_flat_fee_sats := 0, deposit_fee_rate_numerator := 0,
          withdrawal_flat_fee_sats := 0, withdrawal_fee_rate_numerator := 0 \<rparr> \<rparr>) 0 (replicate 20 9) 1000
   = (False, (state_initialize example_init) \<lparr> bs_config_params := example_config
        \<lparr> deposit_flat_fee_sats := 0, deposit_fee_rate_numerator := 0,
          withdrawal_flat_fee_sats := 0, withdrawal_fee_rate_numerator := 0 \<rparr> \<rparr>)"
  using zero_fees_block_the_bridge [of "(state_initialize example_init) \<lparr> bs_config_params := example_config
        \<lparr> deposit_flat_fee_sats := 0, deposit_fee_rate_numerator := 0,
          withdrawal_flat_fee_sats := 0, withdrawal_fee_rate_numerator := 0 \<rparr> \<rparr>"]
  by simp

text \<open>C28. A processed withdrawal is bound to its transaction and to its proof: on success the
  transaction hashes to the new return output's sighash, the verifier accepted the proof for
  exactly the old and new state (snapshot, return outputs, spent roots, wallet, index), and
  the sent-transactions tree gains that sighash.\<close>

theorem process_withdrawal_sound:
  assumes "zero_table_ok sha" and "tree_inv sha (bs_sent_transactions_tree s) sent" and "length sent < 2 ^ 32"
    and "run_process_bridge_withdrawal sha zkv s proof vk doge_tx out txo_root nxt = Inr (s', h)"
  shows "h = sha doge_tx \<and> ro_sighash out = h \<and>
    zkv proof vk (get_withdrawal_proof_public_inputs sha (snapshot_get_hash sha (bs_withdrawal_snapshot s))
      (return_output_get_hash sha (bs_last_return_output s)) (return_output_get_hash sha out)
      (bs_spent_txo_tree_root s) txo_root (bs_custodian_wallet_config_hash s) nxt) \<and>
    tree_inv sha (bs_sent_transactions_tree s') (sent @ [h]) \<and>
    bs_last_return_output s' = out \<and> bs_spent_txo_tree_root s' = txo_root \<and>
    bs_next_processed_withdrawals_index s' = nxt"
  using assms(4) tree_inv_append [OF assms(1,2), of "ro_sighash out"] assms(3)
  by (auto simp: run_process_bridge_withdrawal_def get_expected_public_inputs_for_withdrawal_proof_def
      update_for_withdrawal_def sha_impl_defs Let_def split: if_splits)

theorem process_withdrawal_sound_witness:
  "\<exists>s'. run_process_bridge_withdrawal table_hash (\<lambda>p v i. p = i) (state_initialize example_init)
      (get_expected_public_inputs_for_withdrawal_proof table_hash (state_initialize example_init)
         \<lparr> ro_sighash = table_hash [1, 2, 3], ro_output_index = 0, ro_amount_sats = 7 \<rparr> zero32 1) [] [1, 2, 3]
      \<lparr> ro_sighash = table_hash [1, 2, 3], ro_output_index = 0, ro_amount_sats = 7 \<rparr> zero32 1
    = Inr (s', table_hash [1, 2, 3]) \<and> tree_inv table_hash (bs_sent_transactions_tree s') [table_hash [1, 2, 3]]"
proof -
  let ?out = "\<lparr> ro_sighash = table_hash [1, 2, 3], ro_output_index = 0, ro_amount_sats = 7 \<rparr>"
  let ?pi = "get_expected_public_inputs_for_withdrawal_proof table_hash (state_initialize example_init) ?out zero32 1"
  obtain s' where s': "run_process_bridge_withdrawal table_hash (\<lambda>p v i. p = i) (state_initialize example_init) ?pi []
      [1, 2, 3] ?out zero32 1 = Inr (s', table_hash [1, 2, 3])"
    by (simp add: run_process_bridge_withdrawal_def hash_impl_sha256_bytes_def Let_def)
  then show ?thesis
    using process_withdrawal_sound [OF zero_table_ok_table_hash, where sent = "[]", OF _ _ s']
      tree_inv_new_empty [OF zero_table_ok_table_hash] by simp
qed

end
