(* ===== verification/StateLayout.thy ===== *)
theory StateLayout
  imports BridgeState
begin

text \<open>
  The bytes of the bridge state account: \<open>bytemuck::try_from_bytes_mut::<BridgeState>\<close> reads the
  account as the \<open>repr(C)\<close> structure \<open>BridgeProgramStateWithDogeMint\<close> (\<open>program_state/core.rs\<close>),
  whose fields have no padding. Arrays of a fixed length are layouts over the layout of
  their elements.
\<close>

section \<open>Arrays\<close>

definition enc_array :: "('a \<Rightarrow> bytes) \<Rightarrow> 'a list \<Rightarrow> bytes" where
  "enc_array enc xs = concat (map enc xs)"

definition dec_array :: "nat \<Rightarrow> nat \<Rightarrow> (bytes \<Rightarrow> 'a) \<Rightarrow> bytes \<Rightarrow> 'a list" where
  "dec_array n sz dec bs = map (\<lambda>i. dec (bslice bs (sz * i) (sz * i + sz))) [0..<n]"

definition wf_array :: "nat \<Rightarrow> ('a \<Rightarrow> bool) \<Rightarrow> 'a list \<Rightarrow> bool" where
  "wf_array n wf_item xs \<longleftrightarrow> length xs = n \<and> (\<forall>x \<in> set xs. wf_item x)"

lemma concat_pieces: "concat (map (\<lambda>i. bslice bs (sz * i) (sz * i + sz)) [0..<n]) = bslice bs 0 (sz * n)"
proof (induction n)
  case (Suc n)
  then show ?case using slice_append_slice [of 0 "sz * n" "sz * n + sz" bs] by (simp add: add.commute)
qed simp

locale array_codec = fixed_codec +
  fixes n :: nat

sublocale array_codec \<subseteq> array: fixed_codec "enc_array enc" "dec_array n sz dec" "wf_array n wf" "sz * n"
proof (unfold_locales, goal_cases)
  case (1 xs)
  then show ?case using sequence_length [of xs] by (simp add: enc_array_def wf_array_def)
next
  case (2 xs)
  then show ?case using sequence_nth [of xs]
    by (auto simp: enc_array_def dec_array_def wf_array_def dec_enc intro!: nth_equalityI)
next
  case (3 bs)
  have "enc (dec (bslice bs (sz * i) (sz * i + sz))) = bslice bs (sz * i) (sz * i + sz)" if "i < n" for i
    using 3 that mult_le_mono2 [of "Suc i" n sz] by (intro enc_dec) simp
  then have "enc_array enc (dec_array n sz dec bs) = concat (map (\<lambda>i. bslice bs (sz * i) (sz * i + sz)) [0..<n])"
    by (auto simp: enc_array_def dec_array_def intro!: arg_cong [where f = concat])
  then show ?case using 3 by (simp add: concat_pieces bslice_whole)
next
  case (4 bs)
  have "wf (dec (bslice bs (sz * i) (sz * i + sz)))" if "i < n" for i
    using 4 that mult_le_mono2 [of "Suc i" n sz] by (intro wf_dec) simp
  then show ?case by (auto simp: wf_array_def dec_array_def)
qed

text \<open>A hash is its 32 bytes.\<close>

abbreviation wf_hash :: "QHash256 \<Rightarrow> bool" where
  "wf_hash h \<equiv> length h = 32"

interpretation hash_array: array_codec "\<lambda>h. h" "\<lambda>h. h" wf_hash "32 :: nat" "32 :: nat"
  by unfold_locales simp_all

interpretation commitment_array: array_codec enc_state_commitment dec_state_commitment wf_state_commitment "200 :: nat" "8 :: nat"
  by unfold_locales

interpretation info_array: array_codec enc_mint_txo_info dec_mint_txo_info wf_mint_txo_info "64 :: nat" "8 :: nat"
  by unfold_locales

lemmas array_codecs =
  hash_array.array.enc_length [simplified] hash_array.array.dec_enc [simplified] hash_array.array.enc_dec [simplified]
  hash_array.array.wf_dec [simplified]
  commitment_array.array.enc_length [simplified] commitment_array.array.dec_enc [simplified]
  commitment_array.array.enc_dec [simplified] commitment_array.array.wf_dec [simplified]
  info_array.array.enc_length [simplified] info_array.array.dec_enc [simplified] info_array.array.enc_dec [simplified]
  info_array.array.wf_dec [simplified]

section \<open>The parts of the state\<close>

definition enc_tracker :: "PendingMintsTracker \<Rightarrow> bytes" where
  "enc_tracker t = pt_storage_account t @ pt_claimed t @ to_le_bytes (pt_total_pending_mints t) @ to_le_bytes (pt_groups_remaining t)"

definition dec_tracker :: "bytes \<Rightarrow> PendingMintsTracker" where
  "dec_tracker bs =
     \<lparr> pt_storage_account = bslice bs 0 32, pt_claimed = bslice bs 32 64,
       pt_total_pending_mints = from_le_bytes (bslice bs 64 68), pt_groups_remaining = from_le_bytes (bslice bs 68 72) \<rparr>"

definition wf_tracker :: "PendingMintsTracker \<Rightarrow> bool" where
  "wf_tracker t \<longleftrightarrow> length (pt_storage_account t) = 32 \<and> length (pt_claimed t) = 32"

interpretation tracker_codec: fixed_codec enc_tracker dec_tracker wf_tracker "72 :: nat"
  by unfold_locales (simp_all add: enc_tracker_def dec_tracker_def wf_tracker_def codec_simps)

definition enc_manager :: "FinalizedBlockMintTxoManager \<Rightarrow> bytes" where
  "enc_manager m = enc_array enc_mint_txo_info (fm_infos m) @ to_le_bytes (fm_current_index m) @
     to_le_bytes (fm_total_count m) @ to_le_bytes (fm_start_block_height m) @ enc_tracker (fm_tracker m)"

definition dec_manager :: "bytes \<Rightarrow> FinalizedBlockMintTxoManager" where
  "dec_manager bs =
     \<lparr> fm_infos = dec_array 8 64 dec_mint_txo_info (bslice bs 0 512), fm_current_index = from_le_bytes (bslice bs 512 514),
       fm_total_count = from_le_bytes (bslice bs 514 516), fm_start_block_height = from_le_bytes (bslice bs 516 520),
       fm_tracker = dec_tracker (bslice bs 520 592) \<rparr>"

definition wf_manager :: "FinalizedBlockMintTxoManager \<Rightarrow> bool" where
  "wf_manager m \<longleftrightarrow> wf_array 8 wf_mint_txo_info (fm_infos m) \<and> wf_tracker (fm_tracker m)"

lemmas tracker_codecs = tracker_codec.enc_length tracker_codec.dec_enc tracker_codec.enc_dec tracker_codec.wf_dec

interpretation manager_codec: fixed_codec enc_manager dec_manager wf_manager "592 :: nat"
  by unfold_locales (simp_all add: enc_manager_def dec_manager_def wf_manager_def array_codecs tracker_codecs codec_simps)

definition enc_tree :: "FixedMerkleAppendTree \<Rightarrow> bytes" where
  "enc_tree t = to_le_bytes (next_index t) @ current_root t @ enc_array (\<lambda>h. h) (next_siblings t)"

definition dec_tree :: "bytes \<Rightarrow> FixedMerkleAppendTree" where
  "dec_tree bs =
     \<lparr> next_index = from_le_bytes (bslice bs 0 8), current_root = bslice bs 8 40,
       next_siblings = dec_array 32 32 (\<lambda>h. h) (bslice bs 40 1064) \<rparr>"

definition wf_tree_layout :: "FixedMerkleAppendTree \<Rightarrow> bool" where
  "wf_tree_layout t \<longleftrightarrow> length (current_root t) = 32 \<and> wf_array 32 wf_hash (next_siblings t)"

interpretation tree_codec: fixed_codec enc_tree dec_tree wf_tree_layout "1064 :: nat"
  by unfold_locales (simp_all add: enc_tree_def dec_tree_def wf_tree_layout_def array_codecs codec_simps)

definition enc_partial_proof :: "FixedMerkleAppendTreePartialMerkleProof \<Rightarrow> bytes" where
  "enc_partial_proof p = to_le_bytes (pp_index p) @ pp_value p @ enc_array (\<lambda>h. h) (pp_siblings p)"

definition dec_partial_proof :: "bytes \<Rightarrow> FixedMerkleAppendTreePartialMerkleProof" where
  "dec_partial_proof bs =
     \<lparr> pp_index = from_le_bytes (bslice bs 0 8), pp_value = bslice bs 8 40,
       pp_siblings = dec_array 32 32 (\<lambda>h. h) (bslice bs 40 1064) \<rparr>"

definition wf_partial_proof :: "FixedMerkleAppendTreePartialMerkleProof \<Rightarrow> bool" where
  "wf_partial_proof p \<longleftrightarrow> length (pp_value p) = 32 \<and> wf_array 32 wf_hash (pp_siblings p)"

interpretation partial_proof_codec: fixed_codec enc_partial_proof dec_partial_proof wf_partial_proof "1064 :: nat"
  by unfold_locales (simp_all add: enc_partial_proof_def dec_partial_proof_def wf_partial_proof_def array_codecs codec_simps)

definition enc_access_control :: "PsyBridgeAccessControlHeader \<Rightarrow> bytes" where
  "enc_access_control a = operator_pubkey a @ fee_spender_pubkey a"

definition dec_access_control :: "bytes \<Rightarrow> PsyBridgeAccessControlHeader" where
  "dec_access_control bs = \<lparr> operator_pubkey = bslice bs 0 32, fee_spender_pubkey = bslice bs 32 64 \<rparr>"

definition wf_access_control :: "PsyBridgeAccessControlHeader \<Rightarrow> bool" where
  "wf_access_control a \<longleftrightarrow> length (operator_pubkey a) = 32 \<and> length (fee_spender_pubkey a) = 32"

interpretation access_control_codec: fixed_codec enc_access_control dec_access_control wf_access_control "64 :: nat"
  by unfold_locales (simp_all add: enc_access_control_def dec_access_control_def wf_access_control_def codec_simps)

lemmas part_codecs =
  header.enc_length header.dec_enc header.enc_dec header.wf_dec
  return_output.enc_length return_output.dec_enc return_output.enc_dec return_output.wf_dec
  snapshot.enc_length snapshot.dec_enc snapshot.enc_dec snapshot.wf_dec
  config.enc_length [simplified] config.dec_enc [simplified] config.enc_dec
  manager_codec.enc_length manager_codec.dec_enc manager_codec.enc_dec manager_codec.wf_dec
  tree_codec.enc_length tree_codec.dec_enc tree_codec.enc_dec tree_codec.wf_dec
  access_control_codec.enc_length access_control_codec.dec_enc access_control_codec.enc_dec access_control_codec.wf_dec

section \<open>The whole account\<close>

definition enc_program_state :: "PsyBridgeProgramState \<Rightarrow> bytes" where
  "enc_program_state s = enc_header (bs_bridge_header s) @ enc_array enc_state_commitment (bs_recent_finalized_blocks s) @
     enc_return_output (bs_last_return_output s) @ enc_manager (bs_pending_mint_txos s) @ bs_spent_txo_tree_root s @
     enc_snapshot (bs_withdrawal_snapshot s) @ to_le_bytes (bs_next_processed_withdrawals_index s) @
     enc_tree (bs_sent_transactions_tree s) @ enc_tree (bs_manual_deposits_tree s) @
     enc_tree (bs_requested_withdrawals_tree s) @ bs_custodian_wallet_config_hash s @
     to_le_bytes (bs_bridge_control_mode s) @ to_le_bytes (bs_next_recent_finalized_block_index s) @
     to_le_bytes (bs_last_processed_withdrawals_at_ms s) @ to_le_bytes (bs_total_requested_withdrawals_sats s) @
     to_le_bytes (bs_total_fees_withdrawn_sats s) @ to_le_bytes (bs_total_manual_deposit_fees_sats s) @
     to_le_bytes (bs_total_withdrawal_fees_sats s) @ to_le_bytes (bs_last_received_block_at_ms s) @
     to_le_bytes (bs_last_replayed_withdrawal_at_ms s) @ enc_config (bs_config_params s) @
     enc_access_control (bs_access_control s)"

definition dec_program_state :: "bytes \<Rightarrow> PsyBridgeProgramState" where
  "dec_program_state bs =
     \<lparr> bs_bridge_header = dec_header (bslice bs 0 320),
       bs_recent_finalized_blocks = dec_array 8 200 dec_state_commitment (bslice bs 320 1920),
       bs_last_return_output = dec_return_output (bslice bs 1920 1968),
       bs_pending_mint_txos = dec_manager (bslice bs 1968 2560),
       bs_spent_txo_tree_root = bslice bs 2560 2592,
       bs_withdrawal_snapshot = dec_snapshot (bslice bs 2592 2744),
       bs_next_processed_withdrawals_index = from_le_bytes (bslice bs 2744 2752),
       bs_sent_transactions_tree = dec_tree (bslice bs 2752 3816),
       bs_manual_deposits_tree = dec_tree (bslice bs 3816 4880),
       bs_requested_withdrawals_tree = dec_tree (bslice bs 4880 5944),
       bs_custodian_wallet_config_hash = bslice bs 5944 5976,
       bs_bridge_control_mode = from_le_bytes (bslice bs 5976 5980),
       bs_next_recent_finalized_block_index = from_le_bytes (bslice bs 5980 5984),
       bs_last_processed_withdrawals_at_ms = from_le_bytes (bslice bs 5984 5992),
       bs_total_requested_withdrawals_sats = from_le_bytes (bslice bs 5992 6000),
       bs_total_fees_withdrawn_sats = from_le_bytes (bslice bs 6000 6008),
       bs_total_manual_deposit_fees_sats = from_le_bytes (bslice bs 6008 6016),
       bs_total_withdrawal_fees_sats = from_le_bytes (bslice bs 6016 6024),
       bs_last_received_block_at_ms = from_le_bytes (bslice bs 6024 6032),
       bs_last_replayed_withdrawal_at_ms = from_le_bytes (bslice bs 6032 6040),
       bs_config_params = dec_config (bslice bs 6040 6088),
       bs_access_control = dec_access_control (bslice bs 6088 6152) \<rparr>"

definition wf_program_state :: "PsyBridgeProgramState \<Rightarrow> bool" where
  "wf_program_state s \<longleftrightarrow> wf_header (bs_bridge_header s) \<and> wf_array 8 wf_state_commitment (bs_recent_finalized_blocks s) \<and>
     wf_return_output (bs_last_return_output s) \<and> wf_manager (bs_pending_mint_txos s) \<and>
     length (bs_spent_txo_tree_root s) = 32 \<and> wf_snapshot (bs_withdrawal_snapshot s) \<and>
     wf_tree_layout (bs_sent_transactions_tree s) \<and> wf_tree_layout (bs_manual_deposits_tree s) \<and>
     wf_tree_layout (bs_requested_withdrawals_tree s) \<and> length (bs_custodian_wallet_config_hash s) = 32 \<and>
     wf_access_control (bs_access_control s)"

interpretation program_state_codec: fixed_codec enc_program_state dec_program_state wf_program_state "6152 :: nat"
  by unfold_locales (simp_all add: enc_program_state_def dec_program_state_def wf_program_state_def
      part_codecs array_codecs codec_simps)

record BridgeProgramStateWithDogeMint =
  core_state :: PsyBridgeProgramState
  doge_mint :: pubkey

abbreviation BRIDGE_STATE_SIZE :: nat where
  "BRIDGE_STATE_SIZE \<equiv> 6184"

definition enc_bridge_state :: "BridgeProgramStateWithDogeMint \<Rightarrow> bytes" where
  "enc_bridge_state b = enc_program_state (core_state b) @ doge_mint b"

definition dec_bridge_state :: "bytes \<Rightarrow> BridgeProgramStateWithDogeMint" where
  "dec_bridge_state bs = \<lparr> core_state = dec_program_state (bslice bs 0 6152), doge_mint = bslice bs 6152 BRIDGE_STATE_SIZE \<rparr>"

definition wf_bridge_state :: "BridgeProgramStateWithDogeMint \<Rightarrow> bool" where
  "wf_bridge_state b \<longleftrightarrow> wf_program_state (core_state b) \<and> length (doge_mint b) = 32"

lemmas program_state_codecs =
  program_state_codec.enc_length program_state_codec.dec_enc program_state_codec.enc_dec program_state_codec.wf_dec

interpretation bridge_state_codec: fixed_codec enc_bridge_state dec_bridge_state wf_bridge_state BRIDGE_STATE_SIZE
  by unfold_locales (simp_all add: enc_bridge_state_def dec_bridge_state_def wf_bridge_state_def
      program_state_codecs codec_simps)

end
