(* ===== verification/BlockUpdate.thy ===== *)
theory BlockUpdate
  imports BridgeState
begin

text \<open>
  Block transitions (\<open>program_state/block_update.rs\<close>). A transition checks the new header's
  heights, its zero-knowledge proof and the two buffer accounts against the hashes in the
  header, then loads the tracker of pending mints; a reorg may queue several blocks. The
  account memories are byte lists; a slice out of range panics.
\<close>

section \<open>Checks on the buffers\<close>

fun get_backlog_contains_pending_mints :: "FinalizedBlockMintTxoInfo list \<Rightarrow> nat option" where
  "get_backlog_contains_pending_mints [] = None"
| "get_backlog_contains_pending_mints (item # rest) =
     (if \<not> info_is_empty item then Some 0
      else map_option Suc (get_backlog_contains_pending_mints rest))"

definition is_ready_for_new_block_update :: "PsyBridgeProgramState \<Rightarrow> bool" where
  "is_ready_for_new_block_update s \<longleftrightarrow> manager_is_empty (bs_pending_mint_txos s)"

definition ensure_pending_mints_ready_for_transition_inner ::
  "(bytes \<Rightarrow> bytes) \<Rightarrow> pubkey \<Rightarrow> QHash256 \<Rightarrow> bytes \<Rightarrow> (QHash256 \<times> u16) QDogeResult" where
  "ensure_pending_mints_ready_for_transition_inner sha self_bridge_program_pub_key expected_pending_mints_buffer_hash mem =
     (if length mem < PM_DA_PENDING_MINTS_BUFFER_STATE_HEADER_SIZE
      then Inl (Err InvalidAutoClaimMintBufferDataAccountSize)
      else let hdr = dec_buffer_header (bslice mem 0 PM_DA_PENDING_MINTS_BUFFER_STATE_HEADER_SIZE)
      in if bh_authorized_locker_public_key hdr \<noteq> self_bridge_program_pub_key
      then Inl (Err InvalidMintBufferLockingPermission)
      else let pending_mints_count = bh_pending_mints_count hdr;
               (mint_groups, _) = compute_mint_group_info pending_mints_count
      in if bh_pending_mint_groups_count hdr \<noteq> mint_groups
      then Inl (Err InvalidMintBufferPendingMintGroupsCount)
      else if pending_mints_count \<ge> 0xFFFF \<or> bh_pending_mints_count hdr \<noteq> pending_mints_count
      then Inl (Err InvalidMintBufferPendingMintsCount)
      else if length mem < pm_calculate_data_account_min_size pending_mints_count
      then Inl (Err InvalidAutoClaimMintBufferDataAccountSize)
      else let pending_mints_buffer_hash = hash_impl_sha256_bytes sha (bslice mem 70 (unat mint_groups * 32 + 72))
      in if expected_pending_mints_buffer_hash \<noteq> pending_mints_buffer_hash
      then Inl (Err InvalidPendingMintsBufferHash)
      else Inr (pending_mints_buffer_hash, pending_mints_count))"

definition ensure_pending_mints_ready_for_transition ::
  "(bytes \<Rightarrow> bytes) \<Rightarrow> u16 \<Rightarrow> pubkey \<Rightarrow> QHash256 \<Rightarrow> bytes \<Rightarrow> (QHash256 \<times> bool) QDogeResult" where
  "ensure_pending_mints_ready_for_transition sha pending_mints_count self_bridge_program_pub_key
       expected_pending_mints_buffer_hash mem =
     (if pending_mints_count = 0 then Inr (PM_DA_DEFAULT_PENDING_MINTS_BUFFER_HASH, False)
      else rbind (ensure_pending_mints_ready_for_transition_inner sha self_bridge_program_pub_key
                    expected_pending_mints_buffer_hash mem) (\<lambda>(pending_mints_buffer_hash, actual_pending_mints_count).
           if actual_pending_mints_count \<noteq> pending_mints_count then Inl (Err InvalidPendingMintsCountForTransition)
           else Inr (pending_mints_buffer_hash, pending_mints_count > 0)))"

abbreviation COMPACT_BRIDGE_ZK_PROOF_SIZE :: nat where
  "COMPACT_BRIDGE_ZK_PROOF_SIZE \<equiv> 256"

abbreviation COMPACT_BRIDGE_ZK_VERIFIER_KEY_SIZE :: nat where
  "COMPACT_BRIDGE_ZK_VERIFIER_KEY_SIZE \<equiv> 32"

section \<open>Block transitions\<close>

definition run_standard_single_block_transition ::
  "(bytes \<Rightarrow> bytes) \<Rightarrow> (bytes \<Rightarrow> bytes \<Rightarrow> bytes \<Rightarrow> bool) \<Rightarrow> PsyBridgeProgramState \<Rightarrow> bytes \<Rightarrow> bytes \<Rightarrow> PsyBridgeHeader \<Rightarrow>
   pubkey \<Rightarrow> pubkey \<Rightarrow> bytes \<Rightarrow> bytes \<Rightarrow> PsyBridgeProgramState QDogeResult" where
  "run_standard_single_block_transition sha zkv s proof vk new_header self_bridge_program_pub_key
       mint_buffer_storage_account_pub_key txo_mem mint_mem =
     (if \<not> is_ready_for_new_block_update s then Inl (Err ProgramStateNotReadyForBlockUpdate)
      else if length proof \<noteq> COMPACT_BRIDGE_ZK_PROOF_SIZE then Inl (Err InvalidZKProofSize)
      else if length vk \<noteq> COMPACT_BRIDGE_ZK_VERIFIER_KEY_SIZE then Inl (Err InvalidZKVerifierKeySize)
      else if sc_block_height (finalized_state new_header) \<noteq> sc_block_height (finalized_state (bs_bridge_header s)) + 1
      then Inl (Err InvalidBlockHeightForSingleBlockTransition)
      else if ts_block_height (tip_state new_header) \<le> ts_block_height (tip_state (bs_bridge_header s))
      then Inl (Err InvalidBlockHeightForSingleBlockTransition)
      else if sc_auto_claimed_deposits_next_index (finalized_state new_header)
              < sc_auto_claimed_deposits_next_index (finalized_state (bs_bridge_header s))
      then Inl (Err InvalidAutoClaimedDepositsNextIndex)
      else let new_auto_claims = sc_auto_claimed_deposits_next_index (finalized_state new_header)
                 - sc_auto_claimed_deposits_next_index (finalized_state (bs_bridge_header s))
      in if new_auto_claims > 0xFFFF then Inl (Err TooManyNewAutoClaimedDeposits)
      else let total_new_auto_claims = (ucast new_auto_claims :: u16);
               expected_zkp_public_inputs = get_block_transition_public_inputs sha
                 (get_hash_canonical sha (bs_bridge_header s)) (get_hash_canonical sha new_header)
                 (config_get_hash sha (bs_config_params s)) (bs_custodian_wallet_config_hash s)
      in if \<not> zkv proof vk expected_zkp_public_inputs then Inl (Err InvalidBridgeInputZKP)
      else rbind (ensure_pending_mints_ready_for_transition sha total_new_auto_claims self_bridge_program_pub_key
                    (sc_pending_mints_finalized_hash (finalized_state new_header)) mint_mem)
             (\<lambda>(pending_mints_buffer_hash, has_new_auto_mints).
      if pending_mints_buffer_hash \<noteq> sc_pending_mints_finalized_hash (finalized_state new_header)
      then Inl (Err InvalidPendingMintsBufferHash)
      else rbind
        (if \<not> has_new_auto_mints then Inr (bs_pending_mint_txos s)
         else let pm_txo_data_account_size = pm_txo_data_account_min_size total_new_auto_claims
         in if length txo_mem < pm_txo_data_account_size then Inl (Err InvalidAutoClaimTxoBufferDataAccountSize)
         else let txo_header = dec_txo_header (bslice txo_mem 0 PM_TXO_BUFFER_HEADER_SIZE)
         in if th_doge_block_height txo_header \<noteq> sc_block_height (finalized_state new_header) \<or> th_data_size txo_header = 0
         then Inl (Err InvalidAutoClaimTxoBufferPendingMintsCount)
         else let txo_hash = hash_impl_sha256_bytes sha (bslice txo_mem PM_TXO_BUFFER_HEADER_SIZE pm_txo_data_account_size)
         in if txo_hash \<noteq> sc_txo_output_list_finalized_hash (finalized_state new_header)
         then Inl (Err InvalidAutoClaimTxoBufferHash)
         else let (mint_groups, _) = compute_mint_group_info total_new_auto_claims
         in standard_append_block (bs_pending_mint_txos s) (sc_block_height (finalized_state new_header))
              [\<lparr> fi_pending_mints_finalized_hash = pending_mints_buffer_hash, fi_txo_output_list_finalized_hash = txo_hash \<rparr>]
              mint_buffer_storage_account_pub_key (ucast total_new_auto_claims) (ucast mint_groups))
        (\<lambda>pending_mint_txos.
         if length (bs_recent_finalized_blocks s) \<le> unat (bs_next_recent_finalized_block_index s) then Inl Panic
         else Inr (s \<lparr> bs_pending_mint_txos := pending_mint_txos,
                       bs_bridge_header := new_header,
                       bs_recent_finalized_blocks := (bs_recent_finalized_blocks s)
                         [unat (bs_next_recent_finalized_block_index s) := finalized_state new_header],
                       bs_next_recent_finalized_block_index := (bs_next_recent_finalized_block_index s + 1) mod 8 \<rparr>))))"

definition run_block_transition_reorg ::
  "(bytes \<Rightarrow> bytes) \<Rightarrow> (bytes \<Rightarrow> bytes \<Rightarrow> bytes \<Rightarrow> bool) \<Rightarrow> PsyBridgeProgramState \<Rightarrow> bytes \<Rightarrow> bytes \<Rightarrow> PsyBridgeHeader \<Rightarrow>
   FinalizedBlockMintTxoInfo list \<Rightarrow> pubkey \<Rightarrow> pubkey \<Rightarrow> bytes \<Rightarrow> bytes \<Rightarrow> PsyBridgeProgramState QDogeResult" where
  "run_block_transition_reorg sha zkv s proof vk new_header extra_finalized_blocks self_bridge_program_pub_key
       mint_buffer_locker_account_pubkey txo_mem mint_mem =
     (if \<not> is_ready_for_new_block_update s then Inl (Err ProgramStateNotReadyForBlockUpdate)
      else if length proof \<noteq> COMPACT_BRIDGE_ZK_PROOF_SIZE then Inl (Err InvalidZKProofSize)
      else if length vk \<noteq> COMPACT_BRIDGE_ZK_VERIFIER_KEY_SIZE then Inl (Err InvalidZKVerifierKeySize)
      else if sc_block_height (finalized_state new_header) \<le> sc_block_height (finalized_state (bs_bridge_header s))
      then Inl (Err InvalidBlockHeightForSingleBlockTransition)
      else if ts_block_height (tip_state new_header) \<le> ts_block_height (tip_state (bs_bridge_header s))
      then Inl (Err InvalidBlockHeightForSingleBlockTransition)
      else let fast_forward_size = sc_block_height (finalized_state new_header)
                 - sc_block_height (finalized_state (bs_bridge_header s))
      in if length extra_finalized_blocks \<noteq> unat (fast_forward_size - 1)
      then Inl (Err InvalidExtraFinalizedBlocksLengthForReorg)
      else let extra_fast_forwarded = fast_forward_size - 1
      in if extra_fast_forwarded \<noteq> of_nat (length extra_finalized_blocks)
      then Inl (Err InvalidExtraFinalizedBlocksLengthForReorg)
      else if sc_auto_claimed_deposits_next_index (finalized_state new_header)
              < sc_auto_claimed_deposits_next_index (finalized_state (bs_bridge_header s))
      then Inl (Err InvalidAutoClaimedDepositsNextIndex)
      else let expected_zkp_public_inputs = get_reorg_block_transition_public_inputs sha
                 (get_hash_canonical sha (bs_bridge_header s)) (get_hash_canonical sha new_header)
                 extra_finalized_blocks (config_get_hash sha (bs_config_params s)) (bs_custodian_wallet_config_hash s)
      in if \<not> zkv proof vk expected_zkp_public_inputs then Inl (Err InvalidBridgeInputZKP)
      else let last_block_info =
                 \<lparr> fi_pending_mints_finalized_hash = sc_pending_mints_finalized_hash (finalized_state new_header),
                   fi_txo_output_list_finalized_hash = sc_txo_output_list_finalized_hash (finalized_state new_header) \<rparr>;
               new_items = extra_finalized_blocks @ [last_block_info]
      in case get_backlog_contains_pending_mints new_items of
           None \<Rightarrow> Inr (s \<lparr> bs_bridge_header := new_header \<rparr>)
         | Some first_non_empty_in_backlog_index \<Rightarrow>
      rbind (ensure_pending_mints_ready_for_transition_inner sha self_bridge_program_pub_key
               (fi_pending_mints_finalized_hash (new_items ! first_non_empty_in_backlog_index)) mint_mem)
        (\<lambda>(pending_mints_buffer_hash, pending_mints_count).
      if pending_mints_buffer_hash \<noteq> fi_pending_mints_finalized_hash (new_items ! first_non_empty_in_backlog_index)
      then Inl (Err InvalidPendingMintsBufferHash)
      else let pm_txo_data_account_size = pm_txo_data_account_min_size pending_mints_count
      in if length txo_mem < pm_txo_data_account_size then Inl (Err InvalidAutoClaimTxoBufferDataAccountSize)
      else let txo_header = dec_txo_header (bslice txo_mem 0 PM_TXO_BUFFER_HEADER_SIZE);
               first_block_height_in_backlog = sc_block_height (finalized_state new_header)
                 - (of_nat (length new_items) - of_nat first_non_empty_in_backlog_index - 1)
      in if th_doge_block_height txo_header \<noteq> first_block_height_in_backlog
      then Inl (Err InvalidAutoClaimTxoBufferPendingMintsCount)
      else let txo_hash = hash_impl_sha256_bytes sha (bslice txo_mem PM_TXO_BUFFER_HEADER_SIZE pm_txo_data_account_size)
      in if txo_hash \<noteq> fi_txo_output_list_finalized_hash (new_items ! first_non_empty_in_backlog_index)
      then Inl (Err InvalidAutoClaimTxoBufferHash)
      else let (mint_groups, _) = compute_mint_group_info pending_mints_count
      in rbind (standard_append_block (bs_pending_mint_txos s) first_block_height_in_backlog
                  (drop first_non_empty_in_backlog_index new_items) mint_buffer_locker_account_pubkey
                  (ucast pending_mints_count) (ucast mint_groups))
           (\<lambda>pending_mint_txos.
              Inr (s \<lparr> bs_pending_mint_txos := pending_mint_txos, bs_bridge_header := new_header \<rparr>))))"

section \<open>What a buffer has to be\<close>

text \<open>
  A mint buffer with \<open>n\<close> mints that answers to the hash \<open>h\<close>, and a txo buffer for a block
  height and \<open>n\<close> outputs.
\<close>

definition mint_buffer_matches :: "(bytes \<Rightarrow> bytes) \<Rightarrow> pubkey \<Rightarrow> QHash256 \<Rightarrow> u16 \<Rightarrow> bytes \<Rightarrow> bool" where
  "mint_buffer_matches sha locker h n mem \<longleftrightarrow>
     bh_authorized_locker_public_key (dec_buffer_header (bslice mem 0 72)) = locker \<and>
     bh_pending_mints_count (dec_buffer_header (bslice mem 0 72)) = n \<and> n < 0xFFFF \<and>
     unat (bh_pending_mint_groups_count (dec_buffer_header (bslice mem 0 72))) = group_count (unat n) \<and>
     72 + 32 * group_count (unat n) + 40 * unat n \<le> length mem \<and>
     h = sha (bslice mem 70 (72 + 32 * group_count (unat n)))"

definition txo_buffer_matches :: "(bytes \<Rightarrow> bytes) \<Rightarrow> u32 \<Rightarrow> QHash256 \<Rightarrow> u16 \<Rightarrow> bytes \<Rightarrow> bool" where
  "txo_buffer_matches sha height h n mem \<longleftrightarrow> 48 + 4 * unat n \<le> length mem \<and>
     th_doge_block_height (dec_txo_header (bslice mem 0 48)) = height \<and> h = sha (bslice mem 48 (48 + 4 * unat n))"

lemma ensure_inner_ok_iff:
  "ensure_pending_mints_ready_for_transition_inner sha locker e mem = Inr (h, n) \<longleftrightarrow>
     h = e \<and> mint_buffer_matches sha locker e n mem"
proof -
  let ?hdr = "dec_buffer_header (bslice mem 0 72)"
  have g: "bh_pending_mint_groups_count ?hdr = fst (compute_mint_group_info k) \<longleftrightarrow>
      unat (bh_pending_mint_groups_count ?hdr) = group_count (unat k)" for k
    by (simp add: word_unat_eq_iff mint_group_count)
  show ?thesis
    by (auto simp: ensure_pending_mints_ready_for_transition_inner_def mint_buffer_matches_def Let_def
        result_simps g mint_group_count min_size_group_count hash_impl_sha256_bytes_def not_le not_less
        algebra_simps case_prod_unfold)
qed

lemma ensure_ready_ok_iff:
  "ensure_pending_mints_ready_for_transition sha n locker e mem = Inr (h, new) \<longleftrightarrow>
     (if n = 0 then h = PM_DA_DEFAULT_PENDING_MINTS_BUFFER_HASH \<and> \<not> new
      else h = e \<and> new \<and> mint_buffer_matches sha locker e n mem)"
  by (auto simp: ensure_pending_mints_ready_for_transition_def ensure_inner_ok_iff result_simps word_gt_0)

lemma backlog_ok:
  "get_backlog_contains_pending_mints xs = None \<longleftrightarrow> (\<forall>x \<in> set xs. info_is_empty x)"
  "get_backlog_contains_pending_mints xs = Some i \<Longrightarrow>
     i < length xs \<and> \<not> info_is_empty (xs ! i) \<and> (\<forall>j < i. info_is_empty (xs ! j))"
proof (induction xs arbitrary: i)
  case (Cons x xs)
  { case 1 show ?case using Cons.IH(1) by simp }
  { case 2 then show ?case
      using Cons.IH(2) by (auto simp: nth_Cons split: if_splits nat.splits) }
qed simp_all

section \<open>The effect of appending one or more blocks\<close>

text \<open>
  A manager that has just been loaded with the blocks \<open>gs\<close> starting at height \<open>h\<close>, the first
  of which has \<open>n\<close> mints in the buffer account \<open>acc\<close>.
\<close>

definition loaded_manager ::
  "FinalizedBlockMintTxoManager \<Rightarrow> u32 \<Rightarrow> FinalizedBlockMintTxoInfo list \<Rightarrow> pubkey \<Rightarrow> u16 \<Rightarrow> bool" where
  "loaded_manager m h gs acc n \<longleftrightarrow> manager_inv m \<and> take (length gs) (fm_infos m) = gs \<and>
     unat (fm_total_count m) = length gs \<and> fm_start_block_height m = h \<and> fm_current_index m = 0 \<and>
     fresh_tracker (fm_tracker m) \<and> pt_storage_account (fm_tracker m) = acc \<and>
     pt_total_pending_mints (fm_tracker m) = ucast n"

lemma unat_ucast_u16_u32 [simp]: "unat (ucast (n :: u16) :: u32) = unat n"
  using u16_bound [of n] by (simp add: unat_ucast_mod)

lemma append_loads_manager:
  assumes "manager_inv m" and "manager_is_empty m" and "gs \<noteq> []" and "\<not> info_is_empty (gs ! 0)"
    and run: "standard_append_block m h gs acc (ucast n) (ucast (fst (compute_mint_group_info n))) = Inr m'"
  shows "loaded_manager m' h gs acc n"
proof -
  have len: "length gs \<le> 8" using run assms(2,3) by (auto simp: standard_append_block_def split: if_splits)
  have n: "unat (ucast n :: u32) < 65536" using u16_bound [of n] by simp
  have k: "unat (ucast (fst (compute_mint_group_info n)) :: u32) = group_count (unat (ucast n :: u32))"
    by (simp add: mint_group_count)
  have pos: "0 < length gs" using assms(3) by simp
  note facts = standard_append_block_ok [OF assms(1,2) pos len n k run]
  show ?thesis
    using facts(1-4) facts(6) [OF assms(4)] n k unfolding loaded_manager_def fresh_tracker_def by simp
qed

text \<open>A single block that is empty but comes with mints is refused.\<close>

lemma append_single_not_empty:
  assumes "manager_inv m" and "manager_is_empty m" and "n \<noteq> 0"
    and run: "standard_append_block m h [g] acc n k = Inr m'"
  shows "\<not> info_is_empty g"
proof
  assume "info_is_empty g"
  moreover have "length (fm_infos m) = 8" using assms(1) by (simp add: manager_inv_def)
  ultimately show False
    using run assms(2,3)
    by (auto simp: standard_append_block_def fast_forward_empty_def Let_def write_at_def manager_is_empty_def
        tracker_is_empty_def empty_tracker_def)
qed

section \<open>Properties of the transitions\<close>

text \<open>The number of mints that a new header adds, as the code computes it.\<close>

definition new_auto_claims :: "PsyBridgeProgramState \<Rightarrow> PsyBridgeHeader \<Rightarrow> u32" where
  "new_auto_claims s h = sc_auto_claimed_deposits_next_index (finalized_state h)
     - sc_auto_claimed_deposits_next_index (finalized_state (bs_bridge_header s))"

definition header_info :: "PsyBridgeHeader \<Rightarrow> FinalizedBlockMintTxoInfo" where
  "header_info h = \<lparr> fi_pending_mints_finalized_hash = sc_pending_mints_finalized_hash (finalized_state h),
     fi_txo_output_list_finalized_hash = sc_txo_output_list_finalized_hash (finalized_state h) \<rparr>"

text \<open>The state after an accepted block, up to the manager of pending mints.\<close>

definition record_block :: "PsyBridgeProgramState \<Rightarrow> PsyBridgeHeader \<Rightarrow> FinalizedBlockMintTxoManager \<Rightarrow> PsyBridgeProgramState" where
  "record_block s h m = s \<lparr> bs_pending_mint_txos := m, bs_bridge_header := h,
     bs_recent_finalized_blocks := (bs_recent_finalized_blocks s)
       [unat (bs_next_recent_finalized_block_index s) := finalized_state h],
     bs_next_recent_finalized_block_index := (bs_next_recent_finalized_block_index s + 1) mod 8 \<rparr>"

lemma single_transition_checks:
  assumes run: "run_standard_single_block_transition sha zkv s proof vk h prog acc txo_mem mint_mem = Inr s'"
  shows "is_ready_for_new_block_update s"
    and "sc_block_height (finalized_state h) = sc_block_height (finalized_state (bs_bridge_header s)) + 1"
    and "ts_block_height (tip_state (bs_bridge_header s)) < ts_block_height (tip_state h)"
    and "sc_auto_claimed_deposits_next_index (finalized_state (bs_bridge_header s)) \<le> sc_auto_claimed_deposits_next_index (finalized_state h)"
    and "new_auto_claims s h \<le> 0xFFFF"
    and "zkv proof vk (get_block_transition_public_inputs sha (get_hash_canonical sha (bs_bridge_header s))
      (get_hash_canonical sha h) (config_get_hash sha (bs_config_params s)) (bs_custodian_wallet_config_hash s))"
  using run
  unfolding run_standard_single_block_transition_def Let_def new_auto_claims_def
  by (simp_all only: result_simps not_not not_less not_le split: if_splits) 

lemma single_transition_manager:
  assumes run: "run_standard_single_block_transition sha zkv s proof vk h prog acc txo_mem mint_mem = Inr s'"
  obtains m where "s' = record_block s h m"
    and "new_auto_claims s h = 0 \<Longrightarrow> m = bs_pending_mint_txos s \<and>
      sc_pending_mints_finalized_hash (finalized_state h) = PM_DA_DEFAULT_PENDING_MINTS_BUFFER_HASH"
    and "new_auto_claims s h \<noteq> 0 \<Longrightarrow>
      mint_buffer_matches sha prog (sc_pending_mints_finalized_hash (finalized_state h)) (ucast (new_auto_claims s h)) mint_mem \<and>
      txo_buffer_matches sha (sc_block_height (finalized_state h)) (sc_txo_output_list_finalized_hash (finalized_state h))
        (ucast (new_auto_claims s h)) txo_mem \<and>
      standard_append_block (bs_pending_mint_txos s) (sc_block_height (finalized_state h)) [header_info h] acc
        (ucast (ucast (new_auto_claims s h) :: u16)) (ucast (fst (compute_mint_group_info (ucast (new_auto_claims s h))))) = Inr m"
proof -
  let ?n = "ucast (new_auto_claims s h) :: u16"
  have small: "new_auto_claims s h \<le> 0xFFFF" by (rule single_transition_checks(5) [OF run])
  then have zero: "?n = 0 \<longleftrightarrow> new_auto_claims s h = 0"
    by (simp add: word_unat_eq_iff unat_ucast_mod word_le_nat_alt)
  show thesis
    using run that
    unfolding run_standard_single_block_transition_def Let_def new_auto_claims_def [symmetric]
      txo_buffer_matches_def header_info_def record_block_def
    by (auto simp: result_simps ensure_ready_ok_iff zero pm_txo_data_account_min_size_def
        hash_impl_sha256_bytes_def case_prod_unfold algebra_simps split: if_splits)
qed

text \<open>C3. A single-block transition is accepted only when the height grows by exactly one, the tip
  grows, the deposit index does not fall, and the verifier accepts the proof for exactly the
  old header, the new header, the configuration and the wallet. The new state records the
  header and the block and keeps the invariant of the mint manager. With no new deposits the
  header carries the empty-buffer hash; otherwise both buffers have the hashes that the
  header commits to and the manager is loaded with this block and its number of mints.\<close>

theorem single_block_transition_sound:
  assumes "run_standard_single_block_transition sha zkv s proof vk h prog acc txo_mem mint_mem = Inr s'"
    and "manager_inv (bs_pending_mint_txos s)"
  shows "sc_block_height (finalized_state h) = sc_block_height (finalized_state (bs_bridge_header s)) + 1 \<and>
    ts_block_height (tip_state (bs_bridge_header s)) < ts_block_height (tip_state h) \<and>
    zkv proof vk (get_block_transition_public_inputs sha (get_hash_canonical sha (bs_bridge_header s))
      (get_hash_canonical sha h) (config_get_hash sha (bs_config_params s)) (bs_custodian_wallet_config_hash s)) \<and>
    s' = record_block s h (bs_pending_mint_txos s') \<and> manager_inv (bs_pending_mint_txos s') \<and>
    unat (sc_auto_claimed_deposits_next_index (finalized_state h)) =
      unat (sc_auto_claimed_deposits_next_index (finalized_state (bs_bridge_header s))) + unat (new_auto_claims s h) \<and>
    (if new_auto_claims s h = 0
     then bs_pending_mint_txos s' = bs_pending_mint_txos s \<and>
       sc_pending_mints_finalized_hash (finalized_state h) = PM_DA_DEFAULT_PENDING_MINTS_BUFFER_HASH
     else mint_buffer_matches sha prog (sc_pending_mints_finalized_hash (finalized_state h)) (ucast (new_auto_claims s h)) mint_mem \<and>
       txo_buffer_matches sha (sc_block_height (finalized_state h)) (sc_txo_output_list_finalized_hash (finalized_state h))
         (ucast (new_auto_claims s h)) txo_mem \<and>
       loaded_manager (bs_pending_mint_txos s') (sc_block_height (finalized_state h)) [header_info h] acc
         (ucast (new_auto_claims s h)))"
proof -
  let ?n = "ucast (new_auto_claims s h) :: u16"
  note checks = single_transition_checks [OF assms(1)]
  obtain m where m: "s' = record_block s h m"
    "new_auto_claims s h = 0 \<Longrightarrow> m = bs_pending_mint_txos s \<and>
      sc_pending_mints_finalized_hash (finalized_state h) = PM_DA_DEFAULT_PENDING_MINTS_BUFFER_HASH"
    "new_auto_claims s h \<noteq> 0 \<Longrightarrow>
      mint_buffer_matches sha prog (sc_pending_mints_finalized_hash (finalized_state h)) ?n mint_mem \<and>
      txo_buffer_matches sha (sc_block_height (finalized_state h)) (sc_txo_output_list_finalized_hash (finalized_state h)) ?n txo_mem \<and>
      standard_append_block (bs_pending_mint_txos s) (sc_block_height (finalized_state h)) [header_info h] acc
        (ucast ?n) (ucast (fst (compute_mint_group_info ?n))) = Inr m"
    using single_transition_manager [OF assms(1)] by blast
  have mgr: "bs_pending_mint_txos s' = m" by (simp add: m(1) record_block_def)
  have empty: "manager_is_empty (bs_pending_mint_txos s)" using checks(1) by (simp add: is_ready_for_new_block_update_def)
  have n0: "(ucast ?n :: u32) \<noteq> 0" if "new_auto_claims s h \<noteq> 0"
    using that checks(5) by (simp add: word_unat_eq_iff unat_ucast_mod word_le_nat_alt)
  have loaded: "loaded_manager m (sc_block_height (finalized_state h)) [header_info h] acc ?n"
    if "new_auto_claims s h \<noteq> 0"
    using append_loads_manager [OF assms(2) empty _ _ conjunct2 [OF conjunct2 [OF m(3) [OF that]]]]
      append_single_not_empty [OF assms(2) empty n0 [OF that] conjunct2 [OF conjunct2 [OF m(3) [OF that]]]] by simp
  have inv: "manager_inv m"
    using m(2) loaded assms(2) by (cases "new_auto_claims s h = 0") (simp_all add: loaded_manager_def)
  have idx: "unat (sc_auto_claimed_deposits_next_index (finalized_state h)) =
      unat (sc_auto_claimed_deposits_next_index (finalized_state (bs_bridge_header s))) + unat (new_auto_claims s h)"
    using checks(4) by (simp add: new_auto_claims_def unat_sub word_le_nat_alt)
  show ?thesis using checks(2,3,6) m(1) m(2) m(3) loaded inv idx unfolding mgr by auto
qed

text \<open>
  Concrete buffers for one mint, and a concrete digest with the two documented values for the
  empty buffers.
\<close>

definition marker_digest :: "bytes \<Rightarrow> bytes" where
  "marker_digest x = (if x = [0, 0] then PM_DA_DEFAULT_PENDING_MINTS_BUFFER_HASH
     else if x = [] then PM_TXO_DEFAULT_BUFFER_HASH else zero32)"

definition example_mint_buffer :: bytes where
  "example_mint_buffer = enc_buffer_header
     \<lparr> bh_authorized_locker_public_key = zero32, bh_authorized_writer_public_key = zero32, bh_is_locked = 1, bh_mode = 0,
       bh_pending_mint_groups_count = 1, bh_pending_mints_initialized = 1, bh_pending_mints_count = 1 \<rparr>
     @ zero32 @ enc_pending_mint \<lparr> pm_recipient = replicate 32 5, pm_amount = 1000 \<rparr>"

definition example_txo_buffer :: "u32 \<Rightarrow> bytes" where
  "example_txo_buffer height = enc_txo_header
     \<lparr> th_authorized_writer = zero32, th_init_status = 1, th_finalized_status = 1, th_doge_block_height = height,
       th_batch_id = 0, th_data_size = 4 \<rparr> @ replicate 4 0"

definition example_block :: "u32 \<Rightarrow> PsyBridgeHeader" where
  "example_block n = (example_header n) \<lparr> finalized_state := (finalized_state (example_header n))
     \<lparr> sc_pending_mints_finalized_hash := zero32, sc_txo_output_list_finalized_hash := zero32,
       sc_auto_claimed_deposits_next_index := 1 \<rparr> \<rparr>"

lemma marker_digest_zero [simp]: "x \<noteq> [0, 0] \<Longrightarrow> x \<noteq> [] \<Longrightarrow> marker_digest x = zero32"
  by (simp add: marker_digest_def)

lemma length_example_buffers [simp]: "length example_mint_buffer = 144" "length (example_txo_buffer h) = 52"
  by (simp_all add: example_mint_buffer_def example_txo_buffer_def enc_buffer_header_def enc_txo_header_def enc_pending_mint_def)

lemma example_buffer_headers [simp]:
  "dec_buffer_header (bslice example_mint_buffer 0 72) =
     \<lparr> bh_authorized_locker_public_key = zero32, bh_authorized_writer_public_key = zero32, bh_is_locked = 1, bh_mode = 0,
       bh_pending_mint_groups_count = 1, bh_pending_mints_initialized = 1, bh_pending_mints_count = 1 \<rparr>"
  "dec_txo_header (bslice (example_txo_buffer h) 0 48) =
     \<lparr> th_authorized_writer = zero32, th_init_status = 1, th_finalized_status = 1, th_doge_block_height = h,
       th_batch_id = 0, th_data_size = 4 \<rparr>"
  by (simp_all add: example_mint_buffer_def example_txo_buffer_def buffer_header.read_prefix txo_header.read_prefix
      wf_buffer_header_def wf_txo_header_def)

lemma example_buffers_match:
  "mint_buffer_matches marker_digest zero32 zero32 1 example_mint_buffer"
  "txo_buffer_matches marker_digest h zero32 1 (example_txo_buffer h)"
  "ensure_pending_mints_ready_for_transition_inner marker_digest zero32 zero32 example_mint_buffer = Inr (zero32, 1)"
proof -
  have ne: "bslice example_mint_buffer 70 104 \<noteq> xs" if "length xs < 3" for xs
  proof
    assume "bslice example_mint_buffer 70 104 = xs"
    then have "length (bslice example_mint_buffer 70 104) = length xs" by simp
    with that show False by simp
  qed
  have ne': "bslice (example_txo_buffer h) 48 52 \<noteq> xs" if "length xs < 3" for xs
  proof
    assume "bslice (example_txo_buffer h) 48 52 = xs"
    then have "length (bslice (example_txo_buffer h) 48 52) = length xs" by simp
    with that show False by simp
  qed
  show "mint_buffer_matches marker_digest zero32 zero32 1 example_mint_buffer"
    using ne by (simp add: mint_buffer_matches_def group_count_def)
  then show "ensure_pending_mints_ready_for_transition_inner marker_digest zero32 zero32 example_mint_buffer = Inr (zero32, 1)"
    by (simp add: ensure_inner_ok_iff)
  show "txo_buffer_matches marker_digest h zero32 1 (example_txo_buffer h)"
    using ne' by (simp add: txo_buffer_matches_def)
qed

theorem single_block_transition_sound_witness:
  "\<exists>s'. run_standard_single_block_transition marker_digest (\<lambda>p v i. True) (state_initialize example_init)
      (replicate 256 0) zero32 (example_block 2) zero32 (replicate 32 7) (example_txo_buffer 2) example_mint_buffer = Inr s' \<and>
    loaded_manager (bs_pending_mint_txos s') 2 [default_info] (replicate 32 7) 1"
proof -
  let ?s = "state_initialize example_init"
  have inv: "manager_inv (bs_pending_mint_txos ?s)" by (simp add: state_initialize_def manager_new_empty_inv)
  have info: "\<not> info_is_empty default_info" using zero32_not_default by (simp add: info_is_empty_def default_info_def)
  have txo: "marker_digest (bslice (example_txo_buffer 2) 48 52) = zero32"
    using example_buffers_match(2) [of 2] by (simp add: txo_buffer_matches_def)
  have new: "new_auto_claims ?s (example_block 2) = 1"
    by (simp add: new_auto_claims_def example_block_def example_header_def state_initialize_def example_init_def)
  obtain s' where s': "run_standard_single_block_transition marker_digest (\<lambda>p v i. True) ?s
      (replicate 256 0) zero32 (example_block 2) zero32 (replicate 32 7) (example_txo_buffer 2) example_mint_buffer = Inr s'"
    using info txo
    by (simp add: run_standard_single_block_transition_def is_ready_for_new_block_update_def state_initialize_def
        example_init_def example_block_def example_header_def manager_new_empty_def manager_is_empty_def
        ensure_pending_mints_ready_for_transition_def example_buffers_match(3) pm_txo_data_account_min_size_def
        hash_impl_sha256_bytes_def compute_mint_group_info_def standard_append_block_def fast_forward_empty_def
        tracker_is_empty_def empty_tracker_def default_info_def write_at_def Let_def)
  have "header_info (example_block 2) = default_info" "sc_block_height (finalized_state (example_block 2)) = 2"
    by (simp_all add: header_info_def example_block_def default_info_def example_header_def)
  with single_block_transition_sound [OF s' inv] s' new show ?thesis by simp
qed

lemma reorg_transition_checks:
  assumes run: "run_block_transition_reorg sha zkv s proof vk h extra prog acc txo_mem mint_mem = Inr s'"
  shows "is_ready_for_new_block_update s"
    and "unat (sc_block_height (finalized_state h)) =
      unat (sc_block_height (finalized_state (bs_bridge_header s))) + length extra + 1"
    and "ts_block_height (tip_state (bs_bridge_header s)) < ts_block_height (tip_state h)"
    and "zkv proof vk (get_reorg_block_transition_public_inputs sha (get_hash_canonical sha (bs_bridge_header s))
      (get_hash_canonical sha h) extra (config_get_hash sha (bs_config_params s)) (bs_custodian_wallet_config_hash s))"
proof -
  let ?a = "sc_block_height (finalized_state (bs_bridge_header s))" and ?b = "sc_block_height (finalized_state h)"
  note checks = run [unfolded run_block_transition_reorg_def Let_def if_Inl_eq_Inr not_not not_le]
  have less: "?a < ?b" and len: "length extra = unat (?b - ?a - 1)"
    by (insert checks, (elim conjE, assumption)+)
  show "is_ready_for_new_block_update s" "ts_block_height (tip_state (bs_bridge_header s)) < ts_block_height (tip_state h)"
    "zkv proof vk (get_reorg_block_transition_public_inputs sha (get_hash_canonical sha (bs_bridge_header s))
      (get_hash_canonical sha h) extra (config_get_hash sha (bs_config_params s)) (bs_custodian_wallet_config_hash s))"
    by (insert checks, (elim conjE, assumption)+)
  have "unat (?b - ?a) = unat ?b - unat ?a" "0 < unat (?b - ?a)"
    using less by (simp_all add: unat_sub word_less_nat_alt less_imp_le)
  moreover have "unat (?b - ?a - 1) = unat (?b - ?a) - 1"
    using calculation(2) by (simp add: unat_sub word_le_nat_alt Suc_le_eq)
  ultimately show "unat ?b = unat ?a + length extra + 1"
    using less len by (simp add: word_less_nat_alt)
qed

lemma reorg_transition_manager:
  assumes run: "run_block_transition_reorg sha zkv s proof vk h extra prog acc txo_mem mint_mem = Inr s'"
  obtains "s' = s \<lparr> bs_bridge_header := h \<rparr>" and "\<forall>x \<in> set (extra @ [header_info h]). info_is_empty x"
  | i n m where "get_backlog_contains_pending_mints (extra @ [header_info h]) = Some i"
    and "s' = s \<lparr> bs_pending_mint_txos := m, bs_bridge_header := h \<rparr>"
    and "mint_buffer_matches sha prog (fi_pending_mints_finalized_hash ((extra @ [header_info h]) ! i)) n mint_mem"
    and "txo_buffer_matches sha (sc_block_height (finalized_state h) - (of_nat (length (extra @ [header_info h])) - of_nat i - 1))
      (fi_txo_output_list_finalized_hash ((extra @ [header_info h]) ! i)) n txo_mem"
    and "standard_append_block (bs_pending_mint_txos s)
      (sc_block_height (finalized_state h) - (of_nat (length (extra @ [header_info h])) - of_nat i - 1))
      (drop i (extra @ [header_info h])) acc (ucast n) (ucast (fst (compute_mint_group_info n))) = Inr m"
proof -
  let ?items = "extra @ [header_info h]"
  have run': "(case get_backlog_contains_pending_mints ?items of None \<Rightarrow> Inr (s \<lparr> bs_bridge_header := h \<rparr>)
      | Some i \<Rightarrow> rbind (ensure_pending_mints_ready_for_transition_inner sha prog (fi_pending_mints_finalized_hash (?items ! i)) mint_mem)
        (\<lambda>(e, n). if e \<noteq> fi_pending_mints_finalized_hash (?items ! i) then Inl (Err InvalidPendingMintsBufferHash)
          else if length txo_mem < pm_txo_data_account_min_size n then Inl (Err InvalidAutoClaimTxoBufferDataAccountSize)
          else if th_doge_block_height (dec_txo_header (bslice txo_mem 0 48)) \<noteq>
              sc_block_height (finalized_state h) - (of_nat (length ?items) - of_nat i - 1)
          then Inl (Err InvalidAutoClaimTxoBufferPendingMintsCount)
          else if sha (bslice txo_mem 48 (pm_txo_data_account_min_size n)) \<noteq> fi_txo_output_list_finalized_hash (?items ! i)
          then Inl (Err InvalidAutoClaimTxoBufferHash)
          else rbind (standard_append_block (bs_pending_mint_txos s)
              (sc_block_height (finalized_state h) - (of_nat (length ?items) - of_nat i - 1)) (drop i ?items) acc
              (ucast n) (ucast (fst (compute_mint_group_info n))))
            (\<lambda>m. Inr (s \<lparr> bs_pending_mint_txos := m, bs_bridge_header := h \<rparr>)))) = Inr s'"
    using run unfolding run_block_transition_reorg_def Let_def header_info_def [symmetric] case_prod_unfold
      hash_impl_sha256_bytes_def if_Inl_eq_Inr by (elim conjE)
  show thesis
  proof (cases "get_backlog_contains_pending_mints ?items")
    case None
    with run' that(1) backlog_ok(1) [of ?items] show ?thesis by simp
  next
    case (Some i)
    with run' that(2) [OF Some] show ?thesis
      by (auto simp: result_simps ensure_inner_ok_iff txo_buffer_matches_def pm_txo_data_account_min_size_def algebra_simps)
  qed
qed

text \<open>A buffer with no mints has the two documented hashes, so its block counts as empty.\<close>

lemma no_mints_empty:
  assumes "mint_buffer_matches sha prog (fi_pending_mints_finalized_hash i) 0 mint_mem"
    and "txo_buffer_matches sha height (fi_txo_output_list_finalized_hash i) 0 txo_mem"
    and "sha [0, 0] = PM_DA_DEFAULT_PENDING_MINTS_BUFFER_HASH" and "sha [] = PM_TXO_DEFAULT_BUFFER_HASH"
  shows "info_is_empty i"
proof -
  have len: "72 \<le> length mint_mem" using assms(1) by (simp add: mint_buffer_matches_def)
  then have "from_le_bytes (bslice mint_mem 70 72) = (0 :: u16)"
    using assms(1) by (simp add: mint_buffer_matches_def dec_buffer_header_def bslice_bslice)
  then have "to_le_bytes (from_le_bytes (bslice mint_mem 70 72) :: u16) = [0, 0]"
    by (simp add: to_le_bytes_def numeral_2_eq_2)
  then have "bslice mint_mem 70 72 = [0, 0]" using len by simp
  then show ?thesis using assms by (simp add: mint_buffer_matches_def txo_buffer_matches_def info_is_empty_def)
qed

text \<open>C14. A reorg is accepted only when the finalized height grows by one more than the number of
  extra blocks, the tip grows, and the verifier accepts the proof for the two headers, the
  extra blocks, the configuration and the wallet. If no block has mints the manager is
  unchanged; otherwise it is loaded with the blocks from the first one that has mints, whose
  buffers match its hashes and its height and which has at least one mint.\<close>

theorem reorg_transition_sound:
  assumes "run_block_transition_reorg sha zkv s proof vk h extra prog acc txo_mem mint_mem = Inr s'"
    and "manager_inv (bs_pending_mint_txos s)"
    and "sha [0, 0] = PM_DA_DEFAULT_PENDING_MINTS_BUFFER_HASH" and "sha [] = PM_TXO_DEFAULT_BUFFER_HASH"
  shows "unat (sc_block_height (finalized_state h)) =
      unat (sc_block_height (finalized_state (bs_bridge_header s))) + length extra + 1 \<and>
    ts_block_height (tip_state (bs_bridge_header s)) < ts_block_height (tip_state h) \<and>
    zkv proof vk (get_reorg_block_transition_public_inputs sha (get_hash_canonical sha (bs_bridge_header s))
      (get_hash_canonical sha h) extra (config_get_hash sha (bs_config_params s)) (bs_custodian_wallet_config_hash s)) \<and>
    s' = s \<lparr> bs_pending_mint_txos := bs_pending_mint_txos s', bs_bridge_header := h \<rparr> \<and>
    manager_inv (bs_pending_mint_txos s') \<and>
    (let items = extra @ [header_info h] in
     if \<forall>i \<in> set items. info_is_empty i then bs_pending_mint_txos s' = bs_pending_mint_txos s
     else \<exists>i n. i < length items \<and> (\<forall>j < i. info_is_empty (items ! j)) \<and> n \<noteq> 0 \<and>
       mint_buffer_matches sha prog (fi_pending_mints_finalized_hash (items ! i)) n mint_mem \<and>
       txo_buffer_matches sha (sc_block_height (finalized_state (bs_bridge_header s)) + of_nat (i + 1))
         (fi_txo_output_list_finalized_hash (items ! i)) n txo_mem \<and>
       loaded_manager (bs_pending_mint_txos s') (sc_block_height (finalized_state (bs_bridge_header s)) + of_nat (i + 1))
         (drop i items) acc n)"
proof -
  let ?a = "sc_block_height (finalized_state (bs_bridge_header s))" and ?b = "sc_block_height (finalized_state h)"
  let ?items = "extra @ [header_info h]"
  note checks = reorg_transition_checks [OF assms(1)]
  have empty: "manager_is_empty (bs_pending_mint_txos s)" using checks(1) by (simp add: is_ready_for_new_block_update_def)
  have b: "?b = ?a + of_nat (length extra) + 1"
    using arg_cong [OF checks(2), of "of_nat :: nat \<Rightarrow> u32"] by simp
  have height: "?b - (of_nat (length ?items) - of_nat i - 1) = ?a + of_nat (i + 1)" for i by (simp add: b)
  from assms(1) show ?thesis
  proof (cases rule: reorg_transition_manager)
    case 1
    with checks assms(2) show ?thesis by (simp add: Let_def)
  next
    case (2 i n m)
    note i = backlog_ok(2) [OF 2(1)] and 2 = 2 [unfolded height]
    have "drop i ?items ! 0 = ?items ! i" using i nth_drop [of i ?items 0] by (simp del: drop_append)
    then have loaded: "loaded_manager m (?a + of_nat (i + 1)) (drop i ?items) acc n"
      using i by (intro append_loads_manager [OF assms(2) empty _ _ 2(5)]) simp_all
    have n: "n \<noteq> 0" using no_mints_empty [OF _ _ assms(3,4)] 2(3,4) i by blast
    have some: "\<not> (\<forall>x \<in> set ?items. info_is_empty x)" using i nth_mem by blast
    have m: "bs_pending_mint_txos s' = m" using 2(2) by simp
    have inv: "manager_inv m" using loaded by (simp add: loaded_manager_def)
    show ?thesis
      unfolding Let_def if_not_P [OF some] m
      by (intro conjI exI [of _ i] exI [of _ n]) (use checks(2-4) 2(2-4) i inv loaded n in \<open>simp_all del: drop_append\<close>)
  qed
qed

theorem reorg_transition_sound_witness:
  "\<exists>s'. run_block_transition_reorg marker_digest (\<lambda>p v i. True) (state_initialize example_init)
      (replicate 256 0) zero32 (example_block 3) [default_info] zero32 (replicate 32 7) (example_txo_buffer 2)
      example_mint_buffer = Inr s' \<and>
    bs_bridge_header s' = example_block 3 \<and> manager_inv (bs_pending_mint_txos s')"
proof -
  let ?s = "state_initialize example_init"
  have inv: "manager_inv (bs_pending_mint_txos ?s)" by (simp add: state_initialize_def manager_new_empty_inv)
  have info: "\<not> info_is_empty default_info" using zero32_not_default by (simp add: info_is_empty_def default_info_def)
  have hash: "fi_pending_mints_finalized_hash default_info = zero32" "fi_txo_output_list_finalized_hash default_info = zero32"
    by (simp_all add: default_info_def)
  have count: "count_empty_infos (default_info # xs) 0 2 = Inr 0" for xs using info by (simp add: numeral_2_eq_2)
  have txo: "marker_digest (bslice (example_txo_buffer 2) 48 52) = zero32"
    using example_buffers_match(2) [of 2] by (simp add: txo_buffer_matches_def)
  obtain s' where s': "run_block_transition_reorg marker_digest (\<lambda>p v i. True) ?s (replicate 256 0) zero32
      (example_block 3) [default_info] zero32 (replicate 32 7) (example_txo_buffer 2) example_mint_buffer = Inr s'"
    using info txo
    by (simp add: run_block_transition_reorg_def is_ready_for_new_block_update_def state_initialize_def
        example_init_def example_block_def example_header_def manager_new_empty_def manager_is_empty_def hash
        example_buffers_match(3) pm_txo_data_account_min_size_def hash_impl_sha256_bytes_def compute_mint_group_info_def
        standard_append_block_def fast_forward_empty_def tracker_is_empty_def empty_tracker_def write_at_def Let_def
        word_le_nat_alt word_less_nat_alt count)
  have sha: "marker_digest [0, 0] = PM_DA_DEFAULT_PENDING_MINTS_BUFFER_HASH" "marker_digest [] = PM_TXO_DEFAULT_BUFFER_HASH"
    by (simp_all add: marker_digest_def)
  have upd: "bs_bridge_header (t \<lparr> bs_pending_mint_txos := m, bs_bridge_header := h \<rparr>) = h" for t m h by simp
  from reorg_transition_sound [OF s' inv sha] have "s' = ?s \<lparr> bs_pending_mint_txos := bs_pending_mint_txos s',
      bs_bridge_header := example_block 3 \<rparr>" "manager_inv (bs_pending_mint_txos s')" by blast+
  with s' upd show ?thesis by metis
qed

end
