(* ===== verification/AutoMint.thy ===== *)
theory AutoMint
  imports BlockUpdate "HOL-Library.Multiset"
begin

text \<open>
  Paying out pending mints (\<open>program_state/auto_mint.rs\<close>): the mints of the loaded buffer are
  paid in groups of 24, each group at most once; when a block is finished the next queued
  block is loaded. A mint is a call of the parameter \<open>mint_to\<close>, and the calls are recorded.
\<close>

section \<open>Paying out mint groups\<close>

definition get_nth_pending_mint_offset :: "u16 \<Rightarrow> u16 \<Rightarrow> nat" where
  "get_nth_pending_mint_offset pending_mint_groups_count global_mint_idx =
     PM_DA_PENDING_MINTS_BUFFER_STATE_HEADER_SIZE + unat pending_mint_groups_count * 32 +
     unat global_mint_idx * PM_DA_PENDING_MINT_SIZE"

text \<open>The computation of \<open>mints_count_for_current_group\<close>, which three functions share.\<close>

definition mints_count_for_group :: "PendingMintsTracker \<Rightarrow> u16 \<Rightarrow> u16 \<Rightarrow> u16" where
  "mints_count_for_group t total_groups mint_group_index =
     (if mint_group_index = total_groups - 1
      then let rem = (ucast (pt_total_pending_mints t) :: u16) mod PM_MAX_PENDING_MINTS_PER_GROUP_U16
           in if rem = 0 then PM_MAX_PENDING_MINTS_PER_GROUP_U16 else rem
      else PM_MAX_PENDING_MINTS_PER_GROUP_U16)"

definition run_auto_mint_group_precheck ::
  "PsyBridgeProgramState \<Rightarrow> u16 \<Rightarrow> pubkey \<Rightarrow> (PsyBridgeProgramState \<times> bool \<times> u16 \<times> nat) QDogeResult" where
  "run_auto_mint_group_precheck s mint_group_index pending_mints_buffer_pubkey =
     (let m = bs_pending_mint_txos s; t = fm_tracker m
      in if manager_is_empty m then Inl (Err NoPendingMintsToAutoProcess)
      else let total_groups = get_current_total_pending_mints_groups t
      in if total_groups = 0 then Inl (Err NoPendingMintsToAutoProcess)
      else if tracker_is_empty t then Inl (Err NoPendingMintsToAutoProcess)
      else rbind (ensure_can_claim_pending_mints_group t mint_group_index) (\<lambda>_.
      let mints_count = mints_count_for_group t total_groups mint_group_index;
          offset_start = get_nth_pending_mint_offset total_groups (mint_group_index * PM_MAX_PENDING_MINTS_PER_GROUP_U16)
      in if pending_mints_buffer_pubkey \<noteq> pt_storage_account t then Inl (Err InvalidAccountKey)
      else rbind (manager_mark_pending_mints_group_claimed m mint_group_index) (\<lambda>(m', can_unlock).
      Inr (s \<lparr> bs_pending_mint_txos := m' \<rparr>, can_unlock, mints_count, offset_start))))"

text \<open>
  The payout loop: mint \<open>p\<close>, counting up \<open>k\<close> more times; the buffer is read at
  \<open>start + p * 40\<close>, and every call is recorded.
\<close>

primrec mint_loop ::
  "(nat \<Rightarrow> pubkey \<Rightarrow> u64 \<Rightarrow> unit QDogeResult) \<Rightarrow> bytes \<Rightarrow> nat \<Rightarrow> nat \<Rightarrow> nat \<Rightarrow> mint_call list QDogeResult" where
  "mint_loop mint_to mem start p 0 = Inr []"
| "mint_loop mint_to mem start p (Suc k) =
     (let offset = start + p * PM_DA_PENDING_MINT_SIZE
      in if length mem < offset + PM_DA_PENDING_MINT_SIZE then Inl Panic
         else let pending_mint = dec_pending_mint (bslice mem offset (offset + PM_DA_PENDING_MINT_SIZE))
         in rbind (mint_to p (pm_recipient pending_mint) (pm_amount pending_mint)) (\<lambda>_.
            rbind (mint_loop mint_to mem start (Suc p) k) (\<lambda>calls.
            Inr ((p, pm_recipient pending_mint, pm_amount pending_mint) # calls))))"

definition run_auto_mint_group ::
  "(nat \<Rightarrow> pubkey \<Rightarrow> u64 \<Rightarrow> unit QDogeResult) \<Rightarrow> PsyBridgeProgramState \<Rightarrow> pubkey \<Rightarrow> pubkey \<Rightarrow> bytes \<Rightarrow> u16 \<Rightarrow>
   (PsyBridgeProgramState \<times> mint_call list \<times> bool \<times> nat) QDogeResult" where
  "run_auto_mint_group mint_to s self_bridge_program_pub_key mint_buffer_public_key mem mint_group_index =
     (let m = bs_pending_mint_txos s; t = fm_tracker m
      in if manager_is_empty m then Inl (Err NoPendingMintsToAutoProcess)
      else let total_groups = get_current_total_pending_mints_groups t
      in if total_groups = 0 then Inl (Err NoPendingMintsToAutoProcess)
      else if tracker_is_empty t then Inl (Err NoPendingMintsToAutoProcess)
      else rbind (ensure_can_claim_pending_mints_group t mint_group_index) (\<lambda>_.
      if length mem < PM_DA_PENDING_MINTS_BUFFER_STATE_HEADER_SIZE then Inl Panic
      else let hdr = dec_buffer_header (bslice mem 0 PM_DA_PENDING_MINTS_BUFFER_STATE_HEADER_SIZE)
      in if mint_group_index \<ge> bh_pending_mint_groups_count hdr then Inl (Err PendingMintsGroupIndexOutOfBounds)
      else if bh_authorized_locker_public_key hdr \<noteq> self_bridge_program_pub_key
      then Inl (Err InvalidMintBufferLockingPermission)
      else let mints_count = mints_count_for_group t total_groups mint_group_index;
          offset_start = get_nth_pending_mint_offset total_groups (mint_group_index * PM_MAX_PENDING_MINTS_PER_GROUP_U16)
      in if pt_storage_account t \<noteq> mint_buffer_public_key then Inl (Err InvalidAccountKey)
      else rbind (manager_mark_pending_mints_group_claimed m mint_group_index) (\<lambda>(m', can_unlock).
      rbind (mint_loop mint_to mem offset_start 0 (unat mints_count)) (\<lambda>calls.
      Inr (s \<lparr> bs_pending_mint_txos := m' \<rparr>, calls, can_unlock, unat mints_count)))))"

text \<open>
  \<open>run_auto_mint_group_old\<close> does not compare the buffer key and unlocks the buffer itself;
  the unlock call is recorded as the account it names.
\<close>

definition run_auto_mint_group_old ::
  "(nat \<Rightarrow> pubkey \<Rightarrow> u64 \<Rightarrow> unit QDogeResult) \<Rightarrow> (pubkey \<Rightarrow> unit QDogeResult) \<Rightarrow> PsyBridgeProgramState \<Rightarrow> pubkey \<Rightarrow> bytes \<Rightarrow>
   u16 \<Rightarrow> (PsyBridgeProgramState \<times> mint_call list \<times> pubkey list) QDogeResult" where
  "run_auto_mint_group_old mint_to unlock_buffer s self_bridge_program_pub_key mem mint_group_index =
     (let m = bs_pending_mint_txos s; t = fm_tracker m
      in if manager_is_empty m then Inl (Err NoPendingMintsToAutoProcess)
      else let total_groups = get_current_total_pending_mints_groups t
      in if total_groups = 0 then Inl (Err NoPendingMintsToAutoProcess)
      else if tracker_is_empty t then Inl (Err NoPendingMintsToAutoProcess)
      else rbind (ensure_can_claim_pending_mints_group t mint_group_index) (\<lambda>_.
      if length mem < PM_DA_PENDING_MINTS_BUFFER_STATE_HEADER_SIZE then Inl Panic
      else let hdr = dec_buffer_header (bslice mem 0 PM_DA_PENDING_MINTS_BUFFER_STATE_HEADER_SIZE)
      in if mint_group_index \<ge> bh_pending_mint_groups_count hdr then Inl (Err PendingMintsGroupIndexOutOfBounds)
      else if bh_authorized_locker_public_key hdr \<noteq> self_bridge_program_pub_key
      then Inl (Err InvalidMintBufferLockingPermission)
      else let mints_count = mints_count_for_group t total_groups mint_group_index;
          offset_start = get_nth_pending_mint_offset total_groups (mint_group_index * PM_MAX_PENDING_MINTS_PER_GROUP_U16);
          buffer_account = pt_storage_account t
      in rbind (manager_mark_pending_mints_group_claimed m mint_group_index) (\<lambda>(m', can_unlock).
      rbind (mint_loop mint_to mem offset_start 0 (unat mints_count)) (\<lambda>calls.
      if can_unlock
      then rbind (unlock_buffer buffer_account) (\<lambda>_. Inr (s \<lparr> bs_pending_mint_txos := m' \<rparr>, calls, [buffer_account]))
      else Inr (s \<lparr> bs_pending_mint_txos := m' \<rparr>, calls, [])))))"

section \<open>Loading the next queued block\<close>

definition run_setup_next_pending_buffer ::
  "(bytes \<Rightarrow> bytes) \<Rightarrow> PsyBridgeProgramState \<Rightarrow> pubkey \<Rightarrow> pubkey \<Rightarrow> bytes \<Rightarrow> bytes \<Rightarrow> PsyBridgeProgramState QDogeResult" where
  "run_setup_next_pending_buffer sha s self_bridge_program_pub_key mint_buffer_public_key txo_mem mint_mem =
     (if is_ready_for_new_block_update s \<or> manager_is_empty (bs_pending_mint_txos s)
      then Inl (Err NoPendingMintsToAutoProcess)
      else if \<not> tracker_is_empty (fm_tracker (bs_pending_mint_txos s))
      then Inl (Err RemainingPendingMintsInPreviousState)
      else rbind (ensure_ready_to_start_next_pending_finalized_info (bs_pending_mint_txos s)) (\<lambda>_.
      rbind (fast_forward_empty (bs_pending_mint_txos s)) (\<lambda>m.
      let s = s \<lparr> bs_pending_mint_txos := m \<rparr>
      in if is_ready_for_new_block_update s \<or> manager_is_empty m then Inl (Err NoPendingMintsToAutoProcess)
      else if \<not> tracker_is_empty (fm_tracker m) then Inl (Err RemainingPendingMintsInPreviousState)
      else rbind (ensure_ready_to_start_next_pending_finalized_info m) (\<lambda>_.
      if length (fm_infos m) \<le> unat (fm_current_index m) then Inl Panic
      else let new_pfi = fm_infos m ! unat (fm_current_index m);
               pmfh = fi_pending_mints_finalized_hash new_pfi
      in rbind (ensure_pending_mints_ready_for_transition_inner sha self_bridge_program_pub_key pmfh mint_mem)
           (\<lambda>(pending_mints_buffer_hash, pending_mints_count).
      let pm_txo_data_account_size = pm_txo_data_account_min_size pending_mints_count
      in if length txo_mem < pm_txo_data_account_size then Inl (Err InvalidAutoClaimTxoBufferDataAccountSize)
      else let txo_header = dec_txo_header (bslice txo_mem 0 PM_TXO_BUFFER_HEADER_SIZE)
      in if th_doge_block_height txo_header \<noteq> fm_start_block_height m + ucast (fm_current_index m)
      then Inl (Err InvalidBlockHeightForReorgTransition)
      else let txo_hash = hash_impl_sha256_bytes sha (bslice txo_mem PM_TXO_BUFFER_HEADER_SIZE pm_txo_data_account_size)
      in if txo_hash \<noteq> fi_txo_output_list_finalized_hash new_pfi then Inl (Err InvalidAutoClaimTxoBufferHash)
      else if fi_pending_mints_finalized_hash new_pfi \<noteq> pending_mints_buffer_hash
      then Inl (Err InvalidPendingMintsBufferHash)
      else let (mint_groups, _) = compute_mint_group_info pending_mints_count
      in Inr (s \<lparr> bs_pending_mint_txos := m \<lparr> fm_tracker :=
                   \<lparr> pt_storage_account = mint_buffer_public_key, pt_claimed = zero32,
                     pt_total_pending_mints = ucast pending_mints_count,
                     pt_groups_remaining = ucast mint_groups \<rparr> \<rparr> \<rparr>))))))"

section \<open>The mints of a buffer\<close>

definition pending_mint_at :: "bytes \<Rightarrow> nat \<Rightarrow> nat \<Rightarrow> PendingMint" where
  "pending_mint_at mem start j = dec_pending_mint (bslice mem (start + j * 40) (start + j * 40 + 40))"

definition payment :: "PendingMint \<Rightarrow> pubkey \<times> u64" where
  "payment pm = (pm_recipient pm, pm_amount pm)"

text \<open>Mint \<open>i\<close> of a buffer that holds \<open>n\<close> mints.\<close>

definition buffer_mint :: "bytes \<Rightarrow> nat \<Rightarrow> nat \<Rightarrow> PendingMint" where
  "buffer_mint mem n i = pending_mint_at mem (72 + 32 * group_count n) i"

lemma mint_loop_ok_iff:
  "mint_loop mint_to mem start p k = Inr calls \<longleftrightarrow> (k = 0 \<or> start + (p + k) * 40 \<le> length mem) \<and>
     (\<forall>j \<in> {p..<p + k}. mint_to j (pm_recipient (pending_mint_at mem start j)) (pm_amount (pending_mint_at mem start j)) = Inr ()) \<and>
     calls = map (\<lambda>j. (j, payment (pending_mint_at mem start j))) [p..<p + k]"
proof (induction k arbitrary: p calls)
  case (Suc k)
  have dom: "{p..<p + Suc k} = insert p {Suc p..<Suc p + k}" by auto
  have upt: "[p..<p + Suc k] = p # [Suc p..<Suc p + k]" by (simp add: upt_conv_Cons)
  have len: "(k = 0 \<or> start + (Suc p + k) * 40 \<le> length mem) \<and> start + p * 40 + 40 \<le> length mem \<longleftrightarrow>
      start + (p + Suc k) * 40 \<le> length mem" by auto
  show ?case
    using len Suc.IH [of "Suc p"] unfolding dom upt
    by (auto simp: result_simps Let_def not_less pending_mint_at_def payment_def)
qed auto

lemma group_below: "g < group_count n \<Longrightarrow> 24 * g < n"
  by (simp add: group_count_def less_mult_imp_div_less)

lemma last_group: "g < group_count n \<Longrightarrow> min 24 (n - 24 * g) =
    (if g = group_count n - 1 then (if n mod 24 = 0 then 24 else n mod 24) else 24)"
proof -
  assume g: "g < group_count n"
  define q r where "q = n div 24" and "r = n mod 24"
  then have n: "n = 24 * q + r" "r < 24" "group_count n = q + (if r = 0 then 0 else 1)"
    by (simp_all add: group_count_div_mod)
  have "g = q \<or> g < q" using g n(3) by (auto split: if_splits)
  then show ?thesis
  proof
    assume "g = q"
    with g n show ?thesis by (auto simp: r_def [symmetric] split: if_splits)
  next
    assume less: "g < q"
    then have "24 \<le> n - 24 * g" using n(1) by simp
    moreover have "g = group_count n - 1 \<Longrightarrow> r = 0" using less n(3) by (auto split: if_splits)
    ultimately show ?thesis by (simp add: r_def [symmetric])
  qed
qed

text \<open>The group size and the offset that the code computes, in natural numbers.\<close>

lemma group_size_and_offset:
  assumes "tracker_inv t" and g: "unat g < group_count (unat (pt_total_pending_mints t))"
  shows "unat (mints_count_for_group t (get_current_total_pending_mints_groups t) g) =
      min 24 (unat (pt_total_pending_mints t) - 24 * unat g)"
    and "get_nth_pending_mint_offset (get_current_total_pending_mints_groups t) (g * PM_MAX_PENDING_MINTS_PER_GROUP_U16) =
      72 + 32 * group_count (unat (pt_total_pending_mints t)) + 24 * unat g * 40"
proof -
  let ?n = "unat (pt_total_pending_mints t)"
  have n: "?n < 65536" using assms(1) by (simp add: tracker_inv_def)
  note total = total_groups [OF n]
  have "g = get_current_total_pending_mints_groups t - 1 \<longleftrightarrow> unat g = group_count ?n - 1"
    using g by (simp add: word_unat_eq_iff unat_sub word_le_nat_alt total Suc_le_eq)
  then show "unat (mints_count_for_group t (get_current_total_pending_mints_groups t) g) = min 24 (?n - 24 * unat g)"
    using last_group [OF g] n
    by (simp add: mints_count_for_group_def Let_def mod_24_eq_0 unat_mod_24 unat_ucast_mod)
  have "unat (g * 24) = unat g * 24" using group_below [OF g] n by (simp add: unat_word_ariths)
  then show "get_nth_pending_mint_offset (get_current_total_pending_mints_groups t) (g * PM_MAX_PENDING_MINTS_PER_GROUP_U16) =
      72 + 32 * group_count ?n + 24 * unat g * 40"
    by (simp add: get_nth_pending_mint_offset_def total)
qed

text \<open>Indices of the mints of a group; the groups of a block cut its mints into consecutive pieces.\<close>

definition group_range :: "nat \<Rightarrow> nat \<Rightarrow> nat list" where
  "group_range n g = [24 * g..<24 * g + min 24 (n - 24 * g)]"

lemma group_ranges_cover:
  "(\<Sum>g < group_count n. mset (map f (group_range n g))) = mset (map f [0..<n])"
proof -
  have "(\<Sum>g < k. mset (map f (group_range n g))) = mset (map f [0..<min (24 * k) n])" for k
  proof (induction k)
    case (Suc k)
    have "[0..<min (24 * Suc k) n] = [0..<min (24 * k) n] @ group_range n k"
    proof (cases "24 * k < n")
      case True
      then have "min (24 * Suc k) n = 24 * k + min 24 (n - 24 * k)" by auto
      with True show ?thesis
        using upt_add_eq_append [of 0 "24 * k" "min 24 (n - 24 * k)"] unfolding group_range_def by simp
    qed (simp add: group_range_def)
    with Suc show ?case by simp
  qed simp
  moreover have "n \<le> 24 * group_count n"
    using mult_div_mod_eq [of 24 n] mod_less_divisor [of 24 n] by (cases "n mod 24 = 0") (simp_all add: group_count_div_mod)
  ultimately show ?thesis by (simp add: min_absorb2)
qed

section \<open>Claiming one group\<close>

abbreviation tracker_of :: "PsyBridgeProgramState \<Rightarrow> PendingMintsTracker" where
  "tracker_of s \<equiv> fm_tracker (bs_pending_mint_txos s)"

abbreviation total_mints_of :: "PsyBridgeProgramState \<Rightarrow> nat" where
  "total_mints_of s \<equiv> unat (pt_total_pending_mints (tracker_of s))"

lemma manager_mark_ok:
  assumes inv: "manager_inv m" and can: "ensure_can_claim_pending_mints_group (fm_tracker m) g = Inr ()"
    and mark: "manager_mark_pending_mints_group_claimed m g = Inr (m', u)"
  shows "manager_inv m'" and "claimed_groups (fm_tracker m') = insert (unat g) (claimed_groups (fm_tracker m))"
    and "pt_total_pending_mints (fm_tracker m') = pt_total_pending_mints (fm_tracker m)"
    and "pt_storage_account (fm_tracker m') = pt_storage_account (fm_tracker m)"
    and "u \<longleftrightarrow> pt_groups_remaining (fm_tracker m') = 0" and "fm_infos m' = fm_infos m"
    and "fm_total_count m' = fm_total_count m" and "fm_start_block_height m' = fm_start_block_height m"
    and "unat (pt_groups_remaining (fm_tracker m')) + 1 = unat (pt_groups_remaining (fm_tracker m))"
    and "unat (fm_current_index m') = unat (fm_current_index m) +
      (if u \<and> fm_current_index m < fm_total_count m then 1 else 0)"
proof -
  have tinv: "tracker_inv (fm_tracker m)" using inv by (simp add: manager_inv_def)
  obtain t' where t': "tracker_mark_pending_mints_group_claimed (fm_tracker m) g = Inr (t', pt_groups_remaining t' = 0)"
    "claimed_groups t' = insert (unat g) (claimed_groups (fm_tracker m))" "tracker_inv t'"
    "pt_total_pending_mints t' = pt_total_pending_mints (fm_tracker m)"
    "pt_storage_account t' = pt_storage_account (fm_tracker m)"
    "unat (pt_groups_remaining t') + 1 = unat (pt_groups_remaining (fm_tracker m))"
    by (rule mark_claimed_ok [OF tinv can])
  have u: "u \<longleftrightarrow> pt_groups_remaining t' = 0" and m': "m' = (if u \<and> fm_current_index m < fm_total_count m
      then m \<lparr> fm_tracker := t', fm_current_index := fm_current_index m + 1 \<rparr> else m \<lparr> fm_tracker := t' \<rparr>)"
    using mark t'(1) by (auto simp: manager_mark_pending_mints_group_claimed_def Let_def)
  have idx: "unat (fm_current_index m + 1) = unat (fm_current_index m) + 1" if "fm_current_index m < fm_total_count m"
    using that inv by (simp add: manager_inv_def word_less_nat_alt unat_word_ariths)
  show "manager_inv m'" using inv t'(3) idx by (auto simp: m' manager_inv_def word_le_nat_alt word_less_nat_alt)
  show "unat (fm_current_index m') = unat (fm_current_index m) +
      (if u \<and> fm_current_index m < fm_total_count m then 1 else 0)" using idx by (simp add: m')
  show "claimed_groups (fm_tracker m') = insert (unat g) (claimed_groups (fm_tracker m))"
    "pt_total_pending_mints (fm_tracker m') = pt_total_pending_mints (fm_tracker m)"
    "pt_storage_account (fm_tracker m') = pt_storage_account (fm_tracker m)"
    "u \<longleftrightarrow> pt_groups_remaining (fm_tracker m') = 0" "fm_infos m' = fm_infos m"
    "fm_total_count m' = fm_total_count m" "fm_start_block_height m' = fm_start_block_height m"
    "unat (pt_groups_remaining (fm_tracker m')) + 1 = unat (pt_groups_remaining (fm_tracker m))"
    using u t' by (auto simp: m')
qed

lemma precheck_ok:
  assumes "run_auto_mint_group_precheck s g key = Inr (s', u, c, off)"
  obtains m' where "s' = s \<lparr> bs_pending_mint_txos := m' \<rparr>" and "\<not> manager_is_empty (bs_pending_mint_txos s)"
    and "ensure_can_claim_pending_mints_group (tracker_of s) g = Inr ()" and "key = pt_storage_account (tracker_of s)"
    and "manager_mark_pending_mints_group_claimed (bs_pending_mint_txos s) g = Inr (m', u)"
    and "c = mints_count_for_group (tracker_of s) (get_current_total_pending_mints_groups (tracker_of s)) g"
    and "off = get_nth_pending_mint_offset (get_current_total_pending_mints_groups (tracker_of s))
      (g * PM_MAX_PENDING_MINTS_PER_GROUP_U16)"
  using assms unfolding run_auto_mint_group_precheck_def Let_def
  by (auto simp: result_simps)

lemma claimed_group_pays:
  assumes inv: "manager_inv (bs_pending_mint_txos s)" and claim: "run_auto_mint_group_precheck s g key = Inr (s', u, c, off)"
    and loop: "mint_loop mint_to mem off 0 (unat c) = Inr calls"
  shows "unat g < group_count (total_mints_of s)"
    and "map snd calls = map (\<lambda>i. payment (buffer_mint mem (total_mints_of s) i)) (group_range (total_mints_of s) (unat g))"
proof -
  let ?n = "total_mints_of s" and ?t = "tracker_of s"
  have tinv: "tracker_inv ?t" using inv by (simp add: manager_inv_def)
  from claim have pre: "ensure_can_claim_pending_mints_group ?t g = Inr ()"
      "c = mints_count_for_group ?t (get_current_total_pending_mints_groups ?t) g"
      "off = get_nth_pending_mint_offset (get_current_total_pending_mints_groups ?t) (g * PM_MAX_PENDING_MINTS_PER_GROUP_U16)"
    by (rule precheck_ok, blast)+
  show g: "unat g < group_count ?n" using pre(1) by (simp add: ensure_can_claim_iff [OF tinv])
  note size = group_size_and_offset [OF tinv g]
  have "pending_mint_at mem off j = buffer_mint mem ?n (24 * unat g + j)" for j
    using pre(3) size(2) by (simp add: pending_mint_at_def buffer_mint_def algebra_simps)
  then have "map snd calls = map (\<lambda>j. payment (buffer_mint mem ?n (24 * unat g + j))) [0..<unat c]"
    using loop by (simp add: mint_loop_ok_iff)
  also have "\<dots> = map (\<lambda>i. payment (buffer_mint mem ?n i)) (group_range ?n (unat g))"
    unfolding group_range_def by (rule nth_equalityI) (simp_all add: pre(2) size(1))
  finally show "map snd calls = map (\<lambda>i. payment (buffer_mint mem ?n i)) (group_range ?n (unat g))" .
qed

text \<open>The group routine is its check, the claim, and the payout loop.\<close>

lemma auto_mint_group_eq:
  assumes "72 \<le> length mem" and "g < bh_pending_mint_groups_count (dec_buffer_header (bslice mem 0 72))"
    and "bh_authorized_locker_public_key (dec_buffer_header (bslice mem 0 72)) = prog"
  shows "run_auto_mint_group mint_to s prog key mem g =
    rbind (run_auto_mint_group_precheck s g key) (\<lambda>(s', u, c, off).
    rbind (mint_loop mint_to mem off 0 (unat c)) (\<lambda>calls. Inr (s', calls, u, unat c)))"
proof (cases "ensure_can_claim_pending_mints_group (tracker_of s) g")
  case (Inr x)
  then show ?thesis
    using assms
    by (cases "manager_mark_pending_mints_group_claimed (bs_pending_mint_txos s) g")
       (auto simp: run_auto_mint_group_def run_auto_mint_group_precheck_def Let_def not_le)
qed (simp add: run_auto_mint_group_def run_auto_mint_group_precheck_def Let_def)

lemma auto_mint_group_header:
  assumes "run_auto_mint_group mint_to s prog key mem g = Inr r"
  shows "72 \<le> length mem" and "g < bh_pending_mint_groups_count (dec_buffer_header (bslice mem 0 72))"
    and "bh_authorized_locker_public_key (dec_buffer_header (bslice mem 0 72)) = prog"
  using assms by (simp_all add: run_auto_mint_group_def Let_def result_simps not_less not_le)

lemma auto_mint_group_ok:
  assumes inv: "manager_inv (bs_pending_mint_txos s)"
    and run: "run_auto_mint_group mint_to s prog key mem g = Inr (s', calls, u, c)"
  obtains m' where "s' = s \<lparr> bs_pending_mint_txos := m' \<rparr>"
    and "ensure_can_claim_pending_mints_group (tracker_of s) g = Inr ()"
    and "manager_mark_pending_mints_group_claimed (bs_pending_mint_txos s) g = Inr (m', u)"
    and "key = pt_storage_account (tracker_of s)" and "c = min 24 (total_mints_of s - 24 * unat g)"
    and "map snd calls = map (\<lambda>i. payment (buffer_mint mem (total_mints_of s) i)) (group_range (total_mints_of s) (unat g))"
    and "map fst calls = [0..<c]"
proof -
  let ?n = "total_mints_of s" and ?t = "tracker_of s"
  have tinv: "tracker_inv ?t" using inv by (simp add: manager_inv_def)
  from run obtain off c' where pre: "run_auto_mint_group_precheck s g key = Inr (s', u, c', off)"
      and loop: "mint_loop mint_to mem off 0 (unat c') = Inr calls" and c: "c = unat c'"
    unfolding auto_mint_group_eq [OF auto_mint_group_header [OF run]] by (auto simp: result_simps)
  from pre obtain m' where m': "s' = s \<lparr> bs_pending_mint_txos := m' \<rparr>"
      "ensure_can_claim_pending_mints_group ?t g = Inr ()" "key = pt_storage_account ?t"
      "manager_mark_pending_mints_group_claimed (bs_pending_mint_txos s) g = Inr (m', u)"
      "c' = mints_count_for_group ?t (get_current_total_pending_mints_groups ?t) g"
    by (rule precheck_ok) auto
  note pays = claimed_group_pays [OF inv pre loop]
  have "c = min 24 (?n - 24 * unat g)" using c m'(5) group_size_and_offset(1) [OF tinv pays(1)] by simp
  then show thesis using that m' pays(2) loop c by (simp add: mint_loop_ok_iff o_def)
qed

section \<open>Paying out a block\<close>

text \<open>
  A run of payouts: groups of one buffer are claimed in some order, and the payments are
  collected.
\<close>

inductive payouts ::
  "(nat \<Rightarrow> pubkey \<Rightarrow> u64 \<Rightarrow> unit QDogeResult) \<Rightarrow> pubkey \<Rightarrow> pubkey \<Rightarrow> bytes \<Rightarrow> PsyBridgeProgramState \<Rightarrow>
   (pubkey \<times> u64) list \<Rightarrow> PsyBridgeProgramState \<Rightarrow> bool"
  for mint_to :: "nat \<Rightarrow> pubkey \<Rightarrow> u64 \<Rightarrow> unit QDogeResult" and prog key :: pubkey and mem :: bytes where
  no_payout: "payouts mint_to prog key mem s [] s"
| payout_group: "payouts mint_to prog key mem s log t \<Longrightarrow>
    run_auto_mint_group mint_to t prog key mem g = Inr (t', calls, u, c) \<Longrightarrow>
    payouts mint_to prog key mem s (log @ map snd calls) t'"

definition payments_of :: "bytes \<Rightarrow> nat \<Rightarrow> nat set \<Rightarrow> (pubkey \<times> u64) multiset" where
  "payments_of mem n G = (\<Sum>g \<in> G. mset (map (\<lambda>i. payment (buffer_mint mem n i)) (group_range n g)))"

lemma payouts_invariant:
  assumes "payouts mint_to prog key mem s log t" and "manager_inv (bs_pending_mint_txos s)"
    and "claimed_groups (tracker_of s) = {}"
  shows "manager_inv (bs_pending_mint_txos t) \<and>
    pt_total_pending_mints (tracker_of t) = pt_total_pending_mints (tracker_of s) \<and>
    mset log = payments_of mem (total_mints_of s) (claimed_groups (tracker_of t))"
  using assms
proof (induction rule: payouts.induct)
  case (no_payout s)
  then show ?case by (simp add: payments_of_def)
next
  case (payout_group s log t g t' calls u c)
  note IH = payout_group.IH [OF payout_group.prems]
  have inv: "manager_inv (bs_pending_mint_txos t)" and tinv: "tracker_inv (tracker_of t)"
    using IH by (simp_all add: manager_inv_def)
  obtain m' where m': "t' = t \<lparr> bs_pending_mint_txos := m' \<rparr>" "ensure_can_claim_pending_mints_group (tracker_of t) g = Inr ()"
      "manager_mark_pending_mints_group_claimed (bs_pending_mint_txos t) g = Inr (m', u)"
      "map snd calls = map (\<lambda>i. payment (buffer_mint mem (total_mints_of t) i)) (group_range (total_mints_of t) (unat g))"
    by (rule auto_mint_group_ok [OF inv payout_group.hyps(2)])
  note mark = manager_mark_ok [OF inv m'(2,3)]
  have "unat g \<notin> claimed_groups (tracker_of t)" using m'(2) by (simp add: ensure_can_claim_iff [OF tinv])
  then have "payments_of mem (total_mints_of s) (claimed_groups (tracker_of t')) = mset log + mset (map snd calls)"
    using IH by (simp add: m'(1,4) mark(2) payments_of_def)
  with IH mark show ?case by (simp add: m'(1))
qed

text \<open>C2. Every pending mint of a block is paid exactly once: when groups are paid out from a
  freshly loaded buffer, in any order, then what has been paid at any time is exactly the
  mints of the claimed groups, and once the tracker is empty it is exactly the list of the
  buffer's mints, each with its recipient and amount.\<close>

theorem every_mint_paid_exactly_once:
  assumes "payouts mint_to prog key mem s log t" and "manager_inv (bs_pending_mint_txos s)"
    and "fresh_tracker (tracker_of s)"
  shows "mset log = payments_of mem (total_mints_of s) (claimed_groups (tracker_of t)) \<and>
    (tracker_is_empty (tracker_of t) \<longrightarrow>
      mset log = mset (map (\<lambda>i. payment (buffer_mint mem (total_mints_of s) i)) [0..<total_mints_of s]))"
proof -
  have "claimed_groups (tracker_of s) = {}"
    using assms(3) by (intro fresh_claimed_groups) (simp add: fresh_tracker_def)
  note inv = payouts_invariant [OF assms(1,2) this]
  have "claimed_groups (tracker_of t) = {..<group_count (total_mints_of s)}" if "tracker_is_empty (tracker_of t)"
    using that inv remaining_zero_iff [of "tracker_of t"] by (simp add: manager_inv_def tracker_is_empty_def)
  then show ?thesis using inv group_ranges_cover by (auto simp: payments_of_def)
qed

definition example_loaded :: PsyBridgeProgramState where
  "example_loaded = (state_initialize example_init) \<lparr> bs_pending_mint_txos := manager_new_empty
     \<lparr> fm_infos := default_info # replicate 7 default_info, fm_total_count := 1, fm_start_block_height := 2,
       fm_tracker := \<lparr> pt_storage_account = replicate 32 7, pt_claimed = zero32, pt_total_pending_mints = 1,
                       pt_groups_remaining = 1 \<rparr> \<rparr> \<rparr>"

lemma example_loaded_inv: "manager_inv (bs_pending_mint_txos example_loaded)" "fresh_tracker (tracker_of example_loaded)"
  by (simp_all add: example_loaded_def manager_inv_def manager_new_empty_def fresh_tracker_def tracker_inv_def
      fresh_claimed_groups group_count_def)

lemma example_payout:
  "run_auto_mint_group (\<lambda>p r a. Inr ()) example_loaded zero32 (replicate 32 7) example_mint_buffer 0 =
     Inr (example_loaded \<lparr> bs_pending_mint_txos := (bs_pending_mint_txos example_loaded)
            \<lparr> fm_tracker := (tracker_of example_loaded) \<lparr> pt_claimed := zero32[0 := 1], pt_groups_remaining := 0 \<rparr>,
              fm_current_index := 1 \<rparr> \<rparr>, [(0, replicate 32 5, 1000)], True, 1)"
proof -
  have slice: "bslice example_mint_buffer 104 144 = enc_pending_mint \<lparr> pm_recipient = replicate 32 5, pm_amount = 1000 \<rparr>"
    by (simp add: example_mint_buffer_def bslice_def enc_buffer_header_def enc_pending_mint_def)
  have mod: "(1 :: u16) mod 24 = 1" "(1 :: u16) div 24 = 0"
    by (simp_all only: word_unat_eq_iff unat_mod_24 unat_div_24) simp_all
  have groups: "get_current_total_pending_mints_groups (tracker_of example_loaded) = 1"
    "mints_count_for_group (tracker_of example_loaded) 1 0 = 1"
    by (simp_all add: get_current_total_pending_mints_groups_def mints_count_for_group_def example_loaded_def
        manager_new_empty_def mod Let_def)
  have "run_auto_mint_group_precheck example_loaded 0 (replicate 32 7) =
     Inr (example_loaded \<lparr> bs_pending_mint_txos := (bs_pending_mint_txos example_loaded)
            \<lparr> fm_tracker := (tracker_of example_loaded) \<lparr> pt_claimed := zero32[0 := 1], pt_groups_remaining := 0 \<rparr>,
              fm_current_index := 1 \<rparr> \<rparr>, True, 1, 104)"
    unfolding run_auto_mint_group_precheck_def ensure_can_claim_pending_mints_group_def Let_def groups
    by (simp add: example_loaded_def manager_is_empty_def manager_new_empty_def tracker_is_empty_def
        is_pending_mints_group_already_claimed_def get_nth_pending_mint_offset_def Let_def
        manager_mark_pending_mints_group_claimed_def tracker_mark_pending_mints_group_claimed_def)
  moreover have "mint_loop (\<lambda>p r a. Inr ()) example_mint_buffer 104 0 1 = Inr [(0, replicate 32 5, 1000)]"
    by (simp add: slice pending_mint.dec_enc wf_pending_mint_def)
  ultimately show ?thesis by (simp add: auto_mint_group_eq)
qed

theorem every_mint_paid_exactly_once_witness:
  "\<exists>t. payouts (\<lambda>p r a. Inr ()) zero32 (replicate 32 7) example_mint_buffer example_loaded [(replicate 32 5, 1000)] t \<and>
     tracker_is_empty (tracker_of t) \<and>
     mset [(replicate 32 5, 1000)] = mset (map (\<lambda>i. payment (buffer_mint example_mint_buffer 1 i)) [0..<1])"
proof -
  obtain t where run: "payouts (\<lambda>p r a. Inr ()) zero32 (replicate 32 7) example_mint_buffer example_loaded
      [(replicate 32 5, 1000)] t" and empty: "tracker_is_empty (tracker_of t)"
    using payouts.payout_group [OF payouts.no_payout example_payout] by (simp add: tracker_is_empty_def)
  have total: "total_mints_of example_loaded = 1" by (simp add: example_loaded_def manager_new_empty_def)
  show ?thesis
    using every_mint_paid_exactly_once [OF run example_loaded_inv, unfolded total] run empty by blast
qed

text \<open>The retired routine and the current one do the same: paying a group with
  \<open>run_auto_mint_group_old\<close> is paying it with \<open>run_auto_mint_group\<close> for the recorded buffer
  account and then, if the block is finished, unlocking that account, in every state and on
  every input, errors included.\<close>

theorem auto_mint_old_equiv:
  "run_auto_mint_group_old mint_to unlock_buffer s prog mem g =
     rbind (run_auto_mint_group mint_to s prog (pt_storage_account (tracker_of s)) mem g) (\<lambda>(s', calls, can_unlock, count).
       if can_unlock
       then rbind (unlock_buffer (pt_storage_account (tracker_of s))) (\<lambda>_. Inr (s', calls, [pt_storage_account (tracker_of s)]))
       else Inr (s', calls, []))"
proof -
  have assoc: "rbind (rbind m f) k = rbind m (\<lambda>x. rbind (f x) k)"
    for m :: "'x QDogeResult" and f :: "'x \<Rightarrow> 'y QDogeResult" and k :: "'y \<Rightarrow> 'z QDogeResult" by (cases m) simp_all
  show ?thesis
    by (simp add: run_auto_mint_group_old_def run_auto_mint_group_def Let_def assoc case_prod_unfold if_distrib
        [of "\<lambda>m. rbind m k" for k] cong: if_cong)
qed

lemma setup_next_ok:
  assumes "run_setup_next_pending_buffer sha s prog key txo_mem mint_mem = Inr s'"
  obtains m n where "tracker_is_empty (tracker_of s)" and "fast_forward_empty (bs_pending_mint_txos s) = Inr m"
    and "fm_current_index m < fm_total_count m"
    and "mint_buffer_matches sha prog (fi_pending_mints_finalized_hash (fm_infos m ! unat (fm_current_index m))) n mint_mem"
    and "txo_buffer_matches sha (fm_start_block_height m + ucast (fm_current_index m))
      (fi_txo_output_list_finalized_hash (fm_infos m ! unat (fm_current_index m))) n txo_mem"
    and "s' = s \<lparr> bs_pending_mint_txos := m \<lparr> fm_tracker := \<lparr> pt_storage_account = key, pt_claimed = zero32,
      pt_total_pending_mints = ucast n, pt_groups_remaining = ucast (fst (compute_mint_group_info n)) \<rparr> \<rparr> \<rparr>"
  using assms
  unfolding run_setup_next_pending_buffer_def Let_def txo_buffer_matches_def
  by (auto simp: result_simps ensure_inner_ok_iff ensure_ready_to_start_next_pending_finalized_info_def not_le not_less
      pm_txo_data_account_min_size_def hash_impl_sha256_bytes_def case_prod_unfold algebra_simps)

text \<open>C26. Loading the next queued block is sound: it happens only when the previous block is fully
  paid, it skips only blocks without mints, both buffers have the hashes that were recorded
  for the block and the txo buffer its height, and the tracker is then fresh for a positive
  number of mints, with the manager's invariant kept and its queue unchanged.\<close>

theorem setup_next_buffer_sound:
  assumes "run_setup_next_pending_buffer sha s prog key txo_mem mint_mem = Inr s'"
    and "manager_inv (bs_pending_mint_txos s)"
    and "sha [0, 0] = PM_DA_DEFAULT_PENDING_MINTS_BUFFER_HASH" and "sha [] = PM_TXO_DEFAULT_BUFFER_HASH"
  shows "tracker_is_empty (tracker_of s) \<and> s' = s \<lparr> bs_pending_mint_txos := bs_pending_mint_txos s' \<rparr> \<and>
    (let m = bs_pending_mint_txos s; m' = bs_pending_mint_txos s'; info = fm_infos m ! unat (fm_current_index m') in
     manager_inv m' \<and> fm_infos m' = fm_infos m \<and> fm_total_count m' = fm_total_count m \<and>
     fm_start_block_height m' = fm_start_block_height m \<and> fm_current_index m' < fm_total_count m \<and>
     (\<forall>j. unat (fm_current_index m) \<le> j \<and> j < unat (fm_current_index m') \<longrightarrow> info_is_empty (fm_infos m ! j)) \<and>
     fresh_tracker (fm_tracker m') \<and> pt_storage_account (fm_tracker m') = key \<and>
     (\<exists>n. n \<noteq> 0 \<and> pt_total_pending_mints (fm_tracker m') = ucast n \<and>
       mint_buffer_matches sha prog (fi_pending_mints_finalized_hash info) n mint_mem \<and>
       txo_buffer_matches sha (fm_start_block_height m + ucast (fm_current_index m'))
         (fi_txo_output_list_finalized_hash info) n txo_mem))"
proof -
  let ?m = "bs_pending_mint_txos s"
  obtain m n where m: "tracker_is_empty (tracker_of s)" "fast_forward_empty ?m = Inr m" "fm_current_index m < fm_total_count m"
    "mint_buffer_matches sha prog (fi_pending_mints_finalized_hash (fm_infos m ! unat (fm_current_index m))) n mint_mem"
    "txo_buffer_matches sha (fm_start_block_height m + ucast (fm_current_index m))
      (fi_txo_output_list_finalized_hash (fm_infos m ! unat (fm_current_index m))) n txo_mem"
    "s' = s \<lparr> bs_pending_mint_txos := m \<lparr> fm_tracker := \<lparr> pt_storage_account = key, pt_claimed = zero32,
      pt_total_pending_mints = ucast n, pt_groups_remaining = ucast (fst (compute_mint_group_info n)) \<rparr> \<rparr> \<rparr>"
    by (rule setup_next_ok [OF assms(1)])
  obtain m2 where "fast_forward_empty ?m = Inr m2" "manager_inv m2" "fm_infos m2 = fm_infos ?m"
    "fm_total_count m2 = fm_total_count ?m" "fm_start_block_height m2 = fm_start_block_height ?m"
    "fm_current_index m2 < fm_total_count m2 \<Longrightarrow> \<not> info_is_empty (fm_infos m2 ! unat (fm_current_index m2))"
    "\<And>j. unat (fm_current_index ?m) \<le> j \<Longrightarrow> j < unat (fm_current_index m2) \<Longrightarrow> info_is_empty (fm_infos ?m ! j)"
    by (rule fast_forward_empty_ok [OF assms(2)]) (use m(1) in auto)
  with m(2) have ff: "manager_inv m" "fm_infos m = fm_infos ?m" "fm_total_count m = fm_total_count ?m"
    "fm_start_block_height m = fm_start_block_height ?m"
    "\<not> info_is_empty (fm_infos m ! unat (fm_current_index m))"
    "\<And>j. unat (fm_current_index ?m) \<le> j \<Longrightarrow> j < unat (fm_current_index m) \<Longrightarrow> info_is_empty (fm_infos ?m ! j)"
    using m(3) by auto
  let ?t = "\<lparr> pt_storage_account = key, pt_claimed = zero32, pt_total_pending_mints = ucast n,
      pt_groups_remaining = ucast (fst (compute_mint_group_info n)) \<rparr>"
  have fresh: "fresh_tracker ?t" using u16_bound [of n] by (simp add: fresh_tracker_def mint_group_count)
  have "manager_inv (m \<lparr> fm_tracker := ?t \<rparr>)" using ff(1) fresh_tracker_inv [OF fresh] by (simp add: manager_inv_def)
  moreover have "n \<noteq> 0" using no_mints_empty [OF _ _ assms(3,4)] m(4,5) ff(5) by blast
  ultimately show ?thesis
    using m ff fresh unfolding Let_def by auto
qed

definition example_queued :: PsyBridgeProgramState where
  "example_queued = example_loaded \<lparr> bs_pending_mint_txos := (bs_pending_mint_txos example_loaded)
     \<lparr> fm_tracker := empty_tracker \<rparr> \<rparr>"

theorem setup_next_buffer_sound_witness:
  "\<exists>s'. run_setup_next_pending_buffer marker_digest example_queued zero32 (replicate 32 7) (example_txo_buffer 2)
      example_mint_buffer = Inr s' \<and>
    fresh_tracker (tracker_of s') \<and> pt_storage_account (tracker_of s') = replicate 32 7"
proof -
  have inv: "manager_inv (bs_pending_mint_txos example_queued)"
    using example_loaded_inv(1) by (simp add: example_queued_def manager_inv_def empty_tracker_inv)
  have info: "\<not> info_is_empty default_info" using zero32_not_default by (simp add: info_is_empty_def default_info_def)
  have hash: "fi_pending_mints_finalized_hash default_info = zero32" "fi_txo_output_list_finalized_hash default_info = zero32"
    by (simp_all add: default_info_def)
  have txo: "marker_digest (bslice (example_txo_buffer 2) 48 52) = zero32"
    using example_buffers_match(2) [of 2] by (simp add: txo_buffer_matches_def)
  have sha: "marker_digest [0, 0] = PM_DA_DEFAULT_PENDING_MINTS_BUFFER_HASH" "marker_digest [] = PM_TXO_DEFAULT_BUFFER_HASH"
    by (simp_all add: marker_digest_def)
  obtain s' where s': "run_setup_next_pending_buffer marker_digest example_queued zero32 (replicate 32 7)
      (example_txo_buffer 2) example_mint_buffer = Inr s'"
    using info txo
    by (simp add: run_setup_next_pending_buffer_def example_queued_def example_loaded_def is_ready_for_new_block_update_def
        manager_is_empty_def manager_new_empty_def tracker_is_empty_def empty_tracker_def hash Let_def
        ensure_ready_to_start_next_pending_finalized_info_def fast_forward_empty_def example_buffers_match(3)
        pm_txo_data_account_min_size_def hash_impl_sha256_bytes_def compute_mint_group_info_def)
  then show ?thesis
    using setup_next_buffer_sound [OF s' inv sha] unfolding Let_def by blast
qed

end
