(* ===== verification/SolanaRuntime.thy ===== *)
theory SolanaRuntime
  imports Errors
begin

text \<open>
  What the on-chain programs use of the Solana runtime. An \<open>AccountInfo\<close> is a record; the
  system program, rent, address derivation and reallocation are code outside the sources and
  form the parameter record \<open>runtime\<close>. \<open>runtime_ok\<close> states the documented behaviour that the
  programs rely on: a transfer moves lamports only, an allocation zeroes, an assignment sets
  the owner, a reallocation truncates or extends with zeros, and a new account is zeroed and
  has the given owner. The accounts passed to one
  instruction are distinct.
\<close>

record AccountInfo =
  ai_key :: pubkey
  ai_owner :: pubkey
  ai_lamports :: u64
  ai_data :: bytes
  ai_is_signer :: bool

record runtime =
  rt_minimum_balance :: "nat \<Rightarrow> u64"
  rt_find_program_address :: "bytes list \<Rightarrow> pubkey \<Rightarrow> pubkey \<times> u8"
  rt_create_program_address :: "bytes list \<Rightarrow> pubkey \<Rightarrow> pubkey option"
  rt_transfer :: "AccountInfo \<Rightarrow> AccountInfo \<Rightarrow> u64 \<Rightarrow> (AccountInfo \<times> AccountInfo) ProgramResult"
  rt_allocate :: "bytes list \<Rightarrow> AccountInfo \<Rightarrow> nat \<Rightarrow> AccountInfo ProgramResult"
  rt_assign :: "bytes list \<Rightarrow> AccountInfo \<Rightarrow> pubkey \<Rightarrow> AccountInfo ProgramResult"
  rt_create_account :: "bytes list \<Rightarrow> AccountInfo \<Rightarrow> AccountInfo \<Rightarrow> u64 \<Rightarrow> nat \<Rightarrow> pubkey \<Rightarrow> (AccountInfo \<times> AccountInfo) ProgramResult"
  rt_realloc :: "AccountInfo \<Rightarrow> nat \<Rightarrow> AccountInfo ProgramResult"

definition transfer_ok :: "runtime \<Rightarrow> bool" where
  "transfer_ok rt \<longleftrightarrow> (\<forall>a b n a' b'. rt_transfer rt a b n = Inr (a', b') \<longrightarrow>
     a' = a \<lparr> ai_lamports := ai_lamports a' \<rparr> \<and> b' = b \<lparr> ai_lamports := ai_lamports b' \<rparr>)"

definition allocate_ok :: "runtime \<Rightarrow> bool" where
  "allocate_ok rt \<longleftrightarrow> (\<forall>seeds a n a'. rt_allocate rt seeds a n = Inr a' \<longrightarrow> a' = a \<lparr> ai_data := replicate n 0 \<rparr>)"

definition assign_ok :: "runtime \<Rightarrow> bool" where
  "assign_ok rt \<longleftrightarrow> (\<forall>seeds a p a'. rt_assign rt seeds a p = Inr a' \<longrightarrow> a' = a \<lparr> ai_owner := p \<rparr>)"

definition realloc_ok :: "runtime \<Rightarrow> bool" where
  "realloc_ok rt \<longleftrightarrow> (\<forall>a n a'. rt_realloc rt a n = Inr a' \<longrightarrow> a' = a \<lparr> ai_data := realloc (ai_data a) n \<rparr>)"

definition create_account_ok :: "runtime \<Rightarrow> bool" where
  "create_account_ok rt \<longleftrightarrow> (\<forall>seeds p a n space owner p' a'. rt_create_account rt seeds p a n space owner = Inr (p', a') \<longrightarrow>
     ai_key p' = ai_key p \<and> ai_data p' = ai_data p \<and> ai_key a' = ai_key a \<and> ai_data a' = replicate space 0 \<and> ai_owner a' = owner)"

definition runtime_ok :: "runtime \<Rightarrow> bool" where
  "runtime_ok rt \<longleftrightarrow> transfer_ok rt \<and> allocate_ok rt \<and> assign_ok rt \<and> realloc_ok rt \<and> create_account_ok rt"

lemma runtime_okD:
  assumes "runtime_ok rt"
  shows "rt_transfer rt a b n = Inr (a', b') \<Longrightarrow>
      a' = a \<lparr> ai_lamports := ai_lamports a' \<rparr> \<and> b' = b \<lparr> ai_lamports := ai_lamports b' \<rparr>"
    and "rt_allocate rt seeds a m = Inr c \<Longrightarrow> c = a \<lparr> ai_data := replicate m 0 \<rparr>"
    and "rt_assign rt seeds a p = Inr c \<Longrightarrow> c = a \<lparr> ai_owner := p \<rparr>"
    and "rt_realloc rt a m = Inr c \<Longrightarrow> c = a \<lparr> ai_data := realloc (ai_data a) m \<rparr>"
    and "rt_create_account rt seeds a b n m p = Inr (a', b') \<Longrightarrow> ai_key a' = ai_key a \<and> ai_data a' = ai_data a \<and>
      ai_key b' = ai_key b \<and> ai_data b' = replicate m 0 \<and> ai_owner b' = p"
  using assms by (auto simp: runtime_ok_def transfer_ok_def allocate_ok_def assign_ok_def realloc_ok_def create_account_ok_def)

text \<open>A concrete runtime: rent is one lamport per byte, addresses are prefixes of the seeds.\<close>

definition sample_address :: "bytes list \<Rightarrow> pubkey \<Rightarrow> pubkey" where
  "sample_address seeds program = take 32 (concat seeds @ program @ zero32)"

definition sample_runtime :: runtime where
  "sample_runtime =
     \<lparr> rt_minimum_balance = of_nat,
       rt_find_program_address = (\<lambda>seeds program. (sample_address seeds program, 255)),
       rt_create_program_address = (\<lambda>seeds program. Some (sample_address seeds program)),
       rt_transfer = (\<lambda>a b n. if ai_lamports a < n then Inl (Err InsufficientFunds)
         else Inr (a \<lparr> ai_lamports := ai_lamports a - n \<rparr>, b \<lparr> ai_lamports := ai_lamports b + n \<rparr>)),
       rt_allocate = (\<lambda>seeds a n. Inr (a \<lparr> ai_data := replicate n 0 \<rparr>)),
       rt_assign = (\<lambda>seeds a p. Inr (a \<lparr> ai_owner := p \<rparr>)),
       rt_create_account = (\<lambda>seeds payer a n space p. if ai_lamports payer < n then Inl (Err InsufficientFunds)
         else Inr (payer \<lparr> ai_lamports := ai_lamports payer - n \<rparr>,
                   a \<lparr> ai_lamports := n, ai_data := replicate space 0, ai_owner := p \<rparr>)),
       rt_realloc = (\<lambda>a n. Inr (a \<lparr> ai_data := realloc (ai_data a) n \<rparr>)) \<rparr>"

lemma sample_runtime_ok: "runtime_ok sample_runtime"
  by (auto simp: runtime_ok_def transfer_ok_def allocate_ok_def assign_ok_def realloc_ok_def
      create_account_ok_def sample_runtime_def
      split: if_splits)

end
