(* ===== verification/ChunkUpload.thy ===== *)
theory ChunkUpload
  imports SolanaRuntime
begin

text \<open>
  Data that does not fit into one transaction is uploaded in chunks of 900 bytes
  (\<open>clients/rust/src/buffer/txo.rs\<close>, \<open>clients/rust/src/buffer/manager.rs\<close> and
  \<open>clients/rust/src/buffer_manager.rs\<close>). The contract \<open>chunk_store\<close> says what a buffer program
  promises to such a client; the txo buffer and the generic buffer both interpret it. Chunks
  are sent in parallel and again after a failure, so the theorem of the contract is about any
  order and any number of repetitions.
\<close>

section \<open>Chunks\<close>

abbreviation CHUNK_SIZE :: nat where
  "CHUNK_SIZE \<equiv> 900"

text \<open>The method \<open>chunks\<close> of Rust's slices.\<close>

function chunks_of :: "nat \<Rightarrow> 'a list \<Rightarrow> 'a list list" where
  "chunks_of n xs = (if n = 0 \<or> xs = [] then [] else take n xs # chunks_of n (drop n xs))"
  by pat_completeness auto
termination by (relation "measure (\<lambda>(n, xs). length xs)") auto

declare chunks_of.simps [simp del]

definition upload_chunks :: "bytes \<Rightarrow> (nat \<times> bytes) list" where
  "upload_chunks all_data = map (\<lambda>(i, chunk). (i * CHUNK_SIZE, chunk)) (enumerate 0 (chunks_of CHUNK_SIZE all_data))"

definition serialize_all :: "u32 list \<Rightarrow> bytes" where
  "serialize_all indices = concat (map to_le_bytes indices)"

definition txo_data_size :: "u32 list \<Rightarrow> nat" where
  "txo_data_size indices = length indices * 4"

definition num_chunks :: "u32 list \<Rightarrow> nat" where
  "num_chunks indices = (let data_size = txo_data_size indices
     in if data_size = 0 then 0 else (data_size + CHUNK_SIZE - 1) div CHUNK_SIZE)"

definition get_chunk :: "u32 list \<Rightarrow> nat \<Rightarrow> bytes" where
  "get_chunk indices chunk_idx =
     (let all_data = serialize_all indices; start = chunk_idx * CHUNK_SIZE
      in bslice all_data start (min (start + CHUNK_SIZE) (length all_data)))"

primrec send_chunks :: "('s \<Rightarrow> u32 \<Rightarrow> bytes \<Rightarrow> 's ProgramResult) \<Rightarrow> (nat \<times> bytes) list \<Rightarrow> 's \<Rightarrow> 's ProgramResult" where
  "send_chunks put [] s = Inr s"
| "send_chunks put (c # cs) s = rbind (put s (of_nat (fst c)) (snd c)) (send_chunks put cs)"

lemma length_serialize_all [simp]: "length (serialize_all indices) = 4 * length indices"
  by (induction indices) (simp_all add: serialize_all_def)

lemma length_chunks_of: "0 < n \<Longrightarrow> length (chunks_of n xs) = (length xs + n - 1) div n"
proof (induction n xs rule: chunks_of.induct)
  case (1 n xs)
  show ?case
  proof (cases "xs = []")
    case False
    then have "length (chunks_of n xs) = Suc ((length xs - n + n - 1) div n)"
      using 1 by (subst chunks_of.simps) simp
    also have "\<dots> = (length xs + n - 1) div n"
    proof (cases "length xs \<le> n")
      case True
      moreover have "1 \<le> length xs" using False by (simp add: Suc_le_eq)
      ultimately have "(length xs + n - 1) div n = 1"
        using 1(2) by (intro div_nat_eqI) simp_all
      then show ?thesis using True 1(2) by simp
    next
      case False
      then have e: "length xs + n - 1 = n + (length xs - 1)" "length xs - n + n - 1 = length xs - 1" by simp_all
      show ?thesis unfolding e using 1(2) by (subst div_add_self1) simp_all
    qed
    finally show ?thesis .
  qed (use 1(2) in \<open>simp add: chunks_of.simps\<close>)
qed

lemma nth_chunks_of: "i < length (chunks_of n xs) \<Longrightarrow> chunks_of n xs ! i = take n (drop (i * n) xs)"
proof (induction n xs arbitrary: i rule: chunks_of.induct)
  case (1 n xs)
  show ?case
  proof (cases "n = 0 \<or> xs = []")
    case False
    have e: "chunks_of n xs = take n xs # chunks_of n (drop n xs)" using False by (subst chunks_of.simps) simp
    show ?thesis
    proof (cases i)
      case (Suc j)
      then have "chunks_of n (drop n xs) ! j = take n (drop (j * n) (drop n xs))"
        using 1(1) [OF False, of j] 1(2) e by simp
      then show ?thesis using Suc e by (simp add: add.commute)
    qed (simp add: e)
  qed (use 1(2) in \<open>auto simp: chunks_of.simps\<close>)
qed

lemma upload_chunks_eq:
  "upload_chunks d = map (\<lambda>i. (i * 900, bslice d (i * 900) (i * 900 + 900))) [0..<(length d + 899) div 900]"
proof (rule nth_equalityI)
  have n: "length (chunks_of 900 d) = (length d + 899) div 900" using length_chunks_of [of 900 d] by simp
  then show "length (upload_chunks d) =
      length (map (\<lambda>i. (i * 900, bslice d (i * 900) (i * 900 + 900))) [0..<(length d + 899) div 900])"
    by (simp add: upload_chunks_def)
  fix i assume "i < length (upload_chunks d)"
  then have i: "i < length (chunks_of 900 d)" by (simp add: upload_chunks_def)
  then show "upload_chunks d ! i =
      map (\<lambda>i. (i * 900, bslice d (i * 900) (i * 900 + 900))) [0..<(length d + 899) div 900] ! i"
    by (simp add: upload_chunks_def nth_enumerate_eq nth_chunks_of bslice_def n)
qed

section \<open>The contract of a chunk store\<close>

text \<open>
  A list of chunks that are pieces of one byte string. Every byte below \<open>n\<close> is in one of them.
\<close>

definition pieces_of :: "bytes \<Rightarrow> (nat \<times> bytes) set \<Rightarrow> bool" where
  "pieces_of d cs \<longleftrightarrow> (\<forall>(off, c) \<in> cs. off + length c \<le> length d \<and> c = bslice d off (off + length c))"

definition covered :: "(nat \<times> bytes) set \<Rightarrow> nat \<Rightarrow> bool" where
  "covered cs i \<longleftrightarrow> (\<exists>(off, c) \<in> cs. off \<le> i \<and> i < off + length c)"

lemma upload_chunks_pieces: "pieces_of d (set (upload_chunks d))"
proof -
  have "i * 900 \<le> length d" if "i < (length d + 899) div 900" for i
    using that by simp
  then show ?thesis by (auto simp: pieces_of_def upload_chunks_eq bslice_def min_def)
qed

lemma upload_chunks_covered:
  assumes "i < length d"
  shows "covered (set (upload_chunks d)) i"
proof -
  have "i div 900 < (length d + 899) div 900" using assms by simp
  moreover have "i div 900 * 900 \<le> i" "i < i div 900 * 900 + 900" by simp_all
  ultimately show ?thesis
    unfolding covered_def upload_chunks_eq using assms
    by (intro bexI [of _ "(i div 900 * 900, bslice d (i div 900 * 900) (i div 900 * 900 + 900))"]) auto
qed

text \<open>
  A buffer that takes writes at an offset: inside its body a write always succeeds and is
  exactly the overwriting of these bytes, and the buffer stays ready.
\<close>

locale chunk_store =
  fixes put :: "'s \<Rightarrow> u32 \<Rightarrow> bytes \<Rightarrow> 's ProgramResult"
    and body :: "'s \<Rightarrow> bytes"
    and ready :: "'s \<Rightarrow> bool"
  assumes write_ok: "ready s \<Longrightarrow> unat off + length xs \<le> length (body s) \<Longrightarrow>
      \<exists>s'. put s off xs = Inr s' \<and> ready s' \<and> body s' = write_at (body s) (unat off) xs"
begin

lemma send_chunks_ok:
  assumes "pieces_of d (set cs)" and "ready s" and "length d \<le> length (body s)" and "length d < 2 ^ 32"
  shows "\<exists>s'. send_chunks put cs s = Inr s' \<and> ready s' \<and> length (body s') = length (body s) \<and>
    (\<forall>i < length (body s). body s' ! i = (if covered (set cs) i then d ! i else body s ! i))"
  using assms
proof (induction cs arbitrary: s)
  case Nil
  then show ?case by (simp add: covered_def)
next
  case (Cons c cs)
  obtain off xs where c: "c = (off, xs)" by (cases c)
  have xs: "off + length xs \<le> length d" "xs = bslice d off (off + length xs)" and rest: "pieces_of d (set cs)"
    using Cons.prems(1) by (simp_all add: pieces_of_def c)
  have "off \<le> length d" using xs(1) by simp
  then have off: "unat (of_nat off :: u32) = off" using Cons.prems(4) by (simp add: unat_of_nat)
  obtain s1 where s1: "put s (of_nat off) xs = Inr s1" "ready s1" "body s1 = write_at (body s) off xs"
    using write_ok [OF Cons.prems(2), of "of_nat off" xs] xs(1) Cons.prems(3) by (auto simp: off)
  have fits: "off + length xs \<le> length (body s)" using xs(1) Cons.prems(3) by simp
  have len: "length (body s1) = length (body s)" using fits by (simp add: s1(3))
  then obtain s' where s': "send_chunks put cs s1 = Inr s'" "ready s'" "length (body s') = length (body s)"
      "\<forall>i < length (body s). body s' ! i = (if covered (set cs) i then d ! i else body s1 ! i)"
    using Cons.IH [OF rest s1(2)] Cons.prems(3,4) by auto
  have at: "xs ! (i - off) = d ! i" if "off \<le> i" "i < off + length xs" for i
    using nth_slice [of off "i - off" "off + length xs" d] that xs by simp
  have "covered (set (c # cs)) i \<longleftrightarrow> off \<le> i \<and> i < off + length xs \<or> covered (set cs) i" for i
    by (auto simp: covered_def c)
  then have "body s' ! i = (if covered (set (c # cs)) i then d ! i else body s ! i)" if "i < length (body s)" for i
    using s'(4) that at fits by (auto simp: s1(3) nth_write_at)
  then show ?case using s' s1(1) by (simp add: c)
qed

lemma upload_ok:
  assumes "set cs = set (upload_chunks d)" and "ready s" and "length d \<le> length (body s)" and "length d < 2 ^ 32"
  shows "\<exists>s'. send_chunks put cs s = Inr s' \<and> ready s' \<and> body s' = d @ drop (length d) (body s)"
proof -
  have p: "pieces_of d (set cs)" unfolding assms(1) by (rule upload_chunks_pieces)
  obtain s' where s': "send_chunks put cs s = Inr s'" "ready s'" "length (body s') = length (body s)"
      "\<forall>i < length (body s). body s' ! i = (if covered (set cs) i then d ! i else body s ! i)"
    using send_chunks_ok [OF p assms(2-4)] by blast
  have "covered (set cs) i \<longleftrightarrow> i < length d" for i
    using upload_chunks_covered [of i d] p by (auto simp: assms(1) pieces_of_def covered_def)
  then have "body s' = d @ drop (length d) (body s)"
    using s'(3,4) assms(3) by (intro nth_equalityI) (auto simp: nth_append)
  with s'(1,2) show ?thesis by blast
qed

end

text \<open>The client's chunk arithmetic agrees with the chunks it sends: there are \<open>num_chunks\<close> of
  them, \<open>get_chunk\<close> computes each, and together they are the serialised indices.\<close>

theorem upload_chunks_correct:
  "length (upload_chunks (serialize_all indices)) = num_chunks indices \<and>
   upload_chunks (serialize_all indices) = map (\<lambda>i. (i * CHUNK_SIZE, get_chunk indices i)) [0..<num_chunks indices] \<and>
   concat (map snd (upload_chunks (serialize_all indices))) = serialize_all indices"
proof -
  have n: "num_chunks indices = (length (serialize_all indices) + 899) div 900"
    by (simp add: num_chunks_def txo_data_size_def Let_def mult.commute add.commute)
  have "bslice d a (a + 900) = bslice d a (min (a + 900) (length d))" for d :: bytes and a
    by (simp add: bslice_def min_def)
  then have eq: "upload_chunks (serialize_all indices) =
      map (\<lambda>i. (i * CHUNK_SIZE, get_chunk indices i)) [0..<num_chunks indices]"
    unfolding upload_chunks_eq n get_chunk_def Let_def by simp
  have "concat (chunks_of m xs) = xs" if "0 < m" for m and xs :: bytes
    using that by (induction m xs rule: chunks_of.induct) (subst chunks_of.simps, simp)
  then have "concat (map snd (upload_chunks (serialize_all indices))) = serialize_all indices"
    by (simp add: upload_chunks_def case_prod_beta o_def)
  with eq show ?thesis by simp
qed

end
