(* ===== verification/PendingMintBuffer.thy ===== *)
theory PendingMintBuffer
  imports SolanaRuntime AutoMint
begin

text \<open>
  The pending-mint-buffer program (\<open>programs/pending-mint-buffer/src/lib.rs\<close>). An operator
  fills the buffer group by group; each group is stored with its SHA-256 digest; the bridge
  locks the buffer before it uses it and unlocks it afterwards. The program's own copies of
  \<open>PendingMint\<close> and \<open>PendingMintsBufferStateHeader\<close> have the layout of those in
  \<open>data_accounts/pending_mint.rs\<close>. One definition per instruction; the account list of the
  instruction is the list argument, and the updated accounts are the result.
\<close>

section \<open>Accounts\<close>

abbreviation MAX_PERMITTED_DATA_INCREASE :: nat where
  "MAX_PERMITTED_DATA_INCREASE \<equiv> 10240"

definition transfer_lamports_from_pdas ::
  "AccountInfo \<Rightarrow> AccountInfo \<Rightarrow> u64 \<Rightarrow> (AccountInfo \<times> AccountInfo) ProgramResult" where
  "transfer_lamports_from_pdas from_acc to_acc lamports =
     (if ai_lamports from_acc < lamports then Inl (Err InsufficientFunds)
      else if unat (ai_lamports to_acc) + unat lamports \<ge> 2 ^ 64 then Inl (Err InvalidAccountData)
      else Inr (from_acc \<lparr> ai_lamports := ai_lamports from_acc - lamports \<rparr>,
                to_acc \<lparr> ai_lamports := ai_lamports to_acc + lamports \<rparr>))"

definition pmb_realloc_account ::
  "runtime \<Rightarrow> AccountInfo \<Rightarrow> AccountInfo \<Rightarrow> nat \<Rightarrow> bool \<Rightarrow> (AccountInfo \<times> AccountInfo) ProgramResult" where
  "pmb_realloc_account rt target_account funding_account new_size refund =
     (let old_minimum_balance = rt_minimum_balance rt (length (ai_data target_account));
          new_minimum_balance = rt_minimum_balance rt new_size
      in rbind
           (if new_minimum_balance > old_minimum_balance
            then rbind (rt_transfer rt funding_account target_account (new_minimum_balance - old_minimum_balance))
                   (\<lambda>(f, t). Inr (t, f))
            else if refund \<and> old_minimum_balance > new_minimum_balance
            then transfer_lamports_from_pdas target_account funding_account (old_minimum_balance - new_minimum_balance)
            else Inr (target_account, funding_account)) (\<lambda>(t, f).
         rbind (rt_realloc rt t new_size) (\<lambda>t'. Inr (t', f))))"

section \<open>The header\<close>

definition header_setup :: "PendingMintsBufferStateHeader \<Rightarrow> pubkey \<Rightarrow> pubkey \<Rightarrow> PendingMintsBufferStateHeader ProgramResult" where
  "header_setup h authorized_locker_public_key authorized_writer_public_key =
     (if bh_authorized_locker_public_key h \<noteq> zero32 then Inl (Err AccountAlreadyInitialized)
      else Inr \<lparr> bh_authorized_locker_public_key = authorized_locker_public_key,
                 bh_authorized_writer_public_key = authorized_writer_public_key,
                 bh_is_locked = 0, bh_mode = 0, bh_pending_mint_groups_count = 0,
                 bh_pending_mints_initialized = 0, bh_pending_mints_count = 0 \<rparr>)"

definition header_reinit :: "PendingMintsBufferStateHeader \<Rightarrow> u16 \<Rightarrow> PendingMintsBufferStateHeader ProgramResult" where
  "header_reinit h pending_mints_count =
     (if bh_is_locked h \<noteq> 0 then Inl (Err AccountAlreadyInitialized)
      else Inr (h \<lparr> bh_pending_mints_count := pending_mints_count,
                    bh_pending_mint_groups_count := (pending_mints_count + PM_MAX_PENDING_MINTS_PER_GROUP_U16 - 1)
                      div PM_MAX_PENDING_MINTS_PER_GROUP_U16,
                    bh_pending_mints_initialized := 0 \<rparr>))"

definition header_lock :: "PendingMintsBufferStateHeader \<Rightarrow> pubkey \<Rightarrow> PendingMintsBufferStateHeader ProgramResult" where
  "header_lock h locker_public_key =
     (if bh_is_locked h \<noteq> 0 then Inl (Err AccountAlreadyInitialized)
      else if bh_pending_mints_initialized h \<noteq> bh_pending_mints_count h then Inl (Err InvalidAccountData)
      else if locker_public_key \<noteq> bh_authorized_locker_public_key h then Inl (Err IllegalOwner)
      else Inr (h \<lparr> bh_is_locked := 1 \<rparr>))"

definition header_unlock :: "PendingMintsBufferStateHeader \<Rightarrow> pubkey \<Rightarrow> PendingMintsBufferStateHeader ProgramResult" where
  "header_unlock h locker_public_key =
     (if bh_is_locked h = 0 then Inl (Err InvalidAccountData)
      else if locker_public_key \<noteq> bh_authorized_locker_public_key h then Inl (Err IllegalOwner)
      else Inr (h \<lparr> bh_is_locked := 0, bh_pending_mint_groups_count := 0, bh_pending_mints_count := 0,
                    bh_pending_mints_initialized := 0 \<rparr>))"

definition get_total_buffer_size :: "PendingMintsBufferStateHeader \<Rightarrow> nat" where
  "get_total_buffer_size h = 72 + 32 * unat (bh_pending_mint_groups_count h) + unat (bh_pending_mints_count h) * 40"

section \<open>The data\<close>

definition get_header :: "bytes \<Rightarrow> PendingMintsBufferStateHeader ProgramResult" where
  "get_header d = (if length d < 72 then Inl Panic else Inr (dec_buffer_header (bslice d 0 72)))"

definition put_header :: "bytes \<Rightarrow> PendingMintsBufferStateHeader \<Rightarrow> bytes" where
  "put_header d h = write_at d 0 (enc_buffer_header h)"

definition calculate_target_size :: "u16 \<Rightarrow> nat" where
  "calculate_target_size pending_mints_count =
     (let groups = (unat pending_mints_count + 24 - 1) div 24
      in 72 + groups * 32 + unat pending_mints_count * 40)"

definition get_nth_group_hash_offset :: "u16 \<Rightarrow> nat" where
  "get_nth_group_hash_offset group_idx = 72 + unat group_idx * 32"

definition pmb_get_nth_pending_mint_offset :: "PendingMintsBufferStateHeader \<Rightarrow> u16 \<Rightarrow> nat" where
  "pmb_get_nth_pending_mint_offset h global_mint_idx =
     72 + unat (bh_pending_mint_groups_count h) * 32 + unat global_mint_idx * 40"

definition insert_pending_mints :: "(bytes \<Rightarrow> bytes) \<Rightarrow> bytes \<Rightarrow> u16 \<Rightarrow> bytes \<Rightarrow> bytes ProgramResult" where
  "insert_pending_mints sha d group_index mint_data =
     rbind (get_header d) (\<lambda>header.
     if bh_is_locked header \<noteq> 0 then Inl (Err AccountAlreadyInitialized)
     else if group_index \<ge> bh_pending_mint_groups_count header then Inl (Err InvalidArgument)
     else if length mint_data > 24 * 40 then Inl (Err InvalidInstructionData)
     else if length mint_data mod 40 \<noteq> 0 then Inl (Err InvalidInstructionData)
     else let global_start = group_index * PM_MAX_PENDING_MINTS_PER_GROUP_U16;
              hash_offset = get_nth_group_hash_offset group_index;
              mint_offset = pmb_get_nth_pending_mint_offset header global_start;
              data_end = mint_offset + length mint_data;
              hash_end = hash_offset + 32
     in if data_end > length d \<or> hash_end > length d then Inl (Err AccountDataTooSmall)
     else if bslice d hash_offset hash_end \<noteq> zero32 then Inl (Err AccountAlreadyInitialized)
     else let d1 = write_at d hash_offset (sha mint_data);
              d2 = write_at d1 mint_offset mint_data;
              count_inc = (of_nat (length mint_data div 40) :: u16)
     in rbind (get_header d2) (\<lambda>h.
        Inr (put_header d2 (h \<lparr> bh_pending_mints_initialized := bh_pending_mints_initialized h + count_inc \<rparr>))))"

section \<open>The instructions\<close>

definition require_signer :: "AccountInfo \<Rightarrow> unit ProgramResult" where
  "require_signer acc = (if \<not> ai_is_signer acc then Inl (Err MissingRequiredSignature) else Inr ())"

definition verify_writer :: "AccountInfo \<Rightarrow> AccountInfo \<Rightarrow> unit ProgramResult" where
  "verify_writer storage_acc signer =
     (if length (ai_data storage_acc) < 72 then Inl (Err UninitializedAccount)
      else if bh_authorized_writer_public_key (dec_buffer_header (bslice (ai_data storage_acc) 0 72)) \<noteq> ai_key signer
      then Inl (Err IllegalOwner) else Inr ())"

text \<open>The literal \<open>b"mint_buffer"\<close>.\<close>

definition mint_buffer_seed :: bytes where
  "mint_buffer_seed = [109, 105, 110, 116, 95, 98, 117, 102, 102, 101, 114]"

definition pmb_setup :: "runtime \<Rightarrow> pubkey \<Rightarrow> AccountInfo \<Rightarrow> bytes \<Rightarrow> AccountInfo ProgramResult" where
  "pmb_setup rt program_id storage_account rest =
     (if length rest \<noteq> 64 then Inl (Err InvalidInstructionData)
      else let locker_key = bslice rest 0 32;
               writer_key = bslice rest 32 64;
               (expected_pda, bump) = rt_find_program_address rt [mint_buffer_seed, writer_key] program_id
      in if ai_key storage_account \<noteq> expected_pda then Inl (Err InvalidSeeds)
      else rbind
        (if length (ai_data storage_account) = 0
         then let seeds = [mint_buffer_seed, writer_key, [bump]];
                  required_lamports = rt_minimum_balance rt 72
              in if ai_lamports storage_account < required_lamports then Inl (Err InsufficientFunds)
              else rbind (rt_allocate rt seeds storage_account 72) (\<lambda>a. rt_assign rt seeds a program_id)
         else Inr storage_account) (\<lambda>storage_account.
      if ai_owner storage_account \<noteq> program_id then Inl (Err IncorrectProgramId)
      else if length (ai_data storage_account) < 72 then Inl (Err AccountDataTooSmall)
      else rbind (get_header (ai_data storage_account)) (\<lambda>h.
      rbind (header_setup h locker_key writer_key) (\<lambda>h'.
      Inr (storage_account \<lparr> ai_data := put_header (ai_data storage_account) h' \<rparr>)))))"

definition pmb_reinit ::
  "runtime \<Rightarrow> pubkey \<Rightarrow> AccountInfo \<Rightarrow> AccountInfo list \<Rightarrow> bytes \<Rightarrow> (AccountInfo \<times> AccountInfo list) ProgramResult" where
  "pmb_reinit rt program_id storage_account accounts rest =
     (if ai_owner storage_account \<noteq> program_id then Inl (Err IncorrectProgramId)
      else case accounts of payer # system_program_acc # others \<Rightarrow>
        rbind (require_signer payer) (\<lambda>_.
        rbind (verify_writer storage_account payer) (\<lambda>_.
        if length rest \<noteq> 2 then Inl (Err InvalidInstructionData)
        else let count = (from_le_bytes rest :: u16);
                 target_size = calculate_target_size count;
                 current_len = length (ai_data storage_account);
                 new_len = (if target_size > current_len
                            then current_len + min (target_size - current_len) MAX_PERMITTED_DATA_INCREASE
                            else if target_size < current_len then target_size else current_len)
        in rbind (if new_len \<noteq> current_len then pmb_realloc_account rt storage_account payer new_len True
                  else Inr (storage_account, payer)) (\<lambda>(storage_account, payer).
           let d = ai_data storage_account
           in if length d < 72 then Inl (Err UninitializedAccount)
           else rbind (get_header d) (\<lambda>h. rbind (header_reinit h count) (\<lambda>h'.
           let d1 = put_header d h';
               groups = unat (bh_pending_mint_groups_count h');
               hash_end = 72 + groups * 32;
               actual_len = length d1;
               d2 = (if actual_len \<ge> hash_end then write_at d1 72 (replicate (groups * 32) 0)
                     else if actual_len > 72 then write_at d1 72 (replicate (actual_len - 72) 0) else d1)
           in Inr (storage_account \<lparr> ai_data := d2 \<rparr>, payer # system_program_acc # others))))))
      | _ \<Rightarrow> Inl (Err NotEnoughAccountKeys))"

definition pmb_resize ::
  "runtime \<Rightarrow> pubkey \<Rightarrow> AccountInfo \<Rightarrow> AccountInfo list \<Rightarrow> (AccountInfo \<times> AccountInfo list) ProgramResult" where
  "pmb_resize rt program_id storage_account accounts =
     (if ai_owner storage_account \<noteq> program_id then Inl (Err IncorrectProgramId)
      else case accounts of payer # system_program_acc # others \<Rightarrow>
        rbind (require_signer payer) (\<lambda>_.
        rbind (verify_writer storage_account payer) (\<lambda>_.
        if length (ai_data storage_account) < 72 then Inl (Err UninitializedAccount)
        else let h = dec_buffer_header (bslice (ai_data storage_account) 0 72);
                 target_size = get_total_buffer_size h;
                 current_len = length (ai_data storage_account)
        in if bh_is_locked h \<noteq> 0 then Inl (Err AccountAlreadyInitialized)
        else if target_size < current_len then Inl (Err InvalidAccountData)
        else if target_size > current_len
        then rbind (pmb_realloc_account rt storage_account payer
               (current_len + min (target_size - current_len) MAX_PERMITTED_DATA_INCREASE) True)
               (\<lambda>(storage_account, payer). Inr (storage_account, payer # system_program_acc # others))
        else Inr (storage_account, accounts)))
      | _ \<Rightarrow> Inl (Err NotEnoughAccountKeys))"

definition pmb_insert ::
  "runtime \<Rightarrow> (bytes \<Rightarrow> bytes) \<Rightarrow> pubkey \<Rightarrow> AccountInfo \<Rightarrow> AccountInfo list \<Rightarrow> bytes \<Rightarrow>
   (AccountInfo \<times> AccountInfo list) ProgramResult" where
  "pmb_insert rt sha program_id storage_account accounts rest =
     (if ai_owner storage_account \<noteq> program_id then Inl (Err IncorrectProgramId)
      else case accounts of payer # system_program_acc # others \<Rightarrow>
        rbind (require_signer payer) (\<lambda>_.
        rbind (verify_writer storage_account payer) (\<lambda>_.
        if length rest < 2 then Inl (Err InvalidInstructionData)
        else let group_index = (from_le_bytes (take 2 rest) :: u16);
                 mint_data = drop 2 rest
        in if length (ai_data storage_account) < 72 then Inl (Err UninitializedAccount)
        else let target_size = get_total_buffer_size (dec_buffer_header (bslice (ai_data storage_account) 0 72));
                 current_len = length (ai_data storage_account)
        in rbind (if current_len < target_size
                  then pmb_realloc_account rt storage_account payer
                         (current_len + min (target_size - current_len) MAX_PERMITTED_DATA_INCREASE) False
                  else Inr (storage_account, payer)) (\<lambda>(storage_account, payer).
           rbind (insert_pending_mints sha (ai_data storage_account) group_index mint_data) (\<lambda>d.
           Inr (storage_account \<lparr> ai_data := d \<rparr>, payer # system_program_acc # others)))))
      | _ \<Rightarrow> Inl (Err NotEnoughAccountKeys))"

definition pmb_lock :: "pubkey \<Rightarrow> AccountInfo \<Rightarrow> AccountInfo list \<Rightarrow> AccountInfo ProgramResult" where
  "pmb_lock program_id storage_account accounts =
     (if ai_owner storage_account \<noteq> program_id then Inl (Err IncorrectProgramId)
      else case accounts of [] \<Rightarrow> Inl (Err NotEnoughAccountKeys) | signer # _ \<Rightarrow>
        rbind (require_signer signer) (\<lambda>_.
        rbind (get_header (ai_data storage_account)) (\<lambda>h.
        rbind (header_lock h (ai_key signer)) (\<lambda>h'.
        Inr (storage_account \<lparr> ai_data := put_header (ai_data storage_account) h' \<rparr>)))))"

definition pmb_unlock :: "pubkey \<Rightarrow> AccountInfo \<Rightarrow> AccountInfo list \<Rightarrow> AccountInfo ProgramResult" where
  "pmb_unlock program_id storage_account accounts =
     (if ai_owner storage_account \<noteq> program_id then Inl (Err IncorrectProgramId)
      else case accounts of [] \<Rightarrow> Inl (Err NotEnoughAccountKeys) | signer # _ \<Rightarrow>
        rbind (require_signer signer) (\<lambda>_.
        rbind (get_header (ai_data storage_account)) (\<lambda>h.
        rbind (header_unlock h (ai_key signer)) (\<lambda>h'.
        Inr (storage_account \<lparr> ai_data := put_header (ai_data storage_account) h' \<rparr>)))))"

definition pmb_process_instruction ::
  "runtime \<Rightarrow> (bytes \<Rightarrow> bytes) \<Rightarrow> pubkey \<Rightarrow> AccountInfo list \<Rightarrow> bytes \<Rightarrow> AccountInfo list ProgramResult" where
  "pmb_process_instruction rt sha program_id accounts instruction_data =
     (case instruction_data of [] \<Rightarrow> Inl (Err InvalidInstructionData)
      | tag # rest \<Rightarrow>
     (case accounts of [] \<Rightarrow> Inl (Err NotEnoughAccountKeys)
      | storage_account # others \<Rightarrow>
        if tag = 0 then rbind (pmb_setup rt program_id storage_account rest) (\<lambda>s. Inr (s # others))
        else if tag = 1 then rbind (pmb_reinit rt program_id storage_account others rest) (\<lambda>(s, os). Inr (s # os))
        else if tag = 2 then rbind (pmb_resize rt program_id storage_account others) (\<lambda>(s, os). Inr (s # os))
        else if tag = 3 then rbind (pmb_insert rt sha program_id storage_account others rest) (\<lambda>(s, os). Inr (s # os))
        else if tag = 4 then rbind (pmb_lock program_id storage_account others) (\<lambda>s. Inr (s # others))
        else if tag = 5 then rbind (pmb_unlock program_id storage_account others) (\<lambda>s. Inr (s # others))
        else Inl (Err InvalidInstructionData)))"

section \<open>Reading and writing the header\<close>

abbreviation buffer_hdr :: "bytes \<Rightarrow> PendingMintsBufferStateHeader" where
  "buffer_hdr d \<equiv> dec_buffer_header (bslice d 0 72)"

named_theorems buffer_simps "reading a buffer after a header write or a resize"

lemma wf_buffer_hdr: "72 \<le> length d \<Longrightarrow> wf_buffer_header (buffer_hdr d)"
  by (rule buffer_header.wf_dec) simp

lemma put_header_simps [buffer_simps]:
  assumes "72 \<le> length d" and "wf_buffer_header h"
  shows "buffer_hdr (put_header d h) = h" and "length (put_header d h) = length d"
    and "72 \<le> a \<Longrightarrow> bslice (put_header d h) a b = bslice d a b"
  using buffer_header.write_prefix(2,3,5) [OF assms(2,1)] by (simp_all add: put_header_def)

lemma get_header_ok_iff: "get_header d = Inr h \<longleftrightarrow> 72 \<le> length d \<and> h = buffer_hdr d"
  by (auto simp: get_header_def result_simps)

lemma realloc_hdr [buffer_simps]: "72 \<le> length d \<Longrightarrow> 72 \<le> n \<Longrightarrow> buffer_hdr (realloc d n) = buffer_hdr d"
  by (simp add: slice_realloc)

lemma realloc_realloc: "length d \<le> m \<Longrightarrow> m \<le> n \<Longrightarrow> realloc (realloc d m) n = realloc d n"
  by (simp add: realloc_def replicate_add [symmetric])

lemma realloc_same: "length d = n \<Longrightarrow> realloc d n = d"
  by (simp add: realloc_def)

lemma transfer_from_pdas_data:
  "transfer_lamports_from_pdas a b n = Inr (a', b') \<Longrightarrow> ai_data a' = ai_data a \<and> ai_key a' = ai_key a \<and> ai_owner a' = ai_owner a"
  by (auto simp: transfer_lamports_from_pdas_def result_simps)

lemma transfer_data:
  assumes "runtime_ok rt" and "rt_transfer rt a b n = Inr (a', b')"
  shows "ai_data b' = ai_data b \<and> ai_key b' = ai_key b \<and> ai_owner b' = ai_owner b"
proof -
  have b: "b' = b \<lparr> ai_lamports := ai_lamports b' \<rparr>" using runtime_okD(1) [OF assms] ..
  show ?thesis by (subst (1 2 3) b) simp
qed

lemma realloc_data:
  assumes "runtime_ok rt" and "rt_realloc rt a n = Inr a'"
  shows "ai_data a' = realloc (ai_data a) n" and "ai_key a' = ai_key a" and "ai_owner a' = ai_owner a"
  using runtime_okD(4) [OF assms] by simp_all

lemma pmb_realloc_account_data:
  assumes "runtime_ok rt" and "pmb_realloc_account rt t f n refund = Inr (t', f')"
  shows "ai_data t' = realloc (ai_data t) n" and "ai_key t' = ai_key t" and "ai_owner t' = ai_owner t"
proof -
  obtain u where u: "ai_data u = ai_data t" "ai_key u = ai_key t" "ai_owner u = ai_owner t" "rt_realloc rt u n = Inr t'"
    using assms(2) unfolding pmb_realloc_account_def Let_def
    by (auto simp: result_simps dest: transfer_data [OF assms(1)] transfer_from_pdas_data split: if_splits)
  then show "ai_data t' = realloc (ai_data t) n" "ai_key t' = ai_key t" "ai_owner t' = ai_owner t"
    using realloc_data [OF assms(1) u(4)] by simp_all
qed

section \<open>What each instruction does to the data\<close>

lemma insert_ok_iff:
  "insert_pending_mints sha d g mint_data = Inr d' \<longleftrightarrow>
     72 \<le> length d \<and> bh_is_locked (buffer_hdr d) = 0 \<and> g < bh_pending_mint_groups_count (buffer_hdr d) \<and>
     length mint_data \<le> 960 \<and> length mint_data mod 40 = 0 \<and>
     (let hash_offset = 72 + unat g * 32;
          mint_offset = 72 + unat (bh_pending_mint_groups_count (buffer_hdr d)) * 32 + unat (g * 24) * 40;
          d2 = write_at (write_at d hash_offset (sha mint_data)) mint_offset mint_data
      in mint_offset + length mint_data \<le> length d \<and> hash_offset + 32 \<le> length d \<and>
         bslice d hash_offset (hash_offset + 32) = zero32 \<and> 72 \<le> length d2 \<and>
         d' = put_header d2 ((buffer_hdr d2) \<lparr> bh_pending_mints_initialized :=
                bh_pending_mints_initialized (buffer_hdr d2) + of_nat (length mint_data div 40) \<rparr>))"
  unfolding insert_pending_mints_def get_nth_group_hash_offset_def pmb_get_nth_pending_mint_offset_def Let_def
  by (auto simp: result_simps get_header_ok_iff not_le not_less)

lemma insert_okD:
  assumes "insert_pending_mints sha d g md = Inr d'"
  shows "bh_is_locked (buffer_hdr d) = 0" and "g < bh_pending_mint_groups_count (buffer_hdr d)"
    and "length md \<le> 960" and "length md mod 40 = 0"
    and "72 + unat (bh_pending_mint_groups_count (buffer_hdr d)) * 32 + unat (g * 24) * 40 + length md \<le> length d"
    and "bslice d (72 + unat g * 32) (72 + unat g * 32 + 32) = zero32"
    and "d' = (let d2 = write_at (write_at d (72 + unat g * 32) (sha md))
           (72 + unat (bh_pending_mint_groups_count (buffer_hdr d)) * 32 + unat (g * 24) * 40) md
       in put_header d2 ((buffer_hdr d2) \<lparr> bh_pending_mints_initialized :=
            bh_pending_mints_initialized (buffer_hdr d2) + of_nat (length md div 40) \<rparr>))"
  unfolding Let_def
  by (insert assms [unfolded insert_ok_iff Let_def], (elim conjE, assumption)+)

text \<open>
  The program seen as a state machine over the account data: one rule per instruction, with
  the key that signed it (none is needed for the setup). A reallocation is part of the rule.
\<close>

definition fresh_header :: "pubkey \<Rightarrow> pubkey \<Rightarrow> PendingMintsBufferStateHeader" where
  "fresh_header locker writer = \<lparr> bh_authorized_locker_public_key = locker, bh_authorized_writer_public_key = writer,
     bh_is_locked = 0, bh_mode = 0, bh_pending_mint_groups_count = 0, bh_pending_mints_initialized = 0,
     bh_pending_mints_count = 0 \<rparr>"

definition clear_hashes :: "bytes \<Rightarrow> nat \<Rightarrow> bytes" where
  "clear_hashes d groups = write_at d 72 (replicate (min (groups * 32) (length d - 72)) 0)"

inductive buffer_step :: "(bytes \<Rightarrow> bytes) \<Rightarrow> pubkey option \<Rightarrow> bytes \<Rightarrow> bytes \<Rightarrow> bool" for sha :: "bytes \<Rightarrow> bytes" where
  step_setup: "buffer_step sha None d (put_header e (fresh_header locker writer))"
    if "e = (if d = [] then replicate 72 0 else d)" and "72 \<le> length e"
    and "bh_authorized_locker_public_key (buffer_hdr e) = zero32" and "length locker = 32" and "length writer = 32"
| step_reinit: "buffer_step sha (Some writer) d (clear_hashes (put_header (realloc d m) h) (unat (bh_pending_mint_groups_count h)))"
    if "72 \<le> length d" and "writer = bh_authorized_writer_public_key (buffer_hdr d)" and "72 \<le> m"
    and "m \<le> calculate_target_size n" and "header_reinit (buffer_hdr d) n = Inr h"
| step_resize: "buffer_step sha (Some writer) d (realloc d m)"
    if "72 \<le> length d" and "writer = bh_authorized_writer_public_key (buffer_hdr d)"
    and "bh_is_locked (buffer_hdr d) = 0" and "length d \<le> m" and "m \<le> get_total_buffer_size (buffer_hdr d)"
| step_insert: "buffer_step sha (Some writer) d d'"
    if "72 \<le> length d" and "writer = bh_authorized_writer_public_key (buffer_hdr d)"
    and "length d \<le> m" and "m = length d \<or> m \<le> get_total_buffer_size (buffer_hdr d)"
    and "insert_pending_mints sha (realloc d m) g mint_data = Inr d'"
| step_lock: "buffer_step sha (Some locker) d (put_header d h)"
    if "72 \<le> length d" and "header_lock (buffer_hdr d) locker = Inr h"
| step_unlock: "buffer_step sha (Some locker) d (put_header d h)"
    if "72 \<le> length d" and "header_unlock (buffer_hdr d) locker = Inr h"

inductive_cases buffer_stepE: "buffer_step sha a d d'"

lemma allocate_assign_data:
  assumes "runtime_ok rt"
  shows "rt_allocate rt seeds st n = Inr a \<Longrightarrow> rt_assign rt seeds' a pid = Inr b \<Longrightarrow>
    ai_data b = replicate n 0 \<and> ai_key b = ai_key st"
  using runtime_okD(2,3) [OF assms] by fastforce

lemma setup_step:
  assumes rt: "runtime_ok rt" and run: "pmb_setup rt pid st rest = Inr st'"
  shows "buffer_step sha None (ai_data st) (ai_data st')"
proof -
  have len: "length rest = 64" using run by (simp add: pmb_setup_def result_simps)
  let ?e = "if ai_data st = [] then replicate 72 0 else ai_data st"
  obtain a h where a: "ai_data a = ?e" "72 \<le> length (ai_data a)"
      and h: "header_setup (buffer_hdr (ai_data a)) (bslice rest 0 32) (bslice rest 32 64) = Inr h"
      and st': "st' = a \<lparr> ai_data := put_header (ai_data a) h \<rparr>"
    using run unfolding pmb_setup_def Let_def
    by (auto simp: result_simps get_header_ok_iff split: prod.splits if_splits
        dest: allocate_assign_data [OF rt])
  then show ?thesis
    using len buffer_step.step_setup [OF refl, of "ai_data st" "bslice rest 0 32" "bslice rest 32 64" sha]
    by (auto simp: header_setup_def fresh_header_def result_simps)
qed

lemma clear_hashes_eq:
  "(if 72 + g * 32 \<le> length d then write_at d 72 (replicate (g * 32) 0)
    else if 72 < length d then write_at d 72 (replicate (length d - 72) 0) else d) =
   (if length d < 72 then d else clear_hashes d g)"
  by (auto simp: clear_hashes_def min_def write_at_def)

lemma verify_writer_ok_iff:
  "verify_writer st payer = Inr () \<longleftrightarrow> 72 \<le> length (ai_data st) \<and>
     bh_authorized_writer_public_key (buffer_hdr (ai_data st)) = ai_key payer"
  by (auto simp: verify_writer_def)

lemma header_reinit_ok_iff:
  "header_reinit h n = Inr h' \<longleftrightarrow> bh_is_locked h = 0 \<and> h' = h \<lparr> bh_pending_mints_count := n,
     bh_pending_mint_groups_count := (n + 24 - 1) div 24, bh_pending_mints_initialized := 0 \<rparr>"
  by (auto simp: header_reinit_def)

lemma wf_header_reinit: "header_reinit h n = Inr h' \<Longrightarrow> wf_buffer_header h \<Longrightarrow> wf_buffer_header h'"
  by (simp add: header_reinit_ok_iff wf_buffer_header_def)

lemma reinit_data:
  assumes rt: "runtime_ok rt" and run: "pmb_reinit rt pid st (p # sys # os) rest = Inr (st', accs')"
  shows "\<exists>f m h. accs' = f # sys # os \<and> ai_owner st = pid \<and> ai_is_signer p \<and> 72 \<le> length (ai_data st) \<and>
    ai_key p = bh_authorized_writer_public_key (buffer_hdr (ai_data st)) \<and> 72 \<le> m \<and>
    m \<le> calculate_target_size (from_le_bytes rest) \<and>
    header_reinit (buffer_hdr (ai_data st)) (from_le_bytes rest) = Inr h \<and>
    ai_data st' = clear_hashes (put_header (realloc (ai_data st) m) h) (unat (bh_pending_mint_groups_count h)) \<and>
    ai_key st' = ai_key st \<and> ai_owner st' = ai_owner st"
proof -
  define n where "n = (from_le_bytes rest :: u16)"
  let ?d = "ai_data st" and ?t = "calculate_target_size n"
  define m where "m = (if ?t > length ?d then length ?d + min (?t - length ?d) MAX_PERMITTED_DATA_INCREASE
      else if ?t < length ?d then ?t else length ?d)"
  obtain a f h where sig: "ai_owner st = pid" "ai_is_signer p" "verify_writer st p = Inr ()"
      and a: "(if m \<noteq> length ?d then pmb_realloc_account rt st p m True else Inr (st, p)) = Inr (a, f)"
      and h: "72 \<le> length (ai_data a)" "header_reinit (buffer_hdr (ai_data a)) n = Inr h"
      and st': "st' = a \<lparr> ai_data := (if length (put_header (ai_data a) h) < 72 then put_header (ai_data a) h
        else clear_hashes (put_header (ai_data a) h) (unat (bh_pending_mint_groups_count h))) \<rparr>" "accs' = f # sys # os"
    using run unfolding pmb_reinit_def Let_def n_def [symmetric] m_def [symmetric]
    by (auto simp: result_simps require_signer_def get_header_ok_iff clear_hashes_eq split: prod.splits)
  have d: "72 \<le> length ?d" "ai_key p = bh_authorized_writer_public_key (buffer_hdr ?d)"
    using sig(3) by (simp_all add: verify_writer_ok_iff)
  have e: "ai_data a = realloc ?d m" "ai_key a = ai_key st" "ai_owner a = ai_owner st"
    using a pmb_realloc_account_data [OF rt] by (auto simp: realloc_same split: if_splits)
  have m: "72 \<le> m" "m \<le> ?t" using h(1) by (auto simp: e m_def)
  have hdr: "header_reinit (buffer_hdr ?d) n = Inr h" using h(2) d(1) m(1) by (simp add: e buffer_simps)
  have "ai_data st' = clear_hashes (put_header (realloc ?d m) h) (unat (bh_pending_mint_groups_count h))"
    using st'(1) h d(1) m(1) wf_header_reinit [OF h(2) wf_buffer_hdr [OF h(1)]] by (simp add: e put_header_simps(2))
  then show ?thesis
    using st' sig(1,2) d m hdr e(2,3) unfolding n_def by (intro exI [of _ f] exI [of _ m] exI [of _ h]) simp
qed

lemma reinit_step:
  assumes rt: "runtime_ok rt" and run: "pmb_reinit rt pid st accs rest = Inr (st', accs')"
  shows "\<exists>p \<in> set accs. ai_is_signer p \<and> buffer_step sha (Some (ai_key p)) (ai_data st) (ai_data st')"
proof -
  obtain p sys os where accs: "accs = p # sys # os"
    using run by (auto simp: pmb_reinit_def result_simps split: list.splits)
  obtain m h where r: "ai_is_signer p" "72 \<le> length (ai_data st)"
      "ai_key p = bh_authorized_writer_public_key (buffer_hdr (ai_data st))" "72 \<le> m"
      "m \<le> calculate_target_size (from_le_bytes rest)" "header_reinit (buffer_hdr (ai_data st)) (from_le_bytes rest) = Inr h"
      "ai_data st' = clear_hashes (put_header (realloc (ai_data st) m) h) (unat (bh_pending_mint_groups_count h))"
    using reinit_data [OF rt run [unfolded accs]] by blast
  have "buffer_step sha (Some (ai_key p)) (ai_data st) (ai_data st')"
    unfolding r(7) by (rule buffer_step.step_reinit [OF r(2-6)])
  then show ?thesis using r(1) accs by auto
qed

lemma resize_step:
  assumes rt: "runtime_ok rt" and run: "pmb_resize rt pid st accs = Inr (st', accs')"
  shows "\<exists>p \<in> set accs. ai_is_signer p \<and> buffer_step sha (Some (ai_key p)) (ai_data st) (ai_data st')"
proof -
  let ?d = "ai_data st"
  let ?t = "get_total_buffer_size (buffer_hdr ?d)"
  obtain p sys os where accs: "accs = p # sys # os"
    using run by (auto simp: pmb_resize_def result_simps split: list.splits)
  define m where "m = (if ?t > length ?d then length ?d + min (?t - length ?d) MAX_PERMITTED_DATA_INCREASE else length ?d)"
  obtain f where sig: "ai_is_signer p" "verify_writer st p = Inr ()" "bh_is_locked (buffer_hdr ?d) = 0" "length ?d \<le> ?t"
      and a: "(if ?t > length ?d then pmb_realloc_account rt st p m True else Inr (st, p)) = Inr (st', f)"
    using run unfolding pmb_resize_def accs Let_def m_def
    by (auto simp: result_simps require_signer_def split: if_splits)
  have d: "72 \<le> length ?d" "ai_key p = bh_authorized_writer_public_key (buffer_hdr ?d)"
    using sig(2) by (simp_all add: verify_writer_ok_iff)
  have e: "ai_data st' = realloc ?d m"
    using a pmb_realloc_account_data(1) [OF rt] by (auto simp: realloc_same m_def split: if_splits)
  have m: "length ?d \<le> m" "m \<le> ?t" using sig(4) by (auto simp: m_def)
  show ?thesis
    using buffer_step.step_resize [OF d(1,2) sig(3) m, of sha] sig(1) accs e by auto
qed

lemma insert_step:
  assumes rt: "runtime_ok rt" and run: "pmb_insert rt sha pid st accs rest = Inr (st', accs')"
  shows "\<exists>p \<in> set accs. ai_is_signer p \<and> buffer_step sha (Some (ai_key p)) (ai_data st) (ai_data st')"
proof -
  let ?d = "ai_data st"
  let ?t = "get_total_buffer_size (buffer_hdr ?d)"
  obtain p sys os where accs: "accs = p # sys # os"
    using run by (auto simp: pmb_insert_def result_simps split: list.splits)
  define m where "m = (if length ?d < ?t then length ?d + min (?t - length ?d) MAX_PERMITTED_DATA_INCREASE else length ?d)"
  obtain a f where sig: "ai_is_signer p" "verify_writer st p = Inr ()"
      and a: "(if length ?d < ?t then pmb_realloc_account rt st p m False else Inr (st, p)) = Inr (a, f)"
      and ins: "insert_pending_mints sha (ai_data a) (from_le_bytes (take 2 rest)) (drop 2 rest) = Inr (ai_data st')"
    using run unfolding pmb_insert_def accs Let_def m_def
    by (auto simp: result_simps require_signer_def split: if_splits)
  have d: "72 \<le> length ?d" "ai_key p = bh_authorized_writer_public_key (buffer_hdr ?d)"
    using sig(2) by (simp_all add: verify_writer_ok_iff)
  have e: "ai_data a = realloc ?d m"
    using a pmb_realloc_account_data(1) [OF rt] by (auto simp: realloc_same m_def split: if_splits)
  have m: "length ?d \<le> m" "m = length ?d \<or> m \<le> ?t" by (auto simp: m_def)
  show ?thesis
    using buffer_step.step_insert [OF d(1,2) m ins [unfolded e]] sig(1) accs by auto
qed

lemma lock_step:
  assumes "pmb_lock pid st accs = Inr st'"
  shows "\<exists>p \<in> set accs. ai_is_signer p \<and> buffer_step sha (Some (ai_key p)) (ai_data st) (ai_data st')"
  using assms unfolding pmb_lock_def
  by (auto simp: result_simps require_signer_def get_header_ok_iff split: list.splits intro: buffer_step.step_lock)

lemma unlock_step:
  assumes "pmb_unlock pid st accs = Inr st'"
  shows "\<exists>p \<in> set accs. ai_is_signer p \<and> buffer_step sha (Some (ai_key p)) (ai_data st) (ai_data st')"
  using assms unfolding pmb_unlock_def
  by (auto simp: result_simps require_signer_def get_header_ok_iff split: list.splits intro: buffer_step.step_unlock)

text \<open>Every accepted instruction is a step of the state machine, taken by one of its signers.\<close>

lemma process_instruction_step:
  assumes "runtime_ok rt" and "pmb_process_instruction rt sha pid (st # accs) ix = Inr (st' # accs')"
  shows "buffer_step sha None (ai_data st) (ai_data st') \<or>
    (\<exists>p \<in> set accs. ai_is_signer p \<and> buffer_step sha (Some (ai_key p)) (ai_data st) (ai_data st'))"
  using assms(2) setup_step [OF assms(1)] reinit_step [OF assms(1)] resize_step [OF assms(1)]
    insert_step [OF assms(1)] lock_step unlock_step
  unfolding pmb_process_instruction_def
  by (auto simp: result_simps split: list.splits if_splits)

section \<open>Writes on a zero-extended buffer\<close>

lemma realloc_write_at:
  "off + length ys \<le> length d \<Longrightarrow> length d \<le> n \<Longrightarrow> realloc (write_at d off ys) n = write_at (realloc d n) off ys"
  by (simp add: realloc_def write_at_def)

lemma realloc_put_header:
  assumes "72 \<le> length d" and "length d \<le> n" and "wf_buffer_header h"
  shows "realloc (put_header d h) n = put_header (realloc d n) h"
  unfolding put_header_def using assms buffer_header.enc_length [OF assms(3)] by (simp add: realloc_write_at)

section \<open>The invariant\<close>

definition buffer_size :: "nat \<Rightarrow> nat" where
  "buffer_size n = 72 + 32 * group_count n + 40 * n"

definition group_size :: "nat \<Rightarrow> nat \<Rightarrow> nat" where
  "group_size n g = min 24 (n - 24 * g)"

definition group_hash :: "bytes \<Rightarrow> nat \<Rightarrow> bytes" where
  "group_hash d g = bslice d (72 + 32 * g) (72 + 32 * g + 32)"

definition group_mints :: "bytes \<Rightarrow> nat \<Rightarrow> nat \<Rightarrow> nat \<Rightarrow> bytes" where
  "group_mints d n g k = bslice d (72 + 32 * group_count n + 960 * g) (72 + 32 * group_count n + 960 * g + 40 * k)"

text \<open>
  Group \<open>g\<close> of a buffer for \<open>n\<close> mints holds \<open>k\<close> mints: none yet and no hash, or as many as were
  inserted with their hash. Bytes that the account does not have yet count as zeros.
\<close>

definition group_filled :: "(bytes \<Rightarrow> bytes) \<Rightarrow> bytes \<Rightarrow> nat \<Rightarrow> nat \<Rightarrow> nat \<Rightarrow> bool" where
  "group_filled sha d n g k \<longleftrightarrow> k \<le> group_size n g \<and>
     (let p = realloc d (buffer_size n) in
      group_hash p g = zero32 \<and> k = 0 \<or>
      group_hash p g = sha (group_mints p n g k) \<and> 72 + 32 * group_count n + 960 * g + 40 * k \<le> length d)"

definition groups_filled :: "(bytes \<Rightarrow> bytes) \<Rightarrow> bytes \<Rightarrow> nat \<Rightarrow> nat \<Rightarrow> bool" where
  "groups_filled sha d n filled \<longleftrightarrow>
     (\<exists>k. (\<forall>g < group_count n. group_filled sha d n g (k g)) \<and> (\<Sum>g < group_count n. k g) = filled)"

definition buffer_inv :: "(bytes \<Rightarrow> bytes) \<Rightarrow> bytes \<Rightarrow> bool" where
  "buffer_inv sha d \<longleftrightarrow> d = [] \<or> 72 \<le> length d \<and>
     (let h = buffer_hdr d; n = unat (bh_pending_mints_count h) in
      (bh_is_locked h \<noteq> 0 \<longrightarrow> bh_pending_mints_initialized h = bh_pending_mints_count h) \<and>
      (bh_pending_mint_groups_count h = 0 \<and> bh_pending_mints_initialized h = 0 \<and> (n = 0 \<or> 65513 \<le> n) \<or>
       unat (bh_pending_mint_groups_count h) = group_count n \<and> length d \<le> buffer_size n \<and>
       groups_filled sha d n (unat (bh_pending_mints_initialized h))))"

lemma group_sizes_sum: "(\<Sum>g < group_count n. group_size n g) = n"
proof -
  have "size (\<Sum>g < group_count n. mset (map (\<lambda>i. i) (group_range n g))) = n"
    unfolding group_ranges_cover by simp
  then show ?thesis by (simp add: group_range_def group_size_def)
qed

text \<open>If all mints are inserted, every group is full.\<close>

lemma groups_full:
  assumes "groups_filled sha d n n" and "g < group_count n"
  shows "group_filled sha d n g (group_size n g)"
proof -
  obtain k where k: "\<forall>g < group_count n. group_filled sha d n g (k g)" "(\<Sum>g < group_count n. k g) = n"
    using assms(1) by (auto simp: groups_filled_def)
  have le: "k j \<le> group_size n j" if "j < group_count n" for j
    using k(1) that by (simp add: group_filled_def)
  have "k g = group_size n g"
  proof (rule ccontr)
    assume "k g \<noteq> group_size n g"
    then have "k g < group_size n g" using le [OF assms(2)] by simp
    then have "(\<Sum>g < group_count n. k g) < (\<Sum>g < group_count n. group_size n g)"
      by (intro sum_strict_mono_ex1) (use le assms(2) in auto)
    then show False using k(2) by (simp add: group_sizes_sum)
  qed
  with k(1) assms(2) show ?thesis by auto
qed

lemma group_size_pos: "g < group_count n \<Longrightarrow> 0 < group_size n g"
  using group_below [of g n] by (simp add: group_size_def)

lemma group_filled_put_header:
  assumes "72 \<le> length d" and "length d \<le> buffer_size n" and "wf_buffer_header h"
  shows "group_filled sha (put_header d h) n g k \<longleftrightarrow> group_filled sha d n g k"
proof -
  have "72 \<le> length (realloc d (buffer_size n))" by (simp add: buffer_size_def)
  with assms show ?thesis
    by (simp add: group_filled_def realloc_put_header group_hash_def group_mints_def put_header_simps Let_def)
qed

lemma group_filled_realloc:
  assumes "length d \<le> m" and "m \<le> buffer_size n" and "group_filled sha d n g k"
  shows "group_filled sha (realloc d m) n g k"
  using assms by (auto simp: group_filled_def realloc_realloc Let_def)

lemma groups_filled_realloc:
  "length d \<le> m \<Longrightarrow> m \<le> buffer_size n \<Longrightarrow> groups_filled sha d n t \<Longrightarrow> groups_filled sha (realloc d m) n t"
  unfolding groups_filled_def by (blast intro: group_filled_realloc)

lemma buffer_inv_header:
  assumes "72 \<le> length d" and "wf_buffer_header h" and "buffer_inv sha d"
    and "bh_pending_mints_count h = bh_pending_mints_count (buffer_hdr d)"
    and "bh_pending_mint_groups_count h = bh_pending_mint_groups_count (buffer_hdr d)"
    and "bh_pending_mints_initialized h = bh_pending_mints_initialized (buffer_hdr d)"
    and "bh_is_locked h \<noteq> 0 \<Longrightarrow> bh_pending_mints_initialized h = bh_pending_mints_count h"
  shows "buffer_inv sha (put_header d h)"
proof -
  have ne: "d \<noteq> []" using assms(1) by auto
  have filled: "groups_filled sha (put_header d h) n t" if "groups_filled sha d n t" "length d \<le> buffer_size n" for n t
    using that assms(1,2) by (simp add: groups_filled_def group_filled_put_header)
  show ?thesis
    using assms(3-7) ne filled
    unfolding buffer_inv_def Let_def put_header_simps(1,2) [OF assms(1,2)] by auto
qed

text \<open>Clearing the counters gives an empty buffer, whatever the data.\<close>

lemma buffer_inv_cleared:
  assumes "72 \<le> length d" and "wf_buffer_header h" and "bh_is_locked h = 0"
    and "bh_pending_mint_groups_count h = 0" and "bh_pending_mints_initialized h = 0" and "bh_pending_mints_count h = 0"
  shows "buffer_inv sha (put_header d h)"
  using assms by (simp add: buffer_inv_def put_header_simps Let_def)

lemma reinit_groups:
  "unat ((n + 24 - 1) div 24 :: u16) = (if unat n < 65513 then group_count (unat n) else 0)"
proof -
  have e: "n + 24 - 1 = n + 23" by simp
  have "unat (n + 24 - 1 :: u16) = (unat n + unat (23 :: u16)) mod 2 ^ LENGTH(16)"
    unfolding e by (rule unat_word_ariths(1))
  then have "unat (n + 24 - 1 :: u16) = (unat n + 23) mod 65536" by simp
  then have div: "unat ((n + 24 - 1) div 24 :: u16) = ((unat n + 23) mod 65536) div 24" by (simp only: unat_div_24)
  show ?thesis
  proof (cases "unat n < 65513")
    case True
    then have "(unat n + 23) mod 65536 = unat n + 23" by simp
    with True show ?thesis unfolding div by (simp add: group_count_def)
  next
    case False
    have "(unat n + 23) mod 65536 = unat n + 23 - 65536"
      using False u16_bound [of n] by (simp add: le_mod_geq)
    also have "\<dots> < 24" using u16_bound [of n] by linarith
    finally show ?thesis using False unfolding div by simp
  qed
qed

lemma clear_hashes_zero:
  assumes "72 \<le> length d" and "length d \<le> buffer_size n" and "g < group_count n"
  shows "group_hash (realloc (clear_hashes d (group_count n)) (buffer_size n)) g = zero32"
proof (rule nth_equalityI)
  let ?c = "clear_hashes d (group_count n)"
  have len: "length ?c = length d" using assms(1) by (simp add: clear_hashes_def)
  have z: "?c ! i = 0" if "72 \<le> i" "i < length d" "i < 72 + 32 * group_count n" for i
  proof -
    let ?r = "min (group_count n * 32) (length d - 72)"
    have "i - 72 < ?r" "72 \<le> i \<and> i < 72 + ?r" using that by auto
    then show ?thesis using that assms(1) by (simp add: clear_hashes_def nth_write_at)
  qed
  have top: "72 + 32 * g + 32 \<le> 72 + 32 * group_count n" using assms(3) by simp
  show "length (group_hash (realloc ?c (buffer_size n)) g) = length zero32"
    using top by (simp add: group_hash_def buffer_size_def)
  fix i assume "i < length (group_hash (realloc ?c (buffer_size n)) g)"
  then have i: "i < 32" using top by (simp add: group_hash_def buffer_size_def)
  then have "group_hash (realloc ?c (buffer_size n)) g ! i = realloc ?c (buffer_size n) ! (72 + 32 * g + i)"
    unfolding group_hash_def using top by (intro nth_slice) (simp_all add: buffer_size_def)
  also have "\<dots> = 0" using z [of "72 + 32 * g + i"] i top len by (simp add: nth_realloc buffer_size_def)
  finally show "group_hash (realloc ?c (buffer_size n)) g ! i = zero32 ! i" using i by simp
qed

lemma buffer_inv_reinit:
  assumes "72 \<le> length d" and "wf_buffer_header h" and "bh_is_locked h = 0" and "bh_pending_mints_initialized h = 0"
    and "bh_pending_mint_groups_count h = (bh_pending_mints_count h + 24 - 1) div 24"
    and "length d \<le> buffer_size (unat (bh_pending_mints_count h))"
  shows "buffer_inv sha (clear_hashes (put_header d h) (unat (bh_pending_mint_groups_count h)))"
proof -
  let ?n = "unat (bh_pending_mints_count h)" and ?e = "put_header d h"
  let ?G = "unat (bh_pending_mint_groups_count h)" 
  have len: "length ?e = length d" "length (clear_hashes ?e ?G) = length d"
    using assms(1,2) by (simp_all add: clear_hashes_def put_header_simps)
  have hdr: "buffer_hdr (clear_hashes ?e ?G) = h"
    using assms(1,2) len(1) by (simp add: clear_hashes_def slice_write_at_other put_header_simps)
  have G: "?G = (if ?n < 65513 then group_count ?n else 0)" unfolding assms(5) by (rule reinit_groups)
  have filled: "groups_filled sha (clear_hashes ?e ?G) ?n 0" if "?n < 65513"
    unfolding groups_filled_def
    by (rule exI [of _ "\<lambda>_. 0"])
       (use clear_hashes_zero [of ?e ?n] that len(1) assms(1,6) G in \<open>simp add: group_filled_def Let_def\<close>)
  have "clear_hashes ?e ?G \<noteq> []" using len(2) assms(1) by auto
  moreover have "bh_pending_mint_groups_count h = 0" if "\<not> ?n < 65513" using that G by (simp add: unat_eq_zero)
  ultimately show ?thesis
    using filled G assms(1,3,4,6) len unfolding buffer_inv_def Let_def hdr by auto
qed

text \<open>Two writes into one buffer: the first below the second.\<close>

lemma two_writes:
  assumes "a + length xs \<le> b" and "b + length ys \<le> length d"
  shows "length (write_at (write_at d a xs) b ys) = length d"
    and "bslice (write_at (write_at d a xs) b ys) a (a + length xs) = xs"
    and "bslice (write_at (write_at d a xs) b ys) b (b + length ys) = ys"
    and "(u \<le> a \<or> a + length xs \<le> t) \<Longrightarrow> (u \<le> b \<or> b + length ys \<le> t) \<Longrightarrow>
      bslice (write_at (write_at d a xs) b ys) t u = bslice d t u"
proof -
  have fits: "a + length xs \<le> length d" using assms by linarith
  have l: "length (write_at d a xs) = length d" using fits by simp
  have fits2: "b + length ys \<le> length (write_at d a xs)" using assms(2) l by simp
  show "length (write_at (write_at d a xs) b ys) = length d" using fits2 l by simp
  show "bslice (write_at (write_at d a xs) b ys) b (b + length ys) = ys" by (rule slice_write_at_same [OF fits2])
  have "bslice (write_at (write_at d a xs) b ys) a (a + length xs) = bslice (write_at d a xs) a (a + length xs)"
    using assms(1) by (intro slice_write_at_other [OF fits2]) simp
  also have "\<dots> = xs" by (rule slice_write_at_same [OF fits])
  finally show "bslice (write_at (write_at d a xs) b ys) a (a + length xs) = xs" .
  assume o: "u \<le> a \<or> a + length xs \<le> t" "u \<le> b \<or> b + length ys \<le> t"
  have "bslice (write_at (write_at d a xs) b ys) t u = bslice (write_at d a xs) t u"
    by (rule slice_write_at_other [OF fits2 o(2)])
  also have "\<dots> = bslice d t u" by (rule slice_write_at_other [OF fits o(1)])
  finally show "bslice (write_at (write_at d a xs) b ys) t u = bslice d t u" .
qed

lemma two_writes_realloc:
  assumes "a + length xs \<le> b" and "b + length ys \<le> length d" and "length d \<le> n"
  shows "realloc (write_at (write_at d a xs) b ys) n = write_at (write_at (realloc d n) a xs) b ys"
proof -
  have "length (write_at d a xs) = length d" using assms by simp
  with assms show ?thesis using realloc_write_at [of b ys "write_at d a xs" n] realloc_write_at [of a xs d n] by simp
qed

text \<open>Inserting a group: nothing but this group changes.\<close>

lemma group_filled_insert:
  fixes d :: bytes
  assumes digest: "digest32 sha" and wf: "wf_buffer_header h" and len: "72 \<le> length d" "length d \<le> buffer_size n"
    and g: "g < group_count n" and md: "length md = 40 * k"
    and fits: "72 + 32 * group_count n + 960 * g + 40 * k \<le> length d" and k: "k \<le> group_size n g"
    and d': "d' = put_header (write_at (write_at d (72 + 32 * g) (sha md)) (72 + 32 * group_count n + 960 * g) md) h"
  shows "length d' = length d" and "group_filled sha d' n g k"
    and "j < group_count n \<Longrightarrow> j \<noteq> g \<Longrightarrow> group_filled sha d n j i \<Longrightarrow> group_filled sha d' n j i"
proof -
  let ?G = "group_count n" and ?p = "realloc d (buffer_size n)"
  define a b where "a = 72 + 32 * g" and "b = 72 + 32 * ?G + 960 * g"
  define v w where "v = write_at (write_at d a (sha md)) b md" and "w = write_at (write_at ?p a (sha md)) b md"
  have sha: "length (sha md) = 32" using digest by simp
  have ab: "a + length (sha md) \<le> b" using g by (simp add: a_def b_def sha)
  have b: "b + length md \<le> length d" using fits by (simp add: b_def md)
  have lp: "b + length md \<le> length ?p" using b len(2) by simp
  have v: "length v = length d" "72 \<le> length v" using two_writes(1) [OF ab b] len(1) by (simp_all add: v_def)
  have d'v: "d' = put_header v h" by (simp add: d' v_def a_def b_def)
  show len': "length d' = length d" by (simp add: d'v put_header_simps(2) [OF v(2) wf] v(1))
  have w: "length w = buffer_size n" "72 \<le> length w" using two_writes(1) [OF ab lp] by (simp_all add: w_def buffer_size_def)
  have p': "realloc d' (buffer_size n) = put_header w h"
    unfolding d'v using realloc_put_header [OF v(2) _ wf] v(1) len(2) two_writes_realloc [OF ab b len(2)]
    by (simp add: v_def w_def)
  note slice = put_header_simps(3) [OF w(2) wf]
  have "group_hash (put_header w h) g = sha md"
    unfolding group_hash_def using slice two_writes(2) [OF ab lp] by (simp add: w_def a_def sha)
  moreover have "group_mints (put_header w h) n g k = md"
    unfolding group_mints_def using slice two_writes(3) [OF ab lp] by (simp add: w_def b_def md)
  ultimately show "group_filled sha d' n g k" using k fits len' by (simp add: group_filled_def p' Let_def)
  assume j: "j < ?G" "j \<noteq> g" "group_filled sha d n j i"
  then have i: "i \<le> 24" by (simp add: group_filled_def group_size_def)
  have k24: "k \<le> 24" using k by (simp add: group_size_def)
  have other: "bslice (put_header w h) t u = bslice ?p t u"
    if "72 \<le> t" "u \<le> a \<or> a + 32 \<le> t" "u \<le> b \<or> b + 40 * k \<le> t" for t u
    using two_writes(4) [OF ab lp, of u t] that slice by (simp add: w_def sha md)
  have "j < g \<or> g < j" using j(2) by linarith
  then have "group_hash (put_header w h) j = group_hash ?p j"
    unfolding group_hash_def by (intro other) (use j(1) in \<open>auto simp: a_def b_def\<close>)
  moreover have "group_mints (put_header w h) n j i = group_mints ?p n j i"
  proof -
    have "960 * j + 40 * i \<le> 960 * g \<or> 960 * g + 40 * k \<le> 960 * j" using j(2) i k24 by linarith
    then show ?thesis unfolding group_mints_def by (intro other) (use g in \<open>auto simp: a_def b_def\<close>)
  qed
  ultimately show "group_filled sha d' n j i" using j(3) len' by (simp add: group_filled_def p' Let_def)
qed

lemma sum_update_zero:
  fixes f :: "nat \<Rightarrow> nat"
  assumes "i < n" and "f i = 0"
  shows "(\<Sum>j < n. (f(i := k)) j) = (\<Sum>j < n. f j) + k"
proof -
  have "(\<Sum>j < n. (f(i := k)) j) = (\<Sum>j < n. f j + (if j = i then k else 0))"
    using assms(2) by (intro sum.cong) auto
  then show ?thesis using assms(1) by (simp add: sum.distrib)
qed

lemma buffer_inv_insert:
  assumes digest: "digest32 sha" and nz: "zero32 \<notin> range sha" and inv: "buffer_inv sha d" and len: "72 \<le> length d"
    and m: "length d \<le> m" "m = length d \<or> m \<le> get_total_buffer_size (buffer_hdr d)"
    and ins: "insert_pending_mints sha (realloc d m) g md = Inr d'"
  shows "buffer_inv sha d'"
proof -
  define e h where "e = realloc d m" and "h = buffer_hdr d"
  define n where "n = unat (bh_pending_mints_count h)"
  define k where "k = length md div 40"
  have hdr: "buffer_hdr e = h" using len m(1) by (simp add: e_def h_def buffer_simps)
  note ok = insert_okD [OF ins [folded e_def], unfolded hdr]
  have G: "unat g < unat (bh_pending_mint_groups_count h)" and unlocked: "bh_is_locked h = 0"
    using ok(1,2) by (simp_all add: word_less_nat_alt)
  have inv': "unat (bh_pending_mint_groups_count h) = group_count n" "length d \<le> buffer_size n"
    "groups_filled sha d n (unat (bh_pending_mints_initialized h))"
    using inv len G unfolding buffer_inv_def Let_def h_def [symmetric] n_def [symmetric] by auto
  have g: "unat g < group_count n" using G inv'(1) by simp
  have le: "72 \<le> length e" "length e \<le> buffer_size n"
    using m len inv'(1,2) by (auto simp: e_def get_total_buffer_size_def buffer_size_def h_def [symmetric] n_def [symmetric])
  have "24 * unat g < n" by (rule group_below [OF g])
  moreover have "n < 65536" unfolding n_def by (rule u16_bound)
  ultimately have idx: "unat (g * 24) * 40 = 960 * unat g" by (simp add: unat_word_ariths)
  have md: "length md = 40 * k" using ok(4) by (auto simp: k_def)
  define a b where "a = 72 + 32 * unat g" and "b = 72 + 32 * group_count n + 960 * unat g"
  let ?v = "write_at (write_at e a (sha md)) b md"
  have offs: "72 + unat g * 32 = a" "72 + unat (bh_pending_mint_groups_count h) * 32 + unat (g * 24) * 40 = b"
    unfolding a_def b_def inv'(1) idx by simp_all
  have "b + length md \<le> length e" and free: "bslice e a (a + 32) = zero32" and
    d': "d' = (let d2 = ?v in put_header d2 ((buffer_hdr d2) \<lparr> bh_pending_mints_initialized :=
      bh_pending_mints_initialized (buffer_hdr d2) + of_nat (length md div 40) \<rparr>))"
    using ok(5-7) [unfolded offs] by simp_all
  then have fits: "b + 40 * k \<le> length e" by (simp only: md)
  have k: "k \<le> group_size n (unat g)" "k \<le> 24"
    using ok(3) fits le(2) md by (auto simp: group_size_def b_def buffer_size_def)
  have ab: "a + length (sha md) \<le> b" "b + length md \<le> length e"
    using g digest fits by (simp_all add: a_def b_def md)
  have hv: "buffer_hdr ?v = h"
    using two_writes(4) [OF ab, of 72 0] hdr by (simp add: a_def b_def)
  define h' where "h' = h \<lparr> bh_pending_mints_initialized := bh_pending_mints_initialized h + of_nat k \<rparr>"
  have wf: "wf_buffer_header h'" using wf_buffer_hdr [OF len] by (simp add: h'_def h_def wf_buffer_header_def)
  have d'': "d' = put_header ?v h'" by (simp only: d' Let_def hv h'_def k_def)
  note ins' = group_filled_insert [OF digest wf le g md fits [unfolded b_def] k(1) d'' [unfolded a_def b_def]]
  have hdr': "buffer_hdr d' = h'"
    using two_writes(1) [OF ab] le(1) wf by (simp add: d'' put_header_simps)
  obtain f where f: "\<forall>j < group_count n. group_filled sha d n j (f j)"
      "(\<Sum>j < group_count n. f j) = unat (bh_pending_mints_initialized h)"
    using inv'(3) by (auto simp: groups_filled_def)
  have fe: "group_filled sha e n j (f j)" if "j < group_count n" for j
    unfolding e_def using f(1) that m(1) le(2) by (intro group_filled_realloc) (simp_all add: e_def)
  have "f (unat g) = 0"
  proof (rule ccontr)
    assume "f (unat g) \<noteq> 0"
    then have "group_hash (realloc e (buffer_size n)) (unat g) \<in> range sha"
      using fe [OF g] by (auto simp: group_filled_def Let_def)
    moreover have "a + 32 \<le> length e" using ab digest by simp
    then have "bslice (realloc e (buffer_size n)) a (a + 32) = zero32"
      using free le(2) by (simp add: slice_realloc)
    then have "group_hash (realloc e (buffer_size n)) (unat g) = zero32" by (simp only: group_hash_def a_def)
    ultimately show False using nz by simp
  qed
  then have sum: "(\<Sum>j < group_count n. (f(unat g := k)) j) = unat (bh_pending_mints_initialized h) + k"
    using sum_update_zero [OF g, of f k] f(2) by simp
  have all: "group_filled sha d' n j ((f(unat g := k)) j)" if "j < group_count n" for j
    using ins'(2) ins'(3) [OF that _ fe [OF that]] by simp
  have "(\<Sum>j < group_count n. (f(unat g := k)) j) \<le> (\<Sum>j < group_count n. group_size n j)"
    by (rule sum_mono) (use all [unfolded group_filled_def] in blast)
  then have small: "unat (bh_pending_mints_initialized h) + k \<le> n" by (simp only: sum group_sizes_sum)
  then have "unat (bh_pending_mints_initialized h') = unat (bh_pending_mints_initialized h) + k"
    using \<open>n < 65536\<close> by (simp add: h'_def unat_word_ariths unat_of_nat)
  then have "(\<Sum>j < group_count n. (f(unat g := k)) j) = unat (bh_pending_mints_initialized h')" by (simp only: sum)
  with all have "groups_filled sha d' n (unat (bh_pending_mints_initialized h'))"
    unfolding groups_filled_def by blast
  then show ?thesis
    unfolding buffer_inv_def Let_def hdr'
    using inv'(1) unlocked le ins'(1) by (simp add: h'_def n_def)
qed

text \<open>All instructions keep the invariant.\<close>

lemma buffer_inv_step:
  assumes digest: "digest32 sha" and nz: "zero32 \<notin> range sha" and inv: "buffer_inv sha d" and step: "buffer_step sha a d d'"
  shows "buffer_inv sha d'"
  using step
proof (cases rule: buffer_step.cases)
  case (step_setup e locker writer)
  then show ?thesis
    by (auto intro!: buffer_inv_cleared simp: fresh_header_def wf_buffer_header_def)
next
  case (step_reinit writer m n h)
  have wf: "wf_buffer_header h" using step_reinit(7) wf_buffer_hdr [OF step_reinit(3)] by (rule wf_header_reinit)
  have h: "bh_is_locked h = 0" "bh_pending_mints_initialized h = 0" "bh_pending_mints_count h = n"
    "bh_pending_mint_groups_count h = (bh_pending_mints_count h + 24 - 1) div 24"
    using step_reinit(7) by (simp_all add: header_reinit_ok_iff)
  have size: "calculate_target_size n = buffer_size (unat n)"
    by (simp add: calculate_target_size_def buffer_size_def group_count_def Let_def)
  show ?thesis
    unfolding step_reinit(2)
    by (rule buffer_inv_reinit [OF _ wf h(1,2,4)]) (use step_reinit(5,6) size h(3) in simp_all)
next
  case (step_resize writer m)
  have total: "get_total_buffer_size (buffer_hdr d) = buffer_size (unat (bh_pending_mints_count (buffer_hdr d)))"
    if "unat (bh_pending_mint_groups_count (buffer_hdr d)) = group_count (unat (bh_pending_mints_count (buffer_hdr d)))"
    using that by (simp add: get_total_buffer_size_def buffer_size_def)
  have "buffer_hdr (realloc d m) = buffer_hdr d" using step_resize by (simp add: buffer_simps)
  then show ?thesis
    using inv step_resize total groups_filled_realloc [of d m] by (auto simp: buffer_inv_def Let_def)
next
  case (step_insert writer m g mint_data)
  then show ?thesis using buffer_inv_insert [OF digest nz inv] by blast
next
  case (step_lock locker h)
  then show ?thesis
    using wf_buffer_hdr [of d]
    by (auto intro!: buffer_inv_header [OF _ _ inv] simp: header_lock_def wf_buffer_header_def result_simps)
next
  case (step_unlock locker h)
  then show ?thesis
    using wf_buffer_hdr [of d]
    by (auto intro!: buffer_inv_cleared simp: header_unlock_def wf_buffer_header_def result_simps)
qed

lemma buffer_inv_empty: "buffer_inv sha []"
  by (simp add: buffer_inv_def)

interpretation mint_buffer: step_invariant "\<lambda>d. d = []" "\<lambda>d d'. \<exists>a. buffer_step sha a d d'"
  "\<lambda>d. digest32 sha \<and> zero32 \<notin> range sha \<longrightarrow> buffer_inv sha d" for sha
  by unfold_locales (auto intro: buffer_inv_step buffer_inv_empty)

text \<open>The data of a buffer account after some accepted instructions, starting from an account without data.\<close>

inductive pmb_reachable :: "runtime \<Rightarrow> (bytes \<Rightarrow> bytes) \<Rightarrow> pubkey \<Rightarrow> bytes \<Rightarrow> bool"
  for rt :: runtime and sha :: "bytes \<Rightarrow> bytes" and pid :: pubkey where
  no_data: "pmb_reachable rt sha pid []"
| instruction: "pmb_reachable rt sha pid (ai_data st')"
    if "pmb_reachable rt sha pid (ai_data st)" and "pmb_process_instruction rt sha pid (st # accs) ix = Inr (st' # accs')"

lemma pmb_reachable_steps:
  assumes "runtime_ok rt" and "pmb_reachable rt sha pid d"
  shows "(\<lambda>d d'. \<exists>a. buffer_step sha a d d')\<^sup>*\<^sup>* [] d"
  using assms(2)
proof induction
  case no_data
  show ?case by (rule rtranclp.rtrancl_refl)
next
  case (instruction st accs ix st' accs')
  then have "\<exists>a. buffer_step sha a (ai_data st) (ai_data st')" using process_instruction_step [OF assms(1)] by blast
  with instruction.IH show ?case by (rule rtranclp.rtrancl_into_rtrancl)
qed

lemma pmb_reachable_inv:
  "runtime_ok rt \<Longrightarrow> digest32 sha \<Longrightarrow> zero32 \<notin> range sha \<Longrightarrow> pmb_reachable rt sha pid d \<Longrightarrow> buffer_inv sha d"
  using mint_buffer.inv_reachable [OF refl pmb_reachable_steps] by blast

lemma locked_inv_commits:
  assumes inv: "buffer_inv sha d" and nz: "zero32 \<notin> range sha" and ne: "d \<noteq> []" and lock: "bh_is_locked (buffer_hdr d) \<noteq> 0"
  defines "n \<equiv> unat (bh_pending_mints_count (buffer_hdr d))"
  shows "unat (bh_pending_mint_groups_count (buffer_hdr d)) = group_count n" and "buffer_size n \<le> length d"
    and "\<And>g. g < group_count n \<Longrightarrow> group_hash d g = sha (group_mints d n g (group_size n g))"
proof -
  let ?h = "buffer_hdr d"
  have len: "72 \<le> length d" and init: "unat (bh_pending_mints_initialized ?h) = n"
    using inv ne lock by (auto simp: buffer_inv_def Let_def n_def)
  have "n = 0 \<and> bh_pending_mint_groups_count ?h = 0 \<or>
      unat (bh_pending_mint_groups_count ?h) = group_count n \<and> length d \<le> buffer_size n \<and> groups_filled sha d n n"
    using inv ne init unfolding buffer_inv_def Let_def n_def [symmetric] by auto
  then consider "n = 0" "bh_pending_mint_groups_count ?h = 0"
    | "0 < n" "unat (bh_pending_mint_groups_count ?h) = group_count n" "length d \<le> buffer_size n" "groups_filled sha d n n"
    by (cases "n = 0") (auto simp: unat_eq_zero)
  then have "unat (bh_pending_mint_groups_count ?h) = group_count n \<and> buffer_size n \<le> length d \<and>
      (\<forall>g < group_count n. group_hash d g = sha (group_mints d n g (group_size n g)))"
  proof cases
    case 1
    with len show ?thesis by (simp add: buffer_size_def)
  next
    case 2
    have full: "72 + 32 * group_count n + 960 * g + 40 * group_size n g \<le> length d"
      "group_hash (realloc d (buffer_size n)) g = sha (group_mints (realloc d (buffer_size n)) n g (group_size n g))"
      if "g < group_count n" for g
      using groups_full [OF 2(4) that] group_size_pos [OF that] by (auto simp: group_filled_def Let_def)
    define q where "q = group_count n - 1"
    have q: "q < group_count n" using 2(1) by (simp add: q_def neq0_conv [symmetric] del: neq0_conv)
    have "24 * q < n" by (rule group_below [OF q])
    moreover have "n \<le> 24 * q + 24"
    proof -
      have "n \<le> 24 * group_count n"
        using mult_div_mod_eq [of 24 n] mod_less_divisor [of 24 n] by (cases "n mod 24 = 0") (simp_all add: group_count_div_mod)
      then show ?thesis using q by (simp add: q_def)
    qed
    ultimately have "960 * q + 40 * group_size n q = 40 * n" by (auto simp: group_size_def)
    then have "length d = buffer_size n" using full(1) [OF q] 2(3) by (simp add: buffer_size_def)
    with 2(2) full(2) show ?thesis by (simp add: realloc_same)
  qed
  then show "unat (bh_pending_mint_groups_count ?h) = group_count n" "buffer_size n \<le> length d"
    "\<And>g. g < group_count n \<Longrightarrow> group_hash d g = sha (group_mints d n g (group_size n g))" by auto
qed

section \<open>Properties\<close>

text \<open>C12. A locked buffer commits to its mints: in every locked state that accepted instructions can
  reach from an account without data, the number of groups belongs to the number of mints,
  the account is long enough for all of them, and the stored hash of every group is the
  digest of exactly the mints of that group. (The digest function has 32-byte results and
  does not hit the all-zero string, which marks a free group.)\<close>

theorem locked_buffer_commits:
  assumes "runtime_ok rt" and "digest32 sha" and "zero32 \<notin> range sha" and "pmb_reachable rt sha pid d"
    and "d \<noteq> []" and "bh_is_locked (buffer_hdr d) \<noteq> 0"
  shows "let n = unat (bh_pending_mints_count (buffer_hdr d)) in
    unat (bh_pending_mint_groups_count (buffer_hdr d)) = group_count n \<and> buffer_size n \<le> length d \<and>
    (\<forall>g < group_count n. group_hash d g = sha (group_mints d n g (group_size n g)))"
  using locked_inv_commits [OF pmb_reachable_inv [OF assms(1-4)] assms(3,5,6)] by (simp add: Let_def)

text \<open>A concrete run: the buffer is set up, sized for one mint, filled and locked.\<close>

definition ones_digest :: "bytes \<Rightarrow> bytes" where
  "ones_digest x = replicate 32 1"

lemma ones_digest_ok: "digest32 ones_digest" "zero32 \<notin> range ones_digest"
  by (auto simp: digest32_def ones_digest_def)

abbreviation example_locker :: pubkey where
  "example_locker \<equiv> replicate 32 6"

abbreviation example_program :: pubkey where
  "example_program \<equiv> replicate 32 9"

definition example_storage :: "u64 \<Rightarrow> bytes \<Rightarrow> AccountInfo" where
  "example_storage lamports d = \<lparr> ai_key = sample_address [mint_buffer_seed, replicate 32 5] example_program,
     ai_owner = example_program, ai_lamports = lamports, ai_data = d, ai_is_signer = False \<rparr>"

definition example_signer :: "pubkey \<Rightarrow> AccountInfo" where
  "example_signer k = \<lparr> ai_key = k, ai_owner = zero32, ai_lamports = 1000, ai_data = [], ai_is_signer = True \<rparr>"

definition example_buffer0 :: bytes where
  "example_buffer0 = put_header (replicate 72 0) (fresh_header example_locker (replicate 32 5))"

lemma wf_fresh_header: "length l = 32 \<Longrightarrow> length w = 32 \<Longrightarrow> wf_buffer_header (fresh_header l w)"
  by (simp add: wf_buffer_header_def fresh_header_def)

lemma example_buffer0 [simp]: "length example_buffer0 = 72"
  "buffer_hdr example_buffer0 = fresh_header example_locker (replicate 32 5)"
  by (simp_all add: example_buffer0_def put_header_simps wf_fresh_header)

lemma le_nat_replicate_zero [simp]: "le_nat (replicate n 0) = 0"
  by (induction n) simp_all

lemma example_setup:
  "pmb_process_instruction sample_runtime ones_digest example_program [example_storage 100 []]
     (0 # example_locker @ replicate 32 5) = Inr [example_storage 100 example_buffer0]"
proof -
  have "buffer_hdr (replicate 72 0) = fresh_header zero32 zero32"
    by (simp add: dec_buffer_header_def fresh_header_def bslice_def from_le_bytes_def le_nat_replicate_zero)
  then show ?thesis
    by (simp add: pmb_process_instruction_def pmb_setup_def example_storage_def sample_runtime_def get_header_def
        header_setup_def fresh_header_def example_buffer0_def Let_def codec_simps)
qed

definition example_header1 :: "u8 \<Rightarrow> u16 \<Rightarrow> PendingMintsBufferStateHeader" where
  "example_header1 locked filled = (fresh_header example_locker (replicate 32 5))
     \<lparr> bh_is_locked := locked, bh_pending_mint_groups_count := 1, bh_pending_mints_count := 1,
       bh_pending_mints_initialized := filled \<rparr>"

definition example_buffer1 :: bytes where
  "example_buffer1 = clear_hashes (put_header (realloc example_buffer0 144) (example_header1 0 0)) 1"

lemma wf_example_header1: "wf_buffer_header (example_header1 l f)"
  by (simp add: example_header1_def wf_buffer_header_def fresh_header_def)

lemma example_buffer1 [simp]: "length example_buffer1 = 144" "buffer_hdr example_buffer1 = example_header1 0 0"
  "bslice example_buffer1 72 104 = zero32"
proof -
  let ?e = "put_header (realloc example_buffer0 144) (example_header1 0 0)"
  have e: "length ?e = 144" "buffer_hdr ?e = example_header1 0 0"
    by (simp_all add: put_header_simps wf_example_header1)
  show "length example_buffer1 = 144" using e(1) by (simp add: example_buffer1_def clear_hashes_def)
  show "buffer_hdr example_buffer1 = example_header1 0 0"
    using e by (simp add: example_buffer1_def clear_hashes_def slice_write_at_other)
  show "bslice example_buffer1 72 104 = zero32"
    using e(1) slice_write_at_same [of 72 zero32 ?e] by (simp add: example_buffer1_def clear_hashes_def)
qed

lemma example_reinit:
  "\<exists>accs. pmb_process_instruction sample_runtime ones_digest example_program
     (example_storage 100 example_buffer0 # [example_signer (replicate 32 5), sys])
     (1 # to_le_bytes (1 :: u16)) = Inr (example_storage 172 example_buffer1 # accs)"
proof -
  have "(24 :: u16) div 24 = 1" by (simp only: word_unat_eq_iff unat_div_24) simp
  then have "header_reinit (fresh_header example_locker (replicate 32 5)) 1 = Inr (example_header1 0 0)"
    by (simp add: header_reinit_ok_iff example_header1_def fresh_header_def)
  moreover have "unat (bh_pending_mint_groups_count (example_header1 0 0)) = 1" by (simp add: example_header1_def)
  moreover have "length (put_header (realloc example_buffer0 144) (example_header1 0 0)) = 144"
    by (simp add: put_header_simps wf_example_header1)
  ultimately show ?thesis
    by (simp add: pmb_process_instruction_def pmb_reinit_def example_storage_def example_signer_def require_signer_def
        verify_writer_def fresh_header_def calculate_target_size_def pmb_realloc_account_def sample_runtime_def Let_def
        get_header_def buffer_simps example_buffer1_def clear_hashes_def)
qed

definition example_buffer2 :: bytes where
  "example_buffer2 = put_header (write_at (write_at example_buffer1 72 (ones_digest (replicate 40 1))) 104 (replicate 40 1))
     (example_header1 0 1)"

lemma example_filled:
  "length (write_at (write_at example_buffer1 72 (replicate 32 1)) 104 (replicate 40 1)) = 144"
  "buffer_hdr (write_at (write_at example_buffer1 72 (replicate 32 1)) 104 (replicate 40 1)) = example_header1 0 0"
  by (simp_all add: slice_write_at_other)

lemma example_buffer2 [simp]: "length example_buffer2 = 144" "buffer_hdr example_buffer2 = example_header1 0 1"
  by (simp_all add: example_buffer2_def ones_digest_def put_header_simps wf_example_header1 example_filled)

lemma example_groups:
  "bh_is_locked (example_header1 l f) = l" "bh_pending_mint_groups_count (example_header1 l f) = 1"
  "bh_pending_mints_count (example_header1 l f) = 1" "bh_pending_mints_initialized (example_header1 l f) = f"
  "example_header1 l f \<lparr> bh_pending_mints_initialized := f' \<rparr> = example_header1 l f'"
  by (simp_all add: example_header1_def)

lemma example_insert:
  "\<exists>accs. pmb_process_instruction sample_runtime ones_digest example_program
     (example_storage 172 example_buffer1 # [example_signer (replicate 32 5), sys])
     (3 # to_le_bytes (0 :: u16) @ replicate 40 1) = Inr (example_storage 172 example_buffer2 # accs)"
proof -
  have "insert_pending_mints ones_digest example_buffer1 0 (replicate 40 1) = Inr example_buffer2"
    by (simp add: insert_ok_iff example_buffer2_def ones_digest_def example_groups example_filled Let_def)
  then show ?thesis
    by (simp add: pmb_process_instruction_def pmb_insert_def example_storage_def example_signer_def require_signer_def
        verify_writer_def get_total_buffer_size_def Let_def example_header1_def fresh_header_def)
qed

lemma example_lock:
  "\<exists>accs. pmb_process_instruction sample_runtime ones_digest example_program
     (example_storage 172 example_buffer2 # [example_signer example_locker]) [4]
     = Inr (example_storage 172 (put_header example_buffer2 (example_header1 1 1)) # accs)"
  by (simp add: pmb_process_instruction_def pmb_lock_def example_storage_def example_signer_def require_signer_def
      get_header_def header_lock_def example_header1_def fresh_header_def)

abbreviation example_locked_buffer :: bytes where
  "example_locked_buffer \<equiv> put_header example_buffer2 (example_header1 1 1)"

lemma example_locked_reachable:
  "pmb_reachable sample_runtime ones_digest example_program example_locked_buffer"
proof -
  let ?R = "pmb_reachable sample_runtime ones_digest example_program"
  have step: "?R d \<Longrightarrow> pmb_process_instruction sample_runtime ones_digest example_program
     (example_storage l d # accs) ix = Inr (example_storage l' d' # accs') \<Longrightarrow> ?R d'" for l d l' d' accs accs' ix
    using pmb_reachable.instruction [of sample_runtime ones_digest example_program "example_storage l d" accs ix
        "example_storage l' d'" accs'] by (simp add: example_storage_def)
  have "?R example_buffer0" using step [OF pmb_reachable.no_data example_setup] .
  then have "?R example_buffer1" using step example_reinit by blast
  then have "?R example_buffer2" using step example_insert by blast
  then show ?thesis using step example_lock by blast
qed

theorem locked_buffer_commits_witness:
  "bh_is_locked (buffer_hdr example_locked_buffer) = 1 \<and> group_count 1 = 1 \<and>
   group_hash example_locked_buffer 0 = ones_digest (group_mints example_locked_buffer 1 0 (group_size 1 0))"
proof -
  have h: "buffer_hdr example_locked_buffer = example_header1 1 1" "length example_locked_buffer = 144"
    by (simp_all add: put_header_simps wf_example_header1)
  have "group_count 1 = 1" by (simp add: group_count_def)
  moreover have "example_locked_buffer \<noteq> []" "bh_is_locked (buffer_hdr example_locked_buffer) \<noteq> 0"
    unfolding length_0_conv [symmetric] h by (simp_all add: example_groups)
  note locked_buffer_commits [OF sample_runtime_ok ones_digest_ok example_locked_reachable this]
  ultimately show ?thesis unfolding h(1) example_groups Let_def by simp
qed

section \<open>Who may do what\<close>

lemma clear_hashes_hdr:
  assumes "72 \<le> length d"
  shows "buffer_hdr (clear_hashes d g) = buffer_hdr d" and "length (clear_hashes d g) = length d"
  using assms by (simp_all add: clear_hashes_def slice_write_at_other)

lemma insert_hdr:
  assumes "digest32 sha" and "insert_pending_mints sha d g mint_data = Inr d'"
  shows "bh_is_locked (buffer_hdr d) = 0" and "72 \<le> length d'"
    and "bh_authorized_locker_public_key (buffer_hdr d') = bh_authorized_locker_public_key (buffer_hdr d)"
    and "bh_authorized_writer_public_key (buffer_hdr d') = bh_authorized_writer_public_key (buffer_hdr d)"
proof -
  let ?ho = "72 + unat g * 32"
  let ?mo = "72 + unat (bh_pending_mint_groups_count (buffer_hdr d)) * 32 + unat (g * 24) * 40"
  let ?d2 = "write_at (write_at d ?ho (sha mint_data)) ?mo mint_data"
  have sha: "length (sha mint_data) = 32" using assms(1) by (simp add: digest32_def)
  have ok: "72 \<le> length d" "bh_is_locked (buffer_hdr d) = 0" "g < bh_pending_mint_groups_count (buffer_hdr d)"
      "?mo + length mint_data \<le> length d" "?ho + 32 \<le> length d"
      and d': "d' = put_header ?d2 ((buffer_hdr ?d2) \<lparr> bh_pending_mints_initialized :=
                bh_pending_mints_initialized (buffer_hdr ?d2) + of_nat (length mint_data div 40) \<rparr>)"
    by (insert assms(2) [unfolded insert_ok_iff Let_def], (elim conjE, assumption)+)
  have "unat g < unat (bh_pending_mint_groups_count (buffer_hdr d))" using ok(3) by (simp add: word_less_nat_alt)
  then have "?ho + length (sha mint_data) \<le> ?mo" using sha by simp
  note two = two_writes [OF this ok(4)]
  have d2: "length ?d2 = length d" "buffer_hdr ?d2 = buffer_hdr d" using two(1) two(4) [of 72 0] by simp_all
  have wf: "wf_buffer_header ((buffer_hdr ?d2) \<lparr> bh_pending_mints_initialized := x \<rparr>)" for x
    using wf_buffer_hdr [OF ok(1)] unfolding d2(2) by (simp add: wf_buffer_header_def)
  have len: "72 \<le> length ?d2" using ok(1) d2(1) by simp
  show "bh_is_locked (buffer_hdr d) = 0" by (rule ok(2))
  show "72 \<le> length d'" unfolding d' using put_header_simps(2) [OF len wf] len by simp
  show "bh_authorized_locker_public_key (buffer_hdr d') = bh_authorized_locker_public_key (buffer_hdr d)"
    "bh_authorized_writer_public_key (buffer_hdr d') = bh_authorized_writer_public_key (buffer_hdr d)"
    unfolding d' put_header_simps(1) [OF len wf] by (simp_all add: d2(2))
qed

abbreviation buffer_locker :: "bytes \<Rightarrow> pubkey" where
  "buffer_locker d \<equiv> bh_authorized_locker_public_key (buffer_hdr d)"

abbreviation buffer_writer :: "bytes \<Rightarrow> pubkey" where
  "buffer_writer d \<equiv> bh_authorized_writer_public_key (buffer_hdr d)"

lemma wf_header_lock: "header_lock h k = Inr h' \<Longrightarrow> wf_buffer_header h \<Longrightarrow> wf_buffer_header h'"
  by (auto simp: header_lock_def wf_buffer_header_def result_simps)

lemma wf_header_unlock: "header_unlock h k = Inr h' \<Longrightarrow> wf_buffer_header h \<Longrightarrow> wf_buffer_header h'"
  by (auto simp: header_unlock_def wf_buffer_header_def result_simps)

lemma step_keys:
  assumes sha: "digest32 sha" and step: "buffer_step sha a d d'" and d: "72 \<le> length d" "buffer_locker d \<noteq> zero32"
  shows "(a = Some (buffer_writer d) \<or> a = Some (buffer_locker d)) \<and>
    72 \<le> length d' \<and> buffer_writer d' = buffer_writer d \<and> buffer_locker d' = buffer_locker d"
  using step
proof cases
  case (step_setup e locker writer)
  then show ?thesis using d by (auto split: if_splits)
next
  case (step_reinit writer m n h)
  have "wf_buffer_header h" using wf_header_reinit [OF step_reinit(7) wf_buffer_hdr [OF d(1)]] .
  then show ?thesis using step_reinit by (auto simp: clear_hashes_hdr put_header_simps header_reinit_ok_iff)
next
  case (step_resize writer m)
  then show ?thesis using d by (simp add: buffer_simps)
next
  case (step_insert writer m g mint_data)
  then show ?thesis using insert_hdr(2-) [OF sha step_insert(6)] d(1) by (simp add: buffer_simps)
next
  case (step_lock locker h)
  have "wf_buffer_header h" using wf_header_lock [OF step_lock(4) wf_buffer_hdr [OF d(1)]] .
  then show ?thesis using step_lock by (auto simp: put_header_simps header_lock_def result_simps)
next
  case (step_unlock locker h)
  have "wf_buffer_header h" using wf_header_unlock [OF step_unlock(4) wf_buffer_hdr [OF d(1)]] .
  then show ?thesis using step_unlock by (auto simp: put_header_simps header_unlock_def result_simps)
qed

lemma step_locked:
  assumes sha: "digest32 sha" and step: "buffer_step sha a d d'" and d: "72 \<le> length d" "buffer_locker d \<noteq> zero32"
    and locked: "bh_is_locked (buffer_hdr d) \<noteq> 0"
  shows "a = Some (buffer_locker d) \<and> d' = put_header d ((buffer_hdr d) \<lparr> bh_is_locked := 0,
    bh_pending_mint_groups_count := 0, bh_pending_mints_count := 0, bh_pending_mints_initialized := 0 \<rparr>)"
  using step
proof cases
  case (step_setup e locker writer)
  then show ?thesis using d by (auto split: if_splits)
next
  case (step_insert writer m g mint_data)
  then show ?thesis using insert_hdr(1) [OF sha step_insert(6)] d(1) locked by (simp add: buffer_simps)
qed (use locked in \<open>auto simp: header_reinit_ok_iff header_lock_def header_unlock_def result_simps\<close>)

text \<open>Once a buffer is set up with a locker other than the all-zero key, every instruction that
  the program accepts on it carries the signature of the authorised writer or of the
  authorised locker, and none of them changes these two keys.\<close>

theorem buffer_keys_permanent:
  assumes "runtime_ok rt" and "digest32 sha" and "72 \<le> length (ai_data st)" and "buffer_locker (ai_data st) \<noteq> zero32"
    and "pmb_process_instruction rt sha pid (st # accs) ix = Inr (st' # accs')"
  shows "(\<exists>p \<in> set accs. ai_is_signer p \<and> ai_key p \<in> {buffer_writer (ai_data st), buffer_locker (ai_data st)}) \<and>
    buffer_writer (ai_data st') = buffer_writer (ai_data st) \<and> buffer_locker (ai_data st') = buffer_locker (ai_data st)"
  using process_instruction_step [OF assms(1,5)] step_keys [OF assms(2) _ assms(3,4)] by blast

theorem buffer_keys_permanent_witness:
  "\<exists>st' accs. pmb_process_instruction sample_runtime ones_digest example_program
     [example_storage 172 example_buffer2, example_signer example_locker] [4] = Inr (st' # accs) \<and>
   (\<exists>p \<in> set [example_signer example_locker]. ai_is_signer p) \<and>
   buffer_writer (ai_data st') = replicate 32 5 \<and> buffer_locker (ai_data st') = example_locker"
proof -
  obtain accs where run: "pmb_process_instruction sample_runtime ones_digest example_program
     (example_storage 172 example_buffer2 # [example_signer example_locker]) [4]
     = Inr (example_storage 172 example_locked_buffer # accs)"
    using example_lock by blast
  have st: "72 \<le> length (ai_data (example_storage 172 example_buffer2))"
    "buffer_locker (ai_data (example_storage 172 example_buffer2)) = example_locker"
    "buffer_writer (ai_data (example_storage 172 example_buffer2)) = replicate 32 5"
    by (simp_all add: example_storage_def example_header1_def fresh_header_def)
  have "buffer_locker (ai_data (example_storage 172 example_buffer2)) \<noteq> zero32" by (simp add: st(2))
  note buffer_keys_permanent [OF sample_runtime_ok ones_digest_ok(1) st(1) this run]
  with run st(2,3) show ?thesis by (auto simp: example_signer_def)
qed

text \<open>C16. A locked buffer is frozen: the only instruction the program accepts on it is the unlock
  signed by its locker, which clears the lock and the counters and changes nothing outside
  the header. So the mints that the bridge locked are the mints it reads later on.\<close>

theorem locked_buffer_frozen:
  assumes "runtime_ok rt" and "digest32 sha" and "72 \<le> length (ai_data st)" and "buffer_locker (ai_data st) \<noteq> zero32"
    and "bh_is_locked (buffer_hdr (ai_data st)) \<noteq> 0"
    and "pmb_process_instruction rt sha pid (st # accs) ix = Inr (st' # accs')"
  shows "(\<exists>p \<in> set accs. ai_is_signer p \<and> ai_key p = buffer_locker (ai_data st)) \<and>
    buffer_hdr (ai_data st') = (buffer_hdr (ai_data st)) \<lparr> bh_is_locked := 0, bh_pending_mint_groups_count := 0,
      bh_pending_mints_count := 0, bh_pending_mints_initialized := 0 \<rparr> \<and>
    drop 72 (ai_data st') = drop 72 (ai_data st)"
proof -
  let ?d = "ai_data st"
  let ?h = "(buffer_hdr ?d) \<lparr> bh_is_locked := 0, bh_pending_mint_groups_count := 0,
      bh_pending_mints_count := 0, bh_pending_mints_initialized := 0 \<rparr>"
  have wf: "wf_buffer_header ?h" using wf_buffer_hdr [OF assms(3)] by (simp add: wf_buffer_header_def)
  have "drop 72 (put_header ?d ?h) = drop 72 ?d"
    using buffer_header.enc_length [OF wf] by (simp add: put_header_def write_at_def)
  moreover have "ai_data st' = put_header ?d ?h" "\<exists>p \<in> set accs. ai_is_signer p \<and> ai_key p = buffer_locker ?d"
    using process_instruction_step [OF assms(1,6)] step_locked [OF assms(2) _ assms(3,4,5)] by auto
  ultimately show ?thesis using put_header_simps(1) [OF assms(3) wf] by simp
qed

lemma example_unlock:
  "pmb_process_instruction sample_runtime ones_digest example_program
     (example_storage 172 example_locked_buffer # [example_signer example_locker]) [5]
     = Inr (example_storage 172 (put_header example_locked_buffer (fresh_header example_locker (replicate 32 5)))
       # [example_signer example_locker])"
proof -
  have "buffer_hdr example_locked_buffer = example_header1 1 1" "length example_locked_buffer = 144"
    by (simp_all add: put_header_simps wf_example_header1)
  then show ?thesis
    by (simp add: pmb_process_instruction_def pmb_unlock_def example_storage_def example_signer_def require_signer_def
      get_header_def header_unlock_def example_header1_def fresh_header_def)
qed

theorem locked_buffer_frozen_witness:
  "drop 72 (put_header example_locked_buffer (fresh_header example_locker (replicate 32 5))) = drop 72 example_locked_buffer"
proof -
  have h: "buffer_hdr example_locked_buffer = example_header1 1 1" "length example_locked_buffer = 144"
    by (simp_all add: put_header_simps wf_example_header1)
  have d: "ai_data (example_storage 172 d) = d" for d by (simp add: example_storage_def)
  show ?thesis
    using locked_buffer_frozen [OF sample_runtime_ok ones_digest_ok(1) _ _ _ example_unlock] h
    unfolding d by (simp add: example_header1_def fresh_header_def)
qed

text \<open>The group count of a buffer is computed in sixteen bits: a re-initialisation for 65513 or
  more mints leaves a buffer without groups, in which every insert is refused and which can
  not be locked until it is re-initialised.\<close>

theorem reinit_group_count_wraps:
  assumes "72 \<le> length d" and "header_reinit (buffer_hdr d) n = Inr h" and "65513 \<le> unat n"
  shows "insert_pending_mints sha (put_header d h) g mint_data = Inl (Err InvalidArgument) \<and>
    header_lock (buffer_hdr (put_header d h)) k = Inl (Err InvalidAccountData)"
proof -
  have h: "bh_is_locked h = 0" "bh_pending_mint_groups_count h = (n + 24 - 1) div 24"
      "bh_pending_mints_initialized h = 0" "bh_pending_mints_count h = n"
    using assms(2) by (simp_all add: header_reinit_ok_iff)
  have "unat (bh_pending_mint_groups_count h) = 0" unfolding h(2) reinit_groups using assms(3) by simp
  then have "bh_pending_mint_groups_count h = 0" by (simp add: unat_eq_zero)
  moreover have "n \<noteq> 0" using assms(3) by auto
  moreover note put_header_simps(1,2) [OF assms(1) wf_header_reinit [OF assms(2) wf_buffer_hdr [OF assms(1)]]]
  ultimately show ?thesis
    using h assms(1) by (simp add: insert_pending_mints_def header_lock_def get_header_def)
qed

theorem reinit_group_count_wraps_witness:
  "\<exists>h. header_reinit (buffer_hdr example_buffer0) 65513 = Inr h \<and>
     insert_pending_mints ones_digest (put_header example_buffer0 h) 0 [] = Inl (Err InvalidArgument)"
proof -
  have "\<exists>h. header_reinit (buffer_hdr example_buffer0) 65513 = Inr h"
    by (simp add: header_reinit_def fresh_header_def)
  then obtain h where h: "header_reinit (buffer_hdr example_buffer0) 65513 = Inr h" ..
  have "72 \<le> length example_buffer0" "65513 \<le> unat (65513 :: u16)" by simp_all
  from reinit_group_count_wraps [OF this(1) h this(2)] h show ?thesis by blast
qed

end
