(* ===== verification/TxoBuffer.thy ===== *)
theory TxoBuffer
  imports ChunkUpload PendingMintBuffer
begin

text \<open>
  The txo-buffer program (\<open>programs/txo-buffer/src/lib.rs\<close>). The writer of a buffer uploads the
  indices of the spent deposit outputs of a block; a batch can be finalised, after which only
  the next batch can be opened. The header has the layout of \<open>PendingMintsTxoBufferHeader\<close> in
  \<open>data_accounts/pending_mint.rs\<close>. \<open>batch_id + 1\<close> wraps in 32 bits.
\<close>

section \<open>The instructions\<close>

definition txo_realloc_account ::
  "runtime \<Rightarrow> AccountInfo \<Rightarrow> AccountInfo \<Rightarrow> nat \<Rightarrow> (AccountInfo \<times> AccountInfo) ProgramResult" where
  "txo_realloc_account rt account payer new_size =
     (let old_rent = rt_minimum_balance rt (length (ai_data account));
          new_rent = rt_minimum_balance rt new_size
      in rbind
           (if new_rent > old_rent
            then rbind (rt_transfer rt payer account (new_rent - old_rent)) (\<lambda>(p, a). Inr (a, p))
            else if old_rent > new_rent
            then let diff = old_rent - new_rent
                 in Inr (account \<lparr> ai_lamports := ai_lamports account - diff \<rparr>,
                         payer \<lparr> ai_lamports := ai_lamports payer + diff \<rparr>)
            else Inr (account, payer)) (\<lambda>(a, p).
         rbind (rt_realloc rt a new_size) (\<lambda>a'. Inr (a', p))))"

definition handle_batch_transition :: "PendingMintsTxoBufferHeader \<Rightarrow> u32 \<Rightarrow> PendingMintsTxoBufferHeader ProgramResult" where
  "handle_batch_transition header input_batch_id =
     (if input_batch_id = th_batch_id header
      then if th_finalized_status header = 1 then Inl (Err AccountAlreadyInitialized) else Inr header
      else if input_batch_id = th_batch_id header + 1
      then Inr (header \<lparr> th_batch_id := input_batch_id, th_finalized_status := 0 \<rparr>)
      else Inl (Err InvalidArgument))"

text \<open>The literal \<open>b"txo_buffer"\<close>.\<close>

definition txo_buffer_seed :: bytes where
  "txo_buffer_seed = [116, 120, 111, 95, 98, 117, 102, 102, 101, 114]"

definition get_txo_header :: "bytes \<Rightarrow> PendingMintsTxoBufferHeader ProgramResult" where
  "get_txo_header d = (if length d < 48 then Inl Panic else Inr (dec_txo_header (bslice d 0 48)))"

definition put_txo_header :: "bytes \<Rightarrow> PendingMintsTxoBufferHeader \<Rightarrow> bytes" where
  "put_txo_header d h = write_at d 0 (enc_txo_header h)"

definition txo_initialize :: "runtime \<Rightarrow> pubkey \<Rightarrow> AccountInfo \<Rightarrow> bytes \<Rightarrow> AccountInfo ProgramResult" where
  "txo_initialize rt program_id contract_account rest =
     (if length rest \<noteq> 32 then Inl (Err InvalidInstructionData)
      else let auth_key = rest;
               (expected_pda, bump) = rt_find_program_address rt [txo_buffer_seed, auth_key] program_id
      in if ai_key contract_account \<noteq> expected_pda then Inl (Err InvalidSeeds)
      else rbind
        (if length (ai_data contract_account) = 0
         then let seeds = [txo_buffer_seed, auth_key, [bump]];
                  required_lamports = rt_minimum_balance rt 48
              in if ai_lamports contract_account < required_lamports then Inl (Err InsufficientFunds)
              else rbind (rt_allocate rt seeds contract_account 48) (\<lambda>a. rt_assign rt seeds a program_id)
         else Inr contract_account) (\<lambda>contract_account.
      if ai_owner contract_account \<noteq> program_id then Inl (Err IncorrectProgramId)
      else if length (ai_data contract_account) < 48 then Inl (Err AccountDataTooSmall)
      else rbind (get_txo_header (ai_data contract_account)) (\<lambda>header.
        Inr (contract_account \<lparr> ai_data := put_txo_header (ai_data contract_account)
          (header \<lparr> th_authorized_writer := auth_key, th_init_status := 1 \<rparr>) \<rparr>))))"

definition txo_set_data_length ::
  "runtime \<Rightarrow> pubkey \<Rightarrow> AccountInfo \<Rightarrow> AccountInfo list \<Rightarrow> bytes \<Rightarrow> (AccountInfo \<times> AccountInfo list) ProgramResult" where
  "txo_set_data_length rt program_id contract_account accounts rest =
     (if ai_owner contract_account \<noteq> program_id then Inl (Err IncorrectProgramId)
      else if length rest \<noteq> 14 then Inl (Err InvalidInstructionData)
      else let new_length = (from_le_bytes (bslice rest 0 4) :: u32);
               resize = rest ! 4 \<noteq> 0;
               input_batch_id = (from_le_bytes (bslice rest 5 9) :: u32);
               input_doge_height = (from_le_bytes (bslice rest 9 13) :: u32);
               finalize = rest ! 13 \<noteq> 0
      in case accounts of signer # system_program # others \<Rightarrow>
        if \<not> ai_is_signer signer then Inl (Err MissingRequiredSignature)
        else rbind (get_txo_header (ai_data contract_account)) (\<lambda>header.
        if th_authorized_writer header \<noteq> ai_key signer then Inl (Err IllegalOwner)
        else let is_new_batch = (input_batch_id = th_batch_id header + 1)
        in rbind (handle_batch_transition header input_batch_id) (\<lambda>header.
        if \<not> is_new_batch \<and> th_doge_block_height header \<noteq> 0 \<and> th_doge_block_height header \<noteq> input_doge_height
        then Inl (Err InvalidInstructionData)
        else let header1 = header \<lparr> th_doge_block_height := input_doge_height \<rparr>;
                 header2 = (if finalize then header1 \<lparr> th_finalized_status := 1 \<rparr> else header1);
                 contract_account = contract_account \<lparr> ai_data := put_txo_header (ai_data contract_account) header2 \<rparr>
        in rbind
          (if resize then txo_realloc_account rt contract_account signer (48 + unat new_length)
           else if length (ai_data contract_account) < 48 + unat new_length then Inl (Err AccountDataTooSmall)
           else Inr (contract_account, signer)) (\<lambda>(contract_account, signer).
        rbind (get_txo_header (ai_data contract_account)) (\<lambda>header.
        Inr (contract_account \<lparr> ai_data := put_txo_header (ai_data contract_account)
              (header \<lparr> th_data_size := new_length \<rparr>) \<rparr>, signer # system_program # others)))))
      | _ \<Rightarrow> Inl (Err NotEnoughAccountKeys))"

definition txo_write_data ::
  "pubkey \<Rightarrow> AccountInfo \<Rightarrow> AccountInfo list \<Rightarrow> bytes \<Rightarrow> AccountInfo ProgramResult" where
  "txo_write_data program_id contract_account accounts rest =
     (if ai_owner contract_account \<noteq> program_id then Inl (Err IncorrectProgramId)
      else if length rest < 8 then Inl (Err InvalidInstructionData)
      else let input_batch_id = (from_le_bytes (bslice rest 0 4) :: u32);
               offset = (from_le_bytes (bslice rest 4 8) :: u32);
               raw_data = drop 8 rest
      in case accounts of [] \<Rightarrow> Inl (Err NotEnoughAccountKeys) | signer # _ \<Rightarrow>
        if \<not> ai_is_signer signer then Inl (Err MissingRequiredSignature)
        else rbind (get_txo_header (ai_data contract_account)) (\<lambda>header.
        let body_bytes = drop 48 (ai_data contract_account)
        in if th_authorized_writer header \<noteq> ai_key signer then Inl (Err IllegalOwner)
        else rbind (handle_batch_transition header input_batch_id) (\<lambda>header.
        let write_end = unat offset + length raw_data
        in if write_end > length body_bytes then Inl (Err AccountDataTooSmall)
        else let body_bytes = write_at body_bytes (unat offset) raw_data;
                 header = (if write_end > unat (th_data_size header)
                           then header \<lparr> th_data_size := of_nat write_end \<rparr> else header)
        in Inr (contract_account \<lparr> ai_data := enc_txo_header header @ body_bytes \<rparr>))))"

definition txo_process_instruction ::
  "runtime \<Rightarrow> pubkey \<Rightarrow> AccountInfo list \<Rightarrow> bytes \<Rightarrow> AccountInfo list ProgramResult" where
  "txo_process_instruction rt program_id accounts instruction_data =
     (case instruction_data of [] \<Rightarrow> Inl (Err InvalidInstructionData)
      | tag # rest \<Rightarrow>
     (case accounts of [] \<Rightarrow> Inl (Err NotEnoughAccountKeys)
      | contract_account # others \<Rightarrow>
        if tag = 0 then rbind (txo_initialize rt program_id contract_account rest) (\<lambda>a. Inr (a # others))
        else if tag = 1 then rbind (txo_set_data_length rt program_id contract_account others rest) (\<lambda>(a, os). Inr (a # os))
        else if tag = 2 then rbind (txo_write_data program_id contract_account others rest) (\<lambda>a. Inr (a # others))
        else Inl (Err InvalidInstructionData)))"

section \<open>The state machine of the data\<close>

abbreviation txo_hdr :: "bytes \<Rightarrow> PendingMintsTxoBufferHeader" where
  "txo_hdr d \<equiv> dec_txo_header (bslice d 0 48)"

text \<open>
  What an accepted instruction does: it writes the header and the body after it. The option is
  the key that has to sign.
\<close>

inductive txo_step :: "pubkey option \<Rightarrow> bytes \<Rightarrow> bytes \<Rightarrow> bool" where
  txo_init: "txo_step None d (enc_txo_header ((txo_hdr e) \<lparr> th_authorized_writer := w, th_init_status := 1 \<rparr>) @ drop 48 e)"
    if "e = (if d = [] then replicate 48 0 else d)" and "48 \<le> length e" and "length w = 32"
| txo_set_length: "txo_step (Some (th_authorized_writer (txo_hdr d))) d
      (enc_txo_header (h \<lparr> th_doge_block_height := height, th_finalized_status := status, th_data_size := n \<rparr>) @ body)"
    if "48 \<le> length d" and "handle_batch_transition (txo_hdr d) b = Inr h" and "status \<in> {1, th_finalized_status h}"
    and "body \<in> {drop 48 d, realloc (drop 48 d) (unat n)}" and "unat n \<le> length body"
| txo_write: "txo_step (Some (th_authorized_writer (txo_hdr d))) d
      (enc_txo_header (h \<lparr> th_data_size := n \<rparr>) @ write_at (drop 48 d) off xs)"
    if "48 \<le> length d" and "handle_batch_transition (txo_hdr d) b = Inr h" and "off + length xs \<le> length d - 48"

inductive_cases txo_stepE: "txo_step a d d'"

lemma get_txo_header_ok_iff: "get_txo_header d = Inr h \<longleftrightarrow> 48 \<le> length d \<and> h = txo_hdr d"
  by (auto simp: get_txo_header_def)

lemma wf_txo_hdr: "48 \<le> length d \<Longrightarrow> wf_txo_header (txo_hdr d)"
  by (rule txo_header.wf_dec) simp

lemma wf_txo_update [simp]:
  "wf_txo_header (h \<lparr> th_doge_block_height := x \<rparr>) = wf_txo_header h"
  "wf_txo_header (h \<lparr> th_finalized_status := y \<rparr>) = wf_txo_header h"
  "wf_txo_header (h \<lparr> th_data_size := z \<rparr>) = wf_txo_header h"
  "wf_txo_header (h \<lparr> th_batch_id := z \<rparr>) = wf_txo_header h"
  "wf_txo_header (h \<lparr> th_init_status := y \<rparr>) = wf_txo_header h"
  by (simp_all add: wf_txo_header_def)

lemma handle_batch_ok_iff:
  "handle_batch_transition h b = Inr h' \<longleftrightarrow>
     b = th_batch_id h \<and> th_finalized_status h \<noteq> 1 \<and> h' = h \<or>
     b = th_batch_id h + 1 \<and> h' = h \<lparr> th_batch_id := b, th_finalized_status := 0 \<rparr>"
  by (auto simp: handle_batch_transition_def)

lemma wf_handle_batch: "handle_batch_transition h b = Inr h' \<Longrightarrow> wf_txo_header h' \<longleftrightarrow> wf_txo_header h"
  by (auto simp: handle_batch_ok_iff)

lemma txo_initialize_step:
  assumes rt: "runtime_ok rt" and run: "txo_initialize rt pid c rest = Inr c'"
  shows "txo_step None (ai_data c) (ai_data c')"
proof -
  let ?e = "if ai_data c = [] then replicate 48 0 else ai_data c"
  have len: "length rest = 32" using run by (simp add: txo_initialize_def result_simps)
  obtain a where a: "ai_data a = ?e" "48 \<le> length (ai_data a)"
    "c' = a \<lparr> ai_data := put_txo_header (ai_data a) ((txo_hdr (ai_data a)) \<lparr> th_authorized_writer := rest, th_init_status := 1 \<rparr>) \<rparr>"
    using run allocate_assign_data [OF rt] unfolding txo_initialize_def Let_def
    by (fastforce simp: result_simps get_txo_header_ok_iff case_prod_unfold split: if_splits)
  have wf: "wf_txo_header ((txo_hdr (ai_data a)) \<lparr> th_authorized_writer := rest, th_init_status := 1 \<rparr>)"
    using len by (simp add: wf_txo_header_def)
  show ?thesis
    using txo_step.txo_init [OF refl, of "ai_data c" rest] a len txo_header.write_prefix(1) [OF wf a(2)]
    by (simp add: put_txo_header_def)
qed

lemma txo_realloc_account_data:
  assumes rt: "runtime_ok rt" and run: "txo_realloc_account rt t f n = Inr (t', f')"
  shows "ai_data t' = realloc (ai_data t) n" and "ai_key t' = ai_key t" and "ai_owner t' = ai_owner t"
proof -
  let ?old = "rt_minimum_balance rt (length (ai_data t))" and ?new = "rt_minimum_balance rt n"
  obtain u v where uv: "(if ?old < ?new then rbind (rt_transfer rt f t (?new - ?old)) (\<lambda>(p, a). Inr (a, p))
      else if ?new < ?old then Inr (t \<lparr> ai_lamports := ai_lamports t - (?old - ?new) \<rparr>,
        f \<lparr> ai_lamports := ai_lamports f + (?old - ?new) \<rparr>) else Inr (t, f)) = Inr (u, v)"
      and u: "rt_realloc rt u n = Inr t'"
    using run unfolding txo_realloc_account_def Let_def by (auto simp: result_simps split del: if_split)
  have "ai_data u = ai_data t \<and> ai_key u = ai_key t \<and> ai_owner u = ai_owner t"
    using uv by (auto simp: result_simps dest: transfer_data [OF rt] split: if_splits)
  then show "ai_data t' = realloc (ai_data t) n" "ai_key t' = ai_key t" "ai_owner t' = ai_owner t"
    using realloc_data [OF rt u] by simp_all
qed

lemma txo_set_data_length_step:
  assumes rt: "runtime_ok rt" and run: "txo_set_data_length rt pid c accs rest = Inr (c', accs')"
  shows "\<exists>p \<in> set accs. ai_is_signer p \<and> txo_step (Some (ai_key p)) (ai_data c) (ai_data c')"
proof -
  let ?d = "ai_data c" and ?n = "from_le_bytes (bslice rest 0 4) :: u32" and ?b = "from_le_bytes (bslice rest 5 9) :: u32"
  let ?ht = "from_le_bytes (bslice rest 9 13) :: u32"
  obtain p sys os where accs: "accs = p # sys # os"
    using run by (auto simp: txo_set_data_length_def Let_def result_simps split: list.splits)
  define H where "H h = (if rest ! 13 \<noteq> 0 then h \<lparr> th_doge_block_height := ?ht, th_finalized_status := 1 \<rparr>
      else h \<lparr> th_doge_block_height := ?ht \<rparr>)" for h :: PendingMintsTxoBufferHeader
  obtain h a q where sig: "ai_is_signer p" "48 \<le> length ?d" "th_authorized_writer (txo_hdr ?d) = ai_key p"
      and h: "handle_batch_transition (txo_hdr ?d) ?b = Inr h"
      and a: "(if rest ! 4 \<noteq> 0 then txo_realloc_account rt (c \<lparr> ai_data := put_txo_header ?d (H h) \<rparr>) p (48 + unat ?n)
           else if length (ai_data (c \<lparr> ai_data := put_txo_header ?d (H h) \<rparr>)) < 48 + unat ?n then Inl (Err AccountDataTooSmall)
           else Inr (c \<lparr> ai_data := put_txo_header ?d (H h) \<rparr>, p)) = Inr (a, q)"
      and c': "48 \<le> length (ai_data a)"
        "ai_data c' = put_txo_header (ai_data a) ((txo_hdr (ai_data a)) \<lparr> th_data_size := ?n \<rparr>)"
    using run unfolding txo_set_data_length_def accs Let_def H_def [symmetric]
    by (clarsimp simp: result_simps get_txo_header_ok_iff case_prod_unfold split del: if_split)
  define h2 where "h2 = H h"
  note h2 = h2_def [unfolded H_def] and a = a [folded h2_def]
  have wf: "wf_txo_header h2" using wf_handle_batch [OF h] wf_txo_hdr [OF sig(2)] by (simp add: h2)
  note put = txo_header.write_prefix [OF wf sig(2), folded put_txo_header_def]
  have e: "ai_data a = (if rest ! 4 \<noteq> 0 then realloc (put_txo_header ?d h2) (48 + unat ?n) else put_txo_header ?d h2)"
    using a txo_realloc_account_data(1) [OF rt] by (auto split: if_splits)
  have hdr: "txo_hdr (ai_data a) = h2" using put(2,3) sig(2) by (simp add: e slice_realloc)
  have body: "drop 48 (ai_data a) \<in> {drop 48 ?d, realloc (drop 48 ?d) (unat ?n)}"
    using put(2,4) sig(2) by (auto simp: e realloc_def drop_take)
  have n: "unat ?n \<le> length (drop 48 (ai_data a))"
    using a put(2) by (auto simp: e split: if_splits)
  have "ai_data c' = enc_txo_header (h2 \<lparr> th_data_size := ?n \<rparr>) @ drop 48 (ai_data a)"
    using txo_header.write_prefix(1) [of "h2 \<lparr> th_data_size := ?n \<rparr>" "ai_data a"] wf c' by (simp add: hdr put_txo_header_def)
  also have "h2 \<lparr> th_data_size := ?n \<rparr> = h \<lparr> th_doge_block_height := ?ht,
      th_finalized_status := (if rest ! 13 \<noteq> 0 then 1 else th_finalized_status h), th_data_size := ?n \<rparr>"
    by (simp add: h2)
  finally show ?thesis
    using txo_step.txo_set_length [OF sig(2) h _ body n] sig(1,3) accs by (auto split: if_splits)
qed

lemma txo_write_data_step:
  assumes run: "txo_write_data pid c accs rest = Inr c'"
  shows "\<exists>p \<in> set accs. ai_is_signer p \<and> txo_step (Some (ai_key p)) (ai_data c) (ai_data c')"
proof -
  let ?d = "ai_data c" and ?off = "unat (from_le_bytes (bslice rest 4 8) :: u32)"
  obtain p os h where accs: "accs = p # os" and sig: "ai_is_signer p" "48 \<le> length ?d"
      "th_authorized_writer (txo_hdr ?d) = ai_key p"
      and h: "handle_batch_transition (txo_hdr ?d) (from_le_bytes (bslice rest 0 4)) = Inr h"
      and fits: "?off + length (drop 8 rest) \<le> length ?d - 48"
      and c': "ai_data c' = enc_txo_header (if unat (th_data_size h) < ?off + length (drop 8 rest)
          then h \<lparr> th_data_size := of_nat (?off + length (drop 8 rest)) \<rparr> else h) @ write_at (drop 48 ?d) ?off (drop 8 rest)"
    using run unfolding txo_write_data_def Let_def
    by (cases accs) (auto simp: result_simps get_txo_header_ok_iff split del: if_split)
  have upd: "(if P then h \<lparr> th_data_size := x \<rparr> else h) = h \<lparr> th_data_size := if P then x else th_data_size h \<rparr>" for P x
    by simp
  have "txo_step (Some (ai_key p)) ?d (ai_data c')"
    unfolding c' upd sig(3) [symmetric] by (rule txo_step.txo_write [OF sig(2) h fits])
  then show ?thesis using sig(1) accs by auto
qed

lemma txo_process_instruction_step:
  assumes "runtime_ok rt" and "txo_process_instruction rt pid (c # accs) ix = Inr (c' # accs')"
  shows "txo_step None (ai_data c) (ai_data c') \<or>
    (\<exists>p \<in> set accs. ai_is_signer p \<and> txo_step (Some (ai_key p)) (ai_data c) (ai_data c'))"
  using assms(2) txo_initialize_step [OF assms(1)] txo_set_data_length_step [OF assms(1)] txo_write_data_step
  unfolding txo_process_instruction_def
  by (auto simp: result_simps split: list.splits if_splits)

lemma txo_step_finalized:
  assumes "txo_step a d d'" and "48 \<le> length d" and "th_finalized_status (txo_hdr d) = 1"
  shows "a = None \<and> drop 48 d' = drop 48 d \<and>
      txo_hdr d' = (txo_hdr d) \<lparr> th_authorized_writer := th_authorized_writer (txo_hdr d'), th_init_status := 1 \<rparr> \<or>
    a = Some (th_authorized_writer (txo_hdr d)) \<and> th_batch_id (txo_hdr d') = th_batch_id (txo_hdr d) + 1"
  using assms(1)
proof cases
  case (txo_init e w)
  then have e: "e = d" using assms(2) by (auto split: if_splits)
  have "wf_txo_header ((txo_hdr d) \<lparr> th_authorized_writer := w, th_init_status := 1 \<rparr>)"
    using txo_init by (simp add: wf_txo_header_def)
  then show ?thesis using txo_init(1,2) by (simp add: e txo_header.read_prefix txo_header.enc_length)
next
  case (txo_set_length b h status body n height)
  then have h: "h = (txo_hdr d) \<lparr> th_batch_id := th_batch_id (txo_hdr d) + 1, th_finalized_status := 0 \<rparr>"
    using assms(3) by (auto simp: handle_batch_ok_iff)
  then have "wf_txo_header h" using wf_txo_hdr [OF assms(2)] by simp
  then show ?thesis using txo_set_length(1,2) by (simp add: txo_header.read_prefix) (simp add: h)
next
  case (txo_write b h off xs n)
  then have h: "h = (txo_hdr d) \<lparr> th_batch_id := th_batch_id (txo_hdr d) + 1, th_finalized_status := 0 \<rparr>"
    using assms(3) by (auto simp: handle_batch_ok_iff)
  then have "wf_txo_header h" using wf_txo_hdr [OF assms(2)] by simp
  then show ?thesis using txo_write(1,2) by (simp add: txo_header.read_prefix) (simp add: h)
qed

text \<open>A finalised batch is frozen. An instruction that the program accepts on a buffer whose
  batch is finalised either is signed by the authorised writer and opens the next batch, or
  it is a repeated initialisation, which keeps the body and every header field but the
  writer and the initialisation mark.\<close>

theorem finalized_batch_frozen:
  assumes "runtime_ok rt" and "48 \<le> length (ai_data c)" and "th_finalized_status (txo_hdr (ai_data c)) = 1"
    and "txo_process_instruction rt pid (c # accs) ix = Inr (c' # accs')"
  shows "(\<exists>p \<in> set accs. ai_is_signer p \<and> ai_key p = th_authorized_writer (txo_hdr (ai_data c))) \<and>
      th_batch_id (txo_hdr (ai_data c')) = th_batch_id (txo_hdr (ai_data c)) + 1 \<or>
    drop 48 (ai_data c') = drop 48 (ai_data c) \<and>
      txo_hdr (ai_data c') = (txo_hdr (ai_data c)) \<lparr> th_authorized_writer := th_authorized_writer (txo_hdr (ai_data c')),
        th_init_status := 1 \<rparr>"
  using txo_process_instruction_step [OF assms(1,4)] txo_step_finalized [OF _ assms(2,3)] by blast

definition example_txo :: "u16 \<Rightarrow> u32 \<Rightarrow> bytes \<Rightarrow> AccountInfo" where
  "example_txo finalized batch body = \<lparr> ai_key = sample_address [txo_buffer_seed, replicate 32 5] example_program,
     ai_owner = example_program, ai_lamports = 100, ai_data = enc_txo_header \<lparr> th_authorized_writer = replicate 32 5,
       th_init_status = 1, th_finalized_status = finalized, th_doge_block_height = 7, th_batch_id = batch,
       th_data_size = of_nat (length body) \<rparr> @ body, ai_is_signer = False \<rparr>"

lemma example_txo_hdr [simp]:
  "txo_hdr (ai_data (example_txo f b xs)) = \<lparr> th_authorized_writer = replicate 32 5, th_init_status = 1,
     th_finalized_status = f, th_doge_block_height = 7, th_batch_id = b, th_data_size = of_nat (length xs) \<rparr>"
  "length (ai_data (example_txo f b xs)) = 48 + length xs" "drop 48 (ai_data (example_txo f b xs)) = xs"
  by (simp_all add: example_txo_def txo_header.read_prefix txo_header.enc_length wf_txo_header_def)

lemma example_txo_write:
  "txo_process_instruction sample_runtime example_program
     (example_txo 1 0 [0, 0, 0] # [example_signer (replicate 32 5)]) (2 # to_le_bytes (1 :: u32) @ to_le_bytes (1 :: u32) @ [7, 8])
   = Inr (example_txo 0 1 [0, 7, 8] # [example_signer (replicate 32 5)])"
proof -
  let ?rest = "to_le_bytes (1 :: u32) @ to_le_bytes (1 :: u32) @ [7, 8]"
  have rest: "from_le_bytes (bslice ?rest 0 4) = (1 :: u32)" "from_le_bytes (bslice ?rest 4 8) = (1 :: u32)" "drop 8 ?rest = [7, 8]"
    by (simp_all add: codec_simps)
  have "ai_owner (example_txo f b xs) = example_program" for f b xs by (simp add: example_txo_def)
  then have "txo_write_data example_program (example_txo 1 0 [0, 0, 0]) [example_signer (replicate 32 5)] ?rest =
      Inr (example_txo 0 1 [0, 7, 8])"
    unfolding txo_write_data_def Let_def rest
    by (simp add: get_txo_header_def handle_batch_transition_def example_signer_def) (simp add: example_txo_def write_at_def)
  then show ?thesis by (simp add: txo_process_instruction_def)
qed

theorem finalized_batch_frozen_witness:
  "th_batch_id (txo_hdr (ai_data (example_txo 0 1 [0, 7, 8]))) = th_batch_id (txo_hdr (ai_data (example_txo 1 0 [0, 0, 0]))) + 1"
  using finalized_batch_frozen [OF sample_runtime_ok _ _ example_txo_write] by simp

section \<open>Writing to an open batch\<close>

text \<open>
  A buffer is open for batch \<open>b\<close> of a writer if the program owns it, the writer signs, and the
  batch is not finalised. The body is what follows the header.
\<close>

definition txo_open :: "pubkey \<Rightarrow> u32 \<Rightarrow> u32 \<Rightarrow> AccountInfo \<Rightarrow> AccountInfo \<Rightarrow> bool" where
  "txo_open pid b height c p \<longleftrightarrow> ai_owner c = pid \<and> ai_is_signer p \<and> 48 \<le> length (ai_data c) \<and>
     th_authorized_writer (txo_hdr (ai_data c)) = ai_key p \<and> th_batch_id (txo_hdr (ai_data c)) = b \<and>
     th_doge_block_height (txo_hdr (ai_data c)) = height \<and> th_finalized_status (txo_hdr (ai_data c)) \<noteq> 1"

lemma txo_write_ok:
  fixes off :: u32
  assumes "txo_open pid b height c p" and "unat off + length xs \<le> length (drop 48 (ai_data c))"
  shows "\<exists>d'. txo_process_instruction rt pid (c # p # os) (2 # to_le_bytes b @ to_le_bytes off @ xs) =
      Inr (c \<lparr> ai_data := d' \<rparr> # p # os) \<and>
    txo_open pid b height (c \<lparr> ai_data := d' \<rparr>) p \<and> drop 48 d' = write_at (drop 48 (ai_data c)) (unat off) xs"
proof -
  have c: "ai_owner c = pid" "ai_is_signer p" "48 \<le> length (ai_data c)"
     "th_authorized_writer (txo_hdr (ai_data c)) = ai_key p" "th_batch_id (txo_hdr (ai_data c)) = b"
     "th_doge_block_height (txo_hdr (ai_data c)) = height" "th_finalized_status (txo_hdr (ai_data c)) \<noteq> 1"
    using assms(1) by (auto simp: txo_open_def)
  let ?h = "txo_hdr (ai_data c)" and ?rest = "to_le_bytes b @ to_le_bytes off @ xs"
  let ?h' = "if unat off + length xs > unat (th_data_size ?h) then ?h \<lparr> th_data_size := of_nat (unat off + length xs) \<rparr> else ?h"
  let ?d = "enc_txo_header ?h' @ write_at (drop 48 (ai_data c)) (unat off) xs"
  have fits: "unat off + length xs \<le> length (ai_data c) - 48" using assms(2) by simp
  have rest: "from_le_bytes (bslice ?rest 0 4) = b" "from_le_bytes (bslice ?rest 4 8) = off" "drop 8 ?rest = xs"
    "length ?rest \<ge> 8"
    by (simp_all add: codec_simps)
  have "handle_batch_transition ?h b = Inr ?h" using c(5,7) by (simp add: handle_batch_transition_def)
  then have "txo_write_data pid c (p # os) ?rest = Inr (c \<lparr> ai_data := ?d \<rparr>)"
    unfolding txo_write_data_def Let_def rest using c rest(4) fits by (simp add: get_txo_header_def)
  then have run: "txo_process_instruction rt pid (c # p # os) (2 # ?rest) = Inr (c \<lparr> ai_data := ?d \<rparr> # p # os)"
    by (simp add: txo_process_instruction_def)
  have wf: "wf_txo_header ?h'" using wf_txo_hdr [OF c(3)] by simp
  have "txo_open pid b height (c \<lparr> ai_data := ?d \<rparr>) p"
    unfolding txo_open_def using c txo_header.enc_length [OF wf] txo_header.read_prefix [OF wf] by simp
  moreover have "drop 48 ?d = write_at (drop 48 (ai_data c)) (unat off) xs"
    using txo_header.enc_length [OF wf] by simp
  ultimately show ?thesis using run by blast
qed

text \<open>The data of a set-length instruction, and the instruction on an open batch.\<close>

abbreviation txo_set_len_data :: "u32 \<Rightarrow> bool \<Rightarrow> u32 \<Rightarrow> u32 \<Rightarrow> bool \<Rightarrow> bytes" where
  "txo_set_len_data n resize b height finalize \<equiv> 1 # to_le_bytes n @ [if resize then 1 else 0] @ to_le_bytes b @
     to_le_bytes height @ [if finalize then 1 else 0]"

lemma txo_set_len_rest:
  fixes n b height :: u32 and r f :: u8
  defines "rest \<equiv> to_le_bytes n @ [r] @ to_le_bytes b @ to_le_bytes height @ [f]"
  shows "length rest = 14" "from_le_bytes (bslice rest 0 4) = n" "rest ! 4 = r" "from_le_bytes (bslice rest 5 9) = b"
    "from_le_bytes (bslice rest 9 13) = height" "rest ! 13 = f"
  by (simp_all add: rest_def codec_simps nth_append)

lemma txo_finalize_ok:
  assumes "txo_open pid b height c p" and "unat n \<le> length (drop 48 (ai_data c))"
  shows "\<exists>d'. txo_process_instruction rt pid (c # p # sys # os) (txo_set_len_data n False b height True) =
      Inr (c \<lparr> ai_data := d' \<rparr> # p # sys # os) \<and>
    txo_hdr d' = (txo_hdr (ai_data c)) \<lparr> th_finalized_status := 1, th_data_size := n \<rparr> \<and> 48 \<le> length d' \<and>
    drop 48 d' = drop 48 (ai_data c)"
proof -
  let ?h = "txo_hdr (ai_data c)" and ?d = "ai_data c"
  let ?rest = "to_le_bytes n @ [0 :: u8] @ to_le_bytes b @ to_le_bytes height @ [1]"
  have c: "ai_owner c = pid" "ai_is_signer p" "48 \<le> length ?d" "th_authorized_writer ?h = ai_key p"
    "th_batch_id ?h = b" "th_doge_block_height ?h = height" "th_finalized_status ?h \<noteq> 1"
    using assms(1) by (auto simp: txo_open_def)
  let ?h2 = "?h \<lparr> th_doge_block_height := height, th_finalized_status := 1 \<rparr>"
  have same: "?h2 \<lparr> th_data_size := n \<rparr> = ?h \<lparr> th_finalized_status := 1, th_data_size := n \<rparr>" using c(6) by simp
  have batch: "handle_batch_transition ?h b = Inr ?h" using c(5,7) by (simp add: handle_batch_transition_def)
  have wf: "wf_txo_header ?h2" "wf_txo_header (?h2 \<lparr> th_data_size := n \<rparr>)" using wf_txo_hdr [OF c(3)] by simp_all
  note put = txo_header.write_prefix [OF wf(1) c(3), folded put_txo_header_def]
  have len: "48 \<le> length (put_txo_header ?d ?h2)" using put(2) c(3) by simp
  note put' = txo_header.write_prefix [OF wf(2) len, folded put_txo_header_def]
  let ?d' = "put_txo_header (put_txo_header ?d ?h2) (?h2 \<lparr> th_data_size := n \<rparr>)"
  have "txo_set_data_length rt pid c (p # sys # os) ?rest = Inr (c \<lparr> ai_data := ?d' \<rparr>, p # sys # os)"
    unfolding txo_set_data_length_def Let_def txo_set_len_rest
    using c batch len put(2,3) assms(2) by (simp add: get_txo_header_def)
  then show ?thesis
    using put put' len same by (intro exI [of _ ?d']) (simp add: txo_process_instruction_def)
qed

end
