(* ===== verification/GenericBuffer.thy ===== *)
theory GenericBuffer
  imports ChunkUpload PendingMintBuffer
begin

text \<open>
  The generic-buffer program (\<open>programs/generic-buffer/src/lib.rs\<close>): a byte buffer with one
  writer, in which call data and Dogecoin transactions are assembled before the bridge reads
  them. The header is the key of the writer; all zeros means that nobody has claimed it.
\<close>

section \<open>The instructions\<close>

record BufferBuilderHeader =
  gb_authorized_writer :: pubkey

definition dec_generic_header :: "bytes \<Rightarrow> BufferBuilderHeader" where
  "dec_generic_header bs = \<lparr> gb_authorized_writer = bs \<rparr>"

definition enc_generic_header :: "BufferBuilderHeader \<Rightarrow> bytes" where
  "enc_generic_header h = gb_authorized_writer h"

definition wf_generic_header :: "BufferBuilderHeader \<Rightarrow> bool" where
  "wf_generic_header h \<longleftrightarrow> length (gb_authorized_writer h) = 32"

interpretation generic_header: fixed_codec enc_generic_header dec_generic_header wf_generic_header "32 :: nat"
  by unfold_locales (simp_all add: enc_generic_header_def dec_generic_header_def wf_generic_header_def)

definition gb_realloc_account ::
  "runtime \<Rightarrow> AccountInfo \<Rightarrow> AccountInfo \<Rightarrow> nat \<Rightarrow> (AccountInfo \<times> AccountInfo) ProgramResult" where
  "gb_realloc_account rt account payer target_len =
     (let current_size = length (ai_data account);
          current_minimum_balance = rt_minimum_balance rt current_size;
          target_minimum_balance = rt_minimum_balance rt target_len;
          lamports_diff = (if target_len > current_size then target_minimum_balance - current_minimum_balance
                           else current_minimum_balance - target_minimum_balance)
      in rbind
           (if target_len > current_size
            then rbind (rt_transfer rt payer account lamports_diff) (\<lambda>(p, a). Inr (a, p))
            else if target_len < current_size
            then Inr (account \<lparr> ai_lamports := ai_lamports account - lamports_diff \<rparr>,
                      payer \<lparr> ai_lamports := ai_lamports payer + lamports_diff \<rparr>)
            else Inr (account, payer)) (\<lambda>(a, p).
         rbind (rt_realloc rt a target_len) (\<lambda>a'. Inr (a', p))))"

definition gb_init :: "runtime \<Rightarrow> AccountInfo \<Rightarrow> AccountInfo \<Rightarrow> bytes \<Rightarrow> (AccountInfo \<times> AccountInfo) ProgramResult" where
  "gb_init rt storage_account payer rest =
     (if length rest \<noteq> 4 then Inl (Err InvalidInstructionData)
      else let target_data_size = unat (from_le_bytes rest :: u32);
               target_total_size = 32 + target_data_size;
               d = ai_data storage_account
      in if length d < 32 then Inl (Err AccountDataTooSmall)
      else let header = dec_generic_header (bslice d 0 32)
      in if gb_authorized_writer header \<noteq> zero32 then Inl (Err AccountAlreadyInitialized)
      else let storage_account = storage_account \<lparr> ai_data := write_at d 0
                 (enc_generic_header (header \<lparr> gb_authorized_writer := ai_key payer \<rparr>)) \<rparr>;
               current_size = length (ai_data storage_account);
               achievable_size = (if target_total_size > current_size
                 then let increase = target_total_size - current_size
                      in current_size + min increase MAX_PERMITTED_DATA_INCREASE
                 else target_total_size)
      in gb_realloc_account rt storage_account payer achievable_size)"

definition gb_resize :: "runtime \<Rightarrow> AccountInfo \<Rightarrow> AccountInfo \<Rightarrow> bytes \<Rightarrow> (AccountInfo \<times> AccountInfo) ProgramResult" where
  "gb_resize rt storage_account payer rest =
     (if length rest \<noteq> 4 then Inl (Err InvalidInstructionData)
      else let target_data_size = unat (from_le_bytes rest :: u32);
               target_total_size = 32 + target_data_size;
               d = ai_data storage_account
      in if length d < 32 then Inl (Err AccountDataTooSmall)
      else if gb_authorized_writer (dec_generic_header (bslice d 0 32)) \<noteq> ai_key payer then Inl (Err IllegalOwner)
      else let current_size = length d;
               achievable_size = (if target_total_size > current_size
                 then let increase = target_total_size - current_size
                      in current_size + min increase MAX_PERMITTED_DATA_INCREASE
                 else target_total_size)
      in gb_realloc_account rt storage_account payer achievable_size)"

definition gb_write_data :: "runtime \<Rightarrow> AccountInfo \<Rightarrow> AccountInfo \<Rightarrow> bytes \<Rightarrow> (AccountInfo \<times> AccountInfo) ProgramResult" where
  "gb_write_data rt storage_account payer rest =
     (if length rest < 4 then Inl (Err InvalidInstructionData)
      else let offset = unat (from_le_bytes (bslice rest 0 4) :: u32);
               write_data = drop 4 rest;
               d = ai_data storage_account
      in if length d < 32 then Inl (Err AccountDataTooSmall)
      else if gb_authorized_writer (dec_generic_header (bslice d 0 32)) \<noteq> ai_key payer then Inl (Err IllegalOwner)
      else let current_total_size = length d;
               required_total_size = 32 + offset + length write_data
      in rbind
        (if required_total_size > current_total_size
         then let increase = required_total_size - current_total_size;
                  achievable_total_size = current_total_size + min increase MAX_PERMITTED_DATA_INCREASE
              in gb_realloc_account rt storage_account payer achievable_total_size
         else Inr (storage_account, payer)) (\<lambda>(storage_account, payer).
      if 32 + offset + length write_data > length (ai_data storage_account) then Inl (Err AccountDataTooSmall)
      else Inr (storage_account \<lparr> ai_data := write_at (ai_data storage_account) (32 + offset) write_data \<rparr>, payer)))"

definition gb_process_instruction ::
  "runtime \<Rightarrow> pubkey \<Rightarrow> AccountInfo list \<Rightarrow> bytes \<Rightarrow> AccountInfo list ProgramResult" where
  "gb_process_instruction rt program_id accounts instruction_data =
     (case instruction_data of [] \<Rightarrow> Inl (Err InvalidInstructionData)
      | tag # rest \<Rightarrow>
     (case accounts of [] \<Rightarrow> Inl (Err NotEnoughAccountKeys)
      | storage_account # remaining \<Rightarrow>
        if ai_owner storage_account \<noteq> program_id then Inl (Err IncorrectProgramId)
        else case remaining of payer # system_program # others \<Rightarrow>
          if \<not> ai_is_signer payer then Inl (Err MissingRequiredSignature)
          else rbind
            (if tag = 0 then gb_init rt storage_account payer rest
             else if tag = 1 then gb_resize rt storage_account payer rest
             else if tag = 2 then gb_write_data rt storage_account payer rest
             else Inl (Err InvalidInstructionData))
            (\<lambda>(s, p). Inr (s # p # system_program # others))
        | _ \<Rightarrow> Inl (Err NotEnoughAccountKeys)))"

section \<open>What each instruction does\<close>

abbreviation generic_writer :: "bytes \<Rightarrow> pubkey" where
  "generic_writer d \<equiv> gb_authorized_writer (dec_generic_header (bslice d 0 32))"

lemma gb_realloc_account_data:
  assumes rt: "runtime_ok rt" and run: "gb_realloc_account rt t f n = Inr (t', f')"
  shows "ai_data t' = realloc (ai_data t) n" and "ai_key t' = ai_key t" and "ai_owner t' = ai_owner t"
proof -
  let ?old = "rt_minimum_balance rt (length (ai_data t))" and ?new = "rt_minimum_balance rt n"
  let ?diff = "if n > length (ai_data t) then ?new - ?old else ?old - ?new"
  obtain u v where uv: "(if n > length (ai_data t) then rbind (rt_transfer rt f t ?diff) (\<lambda>(p, a). Inr (a, p))
      else if n < length (ai_data t) then Inr (t \<lparr> ai_lamports := ai_lamports t - ?diff \<rparr>,
        f \<lparr> ai_lamports := ai_lamports f + ?diff \<rparr>) else Inr (t, f)) = Inr (u, v)"
      and u: "rt_realloc rt u n = Inr t'"
    using run unfolding gb_realloc_account_def Let_def by (auto simp: result_simps split del: if_split)
  have "ai_data u = ai_data t \<and> ai_key u = ai_key t \<and> ai_owner u = ai_owner t"
    using uv by (auto simp: result_simps dest: transfer_data [OF rt] split: if_splits)
  then show "ai_data t' = realloc (ai_data t) n" "ai_key t' = ai_key t" "ai_owner t' = ai_owner t"
    using realloc_data [OF rt u] by simp_all
qed

text \<open>The size that a resize reaches: at most 10240 bytes more than before.\<close>

definition achievable :: "nat \<Rightarrow> nat \<Rightarrow> nat" where
  "achievable current target = min target (current + MAX_PERMITTED_DATA_INCREASE)"

lemma achievable_eq:
  "(if c < t then c + min (t - c) 10240 else t) = achievable c t"
  by (auto simp: achievable_def min_def)

lemma achievable_grow: "c < t \<Longrightarrow> c + min (t - c) 10240 = max c (achievable c t)"
  by (auto simp: achievable_def min_def max_def)

inductive generic_step :: "pubkey \<Rightarrow> bytes \<Rightarrow> bytes \<Rightarrow> bool" where
  generic_init: "generic_step p d (realloc (write_at d 0 p) (achievable (length d) (32 + n)))"
    if "32 \<le> length d" and "generic_writer d = zero32" and "length p = 32"
| generic_resize: "generic_step (generic_writer d) d (realloc d (achievable (length d) (32 + n)))"
    if "32 \<le> length d"
| generic_write: "generic_step (generic_writer d) d (write_at (realloc d m) (32 + off) xs)"
    if "32 \<le> length d" and "m = max (length d) (achievable (length d) (32 + off + length xs))"
    and "32 + off + length xs \<le> m"

inductive_cases generic_stepE: "generic_step p d d'"

lemma gb_init_step:
  assumes rt: "runtime_ok rt" and run: "gb_init rt st p rest = Inr (st', p')" and p: "length (ai_key p) = 32"
  shows "generic_step (ai_key p) (ai_data st) (ai_data st')"
proof -
  let ?d = "ai_data st" and ?n = "unat (from_le_bytes rest :: u32)"
  let ?a = "st \<lparr> ai_data := write_at ?d 0 (ai_key p) \<rparr>"
  have enc: "enc_generic_header (h \<lparr> gb_authorized_writer := k \<rparr>) = k" for h k by (simp add: enc_generic_header_def)
  have len: "32 \<le> length ?d" and w: "generic_writer ?d = zero32"
      and r: "gb_realloc_account rt ?a p (if 32 + ?n > length (ai_data ?a)
        then length (ai_data ?a) + min (32 + ?n - length (ai_data ?a)) 10240 else 32 + ?n) = Inr (st', p')"
    using run unfolding gb_init_def Let_def enc by (simp_all add: result_simps split del: if_split)
  have l: "length (ai_data ?a) = length ?d" using len p by simp
  show ?thesis
    using gb_realloc_account_data(1) [OF rt r] generic_step.generic_init [OF len w p, of ?n]
    unfolding l achievable_eq by simp
qed

lemma gb_resize_step:
  assumes rt: "runtime_ok rt" and run: "gb_resize rt st p rest = Inr (st', p')"
  shows "generic_step (ai_key p) (ai_data st) (ai_data st')"
proof -
  let ?d = "ai_data st" and ?n = "unat (from_le_bytes rest :: u32)"
  have len: "32 \<le> length ?d" and w: "ai_key p = generic_writer ?d"
      and r: "gb_realloc_account rt st p (if 32 + ?n > length ?d
        then length ?d + min (32 + ?n - length ?d) 10240 else 32 + ?n) = Inr (st', p')"
    using run unfolding gb_resize_def Let_def by (simp_all add: result_simps split del: if_split)
  show ?thesis
    unfolding w gb_realloc_account_data(1) [OF rt r] achievable_eq by (rule generic_step.generic_resize [OF len])
qed

lemma gb_write_data_step:
  assumes rt: "runtime_ok rt" and run: "gb_write_data rt st p rest = Inr (st', p')"
  shows "generic_step (ai_key p) (ai_data st) (ai_data st')"
proof -
  let ?d = "ai_data st" and ?off = "unat (from_le_bytes (bslice rest 0 4) :: u32)" and ?xs = "drop 4 rest"
  let ?r = "32 + ?off + length ?xs"
  let ?m = "max (length ?d) (achievable (length ?d) ?r)"
  obtain a where len: "32 \<le> length ?d" and w: "ai_key p = generic_writer ?d"
      and a: "(if ?r > length ?d then gb_realloc_account rt st p (length ?d + min (?r - length ?d) 10240)
        else Inr (st, p)) = Inr (a, p')" "?r \<le> length (ai_data a)" "ai_data st' = write_at (ai_data a) (32 + ?off) ?xs"
    using run unfolding gb_write_data_def Let_def by (auto simp: result_simps split del: if_split)
  have "length ?d + min (?r - length ?d) 10240 = ?m" if "?r > length ?d"
    using that by (rule achievable_grow)
  then have e: "ai_data a = realloc ?d ?m"
    using a(1) gb_realloc_account_data(1) [OF rt] by (auto simp: achievable_def realloc_same split: if_splits)
  show ?thesis
    unfolding w a(3) e by (rule generic_step.generic_write [OF len refl]) (use a(2) in \<open>simp add: e\<close>)
qed

lemma gb_process_instruction_step:
  assumes "runtime_ok rt" and "gb_process_instruction rt pid (st # accs) ix = Inr (st' # accs')"
    and "\<forall>p \<in> set accs. length (ai_key p) = 32"
  shows "\<exists>p \<in> set accs. ai_is_signer p \<and> generic_step (ai_key p) (ai_data st) (ai_data st')"
  using assms(2,3) gb_init_step [OF assms(1)] gb_resize_step [OF assms(1)] gb_write_data_step [OF assms(1)]
  unfolding gb_process_instruction_def
  by (auto simp: result_simps split: list.splits if_splits)

lemma generic_step_writer:
  assumes "generic_step p d d'" and "32 \<le> length d" and "generic_writer d \<noteq> zero32"
  shows "p = generic_writer d \<and> 32 \<le> length d' \<and> generic_writer d' = generic_writer d"
  using assms
proof cases
  case (generic_write m off xs)
  then have "bslice (write_at (realloc d m) (32 + off) xs) 0 32 = bslice (realloc d m) 0 32"
    by (intro slice_write_at_other) simp_all
  then show ?thesis using generic_write by (simp add: slice_realloc)
qed (auto simp: slice_realloc achievable_def)

text \<open>Once a generic buffer is claimed, only its writer can change it: every accepted
  instruction carries the writer's signature, and the writer stays the same.\<close>

theorem generic_buffer_writer_only:
  assumes "runtime_ok rt" and "\<forall>p \<in> set accs. length (ai_key p) = 32" and "32 \<le> length (ai_data st)"
    and "generic_writer (ai_data st) \<noteq> zero32" and "gb_process_instruction rt pid (st # accs) ix = Inr (st' # accs')"
  shows "(\<exists>p \<in> set accs. ai_is_signer p \<and> ai_key p = generic_writer (ai_data st)) \<and>
    32 \<le> length (ai_data st') \<and> generic_writer (ai_data st') = generic_writer (ai_data st)"
  using gb_process_instruction_step [OF assms(1,5,2)] generic_step_writer [OF _ assms(3,4)] by blast

definition example_generic :: "bytes \<Rightarrow> AccountInfo" where
  "example_generic body = \<lparr> ai_key = replicate 32 8, ai_owner = example_program, ai_lamports = 100,
     ai_data = replicate 32 5 @ body, ai_is_signer = False \<rparr>"

lemma example_generic_write:
  "gb_process_instruction sample_runtime example_program
     (example_generic [0, 0, 0] # [example_signer (replicate 32 5), example_signer zero32])
     (2 # to_le_bytes (1 :: u32) @ [7, 8]) =
   Inr (example_generic [0, 7, 8] # [example_signer (replicate 32 5), example_signer zero32])"
  by (simp add: gb_process_instruction_def gb_write_data_def example_generic_def example_signer_def
      dec_generic_header_def Let_def codec_simps) (simp add: write_at_def)

theorem generic_buffer_writer_only_witness:
  "generic_writer (ai_data (example_generic [0, 7, 8])) = replicate 32 5"
proof -
  have w: "generic_writer (ai_data (example_generic b)) = replicate 32 5" "32 \<le> length (ai_data (example_generic b))" for b
    by (simp_all add: example_generic_def dec_generic_header_def codec_simps)
  show ?thesis
    using generic_buffer_writer_only [OF sample_runtime_ok _ _ _ example_generic_write]
    by (simp add: w example_signer_def)
qed

section \<open>Growing a buffer\<close>

text \<open>
  One instruction grows an account by at most 10240 bytes, so a client repeats the resize
  until the size is reached.
\<close>

primrec gb_repeat :: "nat \<Rightarrow> runtime \<Rightarrow> pubkey \<Rightarrow> bytes \<Rightarrow> AccountInfo list \<Rightarrow> AccountInfo list ProgramResult" where
  "gb_repeat 0 rt pid ix accs = Inr accs"
| "gb_repeat (Suc k) rt pid ix accs = rbind (gb_process_instruction rt pid accs ix) (gb_repeat k rt pid ix)"

lemma gb_resize_data:
  assumes rt: "runtime_ok rt"
    and run: "gb_process_instruction rt pid accs (1 # to_le_bytes (n :: u32)) = Inr accs'"
  shows "accs \<noteq> [] \<and> accs' \<noteq> [] \<and>
    ai_data (hd accs') = realloc (ai_data (hd accs)) (achievable (length (ai_data (hd accs))) (32 + unat n))"
proof -
  obtain st p sys os where accs: "accs = st # p # sys # os"
    using run by (auto simp: gb_process_instruction_def result_simps split: list.splits)
  let ?d = "ai_data st"
  obtain st' p' where r: "gb_realloc_account rt st p (if 32 + unat n > length ?d
        then length ?d + min (32 + unat n - length ?d) 10240 else 32 + unat n) = Inr (st', p')" and "accs' = st' # p' # sys # os"
    using run unfolding accs gb_process_instruction_def gb_resize_def Let_def
    by (auto simp: result_simps codec_simps cong: if_cong split del: if_split)
  then show ?thesis using gb_realloc_account_data(1) [OF rt r] unfolding achievable_eq by (simp add: accs)
qed

text \<open>Repeating a resize instruction reaches the requested size: after \<open>k\<close> accepted resizes the
  buffer has grown by 10240 bytes each time until the target is reached, its old content is a
  prefix, and the rest is zero.\<close>

theorem generic_resize_converges:
  assumes "runtime_ok rt" and "gb_repeat k rt pid (1 # to_le_bytes (n :: u32)) accs = Inr accs'"
    and "length (ai_data (hd accs)) \<le> 32 + unat n"
  shows "ai_data (hd accs') = realloc (ai_data (hd accs)) (min (32 + unat n) (length (ai_data (hd accs)) + 10240 * k))"
  using assms(2,3)
proof (induction k arbitrary: accs)
  case 0
  then show ?case by (simp add: realloc_same min_def)
next
  case (Suc k)
  let ?d = "ai_data (hd accs)" and ?t = "32 + unat n"
  obtain accs1 where run: "gb_process_instruction rt pid accs (1 # to_le_bytes n) = Inr accs1"
      and rest: "gb_repeat k rt pid (1 # to_le_bytes n) accs1 = Inr accs'"
    using Suc.prems(1) by (auto simp: result_simps)
  have d1: "ai_data (hd accs1) = realloc ?d (achievable (length ?d) ?t)" using gb_resize_data [OF assms(1) run] by simp
  have len: "length (ai_data (hd accs1)) \<le> ?t" by (simp add: d1 achievable_def)
  have m: "min ?t (length (ai_data (hd accs1)) + 10240 * k) = min ?t (length ?d + 10240 * Suc k)"
    by (auto simp: d1 achievable_def min_def)
  have "realloc (realloc ?d (achievable (length ?d) ?t)) (min ?t (length ?d + 10240 * Suc k)) =
      realloc ?d (min ?t (length ?d + 10240 * Suc k))"
    using Suc.prems(2) by (intro realloc_realloc) (auto simp: achievable_def)
  then show ?case using Suc.IH [OF rest len, unfolded m, unfolded d1] by simp
qed

theorem generic_resize_converges_witness:
  "\<exists>accs'. gb_repeat 1 sample_runtime example_program (1 # to_le_bytes (20 :: u32))
     [example_generic [], (example_signer (replicate 32 5)) \<lparr> ai_lamports := 30 \<rparr>, example_signer zero32] = Inr accs' \<and>
   length (ai_data (hd accs')) = 52"
proof -
  let ?accs = "[example_generic [], (example_signer (replicate 32 5)) \<lparr> ai_lamports := 30 \<rparr>, example_signer zero32]"
  have "\<exists>accs'. gb_repeat 1 sample_runtime example_program (1 # to_le_bytes (20 :: u32)) ?accs = Inr accs'"
    by (simp add: gb_process_instruction_def gb_resize_def gb_realloc_account_def sample_runtime_def
        example_generic_def example_signer_def dec_generic_header_def Let_def codec_simps slice_realloc)
  then obtain accs' where run: "gb_repeat 1 sample_runtime example_program (1 # to_le_bytes (20 :: u32)) ?accs = Inr accs'" ..
  have len: "length (ai_data (hd ?accs)) = 32" by (simp add: example_generic_def)
  have "length (ai_data (hd ?accs)) \<le> 32 + unat (20 :: u32)" unfolding len by simp
  from generic_resize_converges [OF sample_runtime_ok run this] run show ?thesis unfolding len by simp
qed

section \<open>Writing inside a claimed buffer\<close>

definition generic_open :: "pubkey \<Rightarrow> AccountInfo \<Rightarrow> AccountInfo \<Rightarrow> bool" where
  "generic_open pid st p \<longleftrightarrow> ai_owner st = pid \<and> ai_is_signer p \<and> 32 \<le> length (ai_data st) \<and>
     generic_writer (ai_data st) = ai_key p"

lemma generic_write_ok:
  fixes off :: u32
  assumes "generic_open pid st p" and "unat off + length xs \<le> length (drop 32 (ai_data st))"
  shows "\<exists>d'. gb_process_instruction rt pid (st # p # sys # os) (2 # to_le_bytes off @ xs) =
      Inr (st \<lparr> ai_data := d' \<rparr> # p # sys # os) \<and>
    generic_open pid (st \<lparr> ai_data := d' \<rparr>) p \<and> drop 32 d' = write_at (drop 32 (ai_data st)) (unat off) xs"
proof -
  let ?d = "ai_data st" and ?rest = "to_le_bytes off @ xs"
  have st: "ai_owner st = pid" "ai_is_signer p" "32 \<le> length ?d" "generic_writer ?d = ai_key p"
    using assms(1) by (auto simp: generic_open_def)
  have fits: "32 + unat off + length xs \<le> length ?d" using assms(2) st(3) by simp
  have rest: "from_le_bytes (bslice ?rest 0 4) = off" "drop 4 ?rest = xs" by (simp_all add: codec_simps)
  let ?d' = "write_at ?d (32 + unat off) xs"
  have "gb_write_data rt st p ?rest = Inr (st \<lparr> ai_data := ?d' \<rparr>, p)"
    unfolding gb_write_data_def Let_def rest using st fits by simp
  then have run: "gb_process_instruction rt pid (st # p # sys # os) (2 # ?rest) = Inr (st \<lparr> ai_data := ?d' \<rparr> # p # sys # os)"
    using st by (simp add: gb_process_instruction_def)
  have "bslice ?d' 0 32 = bslice ?d 0 32" using fits by (intro slice_write_at_other) simp_all
  then have "generic_open pid (st \<lparr> ai_data := ?d' \<rparr>) p" using st fits by (simp add: generic_open_def)
  moreover have "drop 32 ?d' = write_at (drop 32 ?d) (unat off) xs"
    using st(3) fits by (simp add: write_at_def take_drop ac_simps)
  ultimately show ?thesis using run by blast
qed

lemma gb_init_data:
  assumes rt: "runtime_ok rt" and p: "length (ai_key p) = 32"
    and run: "gb_process_instruction rt pid (st # p # sys # os) (0 # to_le_bytes (n :: u32)) = Inr accs'"
  shows "\<exists>st' p'. accs' = st' # p' # sys # os \<and> ai_owner st = pid \<and> ai_is_signer p \<and> 32 \<le> length (ai_data st) \<and>
    ai_data st' = realloc (write_at (ai_data st) 0 (ai_key p)) (achievable (length (ai_data st)) (32 + unat n)) \<and>
    ai_key st' = ai_key st \<and> ai_owner st' = ai_owner st"
proof -
  let ?d = "ai_data st"
  let ?a = "st \<lparr> ai_data := write_at ?d 0 (ai_key p) \<rparr>"
  obtain st' p' where i: "gb_init rt st p (to_le_bytes n) = Inr (st', p')" "accs' = st' # p' # sys # os"
      "ai_owner st = pid" "ai_is_signer p"
    using run by (auto simp: gb_process_instruction_def result_simps)
  have enc: "enc_generic_header (h \<lparr> gb_authorized_writer := k \<rparr>) = k" for h k by (simp add: enc_generic_header_def)
  have len: "32 \<le> length ?d"
      and r: "gb_realloc_account rt ?a p (if 32 + unat n > length (ai_data ?a)
        then length (ai_data ?a) + min (32 + unat n - length (ai_data ?a)) 10240 else 32 + unat n) = Inr (st', p')"
    using i(1) unfolding gb_init_def Let_def enc
    by (simp_all add: result_simps codec_simps cong: if_cong split del: if_split)
  have l: "length (ai_data ?a) = length ?d" using len p by simp
  show ?thesis
    using i(2-) len gb_realloc_account_data [OF rt r] unfolding l achievable_eq by simp
qed

end
