(* ===== verification/BufferClient.thy ===== *)
theory BufferClient
  imports TxoBuffer GenericBuffer
begin

text \<open>
  The operator's client for the buffers: the instructions it builds
  (\<open>clients/rust/src/instructions.rs\<close>) and the upload protocols
  (\<open>clients/rust/src/buffer_manager.rs\<close>, \<open>clients/rust/src/buffer/manager.rs\<close>). A ledger maps
  addresses to accounts; sending an instruction runs the program on the accounts the
  instruction names. The RPC connection, its rate limit and its retries are not modelled: the
  order in which chunks arrive, and how often, is an argument.
\<close>

section \<open>Instructions and the ledger\<close>

record AccountMeta =
  am_pubkey :: pubkey
  am_is_signer :: bool
  am_is_writable :: bool

record Instruction =
  ix_program_id :: pubkey
  ix_accounts :: "AccountMeta list"
  ix_data :: bytes

abbreviation account_new :: "pubkey \<Rightarrow> bool \<Rightarrow> AccountMeta" where
  "account_new k signer \<equiv> \<lparr> am_pubkey = k, am_is_signer = signer, am_is_writable = True \<rparr>"

abbreviation account_new_readonly :: "pubkey \<Rightarrow> bool \<Rightarrow> AccountMeta" where
  "account_new_readonly k signer \<equiv> \<lparr> am_pubkey = k, am_is_signer = signer, am_is_writable = False \<rparr>"

text \<open>The address of the system program is all zeros.\<close>

abbreviation system_program_id :: pubkey where
  "system_program_id \<equiv> zero32"

type_synonym ledger = "pubkey \<Rightarrow> AccountInfo option"

definition empty_account :: AccountInfo where
  "empty_account = \<lparr> ai_key = zero32, ai_owner = system_program_id, ai_lamports = 0, ai_data = [], ai_is_signer = False \<rparr>"

definition load_account :: "ledger \<Rightarrow> pubkey \<Rightarrow> bool \<Rightarrow> AccountInfo" where
  "load_account L k signer =
     (case L k of None \<Rightarrow> empty_account | Some a \<Rightarrow> a) \<lparr> ai_key := k, ai_is_signer := signer \<rparr>"

text \<open>An account that is named twice is stored once, at its first position.\<close>

definition store_accounts :: "AccountInfo list \<Rightarrow> ledger \<Rightarrow> ledger" where
  "store_accounts accs L = foldr (\<lambda>a L. L(ai_key a \<mapsto> a)) accs L"

definition send_instruction ::
  "(AccountInfo list \<Rightarrow> bytes \<Rightarrow> AccountInfo list ProgramResult) \<Rightarrow> Instruction \<Rightarrow> ledger \<Rightarrow> ledger ProgramResult" where
  "send_instruction program ix L =
     rbind (program (map (\<lambda>m. load_account L (am_pubkey m) (am_is_signer m)) (ix_accounts ix)) (ix_data ix))
       (\<lambda>accs. Inr (store_accounts accs L))"

definition send_transfer :: "runtime \<Rightarrow> pubkey \<Rightarrow> pubkey \<Rightarrow> u64 \<Rightarrow> ledger \<Rightarrow> ledger ProgramResult" where
  "send_transfer rt source target lamports L =
     rbind (rt_transfer rt (load_account L source True) (load_account L target False) lamports)
       (\<lambda>(a, b). Inr (store_accounts [a, b] L))"

section \<open>The instructions of the buffer programs\<close>

definition generic_buffer_init :: "pubkey \<Rightarrow> pubkey \<Rightarrow> pubkey \<Rightarrow> u32 \<Rightarrow> Instruction" where
  "generic_buffer_init program_id account payer target_len =
     \<lparr> ix_program_id = program_id,
       ix_accounts = [account_new account False, account_new payer True, account_new_readonly system_program_id False],
       ix_data = [0] @ to_le_bytes target_len \<rparr>"

definition generic_buffer_write :: "pubkey \<Rightarrow> pubkey \<Rightarrow> pubkey \<Rightarrow> u32 \<Rightarrow> bytes \<Rightarrow> Instruction" where
  "generic_buffer_write program_id account payer offset bytes =
     \<lparr> ix_program_id = program_id,
       ix_accounts = [account_new account False, account_new payer True, account_new_readonly system_program_id False],
       ix_data = [2] @ to_le_bytes offset @ bytes \<rparr>"

definition pending_mint_setup :: "pubkey \<Rightarrow> pubkey \<Rightarrow> pubkey \<Rightarrow> pubkey \<Rightarrow> Instruction" where
  "pending_mint_setup program_id account locker writer =
     \<lparr> ix_program_id = program_id,
       ix_accounts = [account_new account False, account_new_readonly system_program_id False],
       ix_data = [0] @ locker @ writer \<rparr>"

definition pending_mint_reinit :: "pubkey \<Rightarrow> pubkey \<Rightarrow> pubkey \<Rightarrow> u16 \<Rightarrow> Instruction" where
  "pending_mint_reinit program_id account payer total_mints =
     \<lparr> ix_program_id = program_id,
       ix_accounts = [account_new account False, account_new payer True, account_new_readonly system_program_id False],
       ix_data = [1] @ to_le_bytes total_mints \<rparr>"

definition pending_mint_insert :: "pubkey \<Rightarrow> pubkey \<Rightarrow> pubkey \<Rightarrow> u16 \<Rightarrow> bytes \<Rightarrow> Instruction" where
  "pending_mint_insert program_id account payer group_idx mint_data =
     \<lparr> ix_program_id = program_id,
       ix_accounts = [account_new account False, account_new payer True, account_new_readonly system_program_id False],
       ix_data = [3] @ to_le_bytes group_idx @ mint_data \<rparr>"

definition txo_buffer_init :: "pubkey \<Rightarrow> pubkey \<Rightarrow> pubkey \<Rightarrow> Instruction" where
  "txo_buffer_init program_id account writer =
     \<lparr> ix_program_id = program_id,
       ix_accounts = [account_new account False, account_new_readonly system_program_id False],
       ix_data = [0] @ writer \<rparr>"

definition txo_buffer_set_len ::
  "pubkey \<Rightarrow> pubkey \<Rightarrow> pubkey \<Rightarrow> pubkey \<Rightarrow> u32 \<Rightarrow> bool \<Rightarrow> u32 \<Rightarrow> u32 \<Rightarrow> bool \<Rightarrow> Instruction" where
  "txo_buffer_set_len program_id account payer writer new_len resize batch_id height finalize =
     \<lparr> ix_program_id = program_id,
       ix_accounts = [account_new account False, account_new payer True, account_new_readonly system_program_id False,
         account_new_readonly writer True],
       ix_data = [1] @ to_le_bytes new_len @ [if resize then 1 else 0] @ to_le_bytes batch_id @ to_le_bytes height @
         [if finalize then 1 else 0] \<rparr>"

definition txo_buffer_write :: "pubkey \<Rightarrow> pubkey \<Rightarrow> pubkey \<Rightarrow> u32 \<Rightarrow> u32 \<Rightarrow> bytes \<Rightarrow> Instruction" where
  "txo_buffer_write program_id account writer batch_id offset bytes =
     \<lparr> ix_program_id = program_id,
       ix_accounts = [account_new account False, account_new writer True],
       ix_data = [2] @ to_le_bytes batch_id @ to_le_bytes offset @ bytes \<rparr>"

section \<open>The upload protocols\<close>

text \<open>The txo buffer of \<open>BufferManager\<close>: one key pays and writes; the chunks are sent in order.\<close>

definition create_txo_buffer ::
  "runtime \<Rightarrow> pubkey \<Rightarrow> pubkey \<Rightarrow> u32 \<Rightarrow> u32 list \<Rightarrow> ledger \<Rightarrow> (ledger \<times> pubkey \<times> u8) ProgramResult" where
  "create_txo_buffer rt program_id payer doge_block_height txo_indices_u32 L =
     (let (buffer_pubkey, bump) = rt_find_program_address rt [txo_buffer_seed, payer] program_id;
          program = txo_process_instruction rt program_id;
          txo_bytes = serialize_all txo_indices_u32;
          total_len = of_nat (length txo_bytes)
      in rbind
        (case L buffer_pubkey of
           None \<Rightarrow> rbind (send_transfer rt payer buffer_pubkey (rt_minimum_balance rt 48) L) (\<lambda>L.
             rbind (send_instruction program (txo_buffer_init program_id buffer_pubkey payer) L) (\<lambda>L. Inr (L, 0)))
         | Some a \<Rightarrow> if length (ai_data a) < 44 then Inl Panic
             else Inr (L, 1 + from_le_bytes (bslice (ai_data a) 40 44))) (\<lambda>(L, batch_id).
      rbind (send_instruction program
        (txo_buffer_set_len program_id buffer_pubkey payer payer total_len True batch_id doge_block_height False) L) (\<lambda>L.
      rbind (send_chunks (\<lambda>L offset chunk. send_instruction program
        (txo_buffer_write program_id buffer_pubkey payer batch_id offset chunk) L) (upload_chunks txo_bytes) L) (\<lambda>L.
      rbind (send_instruction program
        (txo_buffer_set_len program_id buffer_pubkey payer payer total_len False batch_id doge_block_height True) L) (\<lambda>L.
      Inr (L, buffer_pubkey, bump))))))"

text \<open>
  The txo buffer of \<open>ParallelBufferManager\<close>: the operator writes, another key may pay; \<open>cs\<close> is the
  sequence in which the chunk writes arrive.
\<close>

definition ensure_txo_buffer_exists ::
  "runtime \<Rightarrow> pubkey \<Rightarrow> pubkey \<Rightarrow> pubkey \<Rightarrow> pubkey \<Rightarrow> ledger \<Rightarrow> (ledger \<times> u32) ProgramResult" where
  "ensure_txo_buffer_exists rt program_id payer operator buffer_pubkey L =
     (case L buffer_pubkey of
        Some a \<Rightarrow> if length (ai_data a) \<ge> 44 then Inr (L, from_le_bytes (bslice (ai_data a) 40 44) + 1)
          else Inl (Err InvalidAccountData)
      | None \<Rightarrow> rbind (send_transfer rt payer buffer_pubkey (rt_minimum_balance rt 48) L) (\<lambda>L.
          rbind (send_instruction (txo_process_instruction rt program_id) (txo_buffer_init program_id buffer_pubkey operator) L)
            (\<lambda>L. Inr (L, 0))))"

definition set_txo_buffer_length ::
  "runtime \<Rightarrow> pubkey \<Rightarrow> pubkey \<Rightarrow> pubkey \<Rightarrow> pubkey \<Rightarrow> u32 \<Rightarrow> u32 \<Rightarrow> u32 \<Rightarrow> bool \<Rightarrow> bool \<Rightarrow> ledger \<Rightarrow> ledger ProgramResult" where
  "set_txo_buffer_length rt program_id payer operator buffer_pubkey data_size batch_id block_height resize finalize =
     send_instruction (txo_process_instruction rt program_id)
       (txo_buffer_set_len program_id buffer_pubkey payer operator data_size resize batch_id block_height finalize)"

definition write_txo_buffer_chunk ::
  "runtime \<Rightarrow> pubkey \<Rightarrow> pubkey \<Rightarrow> pubkey \<Rightarrow> u32 \<Rightarrow> ledger \<Rightarrow> u32 \<Rightarrow> bytes \<Rightarrow> ledger ProgramResult" where
  "write_txo_buffer_chunk rt program_id operator buffer_pubkey batch_id L offset data =
     send_instruction (txo_process_instruction rt program_id)
       (txo_buffer_write program_id buffer_pubkey operator batch_id offset data) L"

definition create_txo_buffer_parallel ::
  "runtime \<Rightarrow> pubkey \<Rightarrow> pubkey \<Rightarrow> pubkey \<Rightarrow> u32 \<Rightarrow> u32 list \<Rightarrow> (nat \<times> bytes) list \<Rightarrow> ledger \<Rightarrow> (ledger \<times> pubkey \<times> u8) ProgramResult" where
  "create_txo_buffer_parallel rt program_id payer operator block_height txo_indices cs L =
     (let (buffer_pubkey, bump) = rt_find_program_address rt [txo_buffer_seed, operator] program_id
      in rbind (ensure_txo_buffer_exists rt program_id payer operator buffer_pubkey L) (\<lambda>(L, batch_id).
      let data_size = of_nat (txo_data_size txo_indices)
      in rbind (set_txo_buffer_length rt program_id payer operator buffer_pubkey data_size batch_id block_height True False L) (\<lambda>L.
      rbind (send_chunks (write_txo_buffer_chunk rt program_id operator buffer_pubkey batch_id) cs L) (\<lambda>L.
      rbind (set_txo_buffer_length rt program_id payer operator buffer_pubkey data_size batch_id block_height False True L) (\<lambda>L.
      Inr (L, buffer_pubkey, bump))))))"

text \<open>
  The generic buffer: a new account of 32 bytes, the initialisation for the size of the data,
  and the chunk writes in the order \<open>cs\<close>.
\<close>

definition write_generic_buffer_chunk ::
  "runtime \<Rightarrow> pubkey \<Rightarrow> pubkey \<Rightarrow> pubkey \<Rightarrow> ledger \<Rightarrow> u32 \<Rightarrow> bytes \<Rightarrow> ledger ProgramResult" where
  "write_generic_buffer_chunk rt program_id payer buffer_pubkey L offset data =
     send_instruction (gb_process_instruction rt program_id) (generic_buffer_write program_id buffer_pubkey payer offset data) L"

definition create_generic_buffer ::
  "runtime \<Rightarrow> pubkey \<Rightarrow> pubkey \<Rightarrow> pubkey \<Rightarrow> bytes \<Rightarrow> (nat \<times> bytes) list \<Rightarrow> ledger \<Rightarrow> ledger ProgramResult" where
  "create_generic_buffer rt program_id payer buffer_pubkey data cs L =
     (let target_len = of_nat (length data)
      in rbind (rt_create_account rt [] (load_account L payer True) (load_account L buffer_pubkey True)
           (rt_minimum_balance rt 32) 32 program_id) (\<lambda>(p, a).
      rbind (send_instruction (gb_process_instruction rt program_id)
           (generic_buffer_init program_id buffer_pubkey payer target_len) (store_accounts [p, a] L)) (\<lambda>L.
      send_chunks (write_generic_buffer_chunk rt program_id payer buffer_pubkey) cs L)))"

section \<open>Accounts in the ledger\<close>

lemma load_account_simps [simp]: "ai_key (load_account L k s) = k" "ai_is_signer (load_account L k s) = s"
  by (simp_all add: load_account_def)

lemma load_store_first: "ai_key a = k \<Longrightarrow> load_account (store_accounts (a # accs) L) k s = a \<lparr> ai_is_signer := s \<rparr>"
  by (simp add: load_account_def store_accounts_def)

lemma load_store_second:
  "ai_key a \<noteq> k \<Longrightarrow> ai_key p = k \<Longrightarrow> load_account (store_accounts (a # p # accs) L) k s = p \<lparr> ai_is_signer := s \<rparr>"
  by (simp add: load_account_def store_accounts_def)

lemma txo_realloc_account_payer:
  assumes rt: "runtime_ok rt" and run: "txo_realloc_account rt t f n = Inr (t', f')"
  shows "ai_key f' = ai_key f"
proof -
  have key: "ai_key a' = ai_key a" if "rt_transfer rt a b m = Inr (a', b')" for a b m a' b'
  proof -
    have "a' = a \<lparr> ai_lamports := ai_lamports a' \<rparr>" using runtime_okD(1) [OF rt that] ..
    then show ?thesis by (metis AccountInfo.select_convs(1) AccountInfo.surjective AccountInfo.update_convs(3))
  qed
  show ?thesis
    using run unfolding txo_realloc_account_def Let_def
    by (auto simp: result_simps dest: key split: if_splits)
qed

text \<open>An accepted set-length instruction with resizing opens the batch with a body of the given size.\<close>

lemma txo_set_len_opens:
  assumes rt: "runtime_ok rt"
    and run: "txo_process_instruction rt pid (c # p # sys # os) (txo_set_len_data n True b height False) = Inr accs'"
  shows "\<exists>c' p'. accs' = c' # p' # sys # os \<and> txo_open pid b height c' p \<and>
    ai_key c' = ai_key c \<and> ai_key p' = ai_key p \<and> length (drop 48 (ai_data c')) = unat n"
proof -
  let ?h = "txo_hdr (ai_data c)" and ?d = "ai_data c"
  let ?rest = "to_le_bytes n @ [1 :: u8] @ to_le_bytes b @ to_le_bytes height @ [0]"
  obtain h a q where sig: "ai_owner c = pid" "ai_is_signer p" "48 \<le> length ?d" "th_authorized_writer ?h = ai_key p"
      and h: "handle_batch_transition ?h b = Inr h"
      and a: "txo_realloc_account rt (c \<lparr> ai_data := put_txo_header ?d (h \<lparr> th_doge_block_height := height \<rparr>) \<rparr>) p
        (48 + unat n) = Inr (a, q)"
      and accs': "accs' = a \<lparr> ai_data := put_txo_header (ai_data a) ((txo_hdr (ai_data a)) \<lparr> th_data_size := n \<rparr>) \<rparr> # q # sys # os"
    using run unfolding txo_process_instruction_def
    by (clarsimp simp: txo_set_data_length_def txo_set_len_rest [simplified] Let_def result_simps get_txo_header_ok_iff)
  let ?h2 = "h \<lparr> th_doge_block_height := height \<rparr>"
  have wf: "wf_txo_header ?h2" using wf_handle_batch [OF h] wf_txo_hdr [OF sig(3)] by simp
  note put = txo_header.write_prefix [OF wf sig(3), folded put_txo_header_def]
  note re = txo_realloc_account_data [OF rt a]
  have hdr: "txo_hdr (ai_data a) = ?h2" "length (ai_data a) = 48 + unat n"
    using put(2,3) sig(3) by (simp_all add: re(1) slice_realloc)
  have wf': "wf_txo_header (?h2 \<lparr> th_data_size := n \<rparr>)" "48 \<le> length (ai_data a)" using wf hdr(2) by simp_all
  note put' = txo_header.write_prefix [OF wf', folded put_txo_header_def]
  have "th_batch_id h = b" "th_authorized_writer h = th_authorized_writer ?h" "th_finalized_status h \<noteq> 1"
    using h by (auto simp: handle_batch_ok_iff)
  then show ?thesis
    using sig re(2,3) txo_realloc_account_payer [OF rt a] hdr put' by (simp add: accs' txo_open_def)
qed

section \<open>The txo upload\<close>

definition txo_ready :: "pubkey \<Rightarrow> pubkey \<Rightarrow> pubkey \<Rightarrow> u32 \<Rightarrow> u32 \<Rightarrow> ledger \<Rightarrow> bool" where
  "txo_ready pid buf operator b height L \<longleftrightarrow> buf \<noteq> operator \<and>
     txo_open pid b height (load_account L buf False) (load_account L operator True)"

definition txo_body :: "pubkey \<Rightarrow> ledger \<Rightarrow> bytes" where
  "txo_body buf L = drop 48 (ai_data (load_account L buf False))"

lemma txo_open_signer [simp]: "txo_open pid b height (c \<lparr> ai_is_signer := s \<rparr>) p = txo_open pid b height c p"
  by (simp add: txo_open_def)

lemma txo_open_key: "txo_open pid b height c p \<Longrightarrow> ai_is_signer q \<Longrightarrow> ai_key q = ai_key p \<Longrightarrow> txo_open pid b height c q"
  by (simp add: txo_open_def)

lemma write_txo_buffer_chunk_ok:
  assumes "txo_ready pid buf operator b height L" and "unat off + length xs \<le> length (txo_body buf L)"
  shows "\<exists>L'. write_txo_buffer_chunk rt pid operator buf b L off xs = Inr L' \<and> txo_ready pid buf operator b height L' \<and>
    txo_body buf L' = write_at (txo_body buf L) (unat off) xs"
proof -
  let ?c = "load_account L buf False" and ?p = "load_account L operator True"
  have ne: "buf \<noteq> operator" and op: "txo_open pid b height ?c ?p" using assms(1) by (simp_all add: txo_ready_def)
  obtain d' where d': "txo_process_instruction rt pid (?c # [?p]) (2 # to_le_bytes b @ to_le_bytes off @ xs) =
      Inr (?c \<lparr> ai_data := d' \<rparr> # [?p])" "txo_open pid b height (?c \<lparr> ai_data := d' \<rparr>) ?p"
      "drop 48 d' = write_at (drop 48 (ai_data ?c)) (unat off) xs"
    using txo_write_ok [OF op, of off xs rt "[]"] assms(2) by (auto simp: txo_body_def)
  let ?L = "store_accounts [?c \<lparr> ai_data := d' \<rparr>, ?p] L"
  have run: "write_txo_buffer_chunk rt pid operator buf b L off xs = Inr ?L"
    using d'(1) by (simp add: write_txo_buffer_chunk_def send_instruction_def txo_buffer_write_def)
  have c: "load_account ?L buf False = ?c \<lparr> ai_data := d', ai_is_signer := False \<rparr>" by (rule load_store_first) simp
  have "txo_open pid b height (load_account ?L buf False) (load_account ?L operator True)"
    by (rule txo_open_key [of _ _ _ _ ?p]) (use d'(2) in \<open>simp_all add: c\<close>)
  then have "txo_ready pid buf operator b height ?L" using ne by (simp add: txo_ready_def)
  moreover have "txo_body buf ?L = write_at (txo_body buf L) (unat off) xs" using d'(3) by (simp add: txo_body_def c)
  ultimately show ?thesis using run by blast
qed

interpretation txo_store: chunk_store "write_txo_buffer_chunk rt pid operator buf b" "txo_body buf"
    "txo_ready pid buf operator b height" for rt pid operator buf b height
  by unfold_locales (rule write_txo_buffer_chunk_ok)

lemma set_length_opens:
  assumes "runtime_ok rt" and "buf \<noteq> operator"
    and "set_txo_buffer_length rt pid operator operator buf n b height True False L = Inr L1"
  shows "txo_ready pid buf operator b height L1" and "length (txo_body buf L1) = unat n"
proof -
  let ?c = "load_account L buf False" and ?p = "load_account L operator True"
  let ?os = "[load_account L operator True]" and ?sys = "load_account L system_program_id False"
  obtain accs' where run: "txo_process_instruction rt pid (?c # ?p # ?sys # ?os) (txo_set_len_data n True b height False) = Inr accs'"
      and L1: "L1 = store_accounts accs' L"
    using assms(3) by (auto simp: set_txo_buffer_length_def send_instruction_def txo_buffer_set_len_def result_simps)
  obtain c' p' where c': "accs' = c' # p' # ?sys # ?os" "txo_open pid b height c' ?p"
      "ai_key c' = buf" "length (drop 48 (ai_data c')) = unat n"
    using txo_set_len_opens [OF assms(1) run] by auto
  have c: "load_account L1 buf False = c' \<lparr> ai_is_signer := False \<rparr>"
    unfolding L1 c'(1) using c'(3) by (rule load_store_first)
  have "txo_open pid b height (load_account L1 buf False) (load_account L1 operator True)"
    by (rule txo_open_key [of _ _ _ _ ?p]) (use c'(2) in \<open>simp_all add: c\<close>)
  then show "txo_ready pid buf operator b height L1" using assms(2) by (simp add: txo_ready_def)
  show "length (txo_body buf L1) = unat n" using c'(4) by (simp add: txo_body_def c)
qed

lemma set_length_finalizes:
  assumes "txo_ready pid buf operator b height L" and "unat n \<le> length (txo_body buf L)"
  shows "\<exists>L' d'. set_txo_buffer_length rt pid operator operator buf n b height False True L = Inr L' \<and>
    L' buf = Some ((load_account L buf False) \<lparr> ai_data := d' \<rparr>) \<and> th_finalized_status (txo_hdr d') = 1 \<and>
    th_doge_block_height (txo_hdr d') = height \<and> 48 \<le> length d' \<and> drop 48 d' = txo_body buf L"
proof -
  let ?c = "load_account L buf False" and ?p = "load_account L operator True"
  let ?os = "[load_account L operator True]" and ?sys = "load_account L system_program_id False"
  have op: "txo_open pid b height ?c ?p" using assms(1) by (simp add: txo_ready_def)
  obtain d' where d': "txo_process_instruction rt pid (?c # ?p # ?sys # ?os) (txo_set_len_data n False b height True) =
      Inr (?c \<lparr> ai_data := d' \<rparr> # ?p # ?sys # ?os)"
      "txo_hdr d' = (txo_hdr (ai_data ?c)) \<lparr> th_finalized_status := 1, th_data_size := n \<rparr>" "48 \<le> length d'"
      "drop 48 d' = drop 48 (ai_data ?c)"
    using txo_finalize_ok [OF op, of n rt ?sys ?os] assms(2) by (auto simp: txo_body_def)
  have "th_doge_block_height (txo_hdr (ai_data ?c)) = height" using op by (simp add: txo_open_def)
  then show ?thesis
    using d' by (intro exI [of _ "store_accounts (?c \<lparr> ai_data := d' \<rparr> # ?p # ?sys # ?os) L"] exI [of _ d'])
      (simp add: set_txo_buffer_length_def send_instruction_def txo_buffer_set_len_def store_accounts_def txo_body_def)
qed

text \<open>C24. The upload of a block's spent outputs works in every schedule. Once the set-length
  instruction is accepted, the client's protocol succeeds for every order in which the chunk
  writes arrive and every number of repetitions, and it leaves a finalised buffer that
  answers to the digest of the serialised indices, for the height and the number of outputs
  that the bridge checks.\<close>

theorem txo_upload_any_order:
  assumes "runtime_ok rt" and "rt_find_program_address rt [txo_buffer_seed, operator] pid = (buf, bump)" and "buf \<noteq> operator"
    and "ensure_txo_buffer_exists rt pid operator operator buf L = Inr (L0, b)"
    and "set_txo_buffer_length rt pid operator operator buf (of_nat (txo_data_size indices)) b height True False L0 = Inr L1"
    and "length indices < 65536" and "set cs = set (upload_chunks (serialize_all indices))"
  shows "\<exists>L' a. create_txo_buffer_parallel rt pid operator operator height indices cs L = Inr (L', buf, bump) \<and>
    L' buf = Some a \<and> th_finalized_status (txo_hdr (ai_data a)) = 1 \<and>
    txo_buffer_matches sha height (sha (serialize_all indices)) (of_nat (length indices)) (ai_data a)"
proof -
  let ?data = "serialize_all indices" and ?n = "of_nat (txo_data_size indices) :: u32"
  have size: "txo_data_size indices = length ?data" "txo_data_size indices < 2 ^ 32"
    using assms(6) by (simp_all add: txo_data_size_def)
  have "unat (of_nat m :: u32) = m" if "m < 2 ^ 32" for m using that by (simp add: unat_of_nat)
  then have n: "unat ?n = length ?data" using size by metis
  have small: "length ?data < 2 ^ 32" using assms(6) by simp
  note ready = set_length_opens [OF assms(1,3,5)]
  obtain L2 where L2: "send_chunks (write_txo_buffer_chunk rt pid operator buf b) cs L1 = Inr L2"
      "txo_ready pid buf operator b height L2" "txo_body buf L2 = ?data"
    using txo_store.upload_ok [OF assms(7) ready(1) _ small] ready(2) n by auto
  obtain L' d' where L': "set_txo_buffer_length rt pid operator operator buf ?n b height False True L2 = Inr L'"
      "L' buf = Some ((load_account L2 buf False) \<lparr> ai_data := d' \<rparr>)" "th_finalized_status (txo_hdr d') = 1"
      "th_doge_block_height (txo_hdr d') = height" "48 \<le> length d'" "drop 48 d' = ?data"
    using set_length_finalizes [OF L2(2), of ?n rt] L2(3) n by auto
  have "length d' = 48 + 4 * length indices" using arg_cong [OF L'(6), of length] L'(5) by simp
  moreover have "bslice d' 48 (48 + 4 * length indices) = ?data" using L'(6) by (simp add: bslice_def)
  ultimately have "txo_buffer_matches sha height (sha ?data) (of_nat (length indices)) d'"
    using assms(6) L'(4) by (simp add: txo_buffer_matches_def unat_of_nat)
  moreover have "create_txo_buffer_parallel rt pid operator operator height indices cs L = Inr (L', buf, bump)"
    using assms(2,4,5) L2(1) L'(1) by (simp add: create_txo_buffer_parallel_def)
  ultimately show ?thesis using L'(2,3) by simp
qed

text \<open>The set-length instruction names the payer where the program expects the writer: with a
  payer other than the operator, the first step of the upload to the operator's buffer is
  refused.\<close>

theorem txo_upload_needs_operator_as_payer:
  assumes "payer \<noteq> operator" and "ai_owner (load_account L buf False) = pid" and "48 \<le> length (ai_data (load_account L buf False))"
    and "th_authorized_writer (txo_hdr (ai_data (load_account L buf False))) = operator"
  shows "set_txo_buffer_length rt pid payer operator buf n b height resize finalize L = Inl (Err IllegalOwner)"
proof -
  have "txo_set_data_length rt pid (load_account L buf False) [load_account L payer True,
      load_account L system_program_id False, load_account L operator True]
      (to_le_bytes n @ [if resize then 1 else 0] @ to_le_bytes b @ to_le_bytes height @ [if finalize then 1 else 0]) =
      Inl (Err IllegalOwner)"
    unfolding txo_set_data_length_def Let_def txo_set_len_rest using assms by (simp add: get_txo_header_def)
  then show ?thesis
    by (simp add: set_txo_buffer_length_def send_instruction_def txo_buffer_set_len_def txo_process_instruction_def)
qed

text \<open>A ledger with a finalised buffer, the operator and the system program.\<close>

abbreviation example_operator :: pubkey where
  "example_operator \<equiv> replicate 32 5"

abbreviation example_txo_key :: pubkey where
  "example_txo_key \<equiv> sample_address [txo_buffer_seed, example_operator] example_program"

definition example_ledger :: ledger where
  "example_ledger = [example_txo_key \<mapsto> example_txo 1 0 [0, 0, 0], example_operator \<mapsto> example_signer example_operator]"

lemma example_keys: "example_txo_key \<noteq> example_operator"
proof
  assume "example_txo_key = example_operator"
  then have "hd example_txo_key = hd example_operator" by simp
  then show False by (simp add: sample_address_def txo_buffer_seed_def)
qed

lemma example_ledger_load:
  "load_account example_ledger example_txo_key False = example_txo 1 0 [0, 0, 0]"
  "load_account example_ledger example_operator True = example_signer example_operator"
  using example_keys by (simp_all add: load_account_def example_ledger_def)
    (simp_all add: example_txo_def example_signer_def)

lemma batch_id_bytes: "48 \<le> length d \<Longrightarrow> from_le_bytes (bslice d 40 44) = th_batch_id (txo_hdr d)"
  by (simp add: dec_txo_header_def codec_simps)

lemma example_ensure:
  "ensure_txo_buffer_exists sample_runtime example_program example_operator example_operator example_txo_key example_ledger =
   Inr (example_ledger, 1)"
proof -
  have "example_ledger example_txo_key = Some (example_txo 1 0 [0, 0, 0])" using example_keys by (simp add: example_ledger_def)
  then show ?thesis by (simp add: ensure_txo_buffer_exists_def batch_id_bytes)
qed

lemma example_set_length:
  "\<exists>L1. set_txo_buffer_length sample_runtime example_program example_operator example_operator example_txo_key
     (of_nat (txo_data_size [3])) 1 9 True False example_ledger = Inr L1"
proof -
  let ?c = "example_txo 1 0 [0, 0, 0]" and ?sys = "load_account example_ledger system_program_id False"
  have o: "ai_owner ?c = example_program" "ai_lamports ?c = 100" by (simp_all add: example_txo_def)
  let ?h = "\<lparr> th_authorized_writer = example_operator, th_init_status = 1, th_finalized_status = 0,
      th_doge_block_height = 9, th_batch_id = 1, th_data_size = 3 \<rparr>"
  let ?a = "?c \<lparr> ai_data := put_txo_header (ai_data ?c) ?h \<rparr>"
  have len: "length (put_txo_header (ai_data ?c) ?h) = 51"
    using txo_header.write_prefix(2) [of ?h "ai_data ?c"] by (simp add: put_txo_header_def wf_txo_header_def)
  have "\<exists>r. txo_realloc_account sample_runtime ?a (example_signer example_operator) 52 = Inr r"
    by (simp add: txo_realloc_account_def sample_runtime_def o len example_signer_def)
  then obtain a q where r: "txo_realloc_account sample_runtime ?a (example_signer example_operator) 52 = Inr (a, q)"
    by (auto simp: split_paired_Ex)
  have "length (ai_data a) = 52" using txo_realloc_account_data(1) [OF sample_runtime_ok r] by simp
  then have "\<exists>r. txo_set_data_length sample_runtime example_program ?c [example_signer example_operator, ?sys,
      example_signer example_operator]
      (to_le_bytes (4 :: u32) @ [1] @ to_le_bytes (1 :: u32) @ to_le_bytes (9 :: u32) @ [0]) = Inr r"
    unfolding txo_set_data_length_def Let_def txo_set_len_rest using r
    by (simp add: get_txo_header_def o handle_batch_transition_def) (simp add: example_signer_def)
  then show ?thesis
    by (auto simp: set_txo_buffer_length_def send_instruction_def txo_buffer_set_len_def txo_process_instruction_def
        example_ledger_load txo_data_size_def)
qed

theorem txo_upload_any_order_witness:
  "\<exists>L' a. create_txo_buffer_parallel sample_runtime example_program example_operator example_operator 9 [3]
       (upload_chunks (serialize_all [3]) @ upload_chunks (serialize_all [3])) example_ledger = Inr (L', example_txo_key, 255) \<and>
     L' example_txo_key = Some a \<and> th_finalized_status (txo_hdr (ai_data a)) = 1 \<and>
     txo_buffer_matches length_digest 9 (length_digest (serialize_all [3])) 1 (ai_data a)"
proof -
  obtain L1 where L1: "set_txo_buffer_length sample_runtime example_program example_operator example_operator example_txo_key
     (of_nat (txo_data_size [3])) 1 9 True False example_ledger = Inr L1"
    using example_set_length by blast
  have pda: "rt_find_program_address sample_runtime [txo_buffer_seed, example_operator] example_program = (example_txo_key, 255)"
    by (simp add: sample_runtime_def)
  show ?thesis
    using txo_upload_any_order [OF sample_runtime_ok pda example_keys example_ensure L1, of
        "upload_chunks (serialize_all [3]) @ upload_chunks (serialize_all [3])" length_digest] by simp
qed

theorem txo_upload_needs_operator_as_payer_witness:
  "set_txo_buffer_length sample_runtime example_program example_locker example_operator example_txo_key 4 1 9 True False
     example_ledger = Inl (Err IllegalOwner)"
proof (rule txo_upload_needs_operator_as_payer)
  show "example_locker \<noteq> example_operator" by simp
qed (simp_all only: example_ledger_load, simp_all, simp add: example_txo_def)

section \<open>The generic upload\<close>

definition generic_ready :: "pubkey \<Rightarrow> pubkey \<Rightarrow> pubkey \<Rightarrow> ledger \<Rightarrow> bool" where
  "generic_ready pid buf payer L \<longleftrightarrow> buf \<noteq> payer \<and> generic_open pid (load_account L buf False) (load_account L payer True)"

definition generic_body :: "pubkey \<Rightarrow> ledger \<Rightarrow> bytes" where
  "generic_body buf L = drop 32 (ai_data (load_account L buf False))"

lemma generic_open_key:
  "generic_open pid c p \<Longrightarrow> ai_is_signer q \<Longrightarrow> ai_key q = ai_key p \<Longrightarrow> generic_open pid (c \<lparr> ai_is_signer := s \<rparr>) q"
  by (simp add: generic_open_def)

lemma write_generic_buffer_chunk_ok:
  assumes "generic_ready pid buf payer L" and "unat off + length xs \<le> length (generic_body buf L)"
  shows "\<exists>L'. write_generic_buffer_chunk rt pid payer buf L off xs = Inr L' \<and> generic_ready pid buf payer L' \<and>
    generic_body buf L' = write_at (generic_body buf L) (unat off) xs"
proof -
  let ?c = "load_account L buf False" and ?p = "load_account L payer True" and ?sys = "load_account L system_program_id False"
  have ne: "buf \<noteq> payer" and op: "generic_open pid ?c ?p" using assms(1) by (simp_all add: generic_ready_def)
  obtain d' where d': "gb_process_instruction rt pid [?c, ?p, ?sys] (2 # to_le_bytes off @ xs) = Inr [?c \<lparr> ai_data := d' \<rparr>, ?p, ?sys]"
      "generic_open pid (?c \<lparr> ai_data := d' \<rparr>) ?p" "drop 32 d' = write_at (drop 32 (ai_data ?c)) (unat off) xs"
    using generic_write_ok [OF op, of off xs rt ?sys "[]"] assms(2) by (auto simp: generic_body_def)
  let ?L = "store_accounts [?c \<lparr> ai_data := d' \<rparr>, ?p, ?sys] L"
  have run: "write_generic_buffer_chunk rt pid payer buf L off xs = Inr ?L"
    using d'(1) by (simp add: write_generic_buffer_chunk_def send_instruction_def generic_buffer_write_def)
  have c: "load_account ?L buf False = ?c \<lparr> ai_data := d', ai_is_signer := False \<rparr>" by (rule load_store_first) simp
  have "generic_open pid (load_account ?L buf False) (load_account ?L payer True)"
    unfolding c using generic_open_key [OF d'(2), of "load_account ?L payer True" False] by simp
  then have "generic_ready pid buf payer ?L" using ne by (simp add: generic_ready_def)
  moreover have "generic_body buf ?L = write_at (generic_body buf L) (unat off) xs" using d'(3) by (simp add: generic_body_def c)
  ultimately show ?thesis using run by blast
qed

interpretation generic_store: chunk_store "write_generic_buffer_chunk rt pid payer buf" "generic_body buf"
    "generic_ready pid buf payer" for rt pid payer buf
  by unfold_locales (rule write_generic_buffer_chunk_ok)

lemma generic_init_opens:
  assumes rt: "runtime_ok rt" and payer: "length payer = 32" "buf \<noteq> payer"
    and acc: "length (ai_data (load_account L buf False)) = 32"
    and run: "send_instruction (gb_process_instruction rt pid) (generic_buffer_init pid buf payer n) L = Inr L1"
    and n: "unat n \<le> 10240"
  shows "generic_ready pid buf payer L1 \<and> length (generic_body buf L1) = unat n"
proof -
  let ?c = "load_account L buf False" and ?p = "load_account L payer True" and ?sys = "load_account L system_program_id False"
  obtain accs' where r: "gb_process_instruction rt pid (?c # ?p # ?sys # []) (0 # to_le_bytes n) = Inr accs'"
      and L1: "L1 = store_accounts accs' L"
    using run by (auto simp: send_instruction_def generic_buffer_init_def result_simps)
  have key: "length (ai_key ?p) = 32" using payer(1) by simp
  obtain c' p' where c': "accs' = c' # p' # ?sys # []" "ai_owner ?c = pid"
      "ai_data c' = realloc (write_at (ai_data ?c) 0 payer) (achievable 32 (32 + unat n))" "ai_key c' = buf" "ai_owner c' = pid"
    using gb_init_data [OF rt key r] acc by auto
  have c: "load_account L1 buf False = c' \<lparr> ai_is_signer := False \<rparr>"
    unfolding L1 c'(1) using c'(4) by (rule load_store_first)
  have a: "achievable 32 (32 + unat n) = 32 + unat n" using n by (simp add: achievable_def)
  have w: "write_at (ai_data ?c) 0 payer = payer" using acc payer(1) by (simp add: write_at_def)
  have "generic_writer (ai_data c') = payer"
    using payer(1) by (simp add: c'(3) a w slice_realloc dec_generic_header_def bslice_whole)
  then show ?thesis
    using payer(2) c'(3,5) by (simp add: generic_ready_def generic_open_def generic_body_def c a)
qed

text \<open>A generic buffer for at most 10240 bytes is complete in every schedule: when the account is
  created and its initialisation is accepted, the chunk writes succeed in every order and with
  every repetition, and the body of the buffer is the data.\<close>

theorem generic_upload_any_order:
  assumes "runtime_ok rt" and "length payer = 32" and "buf \<noteq> payer" and "length data \<le> 10240"
    and "rt_create_account rt [] (load_account L payer True) (load_account L buf True) (rt_minimum_balance rt 32) 32 pid = Inr (p, a)"
    and "send_instruction (gb_process_instruction rt pid) (generic_buffer_init pid buf payer (of_nat (length data)))
      (store_accounts [p, a] L) = Inr L1"
    and "set cs = set (upload_chunks data)"
  shows "\<exists>L'. create_generic_buffer rt pid payer buf data cs L = Inr L' \<and> generic_body buf L' = data"
proof -
  have n: "unat (of_nat (length data) :: u32) = length data" using assms(4) by (simp add: unat_of_nat)
  have pa: "ai_key p = payer" "ai_key a = buf" "length (ai_data a) = 32" using runtime_okD(5) [OF assms(1,5)] by simp_all
  have "load_account (store_accounts [p, a] L) buf False = a \<lparr> ai_is_signer := False \<rparr>"
    using pa assms(3) by (intro load_store_second) auto
  then have len: "length (ai_data (load_account (store_accounts [p, a] L) buf False)) = 32" using pa(3) by simp
  have ready: "generic_ready pid buf payer L1" "length (generic_body buf L1) = length data"
    using generic_init_opens [OF assms(1,2,3) len assms(6)] n assms(4) by simp_all
  obtain L' where "send_chunks (write_generic_buffer_chunk rt pid payer buf) cs L1 = Inr L'" "generic_body buf L' = data"
    using generic_store.upload_ok [OF assms(7) ready(1)] ready(2) assms(4) by auto
  then show ?thesis using assms(5,6) by (auto simp: create_generic_buffer_def)
qed

abbreviation example_new_key :: pubkey where
  "example_new_key \<equiv> replicate 32 8"

definition example_new_account :: AccountInfo where
  "example_new_account = \<lparr> ai_key = example_new_key, ai_owner = example_program, ai_lamports = 32, ai_data = zero32,
     ai_is_signer = True \<rparr>"

lemma example_create:
  "rt_create_account sample_runtime [] (load_account example_ledger example_operator True)
     (load_account example_ledger example_new_key True) (rt_minimum_balance sample_runtime 32) 32 example_program =
   Inr ((example_signer example_operator) \<lparr> ai_lamports := 968 \<rparr>, example_new_account)"
proof -
  have "hd example_txo_key \<noteq> hd example_new_key" by (simp add: sample_address_def txo_buffer_seed_def)
  then have "example_txo_key \<noteq> example_new_key" by metis
  then have "example_ledger example_new_key = None" by (simp add: example_ledger_def)
  then show ?thesis
    unfolding example_ledger_load
    by (simp add: load_account_def empty_account_def sample_runtime_def example_new_account_def)
       (simp add: example_signer_def)
qed

lemma example_generic_init:
  "\<exists>L1. send_instruction (gb_process_instruction sample_runtime example_program)
     (generic_buffer_init example_program example_new_key example_operator (of_nat (length [1 :: u8, 2, 3])))
     (store_accounts [(example_signer example_operator) \<lparr> ai_lamports := 968 \<rparr>, example_new_account] example_ledger) = Inr L1"
proof -
  let ?L = "store_accounts [(example_signer example_operator) \<lparr> ai_lamports := 968 \<rparr>, example_new_account] example_ledger"
  have l: "load_account ?L example_operator True = (example_signer example_operator) \<lparr> ai_lamports := 968, ai_is_signer := True \<rparr>"
    by (rule load_store_first) (simp add: example_signer_def)
  have n: "load_account ?L example_new_key False = example_new_account \<lparr> ai_is_signer := False \<rparr>"
    by (rule load_store_second) (simp_all add: example_signer_def example_new_account_def)
  have "\<exists>r. gb_init sample_runtime (example_new_account \<lparr> ai_is_signer := False \<rparr>)
      ((example_signer example_operator) \<lparr> ai_lamports := 968, ai_is_signer := True \<rparr>) (to_le_bytes (3 :: u32)) = Inr r"
    by (simp add: gb_init_def gb_realloc_account_def Let_def dec_generic_header_def enc_generic_header_def codec_simps
        example_new_account_def example_signer_def sample_runtime_def bslice_whole)
  then show ?thesis
    by (auto simp: send_instruction_def generic_buffer_init_def gb_process_instruction_def l n)
      (auto simp: example_new_account_def)
qed

theorem generic_upload_any_order_witness:
  "\<exists>L'. create_generic_buffer sample_runtime example_program example_operator example_new_key [1, 2, 3]
     (upload_chunks [1, 2, 3] @ upload_chunks [1, 2, 3]) example_ledger = Inr L' \<and> generic_body example_new_key L' = [1, 2, 3]"
proof -
  obtain L1 where L1: "send_instruction (gb_process_instruction sample_runtime example_program)
     (generic_buffer_init example_program example_new_key example_operator (of_nat (length [1 :: u8, 2, 3])))
     (store_accounts [(example_signer example_operator) \<lparr> ai_lamports := 968 \<rparr>, example_new_account] example_ledger) = Inr L1"
    using example_generic_init by blast
  show ?thesis
    by (rule generic_upload_any_order [OF sample_runtime_ok _ _ _ example_create L1]) simp_all
qed

end
