(* ===== verification/BridgeInstructions.thy ===== *)
theory BridgeInstructions
  imports BufferClient
begin

text \<open>
  The instructions of the bridge program: the layouts of their data
  (\<open>psy-doge-solana-core/src/instructions/doge_bridge.rs\<close> and \<open>manual_claim.rs\<close>), the dispatch of
  the program (\<open>process_instruction\<close> of \<open>programs/doge-bridge/src/processor.rs\<close>) and the
  instructions that the client builds (\<open>clients/rust/src/instructions.rs\<close>). The structures are
  \<open>repr(C)\<close> and have no padding, so their bytes are the bytes of their fields in order.
\<close>

section \<open>The data of the instructions\<close>

record BlockUpdateFixedData =
  bu_proof :: bytes
  bu_header :: PsyBridgeHeader

definition enc_block_update :: "BlockUpdateFixedData \<Rightarrow> bytes" where
  "enc_block_update b = bu_proof b @ enc_header (bu_header b)"

definition dec_block_update :: "bytes \<Rightarrow> BlockUpdateFixedData" where
  "dec_block_update bs = \<lparr> bu_proof = bslice bs 0 256, bu_header = dec_header (bslice bs 256 576) \<rparr>"

definition wf_block_update :: "BlockUpdateFixedData \<Rightarrow> bool" where
  "wf_block_update b \<longleftrightarrow> length (bu_proof b) = 256 \<and> wf_header (bu_header b)"

lemmas header_codec = header.enc_length header.dec_enc header.enc_dec header.wf_dec

interpretation block_update_data: fixed_codec enc_block_update dec_block_update wf_block_update "576 :: nat"
  by unfold_locales (simp_all add: enc_block_update_def dec_block_update_def wf_block_update_def header_codec codec_simps)

text \<open>\<open>ProcessReorgBlocksFixedData\<close> has the same two fields.\<close>

type_synonym ProcessReorgBlocksFixedData = BlockUpdateFixedData

definition enc_withdrawal_request :: "PsyWithdrawalRequest \<Rightarrow> bytes" where
  "enc_withdrawal_request r = to_le_bytes (wr_amount_sats r) @ to_le_bytes (wr_address_type r) @ wr_recipient_address r"

definition dec_withdrawal_request :: "bytes \<Rightarrow> PsyWithdrawalRequest" where
  "dec_withdrawal_request bs =
     \<lparr> wr_amount_sats = from_le_bytes (bslice bs 0 8), wr_address_type = from_le_bytes (bslice bs 8 12),
       wr_recipient_address = bslice bs 12 32 \<rparr>"

interpretation withdrawal_request: fixed_codec enc_withdrawal_request dec_withdrawal_request wf_withdrawal_request "32 :: nat"
  by unfold_locales
     (simp_all add: enc_withdrawal_request_def dec_withdrawal_request_def wf_withdrawal_request_def codec_simps)

record ProcessWithdrawalInstructionData =
  pw_proof :: bytes
  pw_new_return_output :: PsyReturnTxOutput
  pw_new_spent_txo_tree_root :: QHash256
  pw_new_next_processed_withdrawals_index :: u64

definition enc_process_withdrawal :: "ProcessWithdrawalInstructionData \<Rightarrow> bytes" where
  "enc_process_withdrawal p = pw_proof p @ enc_return_output (pw_new_return_output p) @ pw_new_spent_txo_tree_root p @
     to_le_bytes (pw_new_next_processed_withdrawals_index p)"

definition dec_process_withdrawal :: "bytes \<Rightarrow> ProcessWithdrawalInstructionData" where
  "dec_process_withdrawal bs =
     \<lparr> pw_proof = bslice bs 0 256, pw_new_return_output = dec_return_output (bslice bs 256 304),
       pw_new_spent_txo_tree_root = bslice bs 304 336, pw_new_next_processed_withdrawals_index = from_le_bytes (bslice bs 336 344) \<rparr>"

definition wf_process_withdrawal :: "ProcessWithdrawalInstructionData \<Rightarrow> bool" where
  "wf_process_withdrawal p \<longleftrightarrow> length (pw_proof p) = 256 \<and> wf_return_output (pw_new_return_output p) \<and>
     length (pw_new_spent_txo_tree_root p) = 32"

lemmas return_output_codec = return_output.enc_length return_output.dec_enc return_output.enc_dec return_output.wf_dec

interpretation process_withdrawal_data:
  fixed_codec enc_process_withdrawal dec_process_withdrawal wf_process_withdrawal "344 :: nat"
  by unfold_locales (simp_all add: enc_process_withdrawal_def dec_process_withdrawal_def wf_process_withdrawal_def
      return_output_codec codec_simps)

record ProcessManualDepositInstructionData =
  md_tx_hash :: QHash256
  md_recent_block_merkle_tree_root :: QHash256
  md_recent_auto_claim_txo_root :: QHash256
  md_combined_txo_index :: u64
  md_depositor_solana_public_key :: pubkey
  md_deposit_amount_sats :: u64

definition enc_manual_deposit :: "ProcessManualDepositInstructionData \<Rightarrow> bytes" where
  "enc_manual_deposit p = md_tx_hash p @ md_recent_block_merkle_tree_root p @ md_recent_auto_claim_txo_root p @
     to_le_bytes (md_combined_txo_index p) @ md_depositor_solana_public_key p @ to_le_bytes (md_deposit_amount_sats p)"

definition dec_manual_deposit :: "bytes \<Rightarrow> ProcessManualDepositInstructionData" where
  "dec_manual_deposit bs =
     \<lparr> md_tx_hash = bslice bs 0 32, md_recent_block_merkle_tree_root = bslice bs 32 64,
       md_recent_auto_claim_txo_root = bslice bs 64 96, md_combined_txo_index = from_le_bytes (bslice bs 96 104),
       md_depositor_solana_public_key = bslice bs 104 136, md_deposit_amount_sats = from_le_bytes (bslice bs 136 144) \<rparr>"

definition wf_manual_deposit :: "ProcessManualDepositInstructionData \<Rightarrow> bool" where
  "wf_manual_deposit p \<longleftrightarrow> length (md_tx_hash p) = 32 \<and> length (md_recent_block_merkle_tree_root p) = 32 \<and>
     length (md_recent_auto_claim_txo_root p) = 32 \<and> length (md_depositor_solana_public_key p) = 32"

interpretation manual_deposit_data: fixed_codec enc_manual_deposit dec_manual_deposit wf_manual_deposit "144 :: nat"
  by unfold_locales (simp_all add: enc_manual_deposit_def dec_manual_deposit_def wf_manual_deposit_def codec_simps)

definition enc_initialize :: "InitializeBridgeInstructionData \<Rightarrow> bytes" where
  "enc_initialize i = ii_operator_pubkey i @ ii_fee_spender_pubkey i @ ii_doge_mint i @ enc_header (ii_bridge_header i) @
     enc_return_output (ii_start_return_txo_output i) @ enc_config (ii_config_params i) @ ii_custodian_wallet_config_hash i"

definition dec_initialize :: "bytes \<Rightarrow> InitializeBridgeInstructionData" where
  "dec_initialize bs =
     \<lparr> ii_operator_pubkey = bslice bs 0 32, ii_fee_spender_pubkey = bslice bs 32 64, ii_doge_mint = bslice bs 64 96,
       ii_bridge_header = dec_header (bslice bs 96 416), ii_start_return_txo_output = dec_return_output (bslice bs 416 464),
       ii_config_params = dec_config (bslice bs 464 512), ii_custodian_wallet_config_hash = bslice bs 512 544 \<rparr>"

definition wf_initialize :: "InitializeBridgeInstructionData \<Rightarrow> bool" where
  "wf_initialize i \<longleftrightarrow> length (ii_operator_pubkey i) = 32 \<and> length (ii_fee_spender_pubkey i) = 32 \<and>
     length (ii_doge_mint i) = 32 \<and> wf_header (ii_bridge_header i) \<and> wf_return_output (ii_start_return_txo_output i) \<and>
     length (ii_custodian_wallet_config_hash i) = 32"

lemmas config_codec = config.enc_length [simplified] config.dec_enc [simplified] config.enc_dec

interpretation initialize_data: fixed_codec enc_initialize dec_initialize wf_initialize "544 :: nat"
  by unfold_locales (simp_all add: enc_initialize_def dec_initialize_def wf_initialize_def
      header_codec return_output_codec config_codec codec_simps)

section \<open>Dispatch\<close>

datatype BridgeInstruction =
    Initialize InitializeBridgeInstructionData
  | BlockUpdate bytes PsyBridgeHeader u8 u8
  | RequestWithdrawal PsyWithdrawalRequest
  | ProcessWithdrawal ProcessWithdrawalInstructionData
  | OperatorWithdrawFees
  | ProcessManualDeposit ProcessManualDepositInstructionData
  | ReplayWithdrawal
  | ProcessMintGroup u16 u8 bool
  | ProcessReorgBlocks bytes PsyBridgeHeader "FinalizedBlockMintTxoInfo list" u8 u8
  | ProcessMintGroupAutoAdvance u16 u8 u8 bool
  | SnapshotWithdrawals

text \<open>\<open>BridgeError\<close> of the program (\<open>error.rs\<close>): its discriminants become custom error codes.\<close>

datatype BridgeError = CoreError | BridgeSerializationError | InvalidPDA | InvalidAccountInput | UnauthorizedManualClaimer

fun bridge_error :: "BridgeError \<Rightarrow> ProgramError" where
  "bridge_error CoreError = Custom 0"
| "bridge_error BridgeSerializationError = Custom 1"
| "bridge_error InvalidPDA = Custom 2"
| "bridge_error InvalidAccountInput = Custom 3"
| "bridge_error UnauthorizedManualClaimer = Custom 4"

definition reorg_reader_new :: "bytes \<Rightarrow> (bytes \<times> PsyBridgeHeader \<times> FinalizedBlockMintTxoInfo list) option" where
  "reorg_reader_new data =
     (let fixed_size = 576; item_size = 64
      in if length data < fixed_size then None
      else let fixed = dec_block_update (bslice data 0 fixed_size);
               remaining_len = length data - fixed_size;
               items = (if remaining_len > 0 then remaining_len div item_size else 0)
      in Some (bu_proof fixed, bu_header fixed,
           map (\<lambda>i. dec_mint_txo_info (bslice data (fixed_size + i * item_size) (fixed_size + i * item_size + item_size)))
             [0..<items]))"

definition decode_instruction :: "bytes \<Rightarrow> BridgeInstruction ProgramResult" where
  "decode_instruction instruction_data =
     (if instruction_data = [] then Inl (Err (bridge_error BridgeSerializationError))
      else let discriminator = instruction_data ! 0
      in if length instruction_data < 8 then Inl Panic
      else let data = drop 8 instruction_data
      in if discriminator = 0
      then if length data \<noteq> 544 then Inl (Err (bridge_error BridgeSerializationError)) else Inr (Initialize (dec_initialize data))
      else if discriminator = 1
      then if length data \<noteq> 576 then Inl (Err (bridge_error BridgeSerializationError))
           else let fixed = dec_block_update data
                in Inr (BlockUpdate (bu_proof fixed) (bu_header fixed) (instruction_data ! 6) (instruction_data ! 7))
      else if discriminator = 8
      then (case reorg_reader_new data of None \<Rightarrow> Inl (Err (bridge_error BridgeSerializationError))
            | Some (proof, header, blocks) \<Rightarrow>
                Inr (ProcessReorgBlocks proof header blocks (instruction_data ! 6) (instruction_data ! 7)))
      else if discriminator = 2
      then if length data \<noteq> 32 then Inl (Err (bridge_error BridgeSerializationError))
           else Inr (RequestWithdrawal (dec_withdrawal_request data))
      else if discriminator = 3
      then if length data \<noteq> 344 then Inl (Err (bridge_error BridgeSerializationError))
           else Inr (ProcessWithdrawal (dec_process_withdrawal data))
      else if discriminator = 4 then Inr OperatorWithdrawFees
      else if discriminator = 5
      then if length data \<noteq> 144 then Inl (Err (bridge_error BridgeSerializationError))
           else Inr (ProcessManualDeposit (dec_manual_deposit data))
      else if discriminator = 6 then Inr ReplayWithdrawal
      else if discriminator = 7
      then if length data \<noteq> 4 then Inl (Err (bridge_error BridgeSerializationError))
           else Inr (ProcessMintGroup (from_le_bytes (bslice data 0 2)) (data ! 2) (data ! 3 \<noteq> 0))
      else if discriminator = 9
      then if length data \<noteq> 4 then Inl (Err (bridge_error BridgeSerializationError))
           else Inr (ProcessMintGroupAutoAdvance (from_le_bytes (bslice data 0 2)) (data ! 2) (instruction_data ! 7) (data ! 3 \<noteq> 0))
      else if discriminator = 10 then Inr SnapshotWithdrawals
      else Inl (Err (bridge_error BridgeSerializationError)))"

section \<open>The instructions of the client\<close>

definition gen_aligned_instruction :: "u8 \<Rightarrow> bytes \<Rightarrow> bytes" where
  "gen_aligned_instruction instruction_discriminator data_struct_bytes =
     replicate 8 instruction_discriminator @ data_struct_bytes"

definition gen_aligned_instruction_with_bumps :: "u8 \<Rightarrow> bytes \<Rightarrow> bytes \<Rightarrow> bytes ProgramResult" where
  "gen_aligned_instruction_with_bumps instruction_discriminator data_struct_bytes bumps =
     (if length bumps \<ge> 7 then Inl Panic
      else Inr (replicate (8 - length bumps) instruction_discriminator @ bumps @ data_struct_bytes))"

text \<open>The addresses that the client is compiled with: the programs, the token program and the clock.\<close>

record program_ids =
  pid_doge_bridge :: pubkey
  pid_pending_mint_buffer :: pubkey
  pid_txo_buffer :: pubkey
  pid_generic_buffer :: pubkey
  pid_manual_claim :: pubkey
  pid_spl_token :: pubkey
  pid_clock :: pubkey

text \<open>The literal \<open>b"bridge_state"\<close>.\<close>

definition bridge_state_seed :: bytes where
  "bridge_state_seed = [98, 114, 105, 100, 103, 101, 95, 115, 116, 97, 116, 101]"

definition bridge_state_address :: "runtime \<Rightarrow> pubkey \<Rightarrow> pubkey" where
  "bridge_state_address rt program_id = fst (rt_find_program_address rt [bridge_state_seed] program_id)"

record InitializeBridgeParams =
  ip_bridge_header :: PsyBridgeHeader
  ip_start_return_txo_output :: PsyReturnTxOutput
  ip_config_params :: PsyBridgeConfig
  ip_custodian_wallet_config_hash :: QHash256

definition initialize_bridge ::
  "runtime \<Rightarrow> program_ids \<Rightarrow> pubkey \<Rightarrow> pubkey \<Rightarrow> pubkey \<Rightarrow> pubkey \<Rightarrow> InitializeBridgeParams \<Rightarrow> Instruction" where
  "initialize_bridge rt ids payer operator_key fee_spender doge_mint params =
     \<lparr> ix_program_id = pid_doge_bridge ids,
       ix_accounts = [account_new (bridge_state_address rt (pid_doge_bridge ids)) False, account_new payer True,
         account_new_readonly system_program_id False],
       ix_data = gen_aligned_instruction 0 (enc_initialize
         \<lparr> ii_operator_pubkey = operator_key, ii_fee_spender_pubkey = fee_spender, ii_doge_mint = doge_mint,
           ii_bridge_header = ip_bridge_header params, ii_start_return_txo_output = ip_start_return_txo_output params,
           ii_config_params = ip_config_params params, ii_custodian_wallet_config_hash = ip_custodian_wallet_config_hash params \<rparr>) \<rparr>"

definition block_update_ix ::
  "runtime \<Rightarrow> program_ids \<Rightarrow> pubkey \<Rightarrow> pubkey \<Rightarrow> bytes \<Rightarrow> PsyBridgeHeader \<Rightarrow> pubkey \<Rightarrow> pubkey \<Rightarrow> pubkey \<Rightarrow> u8 \<Rightarrow> u8 \<Rightarrow>
   Instruction ProgramResult" where
  "block_update_ix rt ids program_id payer proof header operator mint_buffer txo_buffer mint_buffer_bump txo_buffer_bump =
     rbind (gen_aligned_instruction_with_bumps 1 (enc_block_update \<lparr> bu_proof = proof, bu_header = header \<rparr>)
       [mint_buffer_bump, txo_buffer_bump]) (\<lambda>data.
     Inr \<lparr> ix_program_id = program_id,
       ix_accounts = [account_new (bridge_state_address rt program_id) False, account_new mint_buffer False,
         account_new txo_buffer False, account_new_readonly operator True, account_new payer True,
         account_new_readonly (pid_pending_mint_buffer ids) False, account_new_readonly (pid_txo_buffer ids) False],
       ix_data = data \<rparr>)"

definition process_reorg_blocks_ix ::
  "runtime \<Rightarrow> program_ids \<Rightarrow> pubkey \<Rightarrow> pubkey \<Rightarrow> bytes \<Rightarrow> PsyBridgeHeader \<Rightarrow> FinalizedBlockMintTxoInfo list \<Rightarrow> pubkey \<Rightarrow> pubkey \<Rightarrow>
   pubkey \<Rightarrow> u8 \<Rightarrow> u8 \<Rightarrow> Instruction ProgramResult" where
  "process_reorg_blocks_ix rt ids program_id payer proof header extra_blocks operator mint_buffer txo_buffer
       mint_buffer_bump txo_buffer_bump =
     rbind (gen_aligned_instruction_with_bumps 8 (enc_block_update \<lparr> bu_proof = proof, bu_header = header \<rparr>)
       [mint_buffer_bump, txo_buffer_bump]) (\<lambda>data.
     Inr \<lparr> ix_program_id = program_id,
       ix_accounts = [account_new (bridge_state_address rt program_id) False, account_new mint_buffer False,
         account_new txo_buffer False, account_new_readonly operator True, account_new payer True,
         account_new_readonly (pid_pending_mint_buffer ids) False, account_new_readonly (pid_txo_buffer ids) False],
       ix_data = data @ concat (map enc_mint_txo_info extra_blocks) \<rparr>)"

definition request_withdrawal_ix ::
  "runtime \<Rightarrow> program_ids \<Rightarrow> pubkey \<Rightarrow> pubkey \<Rightarrow> pubkey \<Rightarrow> pubkey \<Rightarrow> bytes \<Rightarrow> u64 \<Rightarrow> u32 \<Rightarrow> Instruction" where
  "request_withdrawal_ix rt ids program_id user_authority mint user_token_account recipient_address amount_sats address_type =
     \<lparr> ix_program_id = program_id,
       ix_accounts = [account_new (bridge_state_address rt program_id) False, account_new user_token_account False,
         account_new mint False, account_new_readonly user_authority True, account_new_readonly (pid_spl_token ids) False],
       ix_data = gen_aligned_instruction 2
         (enc_withdrawal_request (withdrawal_request_new recipient_address amount_sats address_type)) \<rparr>"

definition process_mint_group_ix ::
  "runtime \<Rightarrow> program_ids \<Rightarrow> pubkey \<Rightarrow> pubkey \<Rightarrow> pubkey \<Rightarrow> pubkey \<Rightarrow> pubkey list \<Rightarrow> u16 \<Rightarrow> u8 \<Rightarrow> bool \<Rightarrow> Instruction" where
  "process_mint_group_ix rt ids program_id operator mint_buffer doge_mint recipients group_index mint_buffer_bump should_unlock =
     \<lparr> ix_program_id = program_id,
       ix_accounts = [account_new (bridge_state_address rt program_id) False, account_new mint_buffer False,
         account_new_readonly operator True, account_new doge_mint False, account_new operator True,
         account_new_readonly (pid_pending_mint_buffer ids) False, account_new_readonly (pid_spl_token ids) False] @
         map (\<lambda>r. account_new r False) recipients,
       ix_data = gen_aligned_instruction 7
         (to_le_bytes group_index @ [mint_buffer_bump] @ [if should_unlock then 1 else 0]) \<rparr>"

definition process_mint_group_auto_advance_ix ::
  "runtime \<Rightarrow> program_ids \<Rightarrow> pubkey \<Rightarrow> pubkey \<Rightarrow> pubkey \<Rightarrow> pubkey \<Rightarrow> pubkey \<Rightarrow> pubkey list \<Rightarrow> u16 \<Rightarrow> u8 \<Rightarrow> u8 \<Rightarrow> bool \<Rightarrow>
   Instruction ProgramResult" where
  "process_mint_group_auto_advance_ix rt ids program_id operator mint_buffer txo_buffer doge_mint recipients group_index
       mint_buffer_bump txo_buffer_bump should_unlock =
     rbind (gen_aligned_instruction_with_bumps 9
       (to_le_bytes group_index @ [mint_buffer_bump] @ [if should_unlock then 1 else 0]) [mint_buffer_bump, txo_buffer_bump])
       (\<lambda>data.
     Inr \<lparr> ix_program_id = program_id,
       ix_accounts = [account_new (bridge_state_address rt program_id) False, account_new mint_buffer False,
         account_new txo_buffer False, account_new_readonly operator True, account_new doge_mint False,
         account_new operator True, account_new_readonly (pid_pending_mint_buffer ids) False,
         account_new_readonly (pid_txo_buffer ids) False, account_new_readonly (pid_spl_token ids) False] @
         map (\<lambda>r. account_new r False) recipients,
       ix_data = data \<rparr>)"

definition process_manual_deposit_ix ::
  "runtime \<Rightarrow> program_ids \<Rightarrow> pubkey \<Rightarrow> pubkey \<Rightarrow> pubkey \<Rightarrow> pubkey \<Rightarrow> ProcessManualDepositInstructionData \<Rightarrow> Instruction" where
  "process_manual_deposit_ix rt ids program_id manual_claim_program_id mint recipient params =
     \<lparr> ix_program_id = program_id,
       ix_accounts = [account_new (bridge_state_address rt program_id) False, account_new recipient False,
         account_new mint False, account_new_readonly (pid_spl_token ids) False,
         account_new_readonly manual_claim_program_id True],
       ix_data = gen_aligned_instruction 5 (enc_manual_deposit params) \<rparr>"

definition operator_withdraw_fees_ix :: "runtime \<Rightarrow> program_ids \<Rightarrow> pubkey \<Rightarrow> pubkey \<Rightarrow> pubkey \<Rightarrow> pubkey \<Rightarrow> Instruction" where
  "operator_withdraw_fees_ix rt ids program_id operator operator_token_account doge_mint =
     \<lparr> ix_program_id = program_id,
       ix_accounts = [account_new (bridge_state_address rt program_id) False, account_new operator_token_account False,
         account_new doge_mint False, account_new operator True, account_new_readonly (pid_spl_token ids) False],
       ix_data = gen_aligned_instruction 4 [] \<rparr>"

definition snapshot_withdrawals_ix :: "runtime \<Rightarrow> pubkey \<Rightarrow> pubkey \<Rightarrow> pubkey \<Rightarrow> Instruction" where
  "snapshot_withdrawals_ix rt program_id operator payer =
     \<lparr> ix_program_id = program_id,
       ix_accounts = [account_new (bridge_state_address rt program_id) False, account_new_readonly operator True,
         account_new payer True],
       ix_data = gen_aligned_instruction 10 [] \<rparr>"

text \<open>The literals \<open>b"Bridge"\<close>, \<open>b"fee_collector"\<close>, \<open>b"Sequence"\<close> and \<open>b"__event_authority"\<close>.\<close>

definition wormhole_bridge_seed :: bytes where
  "wormhole_bridge_seed = [66, 114, 105, 100, 103, 101]"

definition fee_collector_seed :: bytes where
  "fee_collector_seed = [102, 101, 101, 95, 99, 111, 108, 108, 101, 99, 116, 111, 114]"

definition sequence_seed :: bytes where
  "sequence_seed = [83, 101, 113, 117, 101, 110, 99, 101]"

definition event_authority_seed :: bytes where
  "event_authority_seed = [95, 95, 101, 118, 101, 110, 116, 95, 97, 117, 116, 104, 111, 114, 105, 116, 121]"

text \<open>The twelve accounts of a withdrawal and of its replay, in the order of the source.\<close>

definition wormhole_accounts :: "runtime \<Rightarrow> program_ids \<Rightarrow> pubkey \<Rightarrow> pubkey \<Rightarrow> pubkey \<Rightarrow> pubkey \<Rightarrow> pubkey \<Rightarrow> AccountMeta list" where
  "wormhole_accounts rt ids program_id payer generic_buffer_account wormhole_shim_program_id wormhole_core_program_id =
     (let find = (\<lambda>seeds program. fst (rt_find_program_address rt seeds program));
          bridge_state = bridge_state_address rt program_id;
          bridge_config = find [wormhole_bridge_seed] wormhole_core_program_id;
          fee_collector = find [fee_collector_seed] wormhole_core_program_id;
          emitter = bridge_state;
          sequence = find [sequence_seed, emitter] wormhole_core_program_id;
          message = find [emitter] wormhole_shim_program_id;
          event_authority = find [event_authority_seed] wormhole_shim_program_id
      in [account_new bridge_state False, account_new_readonly generic_buffer_account False,
          account_new_readonly wormhole_shim_program_id False, account_new bridge_config False, account_new message False,
          account_new sequence False, account_new payer True, account_new fee_collector False,
          account_new_readonly (pid_clock ids) False, account_new_readonly system_program_id False,
          account_new_readonly wormhole_core_program_id False, account_new_readonly event_authority False])"

definition process_withdrawal_ix ::
  "runtime \<Rightarrow> program_ids \<Rightarrow> pubkey \<Rightarrow> pubkey \<Rightarrow> pubkey \<Rightarrow> pubkey \<Rightarrow> pubkey \<Rightarrow> ProcessWithdrawalInstructionData \<Rightarrow> Instruction" where
  "process_withdrawal_ix rt ids program_id payer generic_buffer_account wormhole_shim_program_id wormhole_core_program_id
       data_struct =
     \<lparr> ix_program_id = program_id,
       ix_accounts = wormhole_accounts rt ids program_id payer generic_buffer_account wormhole_shim_program_id
         wormhole_core_program_id,
       ix_data = gen_aligned_instruction 3 (enc_process_withdrawal data_struct) \<rparr>"

definition process_replay_withdrawal_ix ::
  "runtime \<Rightarrow> program_ids \<Rightarrow> pubkey \<Rightarrow> pubkey \<Rightarrow> pubkey \<Rightarrow> pubkey \<Rightarrow> pubkey \<Rightarrow> Instruction" where
  "process_replay_withdrawal_ix rt ids program_id payer generic_buffer_account wormhole_shim_program_id
       wormhole_core_program_id =
     \<lparr> ix_program_id = program_id,
       ix_accounts = wormhole_accounts rt ids program_id payer generic_buffer_account wormhole_shim_program_id
         wormhole_core_program_id,
       ix_data = gen_aligned_instruction 6 [] \<rparr>"

section \<open>What the client encodes is what the program decodes\<close>

lemma aligned_parts [simp]:
  "gen_aligned_instruction d data \<noteq> []" "gen_aligned_instruction d data ! 0 = d"
  "length (gen_aligned_instruction d data) = 8 + length data" "drop 8 (gen_aligned_instruction d data) = data"
  by (simp_all add: gen_aligned_instruction_def nth_append)

abbreviation (input) two_bumps :: "u8 \<Rightarrow> u8 \<Rightarrow> u8 \<Rightarrow> bytes \<Rightarrow> bytes" where
  "two_bumps d b1 b2 data \<equiv> replicate 6 d @ b1 # b2 # data"

lemma with_bumps_ok: "gen_aligned_instruction_with_bumps d data [b1, b2] = Inr (two_bumps d b1 b2 data)"
  by (simp add: gen_aligned_instruction_with_bumps_def)

lemma two_bumps_parts [simp]:
  "two_bumps d b1 b2 data ! 0 = d" "two_bumps d b1 b2 data ! 6 = b1" "two_bumps d b1 b2 data ! 7 = b2"
  "drop 8 (two_bumps d b1 b2 data) = data"
  by (simp_all add: nth_append)

lemma reorg_reader_ok:
  assumes "wf_block_update fixed" and "list_all wf_mint_txo_info blocks"
  shows "reorg_reader_new (enc_block_update fixed @ concat (map enc_mint_txo_info blocks)) =
    Some (bu_proof fixed, bu_header fixed, blocks)"
proof -
  let ?items = "concat (map enc_mint_txo_info blocks)"
  have wf: "\<forall>b \<in> set blocks. wf_mint_txo_info b" using assms(2) by (simp add: list_all_iff)
  have "map (\<lambda>i. dec_mint_txo_info (bslice ?items (64 * i) (64 * i + 64))) [0..<length blocks] = blocks"
    using mint_txo_info.sequence_nth [OF wf] wf by (intro nth_equalityI) (simp_all add: mint_txo_info.dec_enc)
  then show ?thesis
    using block_update_data.read_prefix [OF assms(1), of ?items] assms(1)
    by (simp add: reorg_reader_new_def mint_txo_info.sequence_length [OF wf] block_update_data.enc_length
        bslice_append_right mult.commute add.commute)
qed

lemma mint_group_flags [simp]:
  "(to_le_bytes (gi :: u16) @ [b, u]) ! 2 = b" "(to_le_bytes (gi :: u16) @ [b, u]) ! 3 = u"
  by (simp_all add: nth_append)

text \<open>C30. Every instruction that the client builds for the bridge program is decoded by the program's
  dispatch to the operation and the arguments the client meant: the header, proof and bumps of a
  block update, all skipped blocks of a reorganisation in order, the request of a withdrawal, the
  group, bumps and unlock flag of a mint group. The bumps of the alignment prefix do not disturb
  the discriminator.
\<close>

theorem client_instructions_decode:
  assumes "wf_initialize init" and "wf_block_update fixed" and "list_all wf_mint_txo_info blocks"
    and "length address = 20" and "wf_process_withdrawal pw" and "wf_manual_deposit md"
  shows "decode_instruction (ix_data (initialize_bridge rt ids k (ii_operator_pubkey init) (ii_fee_spender_pubkey init)
           (ii_doge_mint init) \<lparr> ip_bridge_header = ii_bridge_header init,
             ip_start_return_txo_output = ii_start_return_txo_output init, ip_config_params = ii_config_params init,
             ip_custodian_wallet_config_hash = ii_custodian_wallet_config_hash init \<rparr>)) = Inr (Initialize init) \<and>
     rbind (block_update_ix rt ids p k (bu_proof fixed) (bu_header fixed) op mb tb b1 b2) (decode_instruction \<circ> ix_data) =
         Inr (BlockUpdate (bu_proof fixed) (bu_header fixed) b1 b2) \<and>
     rbind (process_reorg_blocks_ix rt ids p k (bu_proof fixed) (bu_header fixed) blocks op mb tb b1 b2)
           (decode_instruction \<circ> ix_data) = Inr (ProcessReorgBlocks (bu_proof fixed) (bu_header fixed) blocks b1 b2) \<and>
     decode_instruction (ix_data (request_withdrawal_ix rt ids p u m t address amount ty)) =
         Inr (RequestWithdrawal (withdrawal_request_new address amount ty)) \<and>
     decode_instruction (ix_data (process_withdrawal_ix rt ids p k g shim core pw)) = Inr (ProcessWithdrawal pw) \<and>
     decode_instruction (ix_data (operator_withdraw_fees_ix rt ids p op t m)) = Inr OperatorWithdrawFees \<and>
     decode_instruction (ix_data (process_manual_deposit_ix rt ids p mc m r md)) = Inr (ProcessManualDeposit md) \<and>
     decode_instruction (ix_data (process_replay_withdrawal_ix rt ids p k g shim core)) = Inr ReplayWithdrawal \<and>
     decode_instruction (ix_data (process_mint_group_ix rt ids p op mb m recipients gi b1 unlock)) =
         Inr (ProcessMintGroup gi b1 unlock) \<and>
     rbind (process_mint_group_auto_advance_ix rt ids p op mb tb m recipients gi b1 b2 unlock)
           (decode_instruction \<circ> ix_data) = Inr (ProcessMintGroupAutoAdvance gi b1 b2 unlock) \<and>
     decode_instruction (ix_data (snapshot_withdrawals_ix rt p op k)) = Inr SnapshotWithdrawals"
  using assms
  by (cases init; cases fixed; intro conjI) (simp_all add: decode_instruction_def Let_def initialize_bridge_def initialize_data.enc_length initialize_data.dec_enc
      block_update_ix_def process_reorg_blocks_ix_def with_bumps_ok block_update_data.enc_length block_update_data.dec_enc
      reorg_reader_ok request_withdrawal_ix_def wf_withdrawal_request_def withdrawal_request_new_def
      withdrawal_request.enc_length withdrawal_request.dec_enc
      process_withdrawal_ix_def process_withdrawal_data.enc_length process_withdrawal_data.dec_enc
      process_manual_deposit_ix_def manual_deposit_data.enc_length manual_deposit_data.dec_enc
      operator_withdraw_fees_ix_def process_replay_withdrawal_ix_def snapshot_withdrawals_ix_def
      process_mint_group_ix_def process_mint_group_auto_advance_ix_def bslice_append_left codec_simps)

definition example_ids :: program_ids where
  "example_ids = \<lparr> pid_doge_bridge = replicate 32 10, pid_pending_mint_buffer = replicate 32 11,
     pid_txo_buffer = replicate 32 12, pid_generic_buffer = replicate 32 13, pid_manual_claim = replicate 32 14,
     pid_spl_token = replicate 32 15, pid_clock = replicate 32 16 \<rparr>"

definition example_withdrawal_data :: ProcessWithdrawalInstructionData where
  "example_withdrawal_data = dec_process_withdrawal (replicate 344 3)"

definition example_deposit_data :: ProcessManualDepositInstructionData where
  "example_deposit_data = dec_manual_deposit (replicate 144 3)"

theorem client_instructions_decode_witness:
  "decode_instruction (ix_data (request_withdrawal_ix sample_runtime example_ids zero32 zero32 zero32 zero32
     (replicate 20 7) 1000 0)) = Inr (RequestWithdrawal (withdrawal_request_new (replicate 20 7) 1000 0)) \<and>
   decode_instruction (ix_data (process_withdrawal_ix sample_runtime example_ids zero32 zero32 zero32 zero32 zero32
     example_withdrawal_data)) = Inr (ProcessWithdrawal example_withdrawal_data)"
proof -
  let ?fixed = "dec_block_update (replicate 576 0)"
  let ?block = "dec_mint_txo_info (replicate 64 1)"
  have "wf_initialize (dec_initialize (replicate 544 0))" by (intro initialize_data.wf_dec) simp
  moreover have "wf_block_update ?fixed" by (intro block_update_data.wf_dec) simp
  moreover have "list_all wf_mint_txo_info [?block]" using mint_txo_info.wf_dec [of "replicate 64 1"] by simp
  moreover have "length (replicate 20 (7 :: u8)) = 20" by simp
  moreover have "wf_process_withdrawal example_withdrawal_data" "wf_manual_deposit example_deposit_data"
    unfolding example_withdrawal_data_def example_deposit_data_def
    by (auto intro: process_withdrawal_data.wf_dec manual_deposit_data.wf_dec)
  ultimately show ?thesis
    by (blast dest: client_instructions_decode)
qed

end
