(* ===== verification/BridgeMachine.thy ===== *)
theory BridgeMachine
  imports StateLayout AutoMint BridgeInstructions
begin

text \<open>
  The bridge state as a state machine: one rule per operation of \<open>program_state/*.rs\<close> that an
  instruction of the program runs. The invariant says that the state fits the layout of its
  account (so that storing and reading it back loses nothing), that the manager of pending
  mints is consistent and has no mints to pay when its queue is empty, and that the ring of recent blocks is never indexed out of range.
\<close>

section \<open>The operations keep the layout\<close>

lemma append_loop_layout:
  assumes "digest32 sha"
  shows "append_loop sha i ss index changes current = (root, ss') \<Longrightarrow> i + length ss \<le> 64 \<Longrightarrow> wf_hash current \<Longrightarrow>
    \<forall>s \<in> set ss. wf_hash s \<Longrightarrow> wf_hash root \<and> length ss' = length ss \<and> (\<forall>s \<in> set ss'. wf_hash s)"
proof (induction ss arbitrary: i index changes current root ss')
  case (Cons s ss)
  define current' where "current' = (if index AND 1 = 0 then hash_impl_sha256_two_to_one_bytes sha current (sha256_zero_hash i)
    else hash_impl_sha256_two_to_one_bytes sha s current)"
  obtain r rest where rest: "append_loop sha (i + 1) ss (drop_bit 1 index) (drop_bit 1 changes) current' = (r, rest)"
    by (cases "append_loop sha (i + 1) ss (drop_bit 1 index) (drop_bit 1 changes) current'")
  have "wf_hash current'" using assms by (simp add: current'_def digest32_def sha_impl_defs)
  then have "wf_hash r \<and> length rest = length ss \<and> (\<forall>s \<in> set rest. wf_hash s)"
    using Cons.IH [OF rest] Cons.prems(2,4) by simp
  then show ?case
    using Cons.prems rest by (cases "index AND 1 = 0") (auto simp: current'_def Let_def)
qed simp

lemma append_tree_layout:
  assumes "digest32 sha" and "wf_tree_layout t" and "wf_hash v"
  shows "wf_tree_layout (append_tree sha t v)"
proof -
  obtain root ss where run: "update_siblings_append_merkle_tree sha (next_siblings t) v (next_index t) = (root, ss)"
    by (cases "update_siblings_append_merkle_tree sha (next_siblings t) v (next_index t)")
  then have "wf_hash root \<and> length ss = length (next_siblings t) \<and> (\<forall>s \<in> set ss. wf_hash s)"
    unfolding update_siblings_append_merkle_tree_def
    using assms by (intro append_loop_layout [OF assms(1)]) (auto simp: wf_tree_layout_def wf_array_def)
  then show ?thesis using run assms(2) by (simp add: append_tree_def wf_tree_layout_def wf_array_def)
qed

lemma new_empty_layout: "wf_tree_layout new_empty"
  by (simp add: wf_tree_layout_def new_empty_def wf_array_def)

lemma info_layouts: "wf_mint_txo_info default_info" "wf_header h \<Longrightarrow> wf_mint_txo_info (header_info h)"
  by (simp_all add: wf_mint_txo_info_def default_info_def header_info_def wf_header_def wf_state_commitment_def)

lemma empty_tracker_layout: "wf_tracker empty_tracker"
  by (simp add: wf_tracker_def empty_tracker_def)

lemma new_manager_layout: "wf_manager manager_new_empty"
  by (simp add: wf_manager_def manager_new_empty_def wf_array_def info_layouts empty_tracker_layout)

lemma fast_forward_layout: "fast_forward_empty m = Inr m' \<Longrightarrow> wf_manager m \<Longrightarrow> wf_manager m'"
  by (auto simp: fast_forward_empty_def wf_manager_def result_simps empty_tracker_layout split: if_splits)

lemma write_infos_layout:
  assumes "wf_array 8 wf_mint_txo_info xs" and "\<forall>b \<in> set bs. wf_mint_txo_info b" and "length bs \<le> 8"
  shows "wf_array 8 wf_mint_txo_info (write_at xs 0 bs)"
  using assms by (auto simp: wf_array_def write_at_def dest: in_set_dropD)

lemma append_block_layout:
  assumes "standard_append_block m h bs acc n k = Inr m'" and "wf_manager m" and "\<forall>b \<in> set bs. wf_mint_txo_info b"
    and "length acc = 32"
  shows "wf_manager m'"
proof (cases "bs = []")
  case True
  with assms(1,2) show ?thesis by (auto simp: standard_append_block_def split: if_splits)
next
  case False
  define m1 where "m1 = m \<lparr> fm_infos := write_at (fm_infos m) 0 bs, fm_current_index := 0,
    fm_total_count := of_nat (length bs), fm_start_block_height := h,
    fm_tracker := \<lparr> pt_storage_account = acc, pt_claimed = zero32, pt_total_pending_mints = 0, pt_groups_remaining = 0 \<rparr> \<rparr>"
  have len: "length bs \<le> 8" using assms(1) by (auto simp: standard_append_block_def split: if_splits)
  have m1: "wf_manager m1"
    using assms(2-4) len by (simp add: m1_def wf_manager_def write_infos_layout wf_tracker_def)
  from assms(1) False obtain m2 where "fast_forward_empty m1 = Inr m2"
    and m': "m' = m2 \<or> m' = m2 \<lparr> fm_tracker := (fm_tracker m2) \<lparr> pt_total_pending_mints := n, pt_groups_remaining := k \<rparr> \<rparr>"
    by (auto simp: standard_append_block_def m1_def [symmetric] Let_def result_simps split: if_splits)
  then have "wf_manager m2" by (blast intro: fast_forward_layout m1)
  with m' show ?thesis by (auto simp: wf_manager_def wf_tracker_def)
qed

lemma mark_layout: "manager_mark_pending_mints_group_claimed m g = Inr (m', u) \<Longrightarrow> wf_manager m \<Longrightarrow> wf_manager m'"
  by (auto simp: manager_mark_pending_mints_group_claimed_def tracker_mark_pending_mints_group_claimed_def Let_def
      wf_manager_def wf_tracker_def result_simps split: if_splits)

section \<open>The machine\<close>

definition idle_without_queue :: "FinalizedBlockMintTxoManager \<Rightarrow> bool" where
  "idle_without_queue m \<longleftrightarrow> (fm_total_count m = 0 \<longrightarrow> tracker_is_empty (fm_tracker m))"

definition bridge_inv :: "PsyBridgeProgramState \<Rightarrow> bool" where
  "bridge_inv s \<longleftrightarrow> wf_program_state s \<and> manager_inv (bs_pending_mint_txos s) \<and>
     idle_without_queue (bs_pending_mint_txos s) \<and> bs_next_recent_finalized_block_index s < 8"

inductive bridge_step ::
  "(bytes \<Rightarrow> bytes) \<Rightarrow> (bytes \<Rightarrow> bytes \<Rightarrow> bytes \<Rightarrow> bool) \<Rightarrow> PsyBridgeProgramState \<Rightarrow> PsyBridgeProgramState \<Rightarrow> bool"
  for sha zkv where
  initialize: "bridge_step sha zkv s (state_initialize i)" if "wf_initialize i"
| single_block: "bridge_step sha zkv s s'"
    if "run_standard_single_block_transition sha zkv s proof vk h self acc txo_mem mint_mem = Inr s'"
      and "wf_header h" and "length acc = 32"
| reorg: "bridge_step sha zkv s s'"
    if "run_block_transition_reorg sha zkv s proof vk h extra self acc txo_mem mint_mem = Inr s'"
      and "wf_header h" and "list_all wf_mint_txo_info extra" and "length acc = 32"
| claim_group: "bridge_step sha zkv s s'" if "run_auto_mint_group_precheck s g key = Inr (s', unlock, mints, off)"
| next_buffer: "bridge_step sha zkv s s'"
    if "run_setup_next_pending_buffer sha s self key txo_mem mint_mem = Inr s'" and "length key = 32"
| withdraw_fees: "bridge_step sha zkv s s'" if "run_bridge_operator_withdraw_fees_precheck s = Inr (s', fees)"
| take_snapshot: "bridge_step sha zkv s (snapshot_for_withdrawal s now)"
| request: "bridge_step sha zkv s s'"
    if "state_process_request_withdrawal sha s ty address amount = (True, s')" and "length address = 20"
| withdrawal: "bridge_step sha zkv s s'"
    if "run_process_bridge_withdrawal sha zkv s proof vk tx out root idx = Inr (s', sighash)"
      and "wf_return_output out" and "length root = 32"
| replay: "bridge_step sha zkv s s'" if "process_replay_withdrawal_proof sha s p now = Inr (True, s')"
| manual_deposit: "bridge_step sha zkv s s'"
    if "process_manual_claimed_deposit sha s tx_hash block_root txo_root idx ata amount = Inr (s', minted)"

lemma new_manager_idle: "idle_without_queue manager_new_empty"
  by (simp add: idle_without_queue_def manager_new_empty_def empty_tracker_def tracker_is_empty_def)

lemma initialize_inv: "wf_initialize i \<Longrightarrow> bridge_inv (state_initialize i)"
  by (simp add: bridge_inv_def wf_program_state_def state_initialize_def wf_initialize_def wf_array_def new_manager_layout
      manager_new_empty_inv new_empty_layout default_snapshot_def wf_snapshot_def wf_access_control_def wf_header_def
      new_manager_idle)

lemma record_block_inv:
  assumes "bridge_inv s" and "wf_header h" and "manager_inv m" and "wf_manager m" and "idle_without_queue m"
  shows "bridge_inv (record_block s h m)"
proof -
  have "(bs_next_recent_finalized_block_index s + 1) mod 8 < 8"
    by (simp add: word_less_nat_alt unat_mod)
  moreover have "\<forall>x \<in> set ((bs_recent_finalized_blocks s) [unat (bs_next_recent_finalized_block_index s) := finalized_state h]).
      wf_state_commitment x"
    using assms(1,2) set_update_subset_insert [of "bs_recent_finalized_blocks s"]
    by (fastforce simp: bridge_inv_def wf_program_state_def wf_array_def wf_header_def)
  ultimately show ?thesis
    using assms by (simp add: bridge_inv_def record_block_def wf_program_state_def wf_array_def)
qed

lemma load_manager_inv:
  assumes "manager_inv m" and "wf_manager m" and "manager_is_empty m" and "gs \<noteq> []" and "\<not> info_is_empty (gs ! 0)"
    and "\<forall>b \<in> set gs. wf_mint_txo_info b" and "length acc = 32"
    and "standard_append_block m h gs acc (ucast n) (ucast (fst (compute_mint_group_info n))) = Inr m'"
  shows "manager_inv m' \<and> wf_manager m' \<and> idle_without_queue m'"
  using append_loads_manager [OF assms(1,3-5,8)] append_block_layout [OF assms(8,2,6,7)] assms(4)
  by (auto simp: loaded_manager_def idle_without_queue_def)

lemma single_block_inv:
  assumes inv: "bridge_inv s" and run: "run_standard_single_block_transition sha zkv s proof vk h self acc txo_mem mint_mem = Inr s'"
    and "wf_header h" and "length acc = 32"
  shows "bridge_inv s'"
proof -
  let ?n = "ucast (new_auto_claims s h) :: u16"
  note checks = single_transition_checks [OF run]
  have mgr: "manager_inv (bs_pending_mint_txos s)" "wf_manager (bs_pending_mint_txos s)"
    "idle_without_queue (bs_pending_mint_txos s)"
    using inv by (simp_all add: bridge_inv_def wf_program_state_def)
  have empty: "manager_is_empty (bs_pending_mint_txos s)" using checks(1) by (simp add: is_ready_for_new_block_update_def)
  obtain m where m: "s' = record_block s h m" "new_auto_claims s h = 0 \<Longrightarrow> m = bs_pending_mint_txos s"
    "new_auto_claims s h \<noteq> 0 \<Longrightarrow> standard_append_block (bs_pending_mint_txos s) (sc_block_height (finalized_state h))
      [header_info h] acc (ucast ?n) (ucast (fst (compute_mint_group_info ?n))) = Inr m"
    using single_transition_manager [OF run] by metis
  have "manager_inv m \<and> wf_manager m \<and> idle_without_queue m" if new: "new_auto_claims s h \<noteq> 0"
  proof (rule load_manager_inv [OF mgr(1,2) empty _ _ _ assms(4) m(3) [OF new]])
    have "(ucast ?n :: u32) \<noteq> 0" using new checks(5) by (simp add: word_unat_eq_iff unat_ucast_mod word_le_nat_alt)
    then show "\<not> info_is_empty ([header_info h] ! 0)"
      using append_single_not_empty [OF mgr(1) empty _ m(3) [OF new]] by simp
  qed (use assms(3) info_layouts in auto)
  then have "manager_inv m \<and> wf_manager m \<and> idle_without_queue m" using m(2) mgr by (cases "new_auto_claims s h = 0") simp_all
  then show ?thesis using record_block_inv [OF inv assms(3)] m(1) by blast
qed

lemma reorg_inv:
  assumes inv: "bridge_inv s" and run: "run_block_transition_reorg sha zkv s proof vk h extra self acc txo_mem mint_mem = Inr s'"
    and "wf_header h" and "list_all wf_mint_txo_info extra" and "length acc = 32"
  shows "bridge_inv s'"
proof -
  let ?items = "extra @ [header_info h]"
  have mgr: "manager_inv (bs_pending_mint_txos s)" "wf_manager (bs_pending_mint_txos s)"
    "idle_without_queue (bs_pending_mint_txos s)"
    using inv by (simp_all add: bridge_inv_def wf_program_state_def)
  have empty: "manager_is_empty (bs_pending_mint_txos s)"
    using reorg_transition_checks(1) [OF run] by (simp add: is_ready_for_new_block_update_def)
  have items: "\<forall>b \<in> set ?items. wf_mint_txo_info b" using assms(3,4) info_layouts by (auto simp: list_all_iff)
  show ?thesis
  proof (rule reorg_transition_manager [OF run])
    assume "s' = s \<lparr> bs_bridge_header := h \<rparr>"
    then show ?thesis using inv assms(3) by (simp add: bridge_inv_def wf_program_state_def)
  next
    fix i n m
    assume i: "get_backlog_contains_pending_mints ?items = Some i"
      and s': "s' = s \<lparr> bs_pending_mint_txos := m, bs_bridge_header := h \<rparr>"
      and m: "standard_append_block (bs_pending_mint_txos s)
        (sc_block_height (finalized_state h) - (of_nat (length ?items) - of_nat i - 1)) (drop i ?items) acc (ucast n)
        (ucast (fst (compute_mint_group_info n))) = Inr m"
    have "drop i ?items \<noteq> []" "\<not> info_is_empty (drop i ?items ! 0)"
      using backlog_ok(2) [OF i] by (simp_all del: drop_append)
    moreover have "\<forall>b \<in> set (drop i ?items). wf_mint_txo_info b" using items by (meson in_set_dropD)
    ultimately have "manager_inv m \<and> wf_manager m \<and> idle_without_queue m"
      by (rule load_manager_inv [OF mgr(1,2) empty _ _ _ assms(5) m])
    then show ?thesis using s' inv assms(3) by (simp add: bridge_inv_def wf_program_state_def)
  qed
qed

lemma claim_group_inv:
  assumes inv: "bridge_inv s" and run: "run_auto_mint_group_precheck s g key = Inr (s', unlock, mints, off)"
  shows "bridge_inv s'"
proof -
  obtain m' where m': "s' = s \<lparr> bs_pending_mint_txos := m' \<rparr>"
    "ensure_can_claim_pending_mints_group (tracker_of s) g = Inr ()"
    "manager_mark_pending_mints_group_claimed (bs_pending_mint_txos s) g = Inr (m', unlock)"
    using precheck_ok [OF run] by metis
  have "manager_inv m'" using manager_mark_ok(1) [OF _ m'(2,3)] inv by (simp add: bridge_inv_def)
  moreover have "idle_without_queue m'"
    using manager_mark_ok(7) [OF _ m'(2,3)] inv m'(2)
    by (auto simp: bridge_inv_def idle_without_queue_def tracker_is_empty_def ensure_can_claim_pending_mints_group_def split: if_splits)
  moreover have "wf_manager m'" using mark_layout [OF m'(3)] inv by (simp add: bridge_inv_def wf_program_state_def)
  ultimately show ?thesis using inv m'(1) by (simp add: bridge_inv_def wf_program_state_def)
qed

lemma next_buffer_inv:
  assumes inv: "bridge_inv s" and run: "run_setup_next_pending_buffer sha s self key txo_mem mint_mem = Inr s'"
    and "length key = 32"
  shows "bridge_inv s'"
proof -
  obtain m n where m: "fast_forward_empty (bs_pending_mint_txos s) = Inr m" "fm_current_index m < fm_total_count m"
    "s' = s \<lparr> bs_pending_mint_txos := m \<lparr> fm_tracker := \<lparr> pt_storage_account = key, pt_claimed = zero32,
      pt_total_pending_mints = ucast n, pt_groups_remaining = ucast (fst (compute_mint_group_info n)) \<rparr> \<rparr> \<rparr>"
    using setup_next_ok [OF run] by metis
  let ?t = "\<lparr> pt_storage_account = key, pt_claimed = zero32, pt_total_pending_mints = ucast n,
      pt_groups_remaining = ucast (fst (compute_mint_group_info n)) \<rparr>"
  have "fresh_tracker ?t" using u16_bound [of n] by (simp add: fresh_tracker_def mint_group_count)
  then have "tracker_inv ?t" by (rule fresh_tracker_inv)
  moreover have "manager_inv m"
    using fast_forward_empty_ok [of "bs_pending_mint_txos s"] inv m(1) by (metis bridge_inv_def sum.inject(2))
  moreover have "wf_manager m" using fast_forward_layout [OF m(1)] inv by (simp add: bridge_inv_def wf_program_state_def)
  moreover have "fm_total_count m \<noteq> 0" using m(2) by auto
  ultimately show ?thesis
    using inv m(3) assms(3)
    by (simp add: bridge_inv_def wf_program_state_def manager_inv_def wf_manager_def wf_tracker_def idle_without_queue_def)
qed

lemma request_inv:
  assumes "digest32 sha" and "bridge_inv s" and "state_process_request_withdrawal sha s ty address amount = (True, s')"
    and "length address = 20"
  shows "bridge_inv s'"
proof -
  have "wf_hash (to_leaf (withdrawal_request_new address x ty))" for x
    using assms(4) by (intro withdrawal_leaf.enc_length) (simp add: wf_withdrawal_request_def withdrawal_request_new_def)
  then show ?thesis
    using assms(2,3) by (auto simp: state_process_request_withdrawal_def Let_def bridge_inv_def wf_program_state_def
        append_tree_layout [OF assms(1)] split: if_splits)
qed

lemma manual_deposit_inv:
  assumes "digest32 sha" and "bridge_inv s"
    and "process_manual_claimed_deposit sha s tx_hash block_root txo_root idx ata amount = Inr (s', minted)"
  shows "bridge_inv s'"
proof -
  have "wf_hash (hash_deposit_leaf sha tx_hash idx ata x)" for x
    using assms(1) by (simp add: hash_deposit_leaf_def sha_impl_defs digest32_def)
  then show ?thesis
    using assms(2,3) by (auto simp: process_manual_claimed_deposit_def Let_def bridge_inv_def wf_program_state_def
        append_tree_layout [OF assms(1)] case_prod_unfold split: if_splits)
qed

lemma bridge_step_inv:
  assumes "digest32 sha" and "bridge_step sha zkv s s'" and "bridge_inv s"
  shows "bridge_inv s'"
  using assms(2)
proof cases
  case (withdrawal pf vk tx out root idx sighash)
  then show ?thesis
    using assms(1,3) append_tree_layout [OF assms(1)]
    by (auto simp: run_process_bridge_withdrawal_def update_for_withdrawal_def Let_def bridge_inv_def wf_program_state_def
        wf_return_output_def split: if_splits)
next
  case (take_snapshot now)
  with assms(3) show ?thesis
    by (simp add: snapshot_for_withdrawal_def bridge_inv_def wf_program_state_def wf_snapshot_def wf_header_def
        wf_state_commitment_def wf_tree_layout_def)
next
  case (withdraw_fees fees)
  with assms(3) show ?thesis
    by (auto simp: run_bridge_operator_withdraw_fees_precheck_def Let_def bridge_inv_def wf_program_state_def split: if_splits)
next
  case (replay p now)
  with assms(3) show ?thesis
    by (auto simp: process_replay_withdrawal_proof_def result_simps bridge_inv_def wf_program_state_def split: if_splits)
qed (use assms in \<open>auto intro: initialize_inv single_block_inv reorg_inv claim_group_inv next_buffer_inv request_inv
    manual_deposit_inv\<close>)

interpretation bridge: step_invariant "\<lambda>s. \<exists>i. wf_initialize i \<and> s = state_initialize i" "bridge_step sha zkv"
  "\<lambda>s. digest32 sha \<longrightarrow> bridge_inv s" for sha zkv
  by unfold_locales (auto intro: bridge_step_inv initialize_inv)

end
