(* ===== verification/DogeBridge.thy ===== *)
theory DogeBridge
  imports BridgeMachine
begin

text \<open>
  The bridge program (\<open>programs/doge-bridge/src/processor.rs\<close> and \<open>cpi_impl.rs\<close>): one definition
  per handler, from the accounts of the instruction to the accounts afterwards and the calls to
  other programs it made. The pending-mint-buffer program is called in the model itself; the
  token program, the Wormhole program and the clock are fields of \<open>bridge_env\<close>. A call to another
  program that fails fails the handler. The literal seeds and the program addresses are those of
  the source.
\<close>

section \<open>What the program runs in\<close>

text \<open>
  \<open>env_mint_to\<close> and \<open>env_burn\<close> say whether the token program accepts the call (mint, account,
  authority and amount; the position in the group for a mint), \<open>env_post\<close> how the message program
  answers. \<open>env_mock_zkp\<close> and \<open>env_post_enabled\<close> are the cargo features.
\<close>

record bridge_env =
  env_rt :: runtime
  env_sha :: "bytes \<Rightarrow> bytes"
  env_zkv :: "bytes \<Rightarrow> bytes \<Rightarrow> bytes \<Rightarrow> bool"
  env_ids :: program_ids
  env_mock_zkp :: bool
  env_post_enabled :: bool
  env_unix_timestamp :: u64
  env_mint_to :: "nat \<Rightarrow> pubkey \<Rightarrow> pubkey \<Rightarrow> pubkey \<Rightarrow> u64 \<Rightarrow> bool"
  env_burn :: "pubkey \<Rightarrow> pubkey \<Rightarrow> pubkey \<Rightarrow> u64 \<Rightarrow> bool"
  env_post :: "AccountInfo list \<Rightarrow> Instruction \<Rightarrow> unit ProgramResult"

datatype cpi =
    MintTo pubkey pubkey pubkey u64
  | BurnFrom pubkey pubkey pubkey u64
  | LockBuffer pubkey
  | UnlockBuffer pubkey
  | PostMessage Instruction

type_synonym handler_result = "(AccountInfo list \<times> cpi list) ProgramResult"

definition SINGLE_BLOCK_UPDATE_VK :: "bool \<Rightarrow> bytes" where
  "SINGLE_BLOCK_UPDATE_VK mock_zkp =
     (if mock_zkp then
        [224, 71, 200, 255, 235, 105, 228, 248, 83, 103, 107, 62, 251, 29, 89, 254, 141, 66, 191, 70,
         35, 77, 2, 119, 194, 250, 202, 121, 98, 143, 174, 36]
      else replicate 32 0)"

definition BLOCK_REORG_VK :: "bool \<Rightarrow> bytes" where
  "BLOCK_REORG_VK mock_zkp =
     (if mock_zkp then
        [228, 86, 252, 55, 160, 173, 2, 14, 26, 224, 246, 209, 47, 74, 197, 29, 210, 177, 146, 100, 219,
         86, 83, 85, 50, 6, 37, 144, 62, 51, 225, 225]
      else replicate 32 0)"

definition WITHDRAWAL_VK :: "bool \<Rightarrow> bytes" where
  "WITHDRAWAL_VK mock_zkp =
     (if mock_zkp then
        [8, 226, 175, 15, 239, 184, 85, 227, 153, 188, 3, 12, 129, 135, 7, 228, 244, 252, 32, 220, 134,
         243, 114, 51, 151, 15, 18, 170, 135, 135, 20, 16]
      else replicate 32 0)"

section \<open>Calls to other programs\<close>

definition verify_pda :: "runtime \<Rightarrow> bytes \<Rightarrow> pubkey \<Rightarrow> pubkey \<Rightarrow> pubkey \<Rightarrow> u8 \<Rightarrow> unit ProgramResult" where
  "verify_pda rt base_seed provided_account program_id user_key bump =
     (case rt_create_program_address rt [base_seed, user_key, [bump]] program_id of
        None \<Rightarrow> Inl (Err InvalidSeeds)
      | Some expected_pda \<Rightarrow> if provided_account \<noteq> expected_pda then Inl (Err InvalidSeeds) else Inr ())"

definition verify_lowest_pda :: "runtime \<Rightarrow> bytes \<Rightarrow> pubkey \<Rightarrow> pubkey \<Rightarrow> pubkey \<Rightarrow> unit ProgramResult" where
  "verify_lowest_pda rt base_seed provided_account program_id user_key =
     (case rt_find_program_address rt [base_seed, user_key] program_id of (lowest_pda, lowest_bump) \<Rightarrow>
        if provided_account \<noteq> lowest_pda then Inl (Err InvalidSeeds) else Inr ())"

text \<open>
  The seeds given to \<open>invoke_signed\<close> sign for the state address of the program; any other account
  signs only if it signed the transaction.
\<close>

definition authority_signs :: "bridge_env \<Rightarrow> pubkey \<Rightarrow> AccountInfo \<Rightarrow> bool" where
  "authority_signs e program_id authority \<longleftrightarrow>
     ai_is_signer authority \<or> ai_key authority = bridge_state_address (env_rt e) program_id"

definition solana_mint_to ::
  "bridge_env \<Rightarrow> pubkey \<Rightarrow> AccountInfo \<Rightarrow> AccountInfo \<Rightarrow> AccountInfo list \<Rightarrow> nat \<Rightarrow> pubkey \<Rightarrow> u64 \<Rightarrow> unit QDogeResult" where
  "solana_mint_to e program_id mint authority_info recipient_map index_in_mint_group account amount =
     (if index_in_mint_group \<ge> length recipient_map then Inl (Err AccountMismatch)
      else if ai_key (recipient_map ! index_in_mint_group) \<noteq> account then Inl (Err AccountMismatch)
      else let recipient_info = recipient_map ! index_in_mint_group
      in if authority_signs e program_id authority_info \<and>
            env_mint_to e index_in_mint_group (ai_key mint) (ai_key recipient_info) (ai_key authority_info) amount
         then Inr () else Inl (Err CpiTokenMintToCallError))"

definition solana_burn_from ::
  "bridge_env \<Rightarrow> AccountInfo \<Rightarrow> AccountInfo \<Rightarrow> AccountInfo \<Rightarrow> pubkey \<Rightarrow> u64 \<Rightarrow> unit QDogeResult" where
  "solana_burn_from e mint user_token_account authority account amount =
     (if ai_is_signer authority \<and> env_burn e (ai_key user_token_account) (ai_key mint) (ai_key authority) amount
      then Inr () else Inl (Err CpiTokenBurnCallError))"

text \<open>
  A call of the pending-mint-buffer program with the buffer and the authority: the program has to
  be among the accounts of the caller and the authority has to sign.
\<close>

definition invoke_mint_buffer ::
  "bridge_env \<Rightarrow> pubkey \<Rightarrow> AccountInfo list \<Rightarrow> AccountInfo \<Rightarrow> AccountInfo \<Rightarrow> u8 \<Rightarrow> AccountInfo option" where
  "invoke_mint_buffer e program_id caller_accounts buffer_account authority_info tag =
     (if \<not> authority_signs e program_id authority_info \<or>
         pid_pending_mint_buffer (env_ids e) \<notin> set (map ai_key caller_accounts) then None
      else case pmb_process_instruction (env_rt e) (env_sha e) (pid_pending_mint_buffer (env_ids e))
                  [buffer_account, authority_info \<lparr> ai_is_signer := True \<rparr>] [tag] of
             Inl _ \<Rightarrow> None
           | Inr [] \<Rightarrow> None
           | Inr (buffer_account' # _) \<Rightarrow> Some buffer_account')"

definition lock_buffer ::
  "bridge_env \<Rightarrow> pubkey \<Rightarrow> AccountInfo list \<Rightarrow> AccountInfo \<Rightarrow> AccountInfo \<Rightarrow> AccountInfo QDogeResult" where
  "lock_buffer e program_id caller_accounts buffer_account authority_info =
     (case invoke_mint_buffer e program_id caller_accounts buffer_account authority_info 4 of
        None \<Rightarrow> Inl (Err CpiLockCallError) | Some b \<Rightarrow> Inr b)"

definition unlock_buffer ::
  "bridge_env \<Rightarrow> pubkey \<Rightarrow> AccountInfo list \<Rightarrow> AccountInfo \<Rightarrow> AccountInfo \<Rightarrow> AccountInfo QDogeResult" where
  "unlock_buffer e program_id caller_accounts buffer_account authority_info =
     (case invoke_mint_buffer e program_id caller_accounts buffer_account authority_info 5 of
        None \<Rightarrow> Inl (Err CpiUnlockCallError) | Some b \<Rightarrow> Inr b)"

abbreviation mint_cpis :: "AccountInfo \<Rightarrow> AccountInfo \<Rightarrow> mint_call list \<Rightarrow> cpi list" where
  "mint_cpis mint authority calls \<equiv> map (\<lambda>(p, recipient, amount). MintTo (ai_key mint) recipient (ai_key authority) amount) calls"

section \<open>The state account\<close>

definition load_bridge_state :: "AccountInfo \<Rightarrow> BridgeProgramStateWithDogeMint ProgramResult" where
  "load_bridge_state a = (if length (ai_data a) \<noteq> BRIDGE_STATE_SIZE then Inl (Err (bridge_error BridgeSerializationError))
     else Inr (dec_bridge_state (ai_data a)))"

definition store_bridge_state :: "AccountInfo \<Rightarrow> BridgeProgramStateWithDogeMint \<Rightarrow> AccountInfo" where
  "store_bridge_state a b = a \<lparr> ai_data := enc_bridge_state b \<rparr>"

abbreviation store_core_state :: "AccountInfo \<Rightarrow> BridgeProgramStateWithDogeMint \<Rightarrow> PsyBridgeProgramState \<Rightarrow> AccountInfo" where
  "store_core_state a b s \<equiv> store_bridge_state a (b \<lparr> core_state := s \<rparr>)"

section \<open>The handlers\<close>

definition process_initialize ::
  "bridge_env \<Rightarrow> pubkey \<Rightarrow> AccountInfo list \<Rightarrow> InitializeBridgeInstructionData \<Rightarrow> handler_result" where
  "process_initialize e program_id accounts initialize_instruction =
     (case accounts of bridge_state_account # payer # system_program # others \<Rightarrow>
        (case rt_find_program_address (env_rt e) [bridge_state_seed] program_id of (pda, bump) \<Rightarrow>
        if pda \<noteq> ai_key bridge_state_account then Inl (Err (bridge_error InvalidPDA))
        else rbind (if length (ai_data bridge_state_account) = 0
                    then rt_create_account (env_rt e) [bridge_state_seed, [bump]] payer bridge_state_account
                           (rt_minimum_balance (env_rt e) BRIDGE_STATE_SIZE) BRIDGE_STATE_SIZE program_id
                    else Inr (payer, bridge_state_account)) (\<lambda>(payer, bridge_state_account).
        rbind (load_bridge_state bridge_state_account) (\<lambda>_.
        Inr (store_bridge_state bridge_state_account
               \<lparr> core_state = state_initialize initialize_instruction, doge_mint = ii_doge_mint initialize_instruction \<rparr>
             # payer # system_program # others, []))))
      | _ \<Rightarrow> Inl (Err NotEnoughAccountKeys))"

definition run_block_update_common ::
  "bridge_env \<Rightarrow> pubkey \<Rightarrow> AccountInfo list \<Rightarrow> bytes \<Rightarrow> PsyBridgeHeader \<Rightarrow> FinalizedBlockMintTxoInfo list \<Rightarrow> u8 \<Rightarrow> u8 \<Rightarrow> bool \<Rightarrow>
   handler_result" where
  "run_block_update_common e program_id accounts proof new_header extra_finalized_blocks auto_claim_mint_buffer_bump
       auto_claim_txo_buffer_bump is_reorg =
     (case accounts of bridge_state_account # auto_claim_mint_buffer # auto_claim_txo_buffer # operator # payer #
          mint_buffer_program_account # txo_buffer_program_account # others \<Rightarrow>
        if \<not> ai_is_signer operator then Inl (Err MissingRequiredSignature)
        else case rt_create_program_address (env_rt e) [mint_buffer_seed, ai_key operator, [auto_claim_mint_buffer_bump]]
               (pid_pending_mint_buffer (env_ids e)) of None \<Rightarrow> Inl (Err InvalidSeeds) | Some expected_mint \<Rightarrow>
        if ai_key auto_claim_mint_buffer \<noteq> expected_mint then Inl (Err (program_error_from InvalidMintBufferPDA))
        else case rt_create_program_address (env_rt e) [txo_buffer_seed, ai_key operator, [auto_claim_txo_buffer_bump]]
               (pid_txo_buffer (env_ids e)) of None \<Rightarrow> Inl (Err InvalidSeeds) | Some expected_txo \<Rightarrow>
        if ai_key auto_claim_txo_buffer \<noteq> expected_txo then Inl (Err (program_error_from InvalidTxoBufferPDA))
        else if ai_owner auto_claim_mint_buffer \<noteq> pid_pending_mint_buffer (env_ids e)
        then Inl (Err (program_error_from InvalidMintBufferPdaProgram))
        else rbind (lift_doge (lock_buffer e program_id accounts auto_claim_mint_buffer bridge_state_account))
          (\<lambda>auto_claim_mint_buffer.
        rbind (load_bridge_state bridge_state_account) (\<lambda>bridge_state.
        if ai_owner auto_claim_txo_buffer \<noteq> pid_txo_buffer (env_ids e) then Inl (Err IllegalOwner)
        else let old_index = sc_auto_claimed_deposits_next_index (finalized_state (bs_bridge_header (core_state bridge_state)))
        in rbind (lift_doge
             (if is_reorg
              then run_block_transition_reorg (env_sha e) (env_zkv e) (core_state bridge_state) proof
                     (BLOCK_REORG_VK (env_mock_zkp e)) new_header extra_finalized_blocks (ai_key bridge_state_account)
                     (ai_key auto_claim_mint_buffer) (ai_data auto_claim_txo_buffer) (ai_data auto_claim_mint_buffer)
              else run_standard_single_block_transition (env_sha e) (env_zkv e) (core_state bridge_state) proof
                     (SINGLE_BLOCK_UPDATE_VK (env_mock_zkp e)) new_header (ai_key bridge_state_account)
                     (ai_key auto_claim_mint_buffer) (ai_data auto_claim_txo_buffer) (ai_data auto_claim_mint_buffer)))
          (\<lambda>s. let new_index = sc_auto_claimed_deposits_next_index (finalized_state (bs_bridge_header s));
                   bridge_state_account = store_core_state bridge_state_account bridge_state s;
                   rest = auto_claim_txo_buffer # operator # payer # mint_buffer_program_account #
                     txo_buffer_program_account # others
               in if old_index = new_index
                  then rbind (lift_doge (unlock_buffer e program_id accounts auto_claim_mint_buffer bridge_state_account))
                         (\<lambda>unlocked. Inr (bridge_state_account # unlocked # rest,
                            [LockBuffer (ai_key auto_claim_mint_buffer), UnlockBuffer (ai_key auto_claim_mint_buffer)]))
                  else Inr (bridge_state_account # auto_claim_mint_buffer # rest, [LockBuffer (ai_key auto_claim_mint_buffer)]))))
      | _ \<Rightarrow> Inl (Err NotEnoughAccountKeys))"

definition process_block_update ::
  "bridge_env \<Rightarrow> pubkey \<Rightarrow> AccountInfo list \<Rightarrow> bytes \<Rightarrow> PsyBridgeHeader \<Rightarrow> u8 \<Rightarrow> u8 \<Rightarrow> handler_result" where
  "process_block_update e program_id accounts proof new_header auto_claim_mint_buffer_bump auto_claim_txo_buffer_bump =
     run_block_update_common e program_id accounts proof new_header [] auto_claim_mint_buffer_bump
       auto_claim_txo_buffer_bump False"

definition process_reorg_blocks ::
  "bridge_env \<Rightarrow> pubkey \<Rightarrow> AccountInfo list \<Rightarrow> bytes \<Rightarrow> PsyBridgeHeader \<Rightarrow> FinalizedBlockMintTxoInfo list \<Rightarrow> u8 \<Rightarrow> u8 \<Rightarrow>
   handler_result" where
  "process_reorg_blocks e program_id accounts proof new_header extra_finalized_blocks auto_claim_mint_buffer_bump
       auto_claim_txo_buffer_bump =
     run_block_update_common e program_id accounts proof new_header extra_finalized_blocks auto_claim_mint_buffer_bump
       auto_claim_txo_buffer_bump True"

text \<open>The comparison of the returned flag with the argument, which both group handlers make.\<close>

definition check_should_unlock :: "bool \<Rightarrow> bool \<Rightarrow> unit ProgramResult" where
  "check_should_unlock can_unlock should_unlock =
     (if can_unlock \<noteq> should_unlock
      then if should_unlock then Inl (Err (program_error_from AttemptedUnlockPendingMintBuffer))
           else Inl (Err (program_error_from FailedUnlockPendingMintBuffer))
      else Inr ())"

definition process_process_mint_group ::
  "bridge_env \<Rightarrow> pubkey \<Rightarrow> AccountInfo list \<Rightarrow> u16 \<Rightarrow> u8 \<Rightarrow> bool \<Rightarrow> handler_result" where
  "process_process_mint_group e program_id accounts mint_group_index mint_buffer_pda_bump should_unlock =
     (case accounts of bridge_state_account # auto_claim_mint_buffer # operator # doge_mint_account # payer #
          mint_buffer_program_account # token_program # recipients_slice \<Rightarrow>
        if \<not> ai_is_signer operator then Inl (Err MissingRequiredSignature)
        else rbind (load_bridge_state bridge_state_account) (\<lambda>bridge_state.
        if ai_key auto_claim_mint_buffer \<noteq>
           pt_storage_account (fm_tracker (bs_pending_mint_txos (core_state bridge_state)))
        then Inl (Err (program_error_from InvalidAccountKey))
        else if ai_key doge_mint_account \<noteq> doge_mint bridge_state then Inl (Err (bridge_error InvalidAccountInput))
        else if ai_key operator \<noteq> operator_pubkey (bs_access_control (core_state bridge_state))
        then Inl (Err MissingRequiredSignature)
        else rbind (lift_doge (run_auto_mint_group_precheck (core_state bridge_state) mint_group_index
               (ai_key auto_claim_mint_buffer))) (\<lambda>(s, can_unlock, mints_count, start_offset).
        rbind (check_should_unlock can_unlock should_unlock) (\<lambda>_.
        if unat mints_count \<noteq> length recipients_slice then Inl (Err (bridge_error InvalidAccountInput))
        else let bridge_state_account = store_core_state bridge_state_account bridge_state s
        in rbind (lift_doge (mint_loop (solana_mint_to e program_id doge_mint_account bridge_state_account recipients_slice)
               (ai_data auto_claim_mint_buffer) start_offset 0 (unat mints_count))) (\<lambda>calls.
        let rest = operator # doge_mint_account # payer # mint_buffer_program_account # token_program # recipients_slice;
            mints = mint_cpis doge_mint_account bridge_state_account calls
        in if should_unlock
           then rbind (lift_doge (unlock_buffer e program_id accounts auto_claim_mint_buffer bridge_state_account))
                  (\<lambda>unlocked. Inr (bridge_state_account # unlocked # rest, mints @ [UnlockBuffer (ai_key auto_claim_mint_buffer)]))
           else Inr (bridge_state_account # auto_claim_mint_buffer # rest, mints)))))
      | _ \<Rightarrow> Inl (Err NotEnoughAccountKeys))"

text \<open>The part of the next handler that loads a queued block when the current one is finished.\<close>

definition advance_if_finished ::
  "bridge_env \<Rightarrow> PsyBridgeProgramState \<Rightarrow> AccountInfo \<Rightarrow> AccountInfo \<Rightarrow> AccountInfo \<Rightarrow> AccountInfo \<Rightarrow> u8 \<Rightarrow>
   (PsyBridgeProgramState \<times> bool) ProgramResult" where
  "advance_if_finished e s bridge_state_account auto_claim_mint_buffer auto_claim_txo_buffer operator txo_buffer_pda_bump =
     (let advance_with_jit = tracker_is_empty (fm_tracker (bs_pending_mint_txos s)) \<and>
            \<not> manager_is_empty (bs_pending_mint_txos s)
      in if \<not> advance_with_jit then Inr (s, False)
      else if ai_owner auto_claim_txo_buffer \<noteq> pid_txo_buffer (env_ids e) then Inl (Err IllegalOwner)
      else case rt_create_program_address (env_rt e) [txo_buffer_seed, ai_key operator, [txo_buffer_pda_bump]]
             (pid_txo_buffer (env_ids e)) of None \<Rightarrow> Inl (Err InvalidSeeds) | Some expected_txo \<Rightarrow>
      if ai_key auto_claim_txo_buffer \<noteq> expected_txo then Inl (Err (program_error_from InvalidTxoBufferPDA))
      else rbind (lift_doge (run_setup_next_pending_buffer (env_sha e) s (ai_key bridge_state_account)
             (ai_key auto_claim_mint_buffer) (ai_data auto_claim_txo_buffer) (ai_data auto_claim_mint_buffer))) (\<lambda>s.
      Inr (s, True)))"

definition process_process_mint_group_auto_advance ::
  "bridge_env \<Rightarrow> pubkey \<Rightarrow> AccountInfo list \<Rightarrow> u16 \<Rightarrow> u8 \<Rightarrow> u8 \<Rightarrow> bool \<Rightarrow> handler_result" where
  "process_process_mint_group_auto_advance e program_id accounts mint_group_index mint_buffer_pda_bump txo_buffer_pda_bump
       should_unlock =
     (case accounts of bridge_state_account # auto_claim_mint_buffer # auto_claim_txo_buffer # operator #
          doge_mint_account # payer # mint_buffer_program_account # txo_buffer_program_account # token_program #
          recipients_slice \<Rightarrow>
        if \<not> ai_is_signer operator then Inl (Err MissingRequiredSignature)
        else rbind (load_bridge_state bridge_state_account) (\<lambda>bridge_state.
        rbind (advance_if_finished e (core_state bridge_state) bridge_state_account auto_claim_mint_buffer
                 auto_claim_txo_buffer operator txo_buffer_pda_bump) (\<lambda>(s, advance_with_jit).
        if ai_key auto_claim_mint_buffer \<noteq> pt_storage_account (fm_tracker (bs_pending_mint_txos s))
        then Inl (Err (program_error_from InvalidAccountKey))
        else rbind (lift_doge (run_auto_mint_group_precheck s mint_group_index (ai_key auto_claim_mint_buffer)))
          (\<lambda>(s, can_unlock, mints_count, start_offset).
        rbind (check_should_unlock can_unlock should_unlock) (\<lambda>_.
        if unat mints_count \<noteq> length recipients_slice then Inl (Err (bridge_error InvalidAccountInput))
        else let bridge_state_account = store_core_state bridge_state_account bridge_state s
        in rbind (if advance_with_jit
                  then lift_doge (lock_buffer e program_id accounts auto_claim_mint_buffer bridge_state_account)
                  else Inr auto_claim_mint_buffer) (\<lambda>auto_claim_mint_buffer.
        rbind (lift_doge (mint_loop (solana_mint_to e program_id doge_mint_account bridge_state_account recipients_slice)
               (ai_data auto_claim_mint_buffer) start_offset 0 (unat mints_count))) (\<lambda>calls.
        let rest = auto_claim_txo_buffer # operator # doge_mint_account # payer # mint_buffer_program_account #
              txo_buffer_program_account # token_program # recipients_slice;
            mints = (if advance_with_jit then [LockBuffer (ai_key auto_claim_mint_buffer)] else []) @
              mint_cpis doge_mint_account bridge_state_account calls
        in if should_unlock
           then if advance_with_jit \<and> mints_count > PM_MAX_PENDING_MINTS_PER_GROUP_U16
                then Inl (Err (program_error_from CannotUnlockAfterAutoAdvance))
                else rbind (lift_doge (unlock_buffer e program_id accounts auto_claim_mint_buffer bridge_state_account))
                  (\<lambda>unlocked. Inr (bridge_state_account # unlocked # rest, mints @ [UnlockBuffer (ai_key auto_claim_mint_buffer)]))
           else Inr (bridge_state_account # auto_claim_mint_buffer # rest, mints)))))))
      | _ \<Rightarrow> Inl (Err NotEnoughAccountKeys))"

definition process_request_withdrawal ::
  "bridge_env \<Rightarrow> pubkey \<Rightarrow> AccountInfo list \<Rightarrow> PsyWithdrawalRequest \<Rightarrow> handler_result" where
  "process_request_withdrawal e program_id accounts req =
     (case accounts of bridge_state_account # user_token_account # doge_mint_account # user_authority # token_program # others \<Rightarrow>
        rbind (load_bridge_state bridge_state_account) (\<lambda>bridge_state.
        rbind (lift_doge (request_withdrawal (env_sha e) (solana_burn_from e doge_mint_account user_token_account user_authority)
                 (core_state bridge_state) (ai_key user_authority) req)) (\<lambda>(s, burns).
        Inr (store_core_state bridge_state_account bridge_state s # user_token_account # doge_mint_account # user_authority #
               token_program # others,
             map (\<lambda>(account, amount). BurnFrom (ai_key user_token_account) (ai_key doge_mint_account) (ai_key user_authority) amount)
               burns)))
      | _ \<Rightarrow> Inl (Err NotEnoughAccountKeys))"

definition WORMHOLE_VAA_DISCRIMINATOR :: bytes where
  "WORMHOLE_VAA_DISCRIMINATOR = [214, 50, 100, 209, 38, 34, 7, 76]"

definition wormhole_vaa_instruction ::
  "u32 \<Rightarrow> pubkey \<Rightarrow> pubkey \<Rightarrow> pubkey \<Rightarrow> pubkey \<Rightarrow> pubkey \<Rightarrow> pubkey \<Rightarrow> pubkey \<Rightarrow> pubkey \<Rightarrow> pubkey \<Rightarrow> pubkey \<Rightarrow> pubkey \<Rightarrow> bytes \<Rightarrow> bytes \<Rightarrow>
   Instruction" where
  "wormhole_vaa_instruction withdrawal_nonce shim_program bridge_config message emitter sequence payer fee_collector clock
       system_program core_bridge_program event_authority sighash transaction_buffer =
     (let payload_len = length sighash + length transaction_buffer;
          consistency_level = (1 :: u8)
      in \<lparr> ix_program_id = shim_program,
           ix_accounts = [account_new bridge_config False, account_new message False, account_new_readonly emitter True,
             account_new sequence False, account_new payer True, account_new fee_collector False,
             account_new_readonly clock False, account_new_readonly system_program False,
             account_new_readonly core_bridge_program False, account_new_readonly event_authority False],
           ix_data = WORMHOLE_VAA_DISCRIMINATOR @ to_le_bytes withdrawal_nonce @ [consistency_level] @
             to_le_bytes (of_nat payload_len :: u32) @ sighash @ transaction_buffer \<rparr>)"

definition send_wormhole_vaa :: "bridge_env \<Rightarrow> AccountInfo list \<Rightarrow> Instruction \<Rightarrow> cpi list ProgramResult" where
  "send_wormhole_vaa e accounts instruction =
     (if env_post_enabled e then rbind (env_post e accounts instruction) (\<lambda>_. Inr [PostMessage instruction])
      else Inr [])"

definition process_process_withdrawal ::
  "bridge_env \<Rightarrow> pubkey \<Rightarrow> AccountInfo list \<Rightarrow> ProcessWithdrawalInstructionData \<Rightarrow> handler_result" where
  "process_process_withdrawal e program_id accounts params =
     (case accounts of bridge_state_account # doge_tx_buffer # shim_program_id # bridge_config # message # sequence # payer #
          fee_collector # clock # system_program # core_bridge_program # event_authority # others \<Rightarrow>
        if ai_key bridge_state_account \<noteq> bridge_state_address (env_rt e) program_id then Inl (Err (bridge_error InvalidPDA))
        else if ai_owner doge_tx_buffer \<noteq> pid_generic_buffer (env_ids e) then Inl (Err IllegalOwner)
        else rbind (load_bridge_state bridge_state_account) (\<lambda>bridge_state.
        if length (ai_data doge_tx_buffer) < 32 then Inl (Err (bridge_error InvalidAccountInput))
        else let tx_data = drop 32 (ai_data doge_tx_buffer)
        in rbind (lift_doge (run_process_bridge_withdrawal (env_sha e) (env_zkv e) (core_state bridge_state) (pw_proof params)
               (WITHDRAWAL_VK (env_mock_zkp e)) tx_data (pw_new_return_output params) (pw_new_spent_txo_tree_root params)
               (pw_new_next_processed_withdrawals_index params))) (\<lambda>(s, sighash).
        let nonce = ucast (bs_next_processed_withdrawals_index s);
            bridge_state_account = store_core_state bridge_state_account bridge_state s
        in rbind (send_wormhole_vaa e accounts (wormhole_vaa_instruction nonce (ai_key shim_program_id) (ai_key bridge_config)
               (ai_key message) (ai_key bridge_state_account) (ai_key sequence) (ai_key payer) (ai_key fee_collector)
               (ai_key clock) (ai_key system_program) (ai_key core_bridge_program) (ai_key event_authority) sighash tx_data))
          (\<lambda>posted. Inr (bridge_state_account # tl accounts, posted))))
      | _ \<Rightarrow> Inl (Err NotEnoughAccountKeys))"

definition process_operator_withdraw_fees :: "bridge_env \<Rightarrow> pubkey \<Rightarrow> AccountInfo list \<Rightarrow> handler_result" where
  "process_operator_withdraw_fees e program_id accounts =
     (case accounts of bridge_state_account # operator_token_account # doge_mint_account # operator # token_program # others \<Rightarrow>
        if \<not> ai_is_signer operator then Inl (Err MissingRequiredSignature)
        else rbind (load_bridge_state bridge_state_account) (\<lambda>bridge_state.
        if ai_key doge_mint_account \<noteq> doge_mint bridge_state then Inl (Err (bridge_error InvalidAccountInput))
        else if ai_key operator \<noteq> operator_pubkey (bs_access_control (core_state bridge_state))
        then Inl (Err MissingRequiredSignature)
        else rbind (lift_doge (run_bridge_operator_withdraw_fees_precheck (core_state bridge_state))) (\<lambda>(s, fees_to_withdraw).
        let bridge_state_account = store_core_state bridge_state_account bridge_state s
        in rbind (lift_doge (solana_mint_to e program_id doge_mint_account bridge_state_account [operator_token_account] 0
               (ai_key operator_token_account) fees_to_withdraw)) (\<lambda>_.
        Inr (bridge_state_account # tl accounts,
             [MintTo (ai_key doge_mint_account) (ai_key operator_token_account) (ai_key bridge_state_account) fees_to_withdraw]))))
      | _ \<Rightarrow> Inl (Err NotEnoughAccountKeys))"

text \<open>The literal \<open>b"manual-claim"\<close>.\<close>

definition manual_claim_seed :: bytes where
  "manual_claim_seed = [109, 97, 110, 117, 97, 108, 45, 99, 108, 97, 105, 109]"

definition process_process_manual_deposit ::
  "bridge_env \<Rightarrow> pubkey \<Rightarrow> AccountInfo list \<Rightarrow> ProcessManualDepositInstructionData \<Rightarrow> handler_result" where
  "process_process_manual_deposit e program_id accounts params =
     (case accounts of bridge_state_account # recipient_account # doge_mint_account # token_program #
          manual_claim_program_signer # others \<Rightarrow>
        if \<not> ai_is_signer manual_claim_program_signer then Inl (Err MissingRequiredSignature)
        else rbind (verify_lowest_pda (env_rt e) manual_claim_seed (ai_key manual_claim_program_signer)
               (pid_manual_claim (env_ids e)) (md_depositor_solana_public_key params)) (\<lambda>_.
        rbind (load_bridge_state bridge_state_account) (\<lambda>bridge_state.
        rbind (lift_doge (process_manual_claimed_deposit (env_sha e) (core_state bridge_state) (md_tx_hash params)
               (md_recent_block_merkle_tree_root params) (md_recent_auto_claim_txo_root params) (md_combined_txo_index params)
               (ai_key recipient_account) (md_deposit_amount_sats params))) (\<lambda>(s, mint_amount).
        let bridge_state_account = store_core_state bridge_state_account bridge_state s
        in rbind (lift_doge (solana_mint_to e program_id doge_mint_account bridge_state_account [recipient_account] 0
               (ai_key recipient_account) mint_amount)) (\<lambda>_.
        Inr (bridge_state_account # tl accounts,
             [MintTo (ai_key doge_mint_account) (ai_key recipient_account) (ai_key bridge_state_account) mint_amount])))))
      | _ \<Rightarrow> Inl (Err NotEnoughAccountKeys))"

abbreviation PARTIAL_PROOF_SIZE :: nat where
  "PARTIAL_PROOF_SIZE \<equiv> 1064"

definition current_timestamp :: "bridge_env \<Rightarrow> u32" where
  "current_timestamp e = ucast (env_unix_timestamp e AND 0xFFFFFFFF)"

definition process_replay_withdrawal :: "bridge_env \<Rightarrow> pubkey \<Rightarrow> AccountInfo list \<Rightarrow> handler_result" where
  "process_replay_withdrawal e program_id accounts =
     (case accounts of bridge_state_account # doge_tx_buffer # shim_program_id # bridge_config # message # sequence # payer #
          fee_collector # clock # system_program # core_bridge_program # event_authority # others \<Rightarrow>
        if ai_key bridge_state_account \<noteq> bridge_state_address (env_rt e) program_id then Inl (Err (bridge_error InvalidPDA))
        else if ai_owner doge_tx_buffer \<noteq> pid_generic_buffer (env_ids e) then Inl (Err IllegalOwner)
        else rbind (load_bridge_state bridge_state_account) (\<lambda>bridge_state.
        let proof_and_dogecoin_tx = ai_data doge_tx_buffer
        in if length proof_and_dogecoin_tx < 32 + PARTIAL_PROOF_SIZE + 10 then Inl (Err (bridge_error InvalidAccountInput))
        else let pf = dec_partial_proof (bslice proof_and_dogecoin_tx 32 (32 + PARTIAL_PROOF_SIZE));
                 tx_data = drop (32 + PARTIAL_PROOF_SIZE) proof_and_dogecoin_tx;
                 sighash = btc_hash256_bytes (env_sha e) tx_data;
                 now = current_timestamp e;
                 now = (if bs_last_processed_withdrawals_at_ms (core_state bridge_state) = ucast now then now + 1 else now)
        in if pp_value pf \<noteq> sighash then Inl (Err (bridge_error InvalidAccountInput))
        else rbind (lift_doge (process_replay_withdrawal_proof (env_sha e) (core_state bridge_state) pf now)) (\<lambda>(accepted, s).
        if accepted
        then let nonce = ucast (bs_next_processed_withdrawals_index s);
                 bridge_state_account = store_core_state bridge_state_account bridge_state s
             in rbind (send_wormhole_vaa e accounts (wormhole_vaa_instruction nonce (ai_key shim_program_id)
                    (ai_key bridge_config) (ai_key message) (ai_key bridge_state_account) (ai_key sequence) (ai_key payer)
                    (ai_key fee_collector) (ai_key clock) (ai_key system_program) (ai_key core_bridge_program)
                    (ai_key event_authority) sighash tx_data)) (\<lambda>posted. Inr (bridge_state_account # tl accounts, posted))
        else Inl (Err (bridge_error CoreError))))
      | _ \<Rightarrow> Inl (Err NotEnoughAccountKeys))"

definition process_snapshot_withdrawals :: "bridge_env \<Rightarrow> pubkey \<Rightarrow> AccountInfo list \<Rightarrow> handler_result" where
  "process_snapshot_withdrawals e program_id accounts =
     (case accounts of bridge_state_account # operator # payer # others \<Rightarrow>
        if \<not> ai_is_signer operator then Inl (Err MissingRequiredSignature)
        else if bridge_state_address (env_rt e) program_id \<noteq> ai_key bridge_state_account then Inl (Err (bridge_error InvalidPDA))
        else rbind (load_bridge_state bridge_state_account) (\<lambda>bridge_state.
        if operator_pubkey (bs_access_control (core_state bridge_state)) \<noteq> ai_key operator then Inl (Err MissingRequiredSignature)
        else Inr (store_core_state bridge_state_account bridge_state
                    (snapshot_for_withdrawal (core_state bridge_state) (current_timestamp e)) # tl accounts, []))
      | _ \<Rightarrow> Inl (Err NotEnoughAccountKeys))"

section \<open>The entry point\<close>

definition run_instruction :: "bridge_env \<Rightarrow> pubkey \<Rightarrow> AccountInfo list \<Rightarrow> BridgeInstruction \<Rightarrow> handler_result" where
  "run_instruction e program_id accounts instruction =
     (case instruction of
        Initialize params \<Rightarrow> process_initialize e program_id accounts params
      | BlockUpdate proof header b1 b2 \<Rightarrow> process_block_update e program_id accounts proof header b1 b2
      | RequestWithdrawal req \<Rightarrow> process_request_withdrawal e program_id accounts req
      | ProcessWithdrawal params \<Rightarrow> process_process_withdrawal e program_id accounts params
      | OperatorWithdrawFees \<Rightarrow> process_operator_withdraw_fees e program_id accounts
      | ProcessManualDeposit params \<Rightarrow> process_process_manual_deposit e program_id accounts params
      | ReplayWithdrawal \<Rightarrow> process_replay_withdrawal e program_id accounts
      | ProcessMintGroup g b unlock \<Rightarrow> process_process_mint_group e program_id accounts g b unlock
      | ProcessReorgBlocks proof header blocks b1 b2 \<Rightarrow> process_reorg_blocks e program_id accounts proof header blocks b1 b2
      | ProcessMintGroupAutoAdvance g b1 b2 unlock \<Rightarrow>
          process_process_mint_group_auto_advance e program_id accounts g b1 b2 unlock
      | SnapshotWithdrawals \<Rightarrow> process_snapshot_withdrawals e program_id accounts)"

definition process_instruction :: "bridge_env \<Rightarrow> pubkey \<Rightarrow> AccountInfo list \<Rightarrow> bytes \<Rightarrow> handler_result" where
  "process_instruction e program_id accounts instruction_data =
     rbind (decode_instruction instruction_data) (run_instruction e program_id accounts)"

end
