(* ===== verification/BridgeProgram.thy ===== *)
theory BridgeProgram
  imports DogeBridge
begin

text \<open>
  Properties of the bridge program (\<open>programs/doge-bridge\<close>): every accepted instruction is a run of
  the state machine of theory \<open>BridgeMachine\<close> on the state account, so that its invariant holds of
  every account the program ever writes; and what each handler checks, pays, locks and sends.
\<close>

section \<open>Handlers are steps of the state machine\<close>

text \<open>What a decoded instruction looks like: every fixed-size field has its size.\<close>

fun wf_instruction :: "BridgeInstruction \<Rightarrow> bool" where
  "wf_instruction (Initialize i) = wf_initialize i"
| "wf_instruction (BlockUpdate pf h b1 b2) = (length pf = 256 \<and> wf_header h)"
| "wf_instruction (RequestWithdrawal r) = wf_withdrawal_request r"
| "wf_instruction (ProcessWithdrawal p) = wf_process_withdrawal p"
| "wf_instruction (ProcessManualDeposit p) = wf_manual_deposit p"
| "wf_instruction (ProcessReorgBlocks pf h blocks b1 b2) =
     (length pf = 256 \<and> wf_header h \<and> list_all wf_mint_txo_info blocks)"
| "wf_instruction _ = True"

text \<open>Case splits on results, one branch at a time.\<close>

lemma if_result_elims:
  "(if b then m else n) = Inr y \<Longrightarrow> (b \<Longrightarrow> m = Inr y \<Longrightarrow> P) \<Longrightarrow> (\<not> b \<Longrightarrow> n = Inr y \<Longrightarrow> P) \<Longrightarrow> P"
  "Inl x = Inr y \<Longrightarrow> P"
  by (auto split: if_splits)

lemma option_result_elims:
  "(case x of None \<Rightarrow> Inl z | Some (a, b, c) \<Rightarrow> f a b c) = Inr y \<Longrightarrow> (\<And>a b c. x = Some (a, b, c) \<Longrightarrow> f a b c = Inr y \<Longrightarrow> P) \<Longrightarrow> P"
  by (auto split: option.splits)

lemma reorg_reader_wf:
  assumes "reorg_reader_new data = Some (pf, h, blocks)"
  shows "length pf = 256 \<and> wf_header h \<and> list_all wf_mint_txo_info blocks"
proof -
  let ?n = "(length data - 576) div 64"
  have len: "576 \<le> length data" and pf: "pf = bu_proof (dec_block_update (bslice data 0 576))"
    and h: "h = bu_header (dec_block_update (bslice data 0 576))"
    and blocks: "blocks = map (\<lambda>i. dec_mint_txo_info (bslice data (576 + i * 64) (576 + i * 64 + 64))) [0..<?n]"
    using assms by (auto simp: reorg_reader_new_def Let_def split: if_splits)
  have "wf_block_update (dec_block_update (bslice data 0 576))" using len by (intro block_update_data.wf_dec) simp
  moreover have "wf_mint_txo_info (dec_mint_txo_info (bslice data (576 + i * 64) (576 + i * 64 + 64)))" if "i < ?n" for i
    using that len by (intro mint_txo_info.wf_dec) (simp add: less_eq_div_iff_mult_less_eq Suc_le_eq [symmetric])
  ultimately show ?thesis by (auto simp: pf h blocks wf_block_update_def list_all_iff)
qed

lemma decode_wf:
  assumes "decode_instruction data = Inr ins"
  shows "wf_instruction ins"
proof -
  define D where "D = drop 8 data"
  define d where "d = data ! 0"
  have "wf_block_update (dec_block_update D)" if "length D = 576" using that by (rule block_update_data.wf_dec)
  then have fixed: "length (bu_proof (dec_block_update D)) = 256 \<and> wf_header (bu_header (dec_block_update D))"
    if "length D = 576" using that by (simp add: wf_block_update_def)
  show ?thesis
    using assms unfolding decode_instruction_def Let_def D_def [symmetric] d_def [symmetric]
    by (elim if_result_elims option_result_elims)
      (auto simp: fixed initialize_data.wf_dec withdrawal_request.wf_dec process_withdrawal_data.wf_dec
        manual_deposit_data.wf_dec dest: reorg_reader_wf)
qed

text \<open>The account \<open>a'\<close> holds a state that the machine reaches from the one in \<open>a\<close>; nothing else of it changed.\<close>

definition stepped :: "bridge_env \<Rightarrow> AccountInfo \<Rightarrow> AccountInfo \<Rightarrow> bool" where
  "stepped e a a' \<longleftrightarrow> length (ai_data a) = BRIDGE_STATE_SIZE \<and>
     (\<exists>s'. (bridge_step (env_sha e) (env_zkv e))\<^sup>*\<^sup>* (core_state (dec_bridge_state (ai_data a))) s' \<and>
           a' = store_core_state a (dec_bridge_state (ai_data a)) s')"

lemma steppedI:
  "load_bridge_state a = Inr b \<Longrightarrow> bridge_step (env_sha e) (env_zkv e) (core_state b) s' \<Longrightarrow>
   stepped e a (store_core_state a b s')"
  by (auto simp: stepped_def load_bridge_state_def split: if_splits)

lemma invoke_mint_buffer_key:
  assumes "runtime_ok (env_rt e)" and "invoke_mint_buffer e pid accounts buf auth tag = Some buf'" and "tag = 4 \<or> tag = 5"
  shows "ai_key buf' = ai_key buf \<and> ai_owner buf' = ai_owner buf"
  using assms(2,3) by (auto simp: invoke_mint_buffer_def pmb_process_instruction_def pmb_lock_def pmb_unlock_def result_simps
      split: if_splits sum.splits list.splits)

section \<open>What an accepted instruction has checked and done\<close>

lemma list_elims:
  "(case xs of [] \<Rightarrow> Inl z | x # ys \<Rightarrow> f x ys) = Inr y \<Longrightarrow> (\<And>x ys. xs = x # ys \<Longrightarrow> f x ys = Inr y \<Longrightarrow> P) \<Longrightarrow> P"
  by (cases xs) auto

lemma address_elims:
  "(case x of None \<Rightarrow> Inl z | Some a \<Rightarrow> f a) = Inr y \<Longrightarrow> (\<And>a. x = Some a \<Longrightarrow> f a = Inr y \<Longrightarrow> P) \<Longrightarrow> P"
  by (cases x) auto

lemma bind_elims:
  "rbind m f = Inr y \<Longrightarrow> (\<And>x. m = Inr x \<Longrightarrow> f x = Inr y \<Longrightarrow> P) \<Longrightarrow> P"
  "(if b then Inl z else n) = Inr y \<Longrightarrow> (\<not> b \<Longrightarrow> n = Inr y \<Longrightarrow> P) \<Longrightarrow> P"
  by (auto simp: result_simps)

lemmas handler_elims = list_elims address_elims bind_elims

lemma block_update_ok:
  assumes "run_block_update_common e pid accounts pf h extra b1 b2 is_reorg = Inr (accounts', calls)"
  obtains a buf txo operator payer mp tp others locked st s buf'
  where "accounts = a # buf # txo # operator # payer # mp # tp # others" and "ai_is_signer operator"
    and "rt_create_program_address (env_rt e) [mint_buffer_seed, ai_key operator, [b1]] (pid_pending_mint_buffer (env_ids e)) =
      Some (ai_key buf)"
    and "rt_create_program_address (env_rt e) [txo_buffer_seed, ai_key operator, [b2]] (pid_txo_buffer (env_ids e)) =
      Some (ai_key txo)"
    and "ai_owner buf = pid_pending_mint_buffer (env_ids e)" and "ai_owner txo = pid_txo_buffer (env_ids e)"
    and "lock_buffer e pid accounts buf a = Inr locked" and "load_bridge_state a = Inr st"
    and "(if is_reorg
          then run_block_transition_reorg (env_sha e) (env_zkv e) (core_state st) pf (BLOCK_REORG_VK (env_mock_zkp e)) h extra
                 (ai_key a) (ai_key locked) (ai_data txo) (ai_data locked)
          else run_standard_single_block_transition (env_sha e) (env_zkv e) (core_state st) pf
                 (SINGLE_BLOCK_UPDATE_VK (env_mock_zkp e)) h (ai_key a) (ai_key locked) (ai_data txo) (ai_data locked)) = Inr s"
    and "accounts' = store_core_state a st s # buf' # txo # operator # payer # mp # tp # others"
    and "sc_auto_claimed_deposits_next_index (finalized_state (bs_bridge_header (core_state st))) =
         sc_auto_claimed_deposits_next_index (finalized_state (bs_bridge_header s)) \<Longrightarrow>
         unlock_buffer e pid accounts locked (store_core_state a st s) = Inr buf'"
    and "sc_auto_claimed_deposits_next_index (finalized_state (bs_bridge_header (core_state st))) \<noteq>
         sc_auto_claimed_deposits_next_index (finalized_state (bs_bridge_header s)) \<Longrightarrow> buf' = locked"
  using assms unfolding run_block_update_common_def Let_def
  apply (elim handler_elims)
  subgoal for a ys buf ys1 txo ys2 operator ys3 payer ys4 mp ys5 tp others m_pda t_pda locked st s
    by (rule that [of a buf txo operator payer mp tp others locked st s "accounts' ! 1"])
       (auto simp: result_simps split: if_splits)
  done

lemma check_should_unlock_ok [simp]: "check_should_unlock a b = Inr u \<longleftrightarrow> a = b"
  by (auto simp: check_should_unlock_def)

lemma mint_group_ok:
  assumes "process_process_mint_group e pid accounts g b unlock = Inr (accounts', calls)"
  obtains a buf operator mint payer mp tok recipients st s mints off paid buf'
  where "accounts = a # buf # operator # mint # payer # mp # tok # recipients" and "ai_is_signer operator"
    and "load_bridge_state a = Inr st" and "ai_key buf = pt_storage_account (tracker_of (core_state st))"
    and "ai_key mint = doge_mint st" and "ai_key operator = operator_pubkey (bs_access_control (core_state st))"
    and "run_auto_mint_group_precheck (core_state st) g (ai_key buf) = Inr (s, unlock, mints, off)"
    and "length recipients = unat mints"
    and "mint_loop (solana_mint_to e pid mint (store_core_state a st s) recipients) (ai_data buf) off 0 (unat mints) = Inr paid"
    and "accounts' = store_core_state a st s # buf' # operator # mint # payer # mp # tok # recipients"
    and "unlock \<Longrightarrow> unlock_buffer e pid accounts buf (store_core_state a st s) = Inr buf'"
    and "\<not> unlock \<Longrightarrow> buf' = buf"
    and "calls = mint_cpis mint (store_core_state a st s) paid @ (if unlock then [UnlockBuffer (ai_key buf)] else [])"
  using assms unfolding process_process_mint_group_def Let_def case_prod_unfold
  apply (elim handler_elims)
  subgoal for a ys buf ys1 operator ys2 mint ys3 payer ys4 mp ys5 tok recipients st r u paid
    by (rule that [of a buf operator mint payer mp tok recipients st "fst r" "fst (snd (snd r))" "snd (snd (snd r))" paid "accounts' ! 1"])
       (auto simp: result_simps prod_eq_iff split: if_splits)
  done

lemma advance_ok:
  assumes "advance_if_finished e s a buf txo operator b = Inr (s', jit)"
  obtains "\<not> jit" and "s' = s"
  | "jit" and "tracker_is_empty (tracker_of s)" and "ai_owner txo = pid_txo_buffer (env_ids e)"
    and "run_setup_next_pending_buffer (env_sha e) s (ai_key a) (ai_key buf) (ai_data txo) (ai_data buf) = Inr s'"
  using assms unfolding advance_if_finished_def Let_def
  by (auto simp: result_simps split: if_splits option.splits)

lemma auto_advance_ok:
  assumes "process_process_mint_group_auto_advance e pid accounts g b1 b2 unlock = Inr (accounts', calls)"
  obtains a buf txo operator mint payer mp tp tok recipients st s0 jit s mints off locked paid buf'
  where "accounts = a # buf # txo # operator # mint # payer # mp # tp # tok # recipients" and "ai_is_signer operator"
    and "load_bridge_state a = Inr st" and "advance_if_finished e (core_state st) a buf txo operator b2 = Inr (s0, jit)"
    and "ai_key buf = pt_storage_account (tracker_of s0)"
    and "run_auto_mint_group_precheck s0 g (ai_key buf) = Inr (s, unlock, mints, off)" and "length recipients = unat mints"
    and "jit \<Longrightarrow> lock_buffer e pid accounts buf (store_core_state a st s) = Inr locked" and "\<not> jit \<Longrightarrow> locked = buf"
    and "mint_loop (solana_mint_to e pid mint (store_core_state a st s) recipients) (ai_data locked) off 0 (unat mints) = Inr paid"
    and "accounts' = store_core_state a st s # buf' # txo # operator # mint # payer # mp # tp # tok # recipients"
    and "unlock \<Longrightarrow> unlock_buffer e pid accounts locked (store_core_state a st s) = Inr buf'"
    and "\<not> unlock \<Longrightarrow> buf' = locked"
    and "calls = (if jit then [LockBuffer (ai_key locked)] else []) @ mint_cpis mint (store_core_state a st s) paid @
      (if unlock then [UnlockBuffer (ai_key locked)] else [])"
  using assms unfolding process_process_mint_group_auto_advance_def Let_def case_prod_unfold
  apply (elim handler_elims)
  subgoal for a ys buf ys1 txo ys2 operator ys3 mint ys4 payer ys5 mp ys6 tp ys7 tok recipients st s0 r u locked paid
    by (rule that [of a buf txo operator mint payer mp tp tok recipients st "fst s0" "snd s0" "fst r" "fst (snd (snd r))"
          "snd (snd (snd r))" locked paid "accounts' ! 1"])
       (auto simp: result_simps prod_eq_iff split: if_splits)
  done

lemma request_withdrawal_ok:
  assumes "process_request_withdrawal e pid accounts req = Inr (accounts', calls)"
  obtains a user mint auth tok others st s
  where "accounts = a # user # mint # auth # tok # others" and "load_bridge_state a = Inr st" and "ai_is_signer auth"
    and "state_process_request_withdrawal (env_sha e) (core_state st) (wr_address_type req) (wr_recipient_address req)
      (wr_amount_sats req) = (True, s)"
    and "env_burn e (ai_key user) (ai_key mint) (ai_key auth) (wr_amount_sats req)"
    and "accounts' = store_core_state a st s # user # mint # auth # tok # others"
    and "calls = [BurnFrom (ai_key user) (ai_key mint) (ai_key auth) (wr_amount_sats req)]"
  using assms unfolding process_request_withdrawal_def case_prod_unfold
  apply (elim handler_elims)
  subgoal for a ys user ys1 mint ys2 auth ys3 tok others st r
    by (rule that [of a user mint auth tok others st "fst r"])
       (auto simp: request_withdrawal_def solana_burn_from_def result_simps split: if_splits prod.splits)
  done

lemma withdrawal_ok:
  assumes "process_process_withdrawal e pid accounts params = Inr (accounts', calls)"
  obtains a buf shim cfg msg sq payer fc clock sys core ev others st s sighash
  where "accounts = a # buf # shim # cfg # msg # sq # payer # fc # clock # sys # core # ev # others"
    and "ai_key a = bridge_state_address (env_rt e) pid" and "ai_owner buf = pid_generic_buffer (env_ids e)"
    and "load_bridge_state a = Inr st" and "32 \<le> length (ai_data buf)"
    and "run_process_bridge_withdrawal (env_sha e) (env_zkv e) (core_state st) (pw_proof params) (WITHDRAWAL_VK (env_mock_zkp e))
      (drop 32 (ai_data buf)) (pw_new_return_output params) (pw_new_spent_txo_tree_root params)
      (pw_new_next_processed_withdrawals_index params) = Inr (s, sighash)"
    and "accounts' = store_core_state a st s # tl accounts"
    and "send_wormhole_vaa e accounts (wormhole_vaa_instruction (ucast (bs_next_processed_withdrawals_index s)) (ai_key shim)
      (ai_key cfg) (ai_key msg) (ai_key a) (ai_key sq) (ai_key payer) (ai_key fc) (ai_key clock) (ai_key sys)
      (ai_key core) (ai_key ev) sighash (drop 32 (ai_data buf))) = Inr calls"
  using assms unfolding process_process_withdrawal_def Let_def case_prod_unfold
  apply (elim handler_elims)
  subgoal for a ys buf ys1 shim ys2 cfg ys3 msg ys4 sq ys5 payer ys6 fc ys7 clock ys8 sys ys9 core ys10 ev others st r posted
    by (rule that [of a buf shim cfg msg sq payer fc clock sys core ev others st "fst r" "snd r"])
       (auto simp: store_bridge_state_def)
  done

lemma fees_ok:
  assumes "process_operator_withdraw_fees e pid accounts = Inr (accounts', calls)"
  obtains a ata mint operator tok others st s fees
  where "accounts = a # ata # mint # operator # tok # others" and "ai_is_signer operator" and "load_bridge_state a = Inr st"
    and "ai_key mint = doge_mint st" and "ai_key operator = operator_pubkey (bs_access_control (core_state st))"
    and "run_bridge_operator_withdraw_fees_precheck (core_state st) = Inr (s, fees)"
    and "accounts' = store_core_state a st s # tl accounts"
    and "calls = [MintTo (ai_key mint) (ai_key ata) (ai_key a) fees]"
  using assms unfolding process_operator_withdraw_fees_def Let_def case_prod_unfold
  apply (elim handler_elims)
  subgoal for a ys ata ys1 mint ys2 operator ys3 tok others st r u
    by (rule that [of a ata mint operator tok others st "fst r" "snd r"]) (auto simp: store_bridge_state_def)
  done

lemma manual_deposit_ok:
  assumes "process_process_manual_deposit e pid accounts params = Inr (accounts', calls)"
  obtains a recipient mint tok signer others st s amount
  where "accounts = a # recipient # mint # tok # signer # others" and "ai_is_signer signer"
    and "ai_key signer = fst (rt_find_program_address (env_rt e) [manual_claim_seed, md_depositor_solana_public_key params]
      (pid_manual_claim (env_ids e)))"
    and "load_bridge_state a = Inr st"
    and "process_manual_claimed_deposit (env_sha e) (core_state st) (md_tx_hash params) (md_recent_block_merkle_tree_root params)
      (md_recent_auto_claim_txo_root params) (md_combined_txo_index params) (ai_key recipient) (md_deposit_amount_sats params) =
      Inr (s, amount)"
    and "accounts' = store_core_state a st s # tl accounts"
    and "calls = [MintTo (ai_key mint) (ai_key recipient) (ai_key a) amount]"
  using assms unfolding process_process_manual_deposit_def Let_def case_prod_unfold
  apply (elim handler_elims)
  subgoal for a ys recipient ys1 mint ys2 tok ys3 signer others u st r u'
    by (rule that [of a recipient mint tok signer others st "fst r" "snd r"])
       (auto simp: store_bridge_state_def verify_lowest_pda_def split: prod.splits if_splits)
  done

lemma replay_ok:
  assumes "process_replay_withdrawal e pid accounts = Inr (accounts', calls)"
  obtains a buf shim cfg msg sq payer fc clock sys core ev others st pf now s
  where "accounts = a # buf # shim # cfg # msg # sq # payer # fc # clock # sys # core # ev # others"
    and "ai_key a = bridge_state_address (env_rt e) pid" and "ai_owner buf = pid_generic_buffer (env_ids e)"
    and "load_bridge_state a = Inr st" and "1106 \<le> length (ai_data buf)"
    and "pf = dec_partial_proof (bslice (ai_data buf) 32 1096)"
    and "pp_value pf = btc_hash256_bytes (env_sha e) (drop 1096 (ai_data buf))"
    and "process_replay_withdrawal_proof (env_sha e) (core_state st) pf now = Inr (True, s)"
    and "accounts' = store_core_state a st s # tl accounts"
    and "send_wormhole_vaa e accounts (wormhole_vaa_instruction (ucast (bs_next_processed_withdrawals_index s)) (ai_key shim)
      (ai_key cfg) (ai_key msg) (ai_key a) (ai_key sq) (ai_key payer) (ai_key fc) (ai_key clock) (ai_key sys)
      (ai_key core) (ai_key ev) (pp_value pf) (drop 1096 (ai_data buf))) = Inr calls"
  using assms unfolding process_replay_withdrawal_def Let_def case_prod_unfold
  apply (elim handler_elims)
  subgoal for a ys buf ys1 shim ys2 cfg ys3 msg ys4 sq ys5 payer ys6 fc ys7 clock ys8 sys ys9 core ys10 ev others st r
    by (rule that [of a buf shim cfg msg sq payer fc clock sys core ev others st
          "dec_partial_proof (bslice (ai_data buf) 32 1096)"
          "if bs_last_processed_withdrawals_at_ms (core_state st) = ucast (current_timestamp e) then current_timestamp e + 1
           else current_timestamp e" "snd r"])
       (auto simp: store_bridge_state_def result_simps prod_eq_iff)
  done

lemma snapshot_ok:
  assumes "process_snapshot_withdrawals e pid accounts = Inr (accounts', calls)"
  obtains a operator payer others st
  where "accounts = a # operator # payer # others" and "ai_is_signer operator" and "load_bridge_state a = Inr st"
    and "ai_key operator = operator_pubkey (bs_access_control (core_state st))"
    and "accounts' = store_core_state a st (snapshot_for_withdrawal (core_state st) (current_timestamp e)) # tl accounts"
    and "calls = []"
  using assms unfolding process_snapshot_withdrawals_def
  apply (elim handler_elims)
  subgoal for a ys operator ys1 payer others st
    by (rule that [of a operator payer others st]) auto
  done

lemma initialize_ok:
  assumes "process_initialize e pid accounts i = Inr (accounts', calls)"
  obtains a payer sys others a0 payer'
  where "accounts = a # payer # sys # others" and "ai_key a = bridge_state_address (env_rt e) pid"
    and "ai_data a = [] \<Longrightarrow> rt_create_account (env_rt e) [bridge_state_seed,
      [snd (rt_find_program_address (env_rt e) [bridge_state_seed] pid)]] payer a
      (rt_minimum_balance (env_rt e) BRIDGE_STATE_SIZE) BRIDGE_STATE_SIZE pid = Inr (payer', a0)"
    and "ai_data a \<noteq> [] \<Longrightarrow> a0 = a \<and> payer' = payer"
    and "length (ai_data a0) = BRIDGE_STATE_SIZE"
    and "accounts' = store_bridge_state a0 \<lparr> core_state = state_initialize i, doge_mint = ii_doge_mint i \<rparr> # payer' # sys # others"
    and "calls = []"
  using assms unfolding process_initialize_def case_prod_unfold
  apply (elim handler_elims)
  subgoal for a ys payer ys1 sys others r st
    by (rule that [of a payer sys others "fst r" "snd r"])
       (auto simp: bridge_state_address_def load_bridge_state_def split: if_splits)
  done

section \<open>Every instruction is a run of the state machine\<close>

lemma steppedI2:
  assumes "load_bridge_state a = Inr b" and "(bridge_step (env_sha e) (env_zkv e))\<^sup>*\<^sup>* (core_state b) s'"
  shows "stepped e a (store_core_state a b s')"
  using assms by (auto simp: stepped_def load_bridge_state_def split: if_splits)

lemma lock_keys:
  "runtime_ok (env_rt e) \<Longrightarrow> lock_buffer e pid accounts buf auth = Inr buf' \<Longrightarrow> ai_key buf' = ai_key buf \<and> ai_owner buf' = ai_owner buf"
  "runtime_ok (env_rt e) \<Longrightarrow> unlock_buffer e pid accounts buf auth = Inr buf' \<Longrightarrow> ai_key buf' = ai_key buf \<and> ai_owner buf' = ai_owner buf"
  by (auto simp: lock_buffer_def unlock_buffer_def split: option.splits dest: invoke_mint_buffer_key)

lemma block_update_stepped:
  assumes "run_block_update_common e pid (a # rest) pf h extra b1 b2 is_reorg = Inr (a' # rest', calls)"
    and "runtime_ok (env_rt e)" and "\<forall>x \<in> set rest. length (ai_key x) = 32" and "wf_header h" and "list_all wf_mint_txo_info extra"
  shows "stepped e a a'"
proof (rule block_update_ok [OF assms(1)])
  fix a0 buf txo operator payer mp tp others locked st s buf'
  assume accs: "a # rest = a0 # buf # txo # operator # payer # mp # tp # others"
    and lock: "lock_buffer e pid (a # rest) buf a0 = Inr locked" and st: "load_bridge_state a0 = Inr st"
    and run: "(if is_reorg
          then run_block_transition_reorg (env_sha e) (env_zkv e) (core_state st) pf (BLOCK_REORG_VK (env_mock_zkp e)) h extra
                 (ai_key a0) (ai_key locked) (ai_data txo) (ai_data locked)
          else run_standard_single_block_transition (env_sha e) (env_zkv e) (core_state st) pf
                 (SINGLE_BLOCK_UPDATE_VK (env_mock_zkp e)) h (ai_key a0) (ai_key locked) (ai_data txo) (ai_data locked)) = Inr s"
    and out: "a' # rest' = store_core_state a0 st s # buf' # txo # operator # payer # mp # tp # others"
  have "length (ai_key locked) = 32" using lock_keys(1) [OF assms(2) lock] accs assms(3) by simp
  then have "bridge_step (env_sha e) (env_zkv e) (core_state st) s"
    using run assms(4,5) by (auto intro: single_block reorg split: if_splits)
  then show ?thesis using accs out steppedI [OF st] by simp
qed

lemma auto_advance_stepped:
  assumes "process_process_mint_group_auto_advance e pid (a # rest) g b1 b2 unlock = Inr (a' # rest', calls)"
    and "\<forall>x \<in> set rest. length (ai_key x) = 32"
  shows "stepped e a a'"
proof (rule auto_advance_ok [OF assms(1)])
  fix a0 buf txo operator mint payer mp tp tok recipients st s0 jit s mints off buf'
  assume accs: "a # rest = a0 # buf # txo # operator # mint # payer # mp # tp # tok # recipients"
    and st: "load_bridge_state a0 = Inr st" and adv: "advance_if_finished e (core_state st) a0 buf txo operator b2 = Inr (s0, jit)"
    and claim: "run_auto_mint_group_precheck s0 g (ai_key buf) = Inr (s, unlock, mints, off)"
    and out: "a' # rest' = store_core_state a0 st s # buf' # txo # operator # mint # payer # mp # tp # tok # recipients"
  have "(bridge_step (env_sha e) (env_zkv e))\<^sup>*\<^sup>* (core_state st) s0"
    by (rule advance_ok [OF adv]) (use accs assms(2) in \<open>auto intro!: next_buffer\<close>)
  then have "(bridge_step (env_sha e) (env_zkv e))\<^sup>*\<^sup>* (core_state st) s"
    using claim_group [OF claim] by (rule rtranclp.rtrancl_into_rtrancl)
  then show ?thesis using accs out steppedI2 [OF st] by simp
qed

lemma instruction_stepped:
  assumes run: "run_instruction e pid (a # rest) ins = Inr (a' # rest', calls)" and "wf_instruction ins"
    and "runtime_ok (env_rt e)" and "\<forall>x \<in> set rest. length (ai_key x) = 32" and "\<nexists>i. ins = Initialize i"
  shows "stepped e a a'"
proof (cases ins)
  case (BlockUpdate pf h b1 b2)
  with assms show ?thesis by (auto simp: run_instruction_def process_block_update_def intro: block_update_stepped)
next
  case (ProcessReorgBlocks pf h blocks b1 b2)
  with assms show ?thesis by (auto simp: run_instruction_def process_reorg_blocks_def intro: block_update_stepped)
next
  case (RequestWithdrawal req)
  with assms(1,2) show ?thesis
    by (auto simp: run_instruction_def wf_withdrawal_request_def elim!: request_withdrawal_ok intro!: steppedI intro: request)
next
  case (ProcessWithdrawal params)
  with assms(1,2) show ?thesis
    by (auto simp: run_instruction_def wf_process_withdrawal_def elim!: withdrawal_ok intro!: steppedI intro: withdrawal)
next
  case OperatorWithdrawFees
  with assms(1) show ?thesis by (auto simp: run_instruction_def elim!: fees_ok intro!: steppedI intro: withdraw_fees)
next
  case (ProcessManualDeposit params)
  with assms(1) show ?thesis by (auto simp: run_instruction_def elim!: manual_deposit_ok intro!: steppedI intro: manual_deposit)
next
  case ReplayWithdrawal
  with assms(1) show ?thesis by (auto simp: run_instruction_def elim!: replay_ok intro!: steppedI intro: replay)
next
  case (ProcessMintGroup g b unlock)
  with assms(1) show ?thesis by (auto simp: run_instruction_def elim!: mint_group_ok intro!: steppedI intro: claim_group)
next
  case (ProcessMintGroupAutoAdvance g b1 b2 unlock)
  with assms(1,4) show ?thesis by (auto simp: run_instruction_def intro: auto_advance_stepped)
next
  case SnapshotWithdrawals
  with assms(1) show ?thesis by (auto simp: run_instruction_def elim!: snapshot_ok intro!: steppedI intro: take_snapshot)
qed (use assms(5) in simp)

section \<open>The state account\<close>

definition account_ok :: "AccountInfo \<Rightarrow> bool" where
  "account_ok a \<longleftrightarrow> length (ai_data a) = BRIDGE_STATE_SIZE \<and> bridge_inv (core_state (dec_bridge_state (ai_data a)))"

lemma wf_stored: "bridge_inv s \<Longrightarrow> length m = 32 \<Longrightarrow> wf_bridge_state \<lparr> core_state = s, doge_mint = m \<rparr>"
  by (simp add: wf_bridge_state_def bridge_inv_def)

lemma read_stored:
  assumes "bridge_inv (core_state b)" and "length (doge_mint b) = 32"
  shows "dec_bridge_state (ai_data (store_bridge_state a b)) = b" and "account_ok (store_bridge_state a b)"
proof -
  have wf: "wf_bridge_state b" using assms by (simp add: wf_bridge_state_def bridge_inv_def)
  show "dec_bridge_state (ai_data (store_bridge_state a b)) = b"
    using bridge_state_codec.dec_enc [OF wf] by (simp add: store_bridge_state_def)
  then show "account_ok (store_bridge_state a b)"
    using bridge_state_codec.enc_length [OF wf] assms by (simp add: account_ok_def store_bridge_state_def)
qed

lemma doge_mint_length: "length d = BRIDGE_STATE_SIZE \<Longrightarrow> length (doge_mint (dec_bridge_state d)) = 32"
  using bridge_state_codec.wf_dec [of d] by (simp add: wf_bridge_state_def)

lemma machine_inv:
  "digest32 sha \<Longrightarrow> bridge_inv s \<Longrightarrow> (bridge_step sha zkv)\<^sup>*\<^sup>* s t \<Longrightarrow> bridge_inv t"
  using bridge.inv_steps [of sha zkv s t] by blast

lemma stepped_read:
  assumes "stepped e a a'" and "digest32 (env_sha e)" and "account_ok a"
  obtains s' where "(bridge_step (env_sha e) (env_zkv e))\<^sup>*\<^sup>* (core_state (dec_bridge_state (ai_data a))) s'" and "bridge_inv s'"
    and "dec_bridge_state (ai_data a') = dec_bridge_state (ai_data a) \<lparr> core_state := s' \<rparr>"
    and "account_ok a'" and "ai_key a' = ai_key a"
proof -
  obtain s' where s': "(bridge_step (env_sha e) (env_zkv e))\<^sup>*\<^sup>* (core_state (dec_bridge_state (ai_data a))) s'"
    "a' = store_core_state a (dec_bridge_state (ai_data a)) s'" using assms(1) by (auto simp: stepped_def)
  have inv: "bridge_inv s'" using machine_inv [OF assms(2) _ s'(1)] assms(3) by (simp add: account_ok_def)
  have "length (doge_mint (dec_bridge_state (ai_data a))) = 32" using assms(3) by (simp add: doge_mint_length account_ok_def)
  then show thesis
    using that [OF s'(1) inv] s'(2) inv read_stored [of "dec_bridge_state (ai_data a) \<lparr> core_state := s' \<rparr>" a]
    by (simp add: store_bridge_state_def)
qed

lemma initialize_account:
  assumes "process_initialize e pid (a # rest) i = Inr (a' # rest', calls)" and "runtime_ok (env_rt e)" and "wf_initialize i"
  shows "dec_bridge_state (ai_data a') = \<lparr> core_state = state_initialize i, doge_mint = ii_doge_mint i \<rparr>"
    and "account_ok a'" and "ai_key a' = ai_key a"
proof -
  obtain a0 payer payer' where a': "a' = store_bridge_state a0 \<lparr> core_state = state_initialize i, doge_mint = ii_doge_mint i \<rparr>"
    and a0: "ai_data a = [] \<Longrightarrow> rt_create_account (env_rt e) [bridge_state_seed,
      [snd (rt_find_program_address (env_rt e) [bridge_state_seed] pid)]] payer a
      (rt_minimum_balance (env_rt e) BRIDGE_STATE_SIZE) BRIDGE_STATE_SIZE pid = Inr (payer', a0)"
      "ai_data a \<noteq> [] \<Longrightarrow> a0 = a"
    by (rule initialize_ok [OF assms(1)]) blast
  have "ai_key a0 = ai_key a" using a0 runtime_okD(5) [OF assms(2)] by (cases "ai_data a = []") metis+
  then show "ai_key a' = ai_key a" by (simp add: a' store_bridge_state_def)
  have "length (ii_doge_mint i) = 32" using assms(3) by (simp add: wf_initialize_def)
  then show "dec_bridge_state (ai_data a') = \<lparr> core_state = state_initialize i, doge_mint = ii_doge_mint i \<rparr>" "account_ok a'"
    unfolding a' using initialize_inv [OF assms(3)] by (simp_all add: read_stored)
qed

lemma program_stepped:
  assumes "process_instruction e pid (a # rest) data = Inr (a' # rest', calls)" and "runtime_ok (env_rt e)"
    and "\<forall>x \<in> set rest. length (ai_key x) = 32"
  obtains i where "wf_initialize i" and "process_initialize e pid (a # rest) i = Inr (a' # rest', calls)"
  | "stepped e a a'"
proof -
  obtain ins where ins: "decode_instruction data = Inr ins" "run_instruction e pid (a # rest) ins = Inr (a' # rest', calls)"
    using assms(1) by (auto simp: process_instruction_def result_simps)
  have wf: "wf_instruction ins" by (rule decode_wf [OF ins(1)])
  show thesis
  proof (cases "\<exists>i. ins = Initialize i")
    case True
    with ins(2) wf that(1) show ?thesis by (auto simp: run_instruction_def)
  next
    case False
    with instruction_stepped [OF ins(2) wf assms(2,3)] that(2) show ?thesis by blast
  qed
qed

lemma program_account_ok:
  assumes "process_instruction e pid (a # rest) data = Inr (a' # rest', calls)" and "runtime_ok (env_rt e)"
    and "\<forall>x \<in> set rest. length (ai_key x) = 32" and "digest32 (env_sha e)" and "account_ok a \<or> ai_data a = []"
  shows "account_ok a'"
proof (rule program_stepped [OF assms(1-3)])
  fix i
  assume "wf_initialize i" and "process_initialize e pid (a # rest) i = Inr (a' # rest', calls)"
  then show ?thesis using initialize_account(2) [OF _ assms(2)] by blast
next
  assume step: "stepped e a a'"
  then have "account_ok a" using assms(5) by (auto simp: stepped_def)
  then show ?thesis using stepped_read [OF step assms(4)] by blast
qed

text \<open>The state account after some accepted instructions, from any signers, starting without data.\<close>

inductive bridge_reachable :: "(bytes \<Rightarrow> bytes) \<Rightarrow> pubkey \<Rightarrow> AccountInfo \<Rightarrow> bool" for sha :: "bytes \<Rightarrow> bytes" and pid :: pubkey where
  created: "bridge_reachable sha pid a" if "ai_data a = []"
| executed: "bridge_reachable sha pid a'"
    if "bridge_reachable sha pid a" and "process_instruction e pid (a # rest) data = Inr (a' # rest', calls)"
      and "env_sha e = sha" and "runtime_ok (env_rt e)" and "\<forall>x \<in> set rest. length (ai_key x) = 32"

text \<open>C5. Whatever instructions the program accepts, in any order and from anyone, the state account
  either has no data yet or holds exactly the bytes of a state with all its fields of their size:
  reading it loses nothing, the manager of pending mints is consistent (its claimed groups and
  its counter agree, its index is inside the queue, it is idle without a queue), and the index of the next recent block is
  inside the ring, so that recording a block never panics.\<close>

theorem reachable_account_well_formed:
  assumes "bridge_reachable sha pid a" and "digest32 sha" and "ai_data a \<noteq> []"
  shows "length (ai_data a) = BRIDGE_STATE_SIZE \<and> enc_bridge_state (dec_bridge_state (ai_data a)) = ai_data a \<and>
    bridge_inv (core_state (dec_bridge_state (ai_data a)))"
proof -
  have "account_ok a \<or> ai_data a = []"
    using assms(1)
  proof induction
    case (executed a e rest data a' rest' calls)
    then show ?case using program_account_ok assms(2) by blast
  qed simp
  then show ?thesis using assms(3) bridge_state_codec.enc_dec by (simp add: account_ok_def)
qed

text \<open>A concrete program, environment and first instruction.\<close>

abbreviation example_bridge :: pubkey where
  "example_bridge \<equiv> replicate 32 10"

definition example_env :: "(bytes \<Rightarrow> bytes) \<Rightarrow> bridge_env" where
  "example_env sha = \<lparr> env_rt = sample_runtime, env_sha = sha, env_zkv = (\<lambda>pf vk inputs. True), env_ids = example_ids,
     env_mock_zkp = True, env_post_enabled = True, env_unix_timestamp = 1700000000,
     env_mint_to = (\<lambda>p mint recipient authority amount. True), env_burn = (\<lambda>source mint authority amount. True),
     env_post = (\<lambda>accounts ix. Inr ()) \<rparr>"

definition example_account :: "pubkey \<Rightarrow> pubkey \<Rightarrow> bytes \<Rightarrow> bool \<Rightarrow> AccountInfo" where
  "example_account k owner d signer = \<lparr> ai_key = k, ai_owner = owner, ai_lamports = 1000000, ai_data = d, ai_is_signer = signer \<rparr>"

abbreviation example_state_key :: pubkey where
  "example_state_key \<equiv> sample_address [bridge_state_seed] example_bridge"

lemma sample_address_length [simp]: "length p = 32 \<Longrightarrow> length (sample_address seeds p) = 32"
  by (simp add: sample_address_def)

lemma example_env_simps [simp]:
  "env_rt (example_env sha) = sample_runtime" "env_sha (example_env sha) = sha" "env_ids (example_env sha) = example_ids"
  "env_zkv (example_env sha) pf vk inputs" "env_mint_to (example_env sha) p mint recipient authority amount"
  "env_burn (example_env sha) source mint authority amount" "env_post_enabled (example_env sha)"
  "env_post (example_env sha) accounts ix = Inr ()" "env_mock_zkp (example_env sha)"
  by (simp_all add: example_env_def)

lemma example_account_simps [simp]:
  "ai_key (example_account k owner d signer) = k" "ai_owner (example_account k owner d signer) = owner"
  "ai_data (example_account k owner d signer) = d" "ai_is_signer (example_account k owner d signer) = signer"
  "ai_lamports (example_account k owner d signer) = 1000000"
  by (simp_all add: example_account_def)

lemma wf_example_init: "wf_initialize example_init"
  by (simp add: wf_initialize_def example_init_def example_header_def wf_header_def wf_tip_state_def wf_state_commitment_def
      wf_return_output_def PM_DA_DEFAULT_PENDING_MINTS_BUFFER_HASH_def PM_TXO_DEFAULT_BUFFER_HASH_def)

lemma decode_initialize: "wf_initialize i \<Longrightarrow> decode_instruction (gen_aligned_instruction 0 (enc_initialize i)) = Inr (Initialize i)"
  by (simp add: decode_instruction_def Let_def initialize_data.enc_length initialize_data.dec_enc)

abbreviation example_state :: BridgeProgramStateWithDogeMint where
  "example_state \<equiv> \<lparr> core_state = state_initialize example_init, doge_mint = ii_doge_mint example_init \<rparr>"

lemma example_initialize:
  "\<exists>a' rest'. process_instruction (example_env sha) example_bridge
     (example_account example_state_key zero32 [] False #
       [example_account (replicate 32 5) zero32 [] True, example_account zero32 zero32 [] False])
     (gen_aligned_instruction 0 (enc_initialize example_init)) = Inr (a' # rest', []) \<and>
     ai_data a' = enc_bridge_state example_state"
  by (simp add: process_instruction_def decode_initialize [OF wf_example_init] run_instruction_def process_initialize_def
      sample_runtime_def load_bridge_state_def store_bridge_state_def)

theorem reachable_account_well_formed_witness:
  "\<exists>a. bridge_reachable ones_digest example_bridge a \<and> length (ai_data a) = BRIDGE_STATE_SIZE \<and>
     bridge_inv (core_state (dec_bridge_state (ai_data a)))"
proof -
  let ?rest = "[example_account (replicate 32 5) zero32 [] True, example_account zero32 zero32 [] False]"
  obtain a' rest' where run: "process_instruction (example_env ones_digest) example_bridge
      (example_account example_state_key zero32 [] False # ?rest) (gen_aligned_instruction 0 (enc_initialize example_init)) =
      Inr (a' # rest', [])" and data: "ai_data a' = enc_bridge_state example_state"
    using example_initialize by blast
  have "bridge_reachable ones_digest example_bridge a'"
    by (rule executed [OF created run]) (simp_all add: sample_runtime_ok)
  moreover have "ai_data a' \<noteq> []"
    using bridge_state_codec.enc_length [OF wf_stored [OF initialize_inv [OF wf_example_init], of "ii_doge_mint example_init"]] data
    by (auto simp: example_init_def)
  ultimately show ?thesis using reachable_account_well_formed [OF _ ones_digest_ok(1)] by blast
qed


abbreviation example_bridge_account :: AccountInfo where
  "example_bridge_account \<equiv> example_account example_state_key example_bridge (enc_bridge_state example_state) False"

lemma example_stored:
  "dec_bridge_state (enc_bridge_state example_state) = example_state" "length (enc_bridge_state example_state) = BRIDGE_STATE_SIZE"
  "load_bridge_state example_bridge_account = Inr example_state" "account_ok example_bridge_account"
proof -
  have wf: "wf_bridge_state example_state"
    by (rule wf_stored [OF initialize_inv [OF wf_example_init]]) (simp add: example_init_def)
  show dec: "dec_bridge_state (enc_bridge_state example_state) = example_state" by (rule bridge_state_codec.dec_enc [OF wf])
  show len: "length (enc_bridge_state example_state) = BRIDGE_STATE_SIZE" by (rule bridge_state_codec.enc_length [OF wf])
  show "load_bridge_state example_bridge_account = Inr example_state" by (simp add: load_bridge_state_def dec len)
  show "account_ok example_bridge_account" using initialize_inv [OF wf_example_init] by (simp add: account_ok_def dec len)
qed

lemma example_operator_key:
  "operator_pubkey (bs_access_control (state_initialize i)) = ii_operator_pubkey i" "ii_operator_pubkey example_init = replicate 32 1"
  by (simp_all add: state_initialize_def example_init_def)

lemma example_snapshot:
  "\<exists>a' rest'. process_instruction (example_env sha) example_bridge
     (example_bridge_account # [example_account (replicate 32 1) zero32 [] True, example_account (replicate 32 5) zero32 [] True])
     (gen_aligned_instruction 10 []) = Inr (a' # rest', [])"
  by (simp add: process_instruction_def decode_instruction_def Let_def run_instruction_def process_snapshot_withdrawals_def
      bridge_state_address_def sample_runtime_def example_stored example_operator_key)


section \<open>Who can make the bridge mint, send and forget\<close>

abbreviation signed_by :: "AccountInfo list \<Rightarrow> pubkey \<Rightarrow> bool" where
  "signed_by accounts k \<equiv> (\<exists>x \<in> set accounts. ai_is_signer x \<and> ai_key x = k)"

lemma store_key [simp]: "ai_key (store_bridge_state a b) = ai_key a"
  by (simp add: store_bridge_state_def)

lemma no_mint_in_post: "send_wormhole_vaa e accounts ix = Inr calls \<Longrightarrow> MintTo m r k x \<notin> set calls"
  by (auto simp: send_wormhole_vaa_def result_simps split: if_splits)

lemma no_mint_in_block_update:
  "run_block_update_common e pid accounts pf h extra b1 b2 is_reorg = Inr (accounts', calls) \<Longrightarrow> MintTo m r k x \<notin> set calls"
  unfolding run_block_update_common_def Let_def
  by (elim handler_elims) (auto simp: result_simps split: if_splits)


text \<open>A state with collected fees, which the operator withdraws.\<close>

definition example_fee_state :: BridgeProgramStateWithDogeMint where
  "example_fee_state = example_state \<lparr> core_state := (state_initialize example_init) \<lparr> bs_total_withdrawal_fees_sats := 500 \<rparr> \<rparr>"

lemma example_fee_stored:
  "load_bridge_state (example_account example_state_key example_bridge (enc_bridge_state example_fee_state) False) = Inr example_fee_state"
proof -
  have "bridge_inv (core_state example_fee_state)"
    using initialize_inv [OF wf_example_init] by (simp add: example_fee_state_def bridge_inv_def wf_program_state_def)
  then have wf: "wf_bridge_state example_fee_state"
    by (simp add: wf_bridge_state_def bridge_inv_def example_fee_state_def example_init_def)
  show ?thesis by (simp add: load_bridge_state_def bridge_state_codec.dec_enc [OF wf] bridge_state_codec.enc_length [OF wf])
qed

abbreviation example_fee_accounts :: "AccountInfo list" where
  "example_fee_accounts \<equiv> [example_account (replicate 32 8) zero32 [] False, example_account (replicate 32 3) zero32 [] False,
     example_account (replicate 32 1) zero32 [] True, example_account (replicate 32 15) zero32 [] False]"

lemma example_withdraw_fees:
  "\<exists>a' rest'. process_instruction (example_env sha) example_bridge
     (example_account example_state_key example_bridge (enc_bridge_state example_fee_state) False # example_fee_accounts)
     (gen_aligned_instruction 4 []) = Inr (a' # rest', [MintTo (replicate 32 3) (replicate 32 8) example_state_key 500])"
proof -
  have fees: "run_bridge_operator_withdraw_fees_precheck (core_state example_fee_state) =
      Inr ((core_state example_fee_state) \<lparr> bs_total_fees_withdrawn_sats := 500 \<rparr>, 500)"
    by (simp add: run_bridge_operator_withdraw_fees_precheck_def example_fee_state_def get_total_finalized_fees_def
        state_initialize_def example_init_def example_header_def Let_def)
  have keys: "doge_mint example_fee_state = replicate 32 3"
    "operator_pubkey (bs_access_control (core_state example_fee_state)) = replicate 32 1"
    by (simp_all add: example_fee_state_def example_init_def state_initialize_def)
  show ?thesis
    by (simp add: process_instruction_def decode_instruction_def Let_def run_instruction_def process_operator_withdraw_fees_def
        example_fee_stored keys fees solana_mint_to_def authority_signs_def bridge_state_address_def)
       (simp add: sample_runtime_def)
qed


text \<open>C7. A withdrawal is sent exactly as proved: when the program accepts one (built with a message
  program), it makes one call, a message whose payload is the digest of the Dogecoin transaction
  in the generic buffer followed by the transaction, emitted by the bridge and numbered with the
  new index; the digest is the one in the new return output, the proof was accepted for the
  state's snapshot, and the digest is the new last leaf of the tree of sent transactions.\<close>

theorem withdrawal_sends_proved_transaction:
  assumes "process_process_withdrawal e pid (a # buf # rest) p = Inr (a' # rest', calls)" and "env_post_enabled e"
    and "account_ok a" and "wf_process_withdrawal p" and "digest32 (env_sha e)"
  shows "let s = core_state (dec_bridge_state (ai_data a)); s' = core_state (dec_bridge_state (ai_data a'));
             tx = drop 32 (ai_data buf); sighash = env_sha e tx
    in ai_owner buf = pid_generic_buffer (env_ids e) \<and> sighash = ro_sighash (pw_new_return_output p) \<and>
       env_zkv e (pw_proof p) (WITHDRAWAL_VK (env_mock_zkp e)) (get_expected_public_inputs_for_withdrawal_proof (env_sha e) s
         (pw_new_return_output p) (pw_new_spent_txo_tree_root p) (pw_new_next_processed_withdrawals_index p)) \<and>
       s' = update_for_withdrawal (env_sha e) s (pw_new_return_output p) (pw_new_spent_txo_tree_root p)
         (pw_new_next_processed_withdrawals_index p) \<and>
       bs_sent_transactions_tree s' = append_tree (env_sha e) (bs_sent_transactions_tree s) sighash \<and>
       (\<exists>ix. calls = [PostMessage ix] \<and> ix_data ix = WORMHOLE_VAA_DISCRIMINATOR @
          to_le_bytes (ucast (pw_new_next_processed_withdrawals_index p) :: u32) @ [1] @
          to_le_bytes (of_nat (32 + length tx) :: u32) @ sighash @ tx \<and> ix_accounts ix ! 2 = account_new_readonly (ai_key a) True)"
proof (rule withdrawal_ok [OF assms(1)])
  fix a0 buf0 shim cfg msg sq payer fc clock sys core ev others st s sighash
  assume accs: "a # buf # rest = a0 # buf0 # shim # cfg # msg # sq # payer # fc # clock # sys # core # ev # others"
    and owner: "ai_owner buf0 = pid_generic_buffer (env_ids e)" and st: "load_bridge_state a0 = Inr st"
    and run: "run_process_bridge_withdrawal (env_sha e) (env_zkv e) (core_state st) (pw_proof p) (WITHDRAWAL_VK (env_mock_zkp e))
      (drop 32 (ai_data buf0)) (pw_new_return_output p) (pw_new_spent_txo_tree_root p)
      (pw_new_next_processed_withdrawals_index p) = Inr (s, sighash)"
    and a': "a' # rest' = store_core_state a0 st s # tl (a # buf # rest)"
    and post: "send_wormhole_vaa e (a # buf # rest) (wormhole_vaa_instruction (ucast (bs_next_processed_withdrawals_index s))
      (ai_key shim) (ai_key cfg) (ai_key msg) (ai_key a0) (ai_key sq) (ai_key payer) (ai_key fc) (ai_key clock) (ai_key sys)
      (ai_key core) (ai_key ev) sighash (drop 32 (ai_data buf0))) = Inr calls"
  have st': "st = dec_bridge_state (ai_data a)" using st accs by (simp add: load_bridge_state_def split: if_splits)
  have step: "bridge_step (env_sha e) (env_zkv e) (core_state st) s"
    using withdrawal [OF run] assms(4) by (simp add: wf_process_withdrawal_def)
  have inv: "bridge_inv (core_state st)" "length (doge_mint st) = 32"
    using assms(3) by (simp_all add: account_ok_def st' doge_mint_length)
  have read: "core_state (dec_bridge_state (ai_data a')) = s"
    using a' read_stored(1) [of "st \<lparr> core_state := s \<rparr>"] bridge_step_inv [OF assms(5) step inv(1)] inv(2) by simp
  have checks: "sighash = env_sha e (drop 32 (ai_data buf))" "sighash = ro_sighash (pw_new_return_output p)"
    "s = update_for_withdrawal (env_sha e) (core_state st) (pw_new_return_output p) (pw_new_spent_txo_tree_root p)
         (pw_new_next_processed_withdrawals_index p)"
    "env_zkv e (pw_proof p) (WITHDRAWAL_VK (env_mock_zkp e)) (get_expected_public_inputs_for_withdrawal_proof (env_sha e)
         (core_state st) (pw_new_return_output p) (pw_new_spent_txo_tree_root p) (pw_new_next_processed_withdrawals_index p))"
    using run accs by (auto simp: run_process_bridge_withdrawal_def Let_def hash_impl_sha256_bytes_def split: if_splits)
  have "length sighash = 32" using checks(1) assms(5) by (simp add: digest32_def)
  then show ?thesis
    unfolding Let_def read
    using owner accs checks post assms(2) st'
    by (auto simp: send_wormhole_vaa_def wormhole_vaa_instruction_def update_for_withdrawal_def Let_def result_simps)
qed

definition example_withdrawal :: ProcessWithdrawalInstructionData where
  "example_withdrawal = \<lparr> pw_proof = replicate 256 0,
     pw_new_return_output = \<lparr> ro_sighash = replicate 32 1, ro_output_index = 0, ro_amount_sats = 7 \<rparr>,
     pw_new_spent_txo_tree_root = zero32, pw_new_next_processed_withdrawals_index = 4 \<rparr>"

abbreviation example_tx_buffer :: "bytes \<Rightarrow> AccountInfo" where
  "example_tx_buffer d \<equiv> example_account (replicate 32 20) (replicate 32 13) d False"

abbreviation example_wormhole_accounts :: "AccountInfo list" where
  "example_wormhole_accounts \<equiv> map (\<lambda>k. example_account (replicate 32 k) zero32 [] False) [21, 22, 23, 24, 25, 26, 27, 28, 29, 30]"

lemma example_generic_id: "pid_generic_buffer example_ids = replicate 32 13" "pid_pending_mint_buffer example_ids = replicate 32 11"
  "pid_txo_buffer example_ids = replicate 32 12" "pid_manual_claim example_ids = replicate 32 14"
  by (simp_all add: example_ids_def)

lemma example_state_address: "bridge_state_address sample_runtime p = sample_address [bridge_state_seed] p"
  by (simp add: bridge_state_address_def sample_runtime_def)

lemma example_withdraw:
  "\<exists>a' rest' calls. process_process_withdrawal (example_env ones_digest) example_bridge
     (example_bridge_account # example_tx_buffer (replicate 40 2) # example_wormhole_accounts) example_withdrawal =
     Inr (a' # rest', calls)"
proof -
  have "run_process_bridge_withdrawal ones_digest (env_zkv (example_env ones_digest)) (core_state example_state)
      (pw_proof example_withdrawal) (WITHDRAWAL_VK True) (drop 32 (replicate 40 2)) (pw_new_return_output example_withdrawal)
      (pw_new_spent_txo_tree_root example_withdrawal) (pw_new_next_processed_withdrawals_index example_withdrawal) =
      Inr (update_for_withdrawal ones_digest (core_state example_state) (pw_new_return_output example_withdrawal)
        (pw_new_spent_txo_tree_root example_withdrawal) (pw_new_next_processed_withdrawals_index example_withdrawal), replicate 32 1)"
    by (simp add: run_process_bridge_withdrawal_def example_withdrawal_def ones_digest_def hash_impl_sha256_bytes_def Let_def)
  then show ?thesis
    by (simp add: process_process_withdrawal_def example_state_address example_generic_id example_stored send_wormhole_vaa_def Let_def)
qed

theorem withdrawal_sends_proved_transaction_witness:
  "\<exists>a' rest' ix. process_process_withdrawal (example_env ones_digest) example_bridge
     (example_bridge_account # example_tx_buffer (replicate 40 2) # example_wormhole_accounts) example_withdrawal =
     Inr (a' # rest', [PostMessage ix]) \<and>
     bs_sent_transactions_tree (core_state (dec_bridge_state (ai_data a'))) = append_tree ones_digest new_empty (replicate 32 1)"
proof -
  obtain a' rest' calls where run: "process_process_withdrawal (example_env ones_digest) example_bridge
      (example_bridge_account # example_tx_buffer (replicate 40 2) # example_wormhole_accounts) example_withdrawal =
      Inr (a' # rest', calls)" using example_withdraw by blast
  have "wf_process_withdrawal example_withdrawal"
    by (simp add: wf_process_withdrawal_def example_withdrawal_def wf_return_output_def)
  from withdrawal_sends_proved_transaction [OF run _ example_stored(4) this] run show ?thesis
    by (auto simp: Let_def ones_digest_ok example_stored ones_digest_def [of "replicate n x" for n x])
qed

text \<open>C32. The bridge can be reset by anyone: an initialisation with the right account is accepted on a
  bridge that already runs, without any signature, and overwrites everything with its parameters:
  the operator, the fee spender, the token, the header and the pending mints.\<close>

theorem initialize_overwrites_without_signature:
  assumes "ai_key a = bridge_state_address (env_rt e) pid" and "account_ok a" and "wf_initialize i"
    and "\<not> (\<exists>x \<in> set (payer # sys # others). ai_is_signer x)"
  shows "\<exists>a'. process_instruction e pid (a # payer # sys # others) (gen_aligned_instruction 0 (enc_initialize i)) =
      Inr (a' # payer # sys # others, []) \<and>
    dec_bridge_state (ai_data a') = \<lparr> core_state = state_initialize i, doge_mint = ii_doge_mint i \<rparr>"
proof -
  have data: "length (ai_data a) = BRIDGE_STATE_SIZE" "ai_data a \<noteq> []" using assms(2) by (auto simp: account_ok_def)
  have "length (ii_doge_mint i) = 32" using assms(3) by (simp add: wf_initialize_def)
  then have "dec_bridge_state (ai_data (store_bridge_state a \<lparr> core_state = state_initialize i, doge_mint = ii_doge_mint i \<rparr>)) =
      \<lparr> core_state = state_initialize i, doge_mint = ii_doge_mint i \<rparr>"
    using initialize_inv [OF assms(3)] by (simp add: read_stored)
  then show ?thesis
    using assms(1) data
    by (simp add: process_instruction_def decode_initialize [OF assms(3)] run_instruction_def process_initialize_def
        load_bridge_state_def bridge_state_address_def case_prod_unfold)
qed

theorem initialize_overwrites_without_signature_witness:
  "\<exists>a'. process_instruction (example_env ones_digest) example_bridge
     (example_bridge_account # example_account (replicate 32 40) zero32 [] False # example_account zero32 zero32 [] False # [])
     (gen_aligned_instruction 0 (enc_initialize (example_init \<lparr> ii_operator_pubkey := replicate 32 66 \<rparr>))) =
     Inr (a' # example_account (replicate 32 40) zero32 [] False # example_account zero32 zero32 [] False # [], []) \<and>
   operator_pubkey (bs_access_control (core_state (dec_bridge_state (ai_data a')))) = replicate 32 66"
proof -
  let ?i = "example_init \<lparr> ii_operator_pubkey := replicate 32 66 \<rparr>"
  have wf: "wf_initialize ?i" using wf_example_init by (simp add: wf_initialize_def)
  have key: "ai_key example_bridge_account = bridge_state_address (env_rt (example_env ones_digest)) example_bridge"
    by (simp add: example_state_address)
  obtain a' where "process_instruction (example_env ones_digest) example_bridge
      (example_bridge_account # example_account (replicate 32 40) zero32 [] False # example_account zero32 zero32 [] False # [])
      (gen_aligned_instruction 0 (enc_initialize ?i)) =
      Inr (a' # example_account (replicate 32 40) zero32 [] False # example_account zero32 zero32 [] False # [], [])"
    "dec_bridge_state (ai_data a') = \<lparr> core_state = state_initialize ?i, doge_mint = ii_doge_mint ?i \<rparr>"
    using initialize_overwrites_without_signature [OF key example_stored(4) wf,
        of "example_account (replicate 32 40) zero32 [] False" "example_account zero32 zero32 [] False" "[]"] by auto
  then show ?thesis by (simp add: example_operator_key(1))
qed

text \<open>C34. A sent transaction cannot be replayed with its own leaf: withdrawals append the single digest
  of a transaction to the tree of sent transactions, but a replay compares the leaf of its proof
  with the double digest, so a proof for the leaf that was appended is refused, unless the
  digest has a fixed point there.\<close>

theorem replay_refuses_the_appended_leaf:
  assumes "ai_key a = bridge_state_address (env_rt e) pid" and "ai_owner buf = pid_generic_buffer (env_ids e)"
    and "account_ok a" and "1106 \<le> length (ai_data buf)" and "length wormhole = 10"
    and "pp_value (dec_partial_proof (bslice (ai_data buf) 32 1096)) = env_sha e (drop 1096 (ai_data buf))"
    and "env_sha e (env_sha e (drop 1096 (ai_data buf))) \<noteq> env_sha e (drop 1096 (ai_data buf))"
  shows "process_instruction e pid (a # buf # wormhole) (gen_aligned_instruction 6 []) = Inl (Err (bridge_error InvalidAccountInput))"
proof -
  obtain w0 w1 w2 w3 w4 w5 w6 w7 w8 w9 where "wormhole = [w0, w1, w2, w3, w4, w5, w6, w7, w8, w9]"
    using assms(5) by (auto simp: length_Suc_conv numeral_eq_Suc)
  then show ?thesis
    using assms assms(7) [symmetric]
    by (simp add: process_instruction_def decode_instruction_def Let_def run_instruction_def process_replay_withdrawal_def
        load_bridge_state_def account_ok_def btc_hash256_bytes_def hash_impl_sha256_bytes_def)
qed

definition example_partial_proof :: FixedMerkleAppendTreePartialMerkleProof where
  "example_partial_proof = \<lparr> pp_index = 0, pp_value = to_le_bytes (10 :: u64) @ replicate 24 0, pp_siblings = replicate 32 zero32 \<rparr>"

definition example_replay_data :: bytes where
  "example_replay_data = zero32 @ enc_partial_proof example_partial_proof @ replicate 10 5"

lemma example_replay_data:
  "length example_replay_data = 1106" "drop 1096 example_replay_data = replicate 10 5"
  "dec_partial_proof (bslice example_replay_data 32 1096) = example_partial_proof"
proof -
  have wf: "wf_partial_proof example_partial_proof" by (simp add: wf_partial_proof_def example_partial_proof_def wf_array_def)
  have len: "length (enc_partial_proof example_partial_proof) = 1064" by (rule partial_proof_codec.enc_length [OF wf])
  show "length example_replay_data = 1106" "drop 1096 example_replay_data = replicate 10 5"
    by (simp_all add: example_replay_data_def len)
  show "dec_partial_proof (bslice example_replay_data 32 1096) = example_partial_proof"
    using partial_proof_codec.read_prefix [OF wf] by (simp add: example_replay_data_def len bslice_append_right)
qed

theorem replay_refuses_the_appended_leaf_witness:
  "process_instruction (example_env length_digest) example_bridge
     (example_bridge_account # example_tx_buffer example_replay_data # example_wormhole_accounts) (gen_aligned_instruction 6 []) =
     Inl (Err (bridge_error InvalidAccountInput))"
  by (rule replay_refuses_the_appended_leaf)
     (simp_all add: example_state_address example_generic_id example_stored(4) example_replay_data example_partial_proof_def
       length_digest_def)

end
