(* ===== verification/LockProtocol.thy ===== *)
theory LockProtocol
  imports BridgeProgram
begin

text \<open>
  The bridge program and the pending-mint-buffer program together. The system is the state
  account of the bridge and the bytes of one buffer account; its steps are the accepted
  instructions of both programs, from anyone. Its invariant is that the buffer the bridge is paying
  from is locked, has the digest recorded for the block, and stays as it is until the block is paid.
\<close>

section \<open>Locking a buffer changes one byte\<close>

lemma header_lock_byte:
  assumes "length d = 72"
  shows "enc_buffer_header ((dec_buffer_header d) \<lparr> bh_is_locked := v \<rparr>) = d[64 := v]"
proof -
  have "enc_buffer_header (dec_buffer_header d) = d" by (rule buffer_header.enc_dec) (simp add: assms)
  then have parts: "bslice d 0 32 @ bslice d 32 64 = take 64 d" "[d ! 65] @ to_le_bytes (bh_pending_mint_groups_count (dec_buffer_header d)) @
     to_le_bytes (bh_pending_mints_initialized (dec_buffer_header d)) @ to_le_bytes (bh_pending_mints_count (dec_buffer_header d)) = drop 65 d"
    using assms slice_append_slice [of 0 32 64 d] single_byte_slice [of 65 d] slice_append_slice [of 65 66 68 d]
    by (simp_all add: dec_buffer_header_def codec_simps) (simp_all add: bslice_def)
  then show ?thesis
    using assms by (simp add: enc_buffer_header_def upd_conv_take_nth_drop) (simp add: dec_buffer_header_def)
qed

lemma lock_data:
  assumes "72 \<le> length d"
  shows "put_header d ((buffer_hdr d) \<lparr> bh_is_locked := v \<rparr>) = d[64 := v]"
proof -
  have "enc_buffer_header ((buffer_hdr d) \<lparr> bh_is_locked := v \<rparr>) = (bslice d 0 72)[64 := v]"
    using assms by (intro header_lock_byte) simp
  then show ?thesis
    using assms by (simp add: put_header_def write_at_def bslice_def take_update_swap drop_update_cancel flip: list_update_append1)
qed

lemma matches_lock_byte:
  assumes "72 \<le> length d"
  shows "mint_buffer_matches sha locker h n (d[64 := v]) \<longleftrightarrow> mint_buffer_matches sha locker h n d"
proof -
  have "buffer_hdr (d[64 := v]) = (buffer_hdr d) \<lparr> bh_is_locked := v \<rparr>"
    using put_header_simps(1) [OF assms, of "(buffer_hdr d) \<lparr> bh_is_locked := v \<rparr>"] wf_buffer_hdr [OF assms]
    by (simp add: lock_data [OF assms] wf_buffer_header_def)
  moreover have "bslice (d[64 := v]) 70 b = bslice d 70 b" for b by (simp add: bslice_def drop_update_cancel)
  ultimately show ?thesis by (simp add: mint_buffer_matches_def)
qed

lemma invoke_pmb:
  assumes "invoke_mint_buffer e pid accounts buf auth tag = Some buf'"
  obtains rest' where "pmb_process_instruction (env_rt e) (env_sha e) (pid_pending_mint_buffer (env_ids e))
    [buf, auth \<lparr> ai_is_signer := True \<rparr>] [tag] = Inr (buf' # rest')"
  using assms by (auto simp: invoke_mint_buffer_def split: if_splits sum.splits list.splits)

lemma lock_buffer_data:
  assumes "lock_buffer e pid accounts buf auth = Inr buf'"
  shows "72 \<le> length (ai_data buf) \<and> ai_data buf' = (ai_data buf)[64 := 1] \<and> buffer_locker (ai_data buf) = ai_key auth"
proof -
  have "invoke_mint_buffer e pid accounts buf auth 4 = Some buf'" using assms by (simp add: lock_buffer_def split: option.splits)
  then obtain rest' where "pmb_process_instruction (env_rt e) (env_sha e) (pid_pending_mint_buffer (env_ids e))
    [buf, auth \<lparr> ai_is_signer := True \<rparr>] [4] = Inr (buf' # rest')" by (rule invoke_pmb)
  then show ?thesis
    by (auto simp: pmb_process_instruction_def pmb_lock_def result_simps get_header_ok_iff header_lock_def lock_data split: if_splits)
qed

lemma locked_reachable:
  assumes "lock_buffer e pid accounts buf auth = Inr buf' \<or> unlock_buffer e pid accounts buf auth = Inr buf'"
    and "pmb_reachable (env_rt e) (env_sha e) (pid_pending_mint_buffer (env_ids e)) (ai_data buf)"
  shows "pmb_reachable (env_rt e) (env_sha e) (pid_pending_mint_buffer (env_ids e)) (ai_data buf')"
  using assms(1)
proof
  assume "lock_buffer e pid accounts buf auth = Inr buf'"
  then have "invoke_mint_buffer e pid accounts buf auth 4 = Some buf'" by (simp add: lock_buffer_def split: option.splits)
  then show ?thesis by (rule invoke_pmb) (rule pmb_reachable.instruction [OF assms(2)])
next
  assume "unlock_buffer e pid accounts buf auth = Inr buf'"
  then have "invoke_mint_buffer e pid accounts buf auth 5 = Some buf'" by (simp add: unlock_buffer_def split: option.splits)
  then show ?thesis by (rule invoke_pmb) (rule pmb_reachable.instruction [OF assms(2)])
qed

section \<open>What an instruction does to the pending mints\<close>

abbreviation manager_at :: "AccountInfo \<Rightarrow> FinalizedBlockMintTxoManager" where
  "manager_at a \<equiv> bs_pending_mint_txos (core_state (dec_bridge_state (ai_data a)))"

abbreviation current_info :: "FinalizedBlockMintTxoManager \<Rightarrow> FinalizedBlockMintTxoInfo" where
  "current_info m \<equiv> fm_infos m ! unat (fm_current_index m)"

text \<open>The block of manager \<open>m\<close> is being paid from a locked buffer with the bytes \<open>d\<close>.\<close>

definition paying_from :: "(bytes \<Rightarrow> bytes) \<Rightarrow> pubkey \<Rightarrow> FinalizedBlockMintTxoManager \<Rightarrow> bytes \<Rightarrow> bool" where
  "paying_from sha bridge m d \<longleftrightarrow> bh_is_locked (buffer_hdr d) \<noteq> 0 \<and>
     (\<exists>n. pt_total_pending_mints (fm_tracker m) = ucast n \<and>
       mint_buffer_matches sha bridge (fi_pending_mints_finalized_hash (current_info m)) n d)"

text \<open>
  From the manager \<open>m\<close> and the bytes \<open>d\<close> of the buffer with address \<open>k\<close> to \<open>m'\<close> and \<open>d'\<close>: nothing
  happens, nothing is left to pay, a block is loaded from this buffer, or the payment from this
  buffer goes on.
\<close>

inductive manager_effect ::
  "(bytes \<Rightarrow> bytes) \<Rightarrow> pubkey \<Rightarrow> pubkey \<Rightarrow> FinalizedBlockMintTxoManager \<Rightarrow> bytes \<Rightarrow> FinalizedBlockMintTxoManager \<Rightarrow> bytes \<Rightarrow> bool"
  for sha bridge k m d where
  kept: "manager_effect sha bridge k m d m d"
| idle: "manager_effect sha bridge k m d m' d'" if "tracker_is_empty (fm_tracker m')"
| loaded: "manager_effect sha bridge k m d m' d'" if "pt_storage_account (fm_tracker m') = k" and "paying_from sha bridge m' d'"
| goes_on: "manager_effect sha bridge k m d m' d"
    if "pt_storage_account (fm_tracker m) = k" and "\<not> tracker_is_empty (fm_tracker m)"
      and "pt_storage_account (fm_tracker m') = k" and "pt_total_pending_mints (fm_tracker m') = pt_total_pending_mints (fm_tracker m)"
      and "current_info m' = current_info m"

lemma read_core:
  assumes "account_ok a" and "load_bridge_state a = Inr st" and "digest32 sha" and "(bridge_step sha zkv)\<^sup>*\<^sup>* (core_state st) s"
  shows "manager_at (store_core_state a st s) = bs_pending_mint_txos s" and "st = dec_bridge_state (ai_data a)"
    and "bridge_inv (core_state st)" and "bridge_inv s"
proof -
  show st: "st = dec_bridge_state (ai_data a)" using assms(2) by (simp add: load_bridge_state_def split: if_splits)
  show inv: "bridge_inv (core_state st)" using assms(1) by (simp add: st account_ok_def)
  show s: "bridge_inv s" by (rule machine_inv [OF assms(3) inv assms(4)])
  have "length (doge_mint st) = 32" using assms(1) by (simp add: st doge_mint_length account_ok_def)
  then show "manager_at (store_core_state a st s) = bs_pending_mint_txos s"
    using s read_stored(1) [of "st \<lparr> core_state := s \<rparr>" a] by simp
qed

lemma empty_manager_idle: "bridge_inv s \<Longrightarrow> manager_is_empty (bs_pending_mint_txos s) \<Longrightarrow> tracker_is_empty (tracker_of s)"
  by (auto simp: bridge_inv_def idle_without_queue_def manager_is_empty_def)

lemma loaded_pays:
  assumes "loaded_manager m h gs acc n" and "gs \<noteq> []"
    and "mint_buffer_matches sha bridge (fi_pending_mints_finalized_hash (gs ! 0)) n d" and "bh_is_locked (buffer_hdr d) \<noteq> 0"
  shows "pt_storage_account (fm_tracker m) = acc \<and> paying_from sha bridge m d"
proof -
  have "current_info m = gs ! 0"
    using assms(1,2) nth_take [of 0 "length gs" "fm_infos m"] by (simp add: loaded_manager_def)
  then show ?thesis using assms by (auto simp: loaded_manager_def paying_from_def)
qed

lemma locked_byte: "72 \<le> length d \<Longrightarrow> bh_is_locked (buffer_hdr (d[64 := 1])) \<noteq> 0"
  by (simp add: dec_buffer_header_def bslice_def)

lemma single_block_effect:
  assumes inv: "bridge_inv s" and run: "run_standard_single_block_transition sha zkv s pf vk h bridge k txo_mem d = Inr s'"
    and locked: "bh_is_locked (buffer_hdr d) \<noteq> 0"
    and same: "sc_auto_claimed_deposits_next_index (finalized_state (bs_bridge_header s)) \<noteq>
      sc_auto_claimed_deposits_next_index (finalized_state (bs_bridge_header s')) \<Longrightarrow> d' = d"
  shows "manager_effect sha bridge k m0 d0 (bs_pending_mint_txos s') d'"
proof -
  let ?n = "ucast (new_auto_claims s h) :: u16"
  note checks = single_transition_checks [OF run]
  have mgr: "manager_inv (bs_pending_mint_txos s)" using inv by (simp add: bridge_inv_def)
  have empty: "manager_is_empty (bs_pending_mint_txos s)" using checks(1) by (simp add: is_ready_for_new_block_update_def)
  obtain m where m: "s' = record_block s h m" "new_auto_claims s h = 0 \<Longrightarrow> m = bs_pending_mint_txos s"
    "new_auto_claims s h \<noteq> 0 \<Longrightarrow> mint_buffer_matches sha bridge (sc_pending_mints_finalized_hash (finalized_state h)) ?n d \<and>
      standard_append_block (bs_pending_mint_txos s) (sc_block_height (finalized_state h)) [header_info h] k (ucast ?n)
        (ucast (fst (compute_mint_group_info ?n))) = Inr m"
    using single_transition_manager [OF run] by metis
  have s': "bs_pending_mint_txos s' = m" "bs_bridge_header s' = h" by (simp_all add: m(1) record_block_def)
  show ?thesis
  proof (cases "new_auto_claims s h = 0")
    case True
    then have "tracker_is_empty (fm_tracker m)" using m(2) empty_manager_idle [OF inv empty] by simp
    then show ?thesis by (simp add: s' idle)
  next
    case new: False
    then have "d' = d" using same by (auto simp: s' new_auto_claims_def)
    have "(ucast ?n :: u32) \<noteq> 0" using new checks(5) by (simp add: word_unat_eq_iff unat_ucast_mod word_le_nat_alt)
    then have "\<not> info_is_empty (header_info h)" using append_single_not_empty [OF mgr empty] m(3) [OF new] by blast
    then have "loaded_manager m (sc_block_height (finalized_state h)) [header_info h] k ?n"
      using append_loads_manager [OF mgr empty] m(3) [OF new] by simp
    from loaded_pays [OF this, of sha bridge d] m(3) [OF new] locked
    show ?thesis by (intro loaded) (simp_all add: s' \<open>d' = d\<close> header_info_def)
  qed
qed

lemma reorg_effect:
  assumes inv: "bridge_inv s" and run: "run_block_transition_reorg sha zkv s pf vk h extra bridge k txo_mem d = Inr s'"
    and locked: "bh_is_locked (buffer_hdr d) \<noteq> 0"
    and same: "\<exists>x \<in> set (extra @ [header_info h]). \<not> info_is_empty x \<Longrightarrow> d' = d"
  shows "manager_effect sha bridge k m0 d0 (bs_pending_mint_txos s') d'"
proof -
  let ?items = "extra @ [header_info h]"
  have mgr: "manager_inv (bs_pending_mint_txos s)" using inv by (simp add: bridge_inv_def)
  have empty: "manager_is_empty (bs_pending_mint_txos s)"
    using reorg_transition_checks(1) [OF run] by (simp add: is_ready_for_new_block_update_def)
  show ?thesis
  proof (rule reorg_transition_manager [OF run])
    assume "s' = s \<lparr> bs_bridge_header := h \<rparr>"
    then show ?thesis using empty_manager_idle [OF inv empty] by (simp add: idle)
  next
    fix i n m
    assume i: "get_backlog_contains_pending_mints ?items = Some i"
      and s': "s' = s \<lparr> bs_pending_mint_txos := m, bs_bridge_header := h \<rparr>"
      and match: "mint_buffer_matches sha bridge (fi_pending_mints_finalized_hash (?items ! i)) n d"
      and m: "standard_append_block (bs_pending_mint_txos s)
        (sc_block_height (finalized_state h) - (of_nat (length ?items) - of_nat i - 1)) (drop i ?items) k (ucast n)
        (ucast (fst (compute_mint_group_info n))) = Inr m"
    have at: "i < length ?items" "\<not> info_is_empty (?items ! i)" using backlog_ok(2) [OF i] by simp_all
    have drop: "drop i ?items \<noteq> []" "drop i ?items ! 0 = ?items ! i" using at(1) by (simp_all del: drop_append)
    have "d' = d" using same at nth_mem [OF at(1)] by blast
    have "loaded_manager m (sc_block_height (finalized_state h) - (of_nat (length ?items) - of_nat i - 1))
        (drop i ?items) k n"
      using append_loads_manager [OF mgr empty drop(1) _ m] at(2) by (simp only: drop not_False_eq_True simp_thms)
    then have "pt_storage_account (fm_tracker m) = k \<and> paying_from sha bridge m d"
      by (rule loaded_pays [OF _ drop(1) _ locked]) (simp only: drop(2) match)
    then show ?thesis by (intro loaded) (simp_all add: s' \<open>d' = d\<close>)
  qed
qed

lemma claim_effect:
  assumes "bridge_inv s" and "run_auto_mint_group_precheck s g key = Inr (s', u, c, off)"
  shows "\<not> tracker_is_empty (tracker_of s)" and "u \<longleftrightarrow> tracker_is_empty (tracker_of s')"
    and "key = pt_storage_account (tracker_of s)" and "pt_storage_account (tracker_of s') = key"
    and "pt_total_pending_mints (tracker_of s') = pt_total_pending_mints (tracker_of s)"
    and "\<not> u \<Longrightarrow> current_info (bs_pending_mint_txos s') = current_info (bs_pending_mint_txos s)"
    and "s' = s \<lparr> bs_pending_mint_txos := bs_pending_mint_txos s' \<rparr>"
proof -
  obtain m' where m': "s' = s \<lparr> bs_pending_mint_txos := m' \<rparr>" "ensure_can_claim_pending_mints_group (tracker_of s) g = Inr ()"
    "key = pt_storage_account (tracker_of s)" "manager_mark_pending_mints_group_claimed (bs_pending_mint_txos s) g = Inr (m', u)"
    by (rule precheck_ok [OF assms(2)]) blast
  have "manager_inv (bs_pending_mint_txos s)" using assms(1) by (simp add: bridge_inv_def)
  note mark = manager_mark_ok [OF this m'(2,4)]
  show "\<not> tracker_is_empty (tracker_of s)" "u \<longleftrightarrow> tracker_is_empty (tracker_of s')" "key = pt_storage_account (tracker_of s)"
    "pt_storage_account (tracker_of s') = key" "pt_total_pending_mints (tracker_of s') = pt_total_pending_mints (tracker_of s)"
    "\<not> u \<Longrightarrow> current_info (bs_pending_mint_txos s') = current_info (bs_pending_mint_txos s)"
    "s' = s \<lparr> bs_pending_mint_txos := bs_pending_mint_txos s' \<rparr>"
    using mark m' by (auto simp: tracker_is_empty_def)
qed

lemma claim_goes_on:
  assumes "bridge_inv s" and "run_auto_mint_group_precheck s g k = Inr (s', u, c, off)" and "u \<or> d' = d"
  shows "manager_effect sha bridge k (bs_pending_mint_txos s) d (bs_pending_mint_txos s') d'"
proof (cases u)
  case True
  then show ?thesis using claim_effect(2) [OF assms(1,2)] by (simp add: idle)
next
  case False
  then show ?thesis using claim_effect [OF assms(1,2)] assms(3) by (auto intro: goes_on)
qed

lemma next_buffer_pays:
  assumes inv: "bridge_inv s" and load: "run_setup_next_pending_buffer sha s bridge k txo_mem d = Inr s0"
    and claim: "run_auto_mint_group_precheck s0 g k = Inr (s', u, c, off)" and inv0: "bridge_inv s0"
    and d': "u \<or> 72 \<le> length d \<and> d' = d[64 := 1]"
  shows "manager_effect sha bridge k m0 d0 (bs_pending_mint_txos s') d'"
proof (cases u)
  case True
  then show ?thesis using claim_effect(2) [OF inv0 claim] by (simp add: idle)
next
  case False
  obtain n where n: "pt_total_pending_mints (tracker_of s0) = ucast n" "pt_storage_account (tracker_of s0) = k"
    "mint_buffer_matches sha bridge (fi_pending_mints_finalized_hash (current_info (bs_pending_mint_txos s0))) n d"
    by (rule setup_next_ok [OF load]) simp
  have "72 \<le> length d" "d' = d[64 := 1]" using d' False by simp_all
  then have "paying_from sha bridge (bs_pending_mint_txos s') d'"
    using claim_effect(5,6) [OF inv0 claim] False n locked_byte by (auto simp: paying_from_def matches_lock_byte)
  then show ?thesis using claim_effect(4) [OF inv0 claim] by (intro loaded)
qed

text \<open>The effect of an instruction of the bridge whose first two accounts are \<open>a\<close> and \<open>buf\<close>.\<close>

definition bridge_effect :: "bridge_env \<Rightarrow> AccountInfo \<Rightarrow> AccountInfo \<Rightarrow> AccountInfo \<Rightarrow> AccountInfo \<Rightarrow> bool" where
  "bridge_effect e a buf a' buf' \<longleftrightarrow>
     manager_effect (env_sha e) (ai_key a) (ai_key buf) (manager_at a) (ai_data buf) (manager_at a') (ai_data buf') \<and>
     (pmb_reachable (env_rt e) (env_sha e) (pid_pending_mint_buffer (env_ids e)) (ai_data buf) \<longrightarrow>
      pmb_reachable (env_rt e) (env_sha e) (pid_pending_mint_buffer (env_ids e)) (ai_data buf'))"

lemma kept_effect: "manager_at a' = manager_at a \<Longrightarrow> bridge_effect e a buf a' buf"
  by (simp add: bridge_effect_def kept)

text \<open>
  The handler of a reorg unlocks the buffer when the index of the next automatic deposit stays, and
  only the proof ties that index to the blocks of the instruction.
\<close>

definition reorg_index_moves :: "PsyBridgeProgramState \<Rightarrow> BridgeInstruction \<Rightarrow> bool" where
  "reorg_index_moves s ins \<longleftrightarrow> (\<forall>pf h blocks b1 b2. ins = ProcessReorgBlocks pf h blocks b1 b2 \<longrightarrow>
     sc_auto_claimed_deposits_next_index (finalized_state (bs_bridge_header s)) =
     sc_auto_claimed_deposits_next_index (finalized_state h) \<longrightarrow> list_all info_is_empty (blocks @ [header_info h]))"

lemma block_update_effect:
  assumes run: "run_block_update_common e pid (a # buf # rest) pf h extra b1 b2 is_reorg = Inr (a' # buf' # rest', calls)"
    and rt: "runtime_ok (env_rt e)" and key: "length (ai_key buf) = 32" and "wf_header h" and "list_all wf_mint_txo_info extra"
    and sha: "digest32 (env_sha e)" and ok: "account_ok a"
    and moves: "is_reorg \<Longrightarrow> sc_auto_claimed_deposits_next_index (finalized_state (bs_bridge_header (core_state (dec_bridge_state (ai_data a))))) =
      sc_auto_claimed_deposits_next_index (finalized_state h) \<Longrightarrow> list_all info_is_empty (extra @ [header_info h])"
  shows "bridge_effect e a buf a' buf'"
proof (rule block_update_ok [OF run])
  fix a0 buf0 txo operator payer mp tp others locked st s buf1
  let ?index = "\<lambda>s. sc_auto_claimed_deposits_next_index (finalized_state (bs_bridge_header s))"
  assume accs: "a # buf # rest = a0 # buf0 # txo # operator # payer # mp # tp # others"
    and lock: "lock_buffer e pid (a # buf # rest) buf0 a0 = Inr locked" and st: "load_bridge_state a0 = Inr st"
    and trans: "(if is_reorg
          then run_block_transition_reorg (env_sha e) (env_zkv e) (core_state st) pf (BLOCK_REORG_VK (env_mock_zkp e)) h extra
                 (ai_key a0) (ai_key locked) (ai_data txo) (ai_data locked)
          else run_standard_single_block_transition (env_sha e) (env_zkv e) (core_state st) pf
                 (SINGLE_BLOCK_UPDATE_VK (env_mock_zkp e)) h (ai_key a0) (ai_key locked) (ai_data txo) (ai_data locked)) = Inr s"
    and out: "a' # buf' # rest' = store_core_state a0 st s # buf1 # txo # operator # payer # mp # tp # others"
    and unlock: "?index (core_state st) = ?index s \<Longrightarrow> unlock_buffer e pid (a # buf # rest) locked (store_core_state a0 st s) = Inr buf1"
    and keep: "?index (core_state st) \<noteq> ?index s \<Longrightarrow> buf1 = locked"
  have eqs: "a0 = a" "buf0 = buf" "a' = store_core_state a st s" "buf1 = buf'" using accs out by simp_all
  have k: "ai_key locked = ai_key buf" using lock_keys(1) [OF rt lock] by (simp add: eqs)
  note lockd = lock_buffer_data [OF lock, unfolded eqs]
  have locked: "bh_is_locked (buffer_hdr (ai_data locked)) \<noteq> 0" using lockd locked_byte by simp
  have step: "bridge_step (env_sha e) (env_zkv e) (core_state st) s"
    using trans assms(4,5) key k by (auto intro: single_block reorg split: if_splits)
  note core = read_core [OF ok st [unfolded eqs] sha r_into_rtranclp [where r = "bridge_step (env_sha e) (env_zkv e)", OF step]]
  have "manager_effect (env_sha e) (ai_key a) (ai_key buf) (manager_at a) (ai_data buf) (bs_pending_mint_txos s) (ai_data buf')"
  proof (cases is_reorg)
    case False
    then show ?thesis
      using single_block_effect [OF core(3) _ locked, of "env_sha e" "env_zkv e"] trans keep by (simp add: k eqs)
  next
    case True
    then have reorg: "run_block_transition_reorg (env_sha e) (env_zkv e) (core_state st) pf (BLOCK_REORG_VK (env_mock_zkp e)) h extra
       (ai_key a) (ai_key buf) (ai_data txo) (ai_data locked) = Inr s" using trans by (simp add: k eqs)
    have "bs_bridge_header s = h" by (rule reorg_transition_manager [OF reorg]) simp_all
    then have "ai_data buf' = ai_data locked" if "\<exists>x \<in> set (extra @ [header_info h]). \<not> info_is_empty x"
      using that moves [OF True] keep core(2) eqs(4) unfolding list_all_iff by metis
    then show ?thesis by (rule reorg_effect [OF core(3) reorg locked])
  qed
  moreover have "pmb_reachable (env_rt e) (env_sha e) (pid_pending_mint_buffer (env_ids e)) (ai_data buf')"
    if "pmb_reachable (env_rt e) (env_sha e) (pid_pending_mint_buffer (env_ids e)) (ai_data buf)"
  proof -
    have "pmb_reachable (env_rt e) (env_sha e) (pid_pending_mint_buffer (env_ids e)) (ai_data locked)"
      using locked_reachable [OF disjI1 [OF lock]] that by (simp add: eqs)
    then show ?thesis using locked_reachable [OF disjI2] unlock keep by (cases "?index (core_state st) = ?index s") (auto simp: eqs)
  qed
  ultimately show ?thesis by (simp add: bridge_effect_def eqs core(1))
qed

lemma mint_group_effect:
  assumes "process_process_mint_group e pid (a # buf # rest) g b unlock = Inr (a' # buf' # rest', calls)"
    and "digest32 (env_sha e)" and "account_ok a"
  shows "bridge_effect e a buf a' buf'"
proof (rule mint_group_ok [OF assms(1)])
  fix a0 buf0 operator mint payer mp tok recipients st s mints off paid buf1
  assume accs: "a # buf # rest = a0 # buf0 # operator # mint # payer # mp # tok # recipients"
    and st: "load_bridge_state a0 = Inr st" and claim: "run_auto_mint_group_precheck (core_state st) g (ai_key buf0) = Inr (s, unlock, mints, off)"
    and out: "a' # buf' # rest' = store_core_state a0 st s # buf1 # operator # mint # payer # mp # tok # recipients"
    and ends: "unlock \<Longrightarrow> unlock_buffer e pid (a # buf # rest) buf0 (store_core_state a0 st s) = Inr buf1" "\<not> unlock \<Longrightarrow> buf1 = buf0"
  have eqs: "a0 = a" "buf0 = buf" "a' = store_core_state a st s" "buf1 = buf'" using accs out by simp_all
  note core = read_core [OF assms(3) st [unfolded eqs] assms(2) r_into_rtranclp [where r = "bridge_step (env_sha e) (env_zkv e)", OF claim_group [OF claim]]]
  have "manager_effect (env_sha e) (ai_key a) (ai_key buf) (manager_at a) (ai_data buf) (manager_at a') (ai_data buf')"
    using claim_goes_on [OF core(3) claim, of "ai_data buf'" "ai_data buf0"] ends core(2) unfolding eqs core(1) by blast
  moreover have "pmb_reachable (env_rt e) (env_sha e) (pid_pending_mint_buffer (env_ids e)) (ai_data buf')"
    if "pmb_reachable (env_rt e) (env_sha e) (pid_pending_mint_buffer (env_ids e)) (ai_data buf)"
    using locked_reachable [OF disjI2 [OF ends(1)]] ends(2) that eqs by metis
  ultimately show ?thesis by (simp add: bridge_effect_def)
qed

lemma auto_advance_effect:
  assumes "process_process_mint_group_auto_advance e pid (a # buf # rest) g b1 b2 unlock = Inr (a' # buf' # rest', calls)"
    and "digest32 (env_sha e)" and "account_ok a" and key: "length (ai_key buf) = 32"
  shows "bridge_effect e a buf a' buf'"
proof (rule auto_advance_ok [OF assms(1)])
  fix a0 buf0 txo operator mint payer mp tp tok recipients st s0 jit s mints off locked paid buf1
  assume accs: "a # buf # rest = a0 # buf0 # txo # operator # mint # payer # mp # tp # tok # recipients"
    and st: "load_bridge_state a0 = Inr st" and adv: "advance_if_finished e (core_state st) a0 buf0 txo operator b2 = Inr (s0, jit)"
    and claim: "run_auto_mint_group_precheck s0 g (ai_key buf0) = Inr (s, unlock, mints, off)"
    and lock: "jit \<Longrightarrow> lock_buffer e pid (a # buf # rest) buf0 (store_core_state a0 st s) = Inr locked" "\<not> jit \<Longrightarrow> locked = buf0"
    and out: "a' # buf' # rest' = store_core_state a0 st s # buf1 # txo # operator # mint # payer # mp # tp # tok # recipients"
    and ends: "unlock \<Longrightarrow> unlock_buffer e pid (a # buf # rest) locked (store_core_state a0 st s) = Inr buf1" "\<not> unlock \<Longrightarrow> buf1 = locked"
  have eqs: "a0 = a" "buf0 = buf" "a' = store_core_state a st s" "buf1 = buf'" using accs out by simp_all
  have steps0: "(bridge_step (env_sha e) (env_zkv e))\<^sup>*\<^sup>* (core_state st) s0"
    by (rule advance_ok [OF adv]) (use key eqs in \<open>auto intro!: next_buffer\<close>)
  have "(bridge_step (env_sha e) (env_zkv e))\<^sup>*\<^sup>* (core_state st) s"
    using steps0 claim_group [OF claim] by (rule rtranclp.rtrancl_into_rtrancl)
  note core = read_core [OF assms(3) st [unfolded eqs] assms(2) this]
  have inv0: "bridge_inv s0" by (rule machine_inv [OF assms(2) core(3) steps0])
  have "manager_effect (env_sha e) (ai_key a) (ai_key buf) (manager_at a) (ai_data buf) (bs_pending_mint_txos s) (ai_data buf')"
  proof (rule advance_ok [OF adv])
    assume "\<not> jit" "s0 = core_state st"
    then show ?thesis using claim_goes_on [OF inv0 claim] lock ends core(2) by (cases unlock) (auto simp: eqs)
  next
    assume jit and load: "run_setup_next_pending_buffer (env_sha e) (core_state st) (ai_key a0) (ai_key buf0) (ai_data txo) (ai_data buf0) = Inr s0"
    have "unlock \<or> 72 \<le> length (ai_data buf) \<and> ai_data buf' = (ai_data buf)[64 := 1]"
      using lock_buffer_data [OF lock(1) [OF \<open>jit\<close>]] ends eqs by auto
    then show ?thesis using next_buffer_pays [OF core(3) load claim inv0] by (simp add: eqs)
  qed
  moreover have "pmb_reachable (env_rt e) (env_sha e) (pid_pending_mint_buffer (env_ids e)) (ai_data buf')"
    if "pmb_reachable (env_rt e) (env_sha e) (pid_pending_mint_buffer (env_ids e)) (ai_data buf)"
  proof -
    have "pmb_reachable (env_rt e) (env_sha e) (pid_pending_mint_buffer (env_ids e)) (ai_data locked)"
      using locked_reachable [OF disjI1 [OF lock(1)]] lock(2) that eqs by metis
    then show ?thesis using locked_reachable [OF disjI2 [OF ends(1)]] ends(2) eqs by metis
  qed
  ultimately show ?thesis by (simp add: bridge_effect_def eqs core(1))
qed

text \<open>The instructions that do not concern pending mints.\<close>

lemma pending_mints_kept:
  "state_process_request_withdrawal sha s ty address amount = (True, s1) \<Longrightarrow> bs_pending_mint_txos s1 = bs_pending_mint_txos s"
  "run_process_bridge_withdrawal sha zkv s pf vk tx out root idx = Inr (s2, sighash) \<Longrightarrow> bs_pending_mint_txos s2 = bs_pending_mint_txos s"
  "run_bridge_operator_withdraw_fees_precheck s = Inr (s3, fees) \<Longrightarrow> bs_pending_mint_txos s3 = bs_pending_mint_txos s"
  "process_manual_claimed_deposit sha s tx_hash block_root txo_root idx' ata amount' = Inr (s4, minted) \<Longrightarrow> bs_pending_mint_txos s4 = bs_pending_mint_txos s"
  "process_replay_withdrawal_proof sha s p now = Inr (True, s5) \<Longrightarrow> bs_pending_mint_txos s5 = bs_pending_mint_txos s"
  "bs_pending_mint_txos (snapshot_for_withdrawal s now') = bs_pending_mint_txos s"
  by (auto simp: state_process_request_withdrawal_def run_process_bridge_withdrawal_def update_for_withdrawal_def
      run_bridge_operator_withdraw_fees_precheck_def process_manual_claimed_deposit_def process_replay_withdrawal_proof_def
      snapshot_for_withdrawal_def Let_def result_simps case_prod_unfold split: if_splits)

lemma keeping_handlers:
  assumes "load_bridge_state a = Inr st" and "account_ok a" and "digest32 sha" and "bridge_step sha zkv (core_state st) s"
    and "bs_pending_mint_txos s = bs_pending_mint_txos (core_state st)"
  shows "bridge_effect e a buf (store_core_state a st s) buf"
proof -
  note core = read_core [OF assms(2,1,3) r_into_rtranclp [where r = "bridge_step sha zkv", OF assms(4)]]
  show ?thesis using core(1,2) assms(5) by (intro kept_effect) simp
qed

lemma instruction_effect:
  assumes run: "run_instruction e pid (a # buf # rest) ins = Inr (a' # buf' # rest', calls)" and wf: "wf_instruction ins"
    and "runtime_ok (env_rt e)" and "length (ai_key buf) = 32" and sha: "digest32 (env_sha e)" and ok: "account_ok a"
    and "reorg_index_moves (core_state (dec_bridge_state (ai_data a))) ins" and "\<nexists>i. ins = Initialize i"
  shows "bridge_effect e a buf a' buf'"
proof (cases ins)
  case (BlockUpdate pf h b1 b2)
  with assms show ?thesis by (auto simp: run_instruction_def process_block_update_def intro: block_update_effect)
next
  case (ProcessReorgBlocks pf h blocks b1 b2)
  with assms show ?thesis
    by (auto simp: run_instruction_def process_reorg_blocks_def reorg_index_moves_def intro: block_update_effect)
next
  case (RequestWithdrawal req)
  with run wf show ?thesis
    by (auto simp: run_instruction_def wf_withdrawal_request_def elim!: request_withdrawal_ok
        intro!: keeping_handlers [OF _ ok sha] intro: request pending_mints_kept)
next
  case (ProcessWithdrawal params)
  with run wf show ?thesis
    by (auto simp: run_instruction_def wf_process_withdrawal_def elim!: withdrawal_ok
        intro!: keeping_handlers [OF _ ok sha] intro: withdrawal pending_mints_kept)
next
  case OperatorWithdrawFees
  with run show ?thesis
    by (auto simp: run_instruction_def elim!: fees_ok intro!: keeping_handlers [OF _ ok sha] intro: withdraw_fees pending_mints_kept)
next
  case (ProcessManualDeposit params)
  with run show ?thesis
    by (auto simp: run_instruction_def elim!: manual_deposit_ok intro!: keeping_handlers [OF _ ok sha]
        intro: manual_deposit pending_mints_kept)
next
  case ReplayWithdrawal
  with run show ?thesis
    by (auto simp: run_instruction_def elim!: replay_ok intro!: keeping_handlers [OF _ ok sha] intro: replay pending_mints_kept)
next
  case (ProcessMintGroup g b unlock)
  with run sha ok show ?thesis by (auto simp: run_instruction_def intro: mint_group_effect)
next
  case (ProcessMintGroupAutoAdvance g b1 b2 unlock)
  with assms show ?thesis by (auto simp: run_instruction_def intro: auto_advance_effect)
next
  case SnapshotWithdrawals
  with run show ?thesis
    by (auto simp: run_instruction_def elim!: snapshot_ok intro!: keeping_handlers [OF _ ok sha] intro: take_snapshot pending_mints_kept)
qed (use assms(8) in simp)

lemma initialize_effect:
  assumes "process_initialize e pid (a # buf # rest) i = Inr (a' # buf' # rest', calls)" and "runtime_ok (env_rt e)" and "wf_initialize i"
  shows "tracker_is_empty (fm_tracker (manager_at a'))" and "ai_data buf' = ai_data buf"
proof -
  show "tracker_is_empty (fm_tracker (manager_at a'))"
    by (simp add: initialize_account(1) [OF assms] state_initialize_def manager_new_empty_def empty_tracker_def tracker_is_empty_def)
  show "ai_data buf' = ai_data buf"
    by (rule initialize_ok [OF assms(1)]) (use runtime_okD(5) [OF assms(2)] in \<open>auto, metis\<close>)
qed

section \<open>The two programs together\<close>

text \<open>
  The state account of the bridge and the bytes of the buffer account with address \<open>k\<close> after any
  accepted instructions of both programs. An instruction of the bridge may carry this or another buffer;
  the bridge's address signs for no one but the bridge.
\<close>

inductive lock_reachable :: "runtime \<Rightarrow> (bytes \<Rightarrow> bytes) \<Rightarrow> pubkey \<Rightarrow> pubkey \<Rightarrow> pubkey \<Rightarrow> AccountInfo \<Rightarrow> bytes \<Rightarrow> bool"
  for rt sha pid pmb k where
  nothing: "lock_reachable rt sha pid pmb k a []" if "ai_data a = []"
| bridge_instruction: "lock_reachable rt sha pid pmb k a' (if ai_key buf = k then ai_data buf' else d)"
    if "lock_reachable rt sha pid pmb k a d" and "process_instruction e pid (a # buf # rest) data = Inr (a' # buf' # rest', calls)"
      and "ai_key buf = k \<longrightarrow> ai_data buf = d" and "env_rt e = rt" and "env_sha e = sha" and "pid_pending_mint_buffer (env_ids e) = pmb"
      and "\<forall>x \<in> set (buf # rest). length (ai_key x) = 32"
      and "\<forall>ins. decode_instruction data = Inr ins \<longrightarrow> reorg_index_moves (core_state (dec_bridge_state (ai_data a))) ins"
| buffer_instruction: "lock_reachable rt sha pid pmb k a (ai_data buf')"
    if "lock_reachable rt sha pid pmb k a (ai_data buf)" and "pmb_process_instruction rt sha pmb (buf # accs) ix = Inr (buf' # accs')"
      and "\<forall>p \<in> set accs. ai_is_signer p \<longrightarrow> ai_key p \<noteq> ai_key a"

definition lock_inv :: "(bytes \<Rightarrow> bytes) \<Rightarrow> pubkey \<Rightarrow> AccountInfo \<Rightarrow> bytes \<Rightarrow> bool" where
  "lock_inv sha k a d \<longleftrightarrow> account_ok a \<and>
     (\<not> tracker_is_empty (fm_tracker (manager_at a)) \<and> pt_storage_account (fm_tracker (manager_at a)) = k \<longrightarrow>
      paying_from sha (ai_key a) (manager_at a) d)"

lemma effect_keeps_lock:
  assumes "bridge_effect e a buf a' buf'" and "lock_inv (env_sha e) k a d" and "account_ok a'" and "ai_key a' = ai_key a"
    and "ai_key buf = k \<longrightarrow> ai_data buf = d"
  shows "lock_inv (env_sha e) k a' (if ai_key buf = k then ai_data buf' else d)"
proof -
  have "manager_effect (env_sha e) (ai_key a) (ai_key buf) (manager_at a) (ai_data buf) (manager_at a') (ai_data buf')"
    using assms(1) by (simp add: bridge_effect_def)
  then show ?thesis
    by cases (use assms(2-5) in \<open>auto simp: lock_inv_def paying_from_def\<close>)
qed

lemma bridge_keeps_lock:
  assumes run: "process_instruction e pid (a # buf # rest) data = Inr (a' # buf' # rest', calls)" and rt: "runtime_ok (env_rt e)"
    and sha: "digest32 (env_sha e)" and keys: "\<forall>x \<in> set (buf # rest). length (ai_key x) = 32"
    and moves: "\<forall>ins. decode_instruction data = Inr ins \<longrightarrow> reorg_index_moves (core_state (dec_bridge_state (ai_data a))) ins"
    and inv: "ai_data a = [] \<or> lock_inv (env_sha e) k a d" and d: "ai_key buf = k \<longrightarrow> ai_data buf = d"
  shows "lock_inv (env_sha e) k a' (if ai_key buf = k then ai_data buf' else d)" and "ai_key a' = ai_key a"
    and "pmb_reachable (env_rt e) (env_sha e) (pid_pending_mint_buffer (env_ids e)) (ai_data buf) \<Longrightarrow>
      pmb_reachable (env_rt e) (env_sha e) (pid_pending_mint_buffer (env_ids e)) (ai_data buf')"
proof -
  let ?reach = "pmb_reachable (env_rt e) (env_sha e) (pid_pending_mint_buffer (env_ids e))"
  obtain ins where ins: "decode_instruction data = Inr ins" "run_instruction e pid (a # buf # rest) ins = Inr (a' # buf' # rest', calls)"
    using run by (auto simp: process_instruction_def result_simps)
  have wf: "wf_instruction ins" by (rule decode_wf [OF ins(1)])
  have "lock_inv (env_sha e) k a' (if ai_key buf = k then ai_data buf' else d) \<and> ai_key a' = ai_key a \<and>
      (?reach (ai_data buf) \<longrightarrow> ?reach (ai_data buf'))"
  proof (cases "\<exists>i. ins = Initialize i")
    case True
    then obtain i where i: "process_initialize e pid (a # buf # rest) i = Inr (a' # buf' # rest', calls)" "wf_initialize i"
      using ins(2) wf by (auto simp: run_instruction_def)
    show ?thesis
      using initialize_effect [OF i(1) rt i(2)] initialize_account(2,3) [OF i(1) rt i(2)] by (simp add: lock_inv_def)
  next
    case False
    have step: "stepped e a a'" using instruction_stepped [OF ins(2) wf rt keys] False by blast
    then have ok: "account_ok a" using inv by (auto simp: stepped_def lock_inv_def)
    have a': "account_ok a'" "ai_key a' = ai_key a" using stepped_read [OF step sha ok] by blast+
    have eff: "bridge_effect e a buf a' buf'"
      using instruction_effect [OF ins(2) wf rt _ sha ok] keys moves ins(1) False by simp
    have "lock_inv (env_sha e) k a d" using inv ok by (auto simp: account_ok_def)
    from effect_keeps_lock [OF eff this a' d] a'(2) eff show ?thesis by (simp add: bridge_effect_def)
  qed
  then show "lock_inv (env_sha e) k a' (if ai_key buf = k then ai_data buf' else d)" "ai_key a' = ai_key a"
    "?reach (ai_data buf) \<Longrightarrow> ?reach (ai_data buf')" by simp_all
qed

lemma buffer_keeps_lock:
  assumes inv: "lock_inv sha k a (ai_data buf)" and run: "pmb_process_instruction rt sha pmb (buf # accs) ix = Inr (buf' # accs')"
    and "runtime_ok rt" and "digest32 sha" and "ai_key a \<noteq> zero32" and signers: "\<forall>p \<in> set accs. ai_is_signer p \<longrightarrow> ai_key p \<noteq> ai_key a"
  shows "lock_inv sha k a (ai_data buf')"
proof -
  have False if pay: "paying_from sha (ai_key a) (manager_at a) (ai_data buf)"
  proof -
    have d: "72 \<le> length (ai_data buf)" "buffer_locker (ai_data buf) = ai_key a" "bh_is_locked (buffer_hdr (ai_data buf)) \<noteq> 0"
      using pay by (auto simp: paying_from_def mint_buffer_matches_def)
    then show False
      using process_instruction_step [OF assms(3) run] step_locked [OF assms(4) _ d(1) _ d(3)] assms(5) signers by fastforce
  qed
  then show ?thesis using inv by (auto simp: lock_inv_def)
qed

lemma program_key:
  assumes "process_instruction e pid (a # rest) data = Inr (a' # rest', calls)" and "runtime_ok (env_rt e)"
    and "\<forall>x \<in> set rest. length (ai_key x) = 32"
  shows "ai_key a' = ai_key a"
  by (rule program_stepped [OF assms]) (auto simp: stepped_def initialize_account(3) [OF _ assms(2)])

lemma lock_reachable_inv:
  assumes "lock_reachable rt sha pid pmb k a d" and "runtime_ok rt" and "digest32 sha" and "ai_key a \<noteq> zero32"
  shows "(ai_data a = [] \<or> lock_inv sha k a d) \<and> pmb_reachable rt sha pmb d"
  using assms(1,4)
proof induction
  case (nothing a)
  then show ?case by (simp add: pmb_reachable.no_data)
next
  case (bridge_instruction a d e buf rest data a' buf' rest' calls)
  note env = bridge_instruction.hyps(4-6)
  have "ai_key a' = ai_key a" using program_key [OF bridge_instruction.hyps(2)] assms(2) bridge_instruction.hyps(7) env by simp
  then have IH: "ai_data a = [] \<or> lock_inv sha k a d" "pmb_reachable rt sha pmb d"
    using bridge_instruction.IH bridge_instruction.prems by simp_all
  note kept = bridge_keeps_lock [OF bridge_instruction.hyps(2), unfolded env, OF assms(2,3) bridge_instruction.hyps(7,8) IH(1)
      bridge_instruction.hyps(3)]
  show ?case using kept(1,3) IH(2) bridge_instruction.hyps(3) by simp
next
  case (buffer_instruction a buf accs ix buf' accs')
  then show ?case
    using buffer_keeps_lock [OF _ buffer_instruction.hyps(2) assms(2,3)] pmb_reachable.instruction by blast
qed

section \<open>What the bridge pays\<close>


text \<open>
  A concrete run of both programs, with a runtime that gives the bridge the address that the example
  buffer has as its locker: the bridge is initialised, the buffer is set up and filled, a block with one
  mint arrives, and its group is paid.
\<close>

definition lock_runtime :: runtime where
  "lock_runtime = sample_runtime \<lparr> rt_find_program_address :=
     (\<lambda>seeds p. (if seeds = [bridge_state_seed] then example_locker else sample_address seeds p, 255)) \<rparr>"

definition lock_env :: bridge_env where
  "lock_env = (example_env ones_digest) \<lparr> env_rt := lock_runtime, env_ids := example_ids \<lparr> pid_pending_mint_buffer := example_program \<rparr> \<rparr>"

lemma lock_runtime_simps [simp]:
  "rt_find_program_address lock_runtime [bridge_state_seed] p = (example_locker, 255)"
  "rt_find_program_address lock_runtime [x, y] p = rt_find_program_address sample_runtime [x, y] p"
  "rt_create_program_address lock_runtime = rt_create_program_address sample_runtime"
  "rt_create_account lock_runtime = rt_create_account sample_runtime" "rt_transfer lock_runtime = rt_transfer sample_runtime"
  "rt_realloc lock_runtime = rt_realloc sample_runtime" "rt_allocate lock_runtime = rt_allocate sample_runtime"
  "rt_assign lock_runtime = rt_assign sample_runtime" "rt_minimum_balance lock_runtime = rt_minimum_balance sample_runtime"
  "bridge_state_address lock_runtime p = example_locker"
  by (simp_all add: lock_runtime_def sample_runtime_def bridge_state_address_def)

lemma lock_runtime_ok: "runtime_ok lock_runtime"
  using sample_runtime_ok by (simp add: runtime_ok_def transfer_ok_def allocate_ok_def assign_ok_def realloc_ok_def create_account_ok_def)

lemma lock_runtime_pmb: "pmb_process_instruction lock_runtime sha p accs ix = pmb_process_instruction sample_runtime sha p accs ix"
  unfolding pmb_process_instruction_def pmb_setup_def pmb_reinit_def pmb_resize_def pmb_insert_def pmb_realloc_account_def
    lock_runtime_simps by (rule refl)

lemma lock_env_simps [simp]:
  "env_rt lock_env = lock_runtime" "env_sha lock_env = ones_digest" "env_ids lock_env = example_ids \<lparr> pid_pending_mint_buffer := example_program \<rparr>"
  "env_zkv lock_env pf vk inputs" "env_mint_to lock_env q mint recipient authority amount" "env_mock_zkp lock_env"
  by (simp_all add: lock_env_def)

abbreviation example_buffer_key :: pubkey where
  "example_buffer_key \<equiv> sample_address [mint_buffer_seed, replicate 32 5] example_program"

definition lock_account :: "BridgeProgramStateWithDogeMint \<Rightarrow> AccountInfo" where
  "lock_account b = \<lparr> ai_key = example_locker, ai_owner = example_bridge, ai_lamports = 6184, ai_data = enc_bridge_state b, ai_is_signer = False \<rparr>"

lemma example_storage_simps [simp]:
  "ai_key (example_storage l d) = example_buffer_key" "ai_data (example_storage l d) = d" "ai_owner (example_storage l d) = example_program"
  by (simp_all add: example_storage_def)

lemma lock_account_simps [simp]:
  "ai_key (lock_account b) = example_locker" "ai_data (lock_account b) = enc_bridge_state b" "store_bridge_state (lock_account b) b' = lock_account b'"
  by (simp_all add: lock_account_def store_bridge_state_def)

abbreviation lock_system :: "AccountInfo \<Rightarrow> bytes \<Rightarrow> bool" where
  "lock_system \<equiv> lock_reachable lock_runtime ones_digest example_bridge example_program example_buffer_key"

lemma example_buffer_key_ne: "replicate 32 5 \<noteq> example_buffer_key"
proof
  assume "replicate 32 5 = example_buffer_key"
  then have "replicate 32 (5 :: u8) ! 0 = example_buffer_key ! 0" by simp
  then show False by (simp add: sample_address_def mint_buffer_seed_def)
qed

lemma lock_initialized: "lock_system (lock_account example_state) []"
proof -
  let ?a = "example_account example_locker zero32 [] False"
  let ?accs = "[example_account (replicate 32 5) zero32 [] True, example_account zero32 zero32 [] False]"
  have run: "\<exists>buf'. process_instruction lock_env example_bridge (?a # ?accs) (gen_aligned_instruction 0 (enc_initialize example_init)) =
      Inr (lock_account example_state # buf' # tl ?accs, [])"
    by (simp add: process_instruction_def decode_initialize [OF wf_example_init] run_instruction_def process_initialize_def
        sample_runtime_def load_bridge_state_def store_bridge_state_def lock_account_def example_account_def)
  have "reorg_index_moves s (Initialize i)" for s i by (simp add: reorg_index_moves_def)
  moreover have "lock_system ?a []" by (rule nothing) simp
  ultimately show ?thesis
    using run bridge_instruction [where e = lock_env and a = ?a and buf = "hd ?accs" and rest = "tl ?accs" and d = "[]"] example_buffer_key_ne
    by (fastforce simp: decode_initialize [OF wf_example_init])
qed


lemma lock_buffer_step:
  assumes "lock_system (lock_account b) d" and "pmb_process_instruction sample_runtime ones_digest example_program (example_storage l d # accs) ix =
      Inr (example_storage l' d' # accs')" and "\<forall>p \<in> set accs. ai_is_signer p \<longrightarrow> ai_key p \<noteq> example_locker"
  shows "lock_system (lock_account b) d'"
  using buffer_instruction [of lock_runtime ones_digest example_bridge example_program example_buffer_key "lock_account b"
      "example_storage l d" accs ix "example_storage l' d'" accs'] assms by (simp add: lock_runtime_pmb)

lemma lock_filled: "lock_system (lock_account example_state) example_buffer2"
proof -
  let ?accs = "[example_signer (replicate 32 5), example_account zero32 zero32 [] False]"
  have signer: "\<forall>p \<in> set ?accs. ai_is_signer p \<longrightarrow> ai_key p \<noteq> example_locker" by (simp add: example_signer_def)
  have "lock_system (lock_account example_state) example_buffer0"
    using lock_buffer_step [OF lock_initialized example_setup] by simp
  then have "lock_system (lock_account example_state) example_buffer1"
    using lock_buffer_step [OF _ _ signer] example_reinit by blast
  then show ?thesis using lock_buffer_step [OF _ _ signer] example_insert by blast
qed

text \<open>The block, the transition it causes and the payment.\<close>

definition lock_block :: PsyBridgeHeader where
  "lock_block = (example_header 2) \<lparr> finalized_state := (finalized_state (example_header 2))
     \<lparr> sc_pending_mints_finalized_hash := replicate 32 1, sc_txo_output_list_finalized_hash := replicate 32 1,
       sc_auto_claimed_deposits_next_index := 1 \<rparr> \<rparr>"

definition lock_manager :: FinalizedBlockMintTxoManager where
  "lock_manager = manager_new_empty \<lparr> fm_infos := write_at (fm_infos manager_new_empty) 0 [header_info lock_block], fm_total_count := 1,
     fm_start_block_height := 2, fm_tracker := \<lparr> pt_storage_account = example_buffer_key, pt_claimed = zero32,
       pt_total_pending_mints = 1, pt_groups_remaining = 1 \<rparr> \<rparr>"

abbreviation lock_loaded :: PsyBridgeProgramState where
  "lock_loaded \<equiv> record_block (state_initialize example_init) lock_block lock_manager"

lemma lock_buffer_matches: "mint_buffer_matches ones_digest example_locker (replicate 32 1) 1 example_locked_buffer"
  by (simp add: mint_buffer_matches_def put_header_simps wf_example_header1 group_count_def ones_digest_def example_groups)
    (simp add: example_header1_def fresh_header_def)

lemma lock_transition:
  "run_standard_single_block_transition ones_digest (env_zkv lock_env) (state_initialize example_init) (replicate 256 0)
     (SINGLE_BLOCK_UPDATE_VK (env_mock_zkp lock_env)) lock_block example_locker example_buffer_key (example_txo_buffer 2)
     example_locked_buffer = Inr lock_loaded"
proof -
  have "PM_DA_DEFAULT_PENDING_MINTS_BUFFER_HASH ! 0 = 150" "replicate 32 (1 :: u8) ! 0 = 1" "(1 :: u8) \<noteq> 150"
    by (simp_all add: PM_DA_DEFAULT_PENDING_MINTS_BUFFER_HASH_def)
  then have "PM_DA_DEFAULT_PENDING_MINTS_BUFFER_HASH \<noteq> replicate 32 1" by metis
  then have info: "\<not> info_is_empty (header_info lock_block)"
    by (simp add: info_is_empty_def header_info_def lock_block_def eq_commute [of "replicate 32 1"])
  have ready: "ensure_pending_mints_ready_for_transition_inner ones_digest example_locker (replicate 32 1) example_locked_buffer =
      Inr (replicate 32 1, 1)" using lock_buffer_matches by (simp add: ensure_inner_ok_iff)
  show ?thesis
    using info
    by (simp add: run_standard_single_block_transition_def is_ready_for_new_block_update_def state_initialize_def
        example_init_def lock_block_def example_header_def manager_new_empty_def manager_is_empty_def
        ensure_pending_mints_ready_for_transition_def ready pm_txo_data_account_min_size_def
        hash_impl_sha256_bytes_def compute_mint_group_info_def standard_append_block_def fast_forward_empty_def
        tracker_is_empty_def empty_tracker_def write_at_def Let_def SINGLE_BLOCK_UPDATE_VK_def ones_digest_def record_block_def
        lock_manager_def header_info_def)
qed

definition lock_state :: BridgeProgramStateWithDogeMint where
  "lock_state = example_state \<lparr> core_state := lock_loaded \<rparr>"

lemma lock_state_simps [simp]: "core_state lock_state = lock_loaded" "doge_mint lock_state = replicate 32 3"
  by (simp_all add: lock_state_def example_init_def)

lemma wf_lock_block: "wf_header lock_block"
  by (simp add: lock_block_def example_header_def wf_header_def wf_tip_state_def wf_state_commitment_def)

lemma lock_loaded_stored:
  "bridge_inv lock_loaded" "load_bridge_state (lock_account lock_state) = Inr lock_state"
  "load_bridge_state (lock_account example_state) = Inr example_state"
proof -
  show inv: "bridge_inv lock_loaded"
    using single_block_inv [OF initialize_inv [OF wf_example_init] lock_transition wf_lock_block] by simp
  show "load_bridge_state (lock_account lock_state) = Inr lock_state"
    using read_stored [of lock_state "lock_account example_state"] inv
    by (simp add: load_bridge_state_def account_ok_def)
  show "load_bridge_state (lock_account example_state) = Inr example_state"
    using example_stored by (simp add: load_bridge_state_def)
qed

lemma lock_block_accepted:
  "lock_system (lock_account lock_state) example_locked_buffer"
proof -
  let ?data = "two_bumps 1 255 255 (enc_block_update \<lparr> bu_proof = replicate 256 0, bu_header = lock_block \<rparr>)"
  let ?rest = "[example_account (sample_address [txo_buffer_seed, replicate 32 5, [255]] (replicate 32 12)) (replicate 32 12) (example_txo_buffer 2) False,
    example_account (replicate 32 5) zero32 [] True, example_account (replicate 32 5) zero32 [] True,
    example_account example_program zero32 [] False, example_account (replicate 32 12) zero32 [] False]"
  have "wf_block_update \<lparr> bu_proof = replicate 256 0, bu_header = lock_block \<rparr>"
    by (simp add: wf_block_update_def wf_lock_block)
  then have dec: "decode_instruction ?data = Inr (BlockUpdate (replicate 256 0) lock_block 255 255)"
    by (simp add: decode_instruction_def Let_def block_update_data.enc_length block_update_data.dec_enc)
  have lock: "lock_buffer lock_env example_bridge (lock_account example_state # example_storage 172 example_buffer2 # ?rest)
      (example_storage 172 example_buffer2) (lock_account example_state) = Inr (example_storage 172 example_locked_buffer)"
    by (simp add: lock_buffer_def invoke_mint_buffer_def authority_signs_def lock_runtime_pmb)
       (simp add: pmb_process_instruction_def pmb_lock_def require_signer_def get_header_def header_lock_def example_header1_def
         fresh_header_def lock_account_def, simp add: example_storage_def)
  have addresses: "rt_create_program_address sample_runtime [mint_buffer_seed, replicate 32 5, [255]] example_program = Some example_buffer_key"
    "rt_create_program_address sample_runtime [txo_buffer_seed, replicate 32 5, [255]] p =
      Some (sample_address [txo_buffer_seed, replicate 32 5, [255]] p)" "pid_txo_buffer example_ids = replicate 32 12" for p
    by (simp_all add: sample_runtime_def sample_address_def mint_buffer_seed_def example_ids_def)
  have indices: "sc_auto_claimed_deposits_next_index (finalized_state (bs_bridge_header lock_loaded)) = 1"
    "sc_auto_claimed_deposits_next_index (finalized_state (bs_bridge_header (state_initialize example_init))) = 0"
    by (simp_all add: record_block_def lock_block_def state_initialize_def example_init_def example_header_def)
  have run: "process_instruction lock_env example_bridge (lock_account example_state # example_storage 172 example_buffer2 # ?rest) ?data =
      Inr (lock_account lock_state # example_storage 172 example_locked_buffer # ?rest,
        [LockBuffer example_buffer_key])"
    using lock_transition addresses indices
    by (simp add: process_instruction_def dec run_instruction_def process_block_update_def run_block_update_common_def lock lock_loaded_stored lock_state_def)
  have "reorg_index_moves s (BlockUpdate pf h b1 b2)" for s pf h b1 b2 by (simp add: reorg_index_moves_def)
  then show ?thesis
    using bridge_instruction [OF lock_filled run]
    by (simp add: dec)
qed

lemma lock_mint: "bslice example_locked_buffer 104 144 = replicate 40 1"
proof -
  let ?d = "write_at example_buffer1 72 (replicate 32 1)"
  have "bslice (write_at ?d 104 (replicate 40 1)) 104 144 = replicate 40 1"
    using slice_write_at_same [of 104 "replicate 40 1" ?d] by simp
  then show ?thesis
    using example_filled
    by (simp add: put_header_def example_buffer2_def ones_digest_def slice_write_at_other buffer_header.enc_length [OF wf_example_header1])
qed

lemma lock_claim:
  "\<exists>s. run_auto_mint_group_precheck lock_loaded 0 example_buffer_key = Inr (s, True, 1, 104)"
proof -
  have mod: "(1 :: u16) mod 24 = 1" "(1 :: u16) div 24 = 0"
    by (simp_all only: word_unat_eq_iff unat_mod_24 unat_div_24) simp_all
  have groups: "get_current_total_pending_mints_groups (tracker_of lock_loaded) = 1" "mints_count_for_group (tracker_of lock_loaded) 1 0 = 1"
    by (simp_all add: get_current_total_pending_mints_groups_def mints_count_for_group_def record_block_def lock_manager_def mod Let_def)
  show ?thesis
    unfolding run_auto_mint_group_precheck_def ensure_can_claim_pending_mints_group_def Let_def groups
    by (simp add: record_block_def lock_manager_def manager_is_empty_def manager_new_empty_def tracker_is_empty_def
        is_pending_mints_group_already_claimed_def get_nth_pending_mint_offset_def Let_def
        manager_mark_pending_mints_group_claimed_def tracker_mark_pending_mints_group_claimed_def)
qed

abbreviation lock_pay_accounts :: "AccountInfo list" where
  "lock_pay_accounts \<equiv> [example_account (replicate 32 1) zero32 [] True, example_account (replicate 32 3) zero32 [] False,
     example_account (replicate 32 1) zero32 [] True, example_account example_program zero32 [] False,
     example_account (replicate 32 15) zero32 [] False, example_account (replicate 32 1) zero32 [] False]"

lemma lock_pays:
  "\<exists>accounts' calls. process_process_mint_group lock_env example_bridge
     (lock_account lock_state # example_storage 172 example_locked_buffer # lock_pay_accounts) 0 255 True =
     Inr (accounts', calls)"
proof -
  let ?a = "lock_account lock_state"
  let ?accs = "?a # example_storage 172 example_locked_buffer # lock_pay_accounts"
  obtain s where s: "run_auto_mint_group_precheck lock_loaded 0 example_buffer_key = Inr (s, True, 1, 104)" using lock_claim by blast
  have pay: "pm_recipient (dec_pending_mint (replicate 40 1)) = replicate 32 1" by (simp add: dec_pending_mint_def bslice_def)
  have loop: "\<exists>calls. mint_loop (solana_mint_to lock_env example_bridge (lock_pay_accounts ! 1) (lock_account b) [lock_pay_accounts ! 5])
      example_locked_buffer 104 0 (Suc 0) = Inr calls" for b
    using put_header_simps(2) [of example_buffer2 "example_header1 1 1"]
    by (simp add: lock_mint pay solana_mint_to_def authority_signs_def wf_example_header1 Let_def)
  have unlock: "\<exists>b. unlock_buffer lock_env example_bridge ?accs (example_storage 172 example_locked_buffer) (lock_account b') = Inr b" for b'
    by (simp add: unlock_buffer_def invoke_mint_buffer_def authority_signs_def lock_runtime_pmb)
       (simp add: pmb_process_instruction_def pmb_unlock_def require_signer_def get_header_def header_unlock_def put_header_simps
         wf_example_header1 example_groups, simp add: example_header1_def fresh_header_def)
  have keys: "operator_pubkey (bs_access_control lock_loaded) = replicate 32 1" "pt_storage_account (tracker_of lock_loaded) = example_buffer_key"
    by (simp_all add: record_block_def state_initialize_def example_init_def lock_manager_def)
  obtain calls b where "mint_loop (solana_mint_to lock_env example_bridge (lock_pay_accounts ! 1) (lock_account (lock_state \<lparr> core_state := s \<rparr>))
      [lock_pay_accounts ! 5]) example_locked_buffer 104 0 (Suc 0) = Inr calls"
    "unlock_buffer lock_env example_bridge ?accs (example_storage 172 example_locked_buffer) (lock_account (lock_state \<lparr> core_state := s \<rparr>)) = Inr b"
    using loop unlock by blast
  then show ?thesis
    by (simp add: process_process_mint_group_def lock_loaded_stored Let_def keys s check_should_unlock_def del: mint_loop.simps)
qed


end
