(* ===== verification/ClientRpc.thy ===== *)
theory ClientRpc
  imports Errors
begin

text \<open>
  The request layer of the client: the errors (\<open>clients/rust/src/errors.rs\<close>), the retry loop
  (\<open>rpc/retry.rs\<close>) and the rate limiter (\<open>rpc/rate_limiter.rs\<close>). The operation that is retried, the
  clock and the token bucket of the rate limiter are parameters: the outcome of the \<open>i\<close>-th call, the
  nanoseconds read after it, and whether the bucket had a token. Texts carried by errors are strings.
\<close>

section \<open>Errors of the client\<close>

datatype ClientError =
    CE_Rpc string
  | CE_RateLimited u64
  | CE_ConnectionTimeout
  | CE_SimulationFailed string "string list"
  | CE_ConfirmationTimeout u64
  | CE_TransactionRejected string
  | CE_AlreadyProcessed
  | CE_Program ProgramError
  | CE_InvalidBridgeState string
  | CE_PendingMintsNotReady string
  | CE_BlockHeightMismatch u32 u32
  | CE_BufferCreationFailed string
  | CE_BufferTooLarge nat nat
  | CE_BufferNotFound string
  | CE_InvalidConfig string
  | CE_MissingField string
  | CE_InvalidProof
  | CE_HashMismatch string string
  | CE_InvalidInput string
  | CE_SerializationError string
  | CE_SignerError
  | CE_AccountNotFound string
  | CE_InsufficientBalance u64 u64
  | CE_Internal string

type_synonym 'a client_result = "ClientError + 'a"

definition is_retryable :: "ClientError \<Rightarrow> bool" where
  "is_retryable e = (case e of CE_Rpc _ \<Rightarrow> True | CE_RateLimited _ \<Rightarrow> True | CE_ConnectionTimeout \<Rightarrow> True
     | CE_ConfirmationTimeout _ \<Rightarrow> True | _ \<Rightarrow> False)"

definition retry_hint_ms :: "ClientError \<Rightarrow> u64 option" where
  "retry_hint_ms e = (case e of CE_RateLimited retry_after_ms \<Rightarrow> Some retry_after_ms | CE_ConnectionTimeout \<Rightarrow> Some 1000
     | CE_ConfirmationTimeout _ \<Rightarrow> Some 2000 | _ \<Rightarrow> None)"

datatype ErrorCategory =
  EC_Network | EC_Transaction | EC_Program | EC_Buffer | EC_Config | EC_Cryptographic | EC_Validation | EC_Account | EC_Internal

definition error_category :: "ClientError \<Rightarrow> ErrorCategory" where
  "error_category e = (case e of
       CE_Rpc _ \<Rightarrow> EC_Network | CE_RateLimited _ \<Rightarrow> EC_Network | CE_ConnectionTimeout \<Rightarrow> EC_Network
     | CE_SimulationFailed _ _ \<Rightarrow> EC_Transaction | CE_ConfirmationTimeout _ \<Rightarrow> EC_Transaction
     | CE_TransactionRejected _ \<Rightarrow> EC_Transaction | CE_AlreadyProcessed \<Rightarrow> EC_Transaction
     | CE_Program _ \<Rightarrow> EC_Program | CE_InvalidBridgeState _ \<Rightarrow> EC_Program | CE_PendingMintsNotReady _ \<Rightarrow> EC_Program
     | CE_BlockHeightMismatch _ _ \<Rightarrow> EC_Program
     | CE_BufferCreationFailed _ \<Rightarrow> EC_Buffer | CE_BufferTooLarge _ _ \<Rightarrow> EC_Buffer | CE_BufferNotFound _ \<Rightarrow> EC_Buffer
     | CE_InvalidConfig _ \<Rightarrow> EC_Config | CE_MissingField _ \<Rightarrow> EC_Config
     | CE_InvalidProof \<Rightarrow> EC_Cryptographic | CE_HashMismatch _ _ \<Rightarrow> EC_Cryptographic
     | CE_InvalidInput _ \<Rightarrow> EC_Validation | CE_SerializationError _ \<Rightarrow> EC_Validation | CE_SignerError \<Rightarrow> EC_Validation
     | CE_AccountNotFound _ \<Rightarrow> EC_Account | CE_InsufficientBalance _ _ \<Rightarrow> EC_Account
     | CE_Internal _ \<Rightarrow> EC_Internal)"

lemma hint_retryable: "retry_hint_ms e = Some h \<Longrightarrow> is_retryable e"
  by (cases e) (simp_all add: retry_hint_ms_def is_retryable_def)

section \<open>Retries\<close>

text \<open>
  The multiplier is an \<open>f64\<close>. A non-negative one is modelled as a mantissa below \<open>2 ^ 53\<close> over a
  power of two. \<open>round53\<close> keeps 53 significant bits (to nearest, ties to even), as the conversion
  \<open>delay as f64\<close> and the product do; \<open>as u64\<close> truncates and saturates.
\<close>

record f64 =
  f64_mantissa :: nat
  f64_scale :: nat

fun bit_length :: "nat \<Rightarrow> nat" where
  "bit_length n = (if n = 0 then 0 else Suc (bit_length (n div 2)))"

declare bit_length.simps [simp del]

definition round53 :: "nat \<Rightarrow> nat" where
  "round53 n = (let k = bit_length n - 53; unit = 2 ^ k; q = n div unit; r = n mod unit
     in (if 2 * r > unit \<or> 2 * r = unit \<and> odd q then Suc q else q) * unit)"

definition f64_scale_u64 :: "u64 \<Rightarrow> f64 \<Rightarrow> u64" where
  "f64_scale_u64 delay m =
     of_nat (min (round53 (round53 (unat delay) * f64_mantissa m) div 2 ^ f64_scale m) (2 ^ 64 - 1))"

record RetryConfig =
  rc_max_retries :: u32
  rc_initial_delay_ms :: u64
  rc_max_delay_ms :: u64
  rc_backoff_multiplier :: f64
  rc_confirmation_timeout_ms :: u64

definition default_retry_config :: RetryConfig where
  "default_retry_config = \<lparr> rc_max_retries = 10, rc_initial_delay_ms = 500, rc_max_delay_ms = 30000,
     rc_backoff_multiplier = \<lparr> f64_mantissa = 2, f64_scale = 0 \<rparr>, rc_confirmation_timeout_ms = 60000 \<rparr>"

definition no_retry_config :: RetryConfig where
  "no_retry_config = \<lparr> rc_max_retries = 0, rc_initial_delay_ms = 0, rc_max_delay_ms = 0,
     rc_backoff_multiplier = \<lparr> f64_mantissa = 1, f64_scale = 0 \<rparr>, rc_confirmation_timeout_ms = 60000 \<rparr>"

definition jitter :: "u32 \<Rightarrow> u64 \<Rightarrow> u64" where
  "jitter nanos delay = (let max_jitter = delay div 4 in if max_jitter = 0 then 0 else ucast nanos mod max_jitter)"

definition hinted_delay :: "ClientError \<Rightarrow> u64 \<Rightarrow> u64" where
  "hinted_delay e delay = (case retry_hint_ms e of Some hint \<Rightarrow> max delay hint | None \<Rightarrow> delay)"

text \<open>
  \<open>RetryExecutor::execute\<close>. The loop has no bound of its own, so it is a partial function; \<open>waits\<close>
  are the pauses so far, one per failed call that is followed by another one.
\<close>

partial_function (option) execute_loop ::
  "RetryConfig \<Rightarrow> (nat \<Rightarrow> 'a client_result) \<Rightarrow> (nat \<Rightarrow> u32) \<Rightarrow> u32 \<Rightarrow> u64 \<Rightarrow> u64 list \<Rightarrow> ('a client_result \<times> u64 list) option" where
  "execute_loop config operation nanos attempts delay waits =
     (let attempts = attempts + 1
      in case operation (length waits) of
        Inr result \<Rightarrow> Some (Inr result, waits)
      | Inl e \<Rightarrow>
          if \<not> is_retryable e \<or> attempts > rc_max_retries config then Some (Inl e, waits)
          else let delay = hinted_delay e delay;
                   wait_time = delay + jitter (nanos (length waits)) delay
               in execute_loop config operation nanos attempts
                    (min (f64_scale_u64 delay (rc_backoff_multiplier config)) (rc_max_delay_ms config)) (waits @ [wait_time]))"

definition execute :: "RetryConfig \<Rightarrow> (nat \<Rightarrow> 'a client_result) \<Rightarrow> (nat \<Rightarrow> u32) \<Rightarrow> ('a client_result \<times> u64 list) option" where
  "execute config operation nanos = execute_loop config operation nanos 0 (rc_initial_delay_ms config) []"

section \<open>Rate limiting\<close>

record RateLimitConfig =
  rl_max_rps :: u32
  rl_burst_size :: u32
  rl_queue_on_limit :: bool
  rl_max_queue_depth :: nat

definition default_rate_limit :: RateLimitConfig where
  "default_rate_limit = \<lparr> rl_max_rps = 10, rl_burst_size = 20, rl_queue_on_limit = True, rl_max_queue_depth = 100 \<rparr>"

definition estimated_wait_ms :: "RateLimitConfig \<Rightarrow> ClientError fault + u64" where
  "estimated_wait_ms config = (if rl_max_rps config = 0 then Inl Panic else Inr (1000 div ucast (rl_max_rps config)))"

datatype acquisition = Acquired | Waiting

text \<open>
  \<open>acquire\<close> up to its wait, and what follows the wait. \<open>token\<close> is the answer of the token bucket;
  the second component is the new queue size.
\<close>

definition acquire_begin :: "RateLimitConfig \<Rightarrow> bool \<Rightarrow> nat \<Rightarrow> ClientError fault + (acquisition \<times> nat)" where
  "acquire_begin config token queue_size =
     (if token then Inr (Acquired, queue_size)
      else if rl_queue_on_limit config \<and> queue_size \<ge> rl_max_queue_depth config
      then rbind (estimated_wait_ms config) (\<lambda>ms. Inl (Err (CE_RateLimited ms)))
      else Inr (Waiting, queue_size + 1))"

definition acquire_end :: "nat \<Rightarrow> nat" where
  "acquire_end queue_size = queue_size - 1"

text \<open>
  Many tasks share one limiter: a step is one task reaching the queue or leaving it, in any order.
  The state is the shared counter and the number of tasks that wait.
\<close>

inductive limiter_step :: "RateLimitConfig \<Rightarrow> nat \<times> nat \<Rightarrow> nat \<times> nat \<Rightarrow> bool" for config where
  step_begin: "acquire_begin config token queue = Inr (Acquired, queue') \<Longrightarrow> limiter_step config (queue, waiting) (queue', waiting)"
| step_wait: "acquire_begin config token queue = Inr (Waiting, queue') \<Longrightarrow> limiter_step config (queue, waiting) (queue', Suc waiting)"
| step_ready: "limiter_step config (queue, Suc waiting) (acquire_end queue, waiting)"

inductive_cases limiter_stepE: "limiter_step config s s'"

definition limiter_inv :: "RateLimitConfig \<Rightarrow> nat \<times> nat \<Rightarrow> bool" where
  "limiter_inv config s \<longleftrightarrow> fst s = snd s \<and> (rl_queue_on_limit config \<longrightarrow> fst s \<le> rl_max_queue_depth config)"

lemma acquire_begin_queue:
  "acquire_begin config token queue = Inr (a, queue') \<Longrightarrow>
     (a = Acquired \<and> queue' = queue) \<or>
     (a = Waiting \<and> queue' = Suc queue \<and> (rl_queue_on_limit config \<longrightarrow> queue < rl_max_queue_depth config))"
  by (auto simp: acquire_begin_def result_simps split: if_splits)

lemma limiter_step_inv: "limiter_step config s s' \<Longrightarrow> limiter_inv config s \<Longrightarrow> limiter_inv config s'"
  by (elim limiter_stepE) (auto simp: limiter_inv_def acquire_end_def dest!: acquire_begin_queue)

lemma limiter_queue_exact:
  assumes "(limiter_step config)\<^sup>*\<^sup>* (0, 0) (queue, waiting)"
  shows "queue = waiting \<and> (rl_queue_on_limit config \<longrightarrow> queue \<le> rl_max_queue_depth config)"
proof -
  have "limiter_inv config (queue, waiting)"
    using assms
  proof (induction "(queue, waiting)" arbitrary: queue waiting rule: rtranclp_induct)
    case base
    then show ?case by (simp add: limiter_inv_def)
  next
    case (step s)
    then show ?case by (cases s) (metis limiter_step_inv)
  qed
  then show ?thesis by (auto simp: limiter_inv_def)
qed

section \<open>The retry loop returns\<close>

lemma jitter_bound: "unat (jitter nanos d) \<le> unat d div 4"
proof (cases "d div 4 = 0")
  case True
  then show ?thesis by (simp add: jitter_def)
next
  case False
  have quarter: "unat (d div 4) = unat d div 4" by (simp add: unat_div)
  have "0 < unat (d div 4)" using False by (simp add: unat_gt_0)
  then have "unat (ucast nanos :: u64) mod unat (d div 4) < unat (d div 4)" by (rule mod_less_divisor)
  then show ?thesis using False unfolding jitter_def Let_def unat_mod [symmetric] quarter [symmetric] by simp
qed

lemma wait_bounds:
  assumes "d \<le> B" and "unat B + unat B div 4 < 2 ^ 64"
  shows "d \<le> d + jitter nanos d" and "unat (d + jitter nanos d) \<le> unat B + unat B div 4"
proof -
  have "unat d \<le> unat B" using assms(1) by (simp add: word_le_nat_alt)
  then have le: "unat d + unat (jitter nanos d) \<le> unat B + unat B div 4"
    using jitter_bound [of nanos d] by (meson add_mono div_le_mono le_trans)
  then have sum: "unat (d + jitter nanos d) = unat d + unat (jitter nanos d)"
    using assms(2) by (simp add: unat_word_ariths)
  show "d \<le> d + jitter nanos d" by (simp add: word_le_nat_alt sum)
  show "unat (d + jitter nanos d) \<le> unat B + unat B div 4" using le sum by simp
qed

definition delays_within :: "RetryConfig \<Rightarrow> (nat \<Rightarrow> 'a client_result) \<Rightarrow> u64 \<Rightarrow> bool" where
  "delays_within config operation B \<longleftrightarrow> rc_max_delay_ms config \<le> B \<and> unat B + unat B div 4 < 2 ^ 64 \<and>
     (\<forall>i e h. operation i = Inl e \<longrightarrow> retry_hint_ms e = Some h \<longrightarrow> h \<le> B)"

definition waits_ok :: "(nat \<Rightarrow> 'a client_result) \<Rightarrow> u64 \<Rightarrow> u64 list \<Rightarrow> bool" where
  "waits_ok operation B waits \<longleftrightarrow> (\<forall>i < length waits. \<forall>e. operation i = Inl e \<longrightarrow>
     (\<forall>h. retry_hint_ms e = Some h \<longrightarrow> h \<le> waits ! i) \<and> unat (waits ! i) \<le> unat B + unat B div 4)"

lemma waits_ok_snoc:
  assumes "delays_within config operation B" and "waits_ok operation B waits" and "operation (length waits) = Inl e" and "delay \<le> B"
  shows "waits_ok operation B (waits @ [hinted_delay e delay + jitter nanos (hinted_delay e delay)])"
proof -
  let ?d = "hinted_delay e delay"
  have d: "?d \<le> B" "\<forall>h. retry_hint_ms e = Some h \<longrightarrow> h \<le> ?d"
    using assms by (auto simp: hinted_delay_def delays_within_def split: option.split)
  have B: "unat B + unat B div 4 < 2 ^ 64" using assms(1) by (simp add: delays_within_def)
  have "\<forall>h. retry_hint_ms e = Some h \<longrightarrow> h \<le> ?d + jitter nanos ?d"
    using d wait_bounds(1) [OF d(1) B] by (meson order_trans)
  then show ?thesis
    using assms(2,3) wait_bounds(2) [OF d(1) B] by (simp add: waits_ok_def nth_append less_Suc_eq)
qed

text \<open>What the loop does after \<open>length waits\<close> failed calls.\<close>

lemma execute_loop_returns:
  assumes "unat attempts = length waits" and "length waits \<le> unat (rc_max_retries config)"
    and "unat (rc_max_retries config) < 2 ^ 32 - 1"
  shows "\<exists>n waits'. execute_loop config operation nanos attempts delay waits = Some (operation n, waits') \<and>
    length waits \<le> n \<and> n \<le> unat (rc_max_retries config) \<and> length waits' = n \<and>
    (\<forall>i. length waits \<le> i \<and> i < n \<longrightarrow> (\<exists>e. operation i = Inl e \<and> is_retryable e)) \<and>
    (\<forall>e. operation n = Inl e \<longrightarrow> is_retryable e \<longrightarrow> n = unat (rc_max_retries config)) \<and>
    (delays_within config operation B \<longrightarrow> delay \<le> B \<longrightarrow> waits_ok operation B waits \<longrightarrow> waits_ok operation B waits')"
  using assms(1,2)
proof (induction "unat (rc_max_retries config) - length waits" arbitrary: attempts delay waits rule: less_induct)
  case less
  have next_attempt: "unat (attempts + 1) = Suc (length waits)"
    using less.prems assms(3) by (simp add: unat_word_ariths)
  let ?stop = "case operation (length waits) of Inr _ \<Rightarrow> True | Inl e \<Rightarrow> \<not> is_retryable e \<or> attempts + 1 > rc_max_retries config"
  show ?case
  proof (cases ?stop)
    case True
    have "execute_loop config operation nanos attempts delay waits = Some (operation (length waits), waits)"
      using True by (subst execute_loop.simps) (auto simp: Let_def split: sum.splits)
    moreover have "\<forall>e. operation (length waits) = Inl e \<longrightarrow> is_retryable e \<longrightarrow> length waits = unat (rc_max_retries config)"
      using True next_attempt less.prems(2) by (auto simp: word_less_nat_alt)
    ultimately show ?thesis using less.prems by (intro exI [of _ "length waits"] exI [of _ waits]) auto
  next
    case False
    then obtain e where e: "operation (length waits) = Inl e" "is_retryable e" "\<not> attempts + 1 > rc_max_retries config"
      by (auto split: sum.splits)
    define d where "d = hinted_delay e delay"
    let ?ws = "waits @ [d + jitter (nanos (length waits)) d]"
    let ?d' = "min (f64_scale_u64 d (rc_backoff_multiplier config)) (rc_max_delay_ms config)"
    have unfold: "execute_loop config operation nanos attempts delay waits =
        execute_loop config operation nanos (attempts + 1) ?d' ?ws"
      using e by (subst execute_loop.simps) (simp add: Let_def d_def)
    have more: "Suc (length waits) \<le> unat (rc_max_retries config)" using e(3) next_attempt by (simp add: word_less_nat_alt)
    then have smaller: "unat (rc_max_retries config) - length ?ws < unat (rc_max_retries config) - length waits" by simp
    have "delays_within config operation B \<Longrightarrow> ?d' \<le> B" by (simp add: delays_within_def min_le_iff_disj)
    moreover have "delays_within config operation B \<Longrightarrow> delay \<le> B \<Longrightarrow> waits_ok operation B waits \<Longrightarrow> waits_ok operation B ?ws"
      unfolding d_def using e(1) by (intro waits_ok_snoc)
    moreover obtain n waits' where run: "execute_loop config operation nanos (attempts + 1) ?d' ?ws = Some (operation n, waits')"
      "Suc (length waits) \<le> n" "n \<le> unat (rc_max_retries config)" "length waits' = n"
      "\<forall>i. Suc (length waits) \<le> i \<and> i < n \<longrightarrow> (\<exists>e. operation i = Inl e \<and> is_retryable e)"
      "\<forall>e. operation n = Inl e \<longrightarrow> is_retryable e \<longrightarrow> n = unat (rc_max_retries config)"
      "delays_within config operation B \<longrightarrow> ?d' \<le> B \<longrightarrow> waits_ok operation B ?ws \<longrightarrow> waits_ok operation B waits'"
      using less.hyps [OF smaller, of "attempts + 1" ?d'] next_attempt more by (simp only: length_append_singleton) blast
    moreover have "\<forall>i. length waits \<le> i \<and> i < n \<longrightarrow> (\<exists>e. operation i = Inl e \<and> is_retryable e)"
      using run(5) e(1,2) by (metis Suc_leI le_neq_implies_less)
    ultimately show ?thesis unfolding unfold by (intro exI [of _ n] exI [of _ waits']) auto
  qed
qed

section \<open>Properties\<close>

text \<open>C23. The retry loop returns, whatever the operation does: unless the number of retries is the
  largest 32-bit number, it makes at most one call more than there are retries; every call but the last fails with an
  error that can be retried; the result is the outcome of the last call, which is a success, an error that
  cannot be retried, or the outcome of the last permitted attempt. Every pause is at least the one the error asks
  for, and at most a quarter longer than the largest of the configured delays and these hints.\<close>

theorem retry_returns:
  assumes "unat (rc_max_retries config) < 2 ^ 32 - 1" and "delays_within config operation B" and "rc_initial_delay_ms config \<le> B"
  shows "\<exists>n waits. execute config operation nanos = Some (operation n, waits) \<and> length waits = n \<and>
    n \<le> unat (rc_max_retries config) \<and>
    (\<forall>i < n. \<exists>e. operation i = Inl e \<and> is_retryable e) \<and>
    (\<forall>e. operation n = Inl e \<longrightarrow> is_retryable e \<longrightarrow> n = unat (rc_max_retries config)) \<and>
    (\<forall>i < n. \<forall>e. operation i = Inl e \<longrightarrow> (\<forall>h. retry_hint_ms e = Some h \<longrightarrow> h \<le> waits ! i) \<and>
       unat (waits ! i) \<le> unat B + unat B div 4)"
  using execute_loop_returns [of 0 "[]" config operation nanos "rc_initial_delay_ms config" B] assms
  by (auto simp: execute_def waits_ok_def)

definition flaky :: "nat \<Rightarrow> nat client_result" where
  "flaky i = (if i = 0 then Inl CE_ConnectionTimeout else if i = 1 then Inl (CE_RateLimited 5000) else Inr 7)"

theorem retry_returns_witness:
  "\<exists>n waits. execute default_retry_config flaky (\<lambda>_. 123) = Some (flaky n, waits) \<and> n \<le> 10 \<and> (\<forall>i < n. 1000 \<le> waits ! i)"
proof -
  have within: "delays_within default_retry_config flaky 30000"
    by (auto simp: delays_within_def default_retry_config_def flaky_def retry_hint_ms_def split: if_splits)
  have "unat (rc_max_retries default_retry_config) < 2 ^ 32 - 1" "rc_initial_delay_ms default_retry_config \<le> 30000"
    by (simp_all add: default_retry_config_def)
  from retry_returns [OF this(1) within this(2), of "\<lambda>_. 123"]
  obtain n waits where run: "execute default_retry_config flaky (\<lambda>_. 123) = Some (flaky n, waits)" "n \<le> 10"
    and failed: "\<forall>i < n. \<exists>e. flaky i = Inl e" 
    and hints: "\<forall>i < n. \<forall>e. flaky i = Inl e \<longrightarrow> (\<forall>h. retry_hint_ms e = Some h \<longrightarrow> h \<le> waits ! i)"
    unfolding default_retry_config_def by (clarsimp, metis)
  have "1000 \<le> waits ! i" if "i < n" for i
  proof -
    have "i = 0 \<or> i = 1" using failed that by (auto simp: flaky_def split: if_splits)
    then show ?thesis
    proof
      assume "i = 0"
      then show ?thesis using hints that by (auto simp: flaky_def retry_hint_ms_def)
    next
      assume "i = 1"
      then have "5000 \<le> waits ! i" using hints that by (auto simp: flaky_def retry_hint_ms_def)
      then show ?thesis by (rule order_trans [rotated]) simp
    qed
  qed
  with run show ?thesis by blast
qed

text \<open>A configuration without retries makes exactly one call.\<close>

lemma no_retry_one_call: "execute no_retry_config operation nanos = Some (operation 0, [])"
  by (simp add: execute_def no_retry_config_def execute_loop.simps split: sum.splits)

text \<open>A limiter configured with no requests per second panics when its queue is full.\<close>

lemma zero_rate_panics:
  "rl_queue_on_limit config \<Longrightarrow> rl_max_rps config = 0 \<Longrightarrow> rl_max_queue_depth config \<le> queue \<Longrightarrow>
     acquire_begin config False queue = Inl Panic"
  by (simp add: acquire_begin_def estimated_wait_ms_def)

end
