(* ===== verification/SignatureFeed.thy ===== *)
theory SignatureFeed
  imports ClientRpc
begin

text \<open>
  Walking the transactions of an address. The node answers a request for signatures, newest first,
  between two bounds; the walks of \<open>clients/rust/src/noop_shim_monitor.rs\<close>, \<open>monitor.rs\<close> and
  \<open>history.rs\<close> page through these answers. The node is a parameter; \<open>serves\<close> states the documented
  behaviour of \<open>getSignaturesForAddress\<close> for an address with a given ledger: at most \<open>limit\<close>
  signatures (between 1 and 1000), newest first, older than \<open>before\<close> and newer than \<open>until\<close>.
  A failing rate limiter is part of the failures of a request.
\<close>

type_synonym signature = bytes

text \<open>A signature arrives as text; \<open>None\<close> stands for one that does not parse.\<close>

record sig_info =
  si_signature :: "signature option"
  si_slot :: u64

type_synonym signature_page = "signature option \<Rightarrow> signature option \<Rightarrow> nat \<Rightarrow> sig_info list client_result"

section \<open>The loops\<close>

text \<open>One page of \<open>fetch_since\<close>: an event is parsed from every signature of the page.\<close>

fun parse_page :: "(sig_info \<Rightarrow> 'e option client_result) \<Rightarrow> 'e list \<Rightarrow> sig_info list \<Rightarrow> 'e list client_result" where
  "parse_page parse events [] = Inr events"
| "parse_page parse events (info # infos) =
     rbind (parse info) (\<lambda>r. parse_page parse (case r of Some event \<Rightarrow> events @ [event] | None \<Rightarrow> events) infos)"

partial_function (option) fetch_since_loop ::
  "signature_page \<Rightarrow> (sig_info \<Rightarrow> 'e option client_result) \<Rightarrow> signature option \<Rightarrow> nat \<Rightarrow> nat \<Rightarrow> 'e list \<Rightarrow> signature option \<Rightarrow>
   'e list client_result option" where
  "fetch_since_loop page parse after_signature batch_size limit events before_signature =
     (if length events < limit
      then case page before_signature after_signature (min batch_size (limit - length events)) of
          Inl e \<Rightarrow> Some (Inl e)
        | Inr signatures \<Rightarrow>
            if signatures = [] then Some (Inr (rev events))
            else (case parse_page parse events signatures of
                Inl e \<Rightarrow> Some (Inl e)
              | Inr events' \<Rightarrow>
                  fetch_since_loop page parse after_signature batch_size limit events' (si_signature (last signatures)))
      else Some (Inr (rev events)))"

definition fetch_since ::
  "signature_page \<Rightarrow> (sig_info \<Rightarrow> 'e option client_result) \<Rightarrow> nat \<Rightarrow> signature option \<Rightarrow> nat option \<Rightarrow> 'e list client_result option" where
  "fetch_since page parse batch_size after_signature limit =
     fetch_since_loop page parse after_signature batch_size (case limit of Some n \<Rightarrow> n | None \<Rightarrow> 2 ^ 64 - 1) [] None"

text \<open>
  \<open>poll_once\<close>. Its result is the new checkpoint, the events sent and whether it failed; the checkpoint moves before
  the page is processed. \<open>open\<close> tells whether the receiver still takes the next event.
\<close>

fun send_events ::
  "(nat \<Rightarrow> bool) \<Rightarrow> (signature \<Rightarrow> 'e option client_result) \<Rightarrow> 'e list \<Rightarrow> sig_info list \<Rightarrow> 'e list \<times> unit client_result" where
  "send_events open parse sent [] = (sent, Inr ())"
| "send_events open parse sent (info # infos) =
     (case si_signature info of
        None \<Rightarrow> send_events open parse sent infos
      | Some sig \<Rightarrow>
          (case parse sig of
             Inl e \<Rightarrow> (sent, Inl e)
           | Inr None \<Rightarrow> send_events open parse sent infos
           | Inr (Some event) \<Rightarrow>
               if open (length sent) then send_events open parse (sent @ [event]) infos else (sent, Inr ())))"

definition poll_once ::
  "signature_page \<Rightarrow> (signature \<Rightarrow> 'e option client_result) \<Rightarrow> (nat \<Rightarrow> bool) \<Rightarrow> nat \<Rightarrow> signature option \<Rightarrow>
   signature option \<times> 'e list \<times> unit client_result" where
  "poll_once page parse open batch_size after_signature =
     (case page None after_signature batch_size of
        Inl e \<Rightarrow> (after_signature, [], Inl e)
      | Inr [] \<Rightarrow> (after_signature, [], Inr ())
      | Inr (newest # older) \<Rightarrow>
          ((case si_signature newest of Some sig \<Rightarrow> Some sig | None \<Rightarrow> after_signature),
           send_events open parse [] (rev (newest # older))))"

text \<open>\<open>monitor_loop\<close>: one poll per tick, each against the node as it is then, until the monitor is stopped.\<close>

fun monitor_loop ::
  "signature_page list \<Rightarrow> (signature \<Rightarrow> 'e option client_result) \<Rightarrow> nat \<Rightarrow> signature option \<Rightarrow> signature option \<times> 'e list" where
  "monitor_loop [] parse batch_size after_signature = (after_signature, [])"
| "monitor_loop (page # pages) parse batch_size after_signature =
     (case poll_once page parse (\<lambda>_. True) batch_size after_signature of (after', sent, _) \<Rightarrow>
      case monitor_loop pages parse batch_size after' of (final, rest) \<Rightarrow> (final, sent @ rest))"

text \<open>\<open>collect_all_signatures\<close> of \<open>history.rs\<close>.\<close>

fun push_signatures :: "signature list \<times> signature option \<Rightarrow> sig_info list \<Rightarrow> signature list \<times> signature option" where
  "push_signatures acc [] = acc"
| "push_signatures (all_signatures, before_sig) (info # infos) =
     (case si_signature info of
        Some sig \<Rightarrow> push_signatures (all_signatures @ [sig], Some sig) infos
      | None \<Rightarrow> push_signatures (all_signatures, before_sig) infos)"

partial_function (option) collect_loop ::
  "signature_page \<Rightarrow> signature option \<Rightarrow> nat \<Rightarrow> signature list \<times> signature option \<Rightarrow> signature list client_result option" where
  "collect_loop page after_signature batch_size acc =
     (case page (snd acc) after_signature batch_size of
        Inl e \<Rightarrow> Some (Inl e)
      | Inr signatures \<Rightarrow>
          if signatures = [] then Some (Inr (fst acc))
          else collect_loop page after_signature batch_size (push_signatures acc signatures))"

definition collect_all_signatures :: "signature_page \<Rightarrow> signature option \<Rightarrow> nat \<Rightarrow> signature list client_result option" where
  "collect_all_signatures page after_signature batch_size = collect_loop page after_signature batch_size ([], None)"

section \<open>A node that serves a ledger\<close>

definition older_than :: "signature option \<Rightarrow> sig_info list \<Rightarrow> sig_info list" where
  "older_than before ledger =
     (case before of None \<Rightarrow> ledger | Some s \<Rightarrow> tl (dropWhile (\<lambda>i. si_signature i \<noteq> Some s) ledger))"

definition newer_than :: "signature option \<Rightarrow> sig_info list \<Rightarrow> sig_info list" where
  "newer_than until ledger = (case until of None \<Rightarrow> ledger | Some s \<Rightarrow> takeWhile (\<lambda>i. si_signature i \<noteq> Some s) ledger)"

definition serves :: "sig_info list \<Rightarrow> signature_page \<Rightarrow> bool" where
  "serves ledger page \<longleftrightarrow> (\<forall>before until limit. 1 \<le> limit \<and> limit \<le> 1000 \<and> (\<forall>s. before = Some s \<longrightarrow> Some s \<in> si_signature ` set ledger) \<longrightarrow>
     page before until limit = Inr (take limit (newer_than until (older_than before ledger))))"

text \<open>Every signature of a ledger is a signature, and none occurs twice.\<close>

definition ledger_ok :: "sig_info list \<Rightarrow> bool" where
  "ledger_ok ledger \<longleftrightarrow> distinct (map si_signature ledger) \<and> None \<notin> si_signature ` set ledger"

definition sample_page :: "sig_info list \<Rightarrow> signature_page" where
  "sample_page ledger before until limit = Inr (take limit (newer_than until (older_than before ledger)))"

lemma sample_page_serves: "serves ledger (sample_page ledger)"
  by (simp add: serves_def sample_page_def)

text \<open>What is left after the first \<open>k\<close> new entries, seen from the last of them.\<close>

lemma older_than_last:
  assumes "ledger_ok ledger" and "ledger = xs @ x # ys"
  shows "older_than (si_signature x) ledger = ys"
proof -
  obtain s where s: "si_signature x = Some s" using assms by (cases "si_signature x") (auto simp: ledger_ok_def)
  have "\<forall>i \<in> set xs. si_signature i \<noteq> Some s" using assms s by (force simp: ledger_ok_def)
  then have "dropWhile (\<lambda>i. si_signature i \<noteq> Some s) ledger = x # ys"
    using assms(2) s by (simp add: dropWhile_append2)
  then show ?thesis by (simp add: older_than_def s)
qed

lemma newer_than_suffix:
  assumes "ledger_ok (xs @ ys)" and "newer_than until (xs @ ys) = xs @ zs"
  shows "newer_than until ys = zs"
proof (cases until)
  case None
  with assms(2) show ?thesis by (simp add: newer_than_def)
next
  case (Some s)
  have "\<forall>x \<in> set xs. si_signature x \<noteq> Some s"
  proof
    fix x assume "x \<in> set xs"
    then have "x \<in> set (takeWhile (\<lambda>i. si_signature i \<noteq> Some s) (xs @ ys))" using assms(2) Some by (simp add: newer_than_def)
    then show "si_signature x \<noteq> Some s" by (blast dest: set_takeWhileD)
  qed
  then show ?thesis using assms(2) Some by (simp add: newer_than_def)
qed

lemma newer_than_prefix: "\<exists>rest. ledger = newer_than until ledger @ rest"
  by (cases until) (simp_all add: newer_than_def, metis takeWhile_dropWhile_id)

text \<open>A page taken where an earlier walk of \<open>seen\<close> entries stopped.\<close>

definition cursor_of :: "sig_info list \<Rightarrow> signature option" where
  "cursor_of seen = (if seen = [] then None else si_signature (last seen))"

lemma page_after:
  assumes "serves ledger page" and "ledger_ok ledger" and "newer_than until ledger = seen @ rest" and "1 \<le> limit" and "limit \<le> 1000"
  shows "page (cursor_of seen) until limit = Inr (take limit rest)"
proof -
  obtain tail where tail: "ledger = seen @ rest @ tail"
    using newer_than_prefix [of ledger until] assms(3) by auto
  have old: "older_than (cursor_of seen) ledger = rest @ tail"
  proof (cases seen rule: rev_cases)
    case Nil
    then show ?thesis using tail by (simp add: cursor_of_def older_than_def)
  next
    case (snoc xs x)
    then show ?thesis using older_than_last [OF assms(2), of xs x "rest @ tail"] tail by (simp add: cursor_of_def)
  qed
  have new: "newer_than until (rest @ tail) = rest"
    using newer_than_suffix [of seen "rest @ tail" until rest] assms(2,3) tail by simp
  have "\<forall>s. cursor_of seen = Some s \<longrightarrow> Some s \<in> si_signature ` set ledger"
    using tail by (auto simp: cursor_of_def split: if_splits) (metis Un_iff imageI last_in_set)
  then show ?thesis using assms(1,4,5) old new unfolding serves_def by metis
qed

section \<open>Fetching everything since a checkpoint\<close>

lemma map_filter_append [simp]: "List.map_filter f (xs @ ys) = List.map_filter f xs @ List.map_filter f ys"
  by (simp add: List.map_filter_def)

lemma length_map_filter_le: "length (List.map_filter f xs) \<le> length xs"
  by (simp add: List.map_filter_def)

lemma parse_page_ok:
  "\<forall>i \<in> set infos. parse i = Inr (event i) \<Longrightarrow> parse_page parse events infos = Inr (events @ List.map_filter event infos)"
  by (induction infos arbitrary: events) (auto simp: map_filter_simps split: option.split)

lemma fetch_since_loop_ok:
  assumes "serves ledger page" and "ledger_ok ledger" and "1 \<le> batch" and "batch \<le> 1000"
    and "newer_than after ledger = seen @ rest" and "\<forall>i \<in> set (newer_than after ledger). parse i = Inr (event i)"
    and "length (List.map_filter event seen) \<le> limit"
  shows "fetch_since_loop page parse after batch limit (List.map_filter event seen) (cursor_of seen) =
    Some (Inr (rev (take limit (List.map_filter event (newer_than after ledger)))))"
  using assms(5,7)
proof (induction "length rest" arbitrary: seen rest rule: less_induct)
  case less
  let ?events = "List.map_filter event seen"
  show ?case
  proof (cases "length ?events < limit")
    case False
    then show ?thesis using less.prems by (subst fetch_since_loop.simps) simp
  next
    case True
    define k where "k = min batch (limit - length ?events)"
    have k: "1 \<le> k" "k \<le> 1000" "k \<le> limit - length ?events" using True assms(3,4) by (simp_all add: k_def)
    have pg: "page (cursor_of seen) after k = Inr (take k rest)"
      by (rule page_after [OF assms(1,2) less.prems(1) k(1,2)])
    show ?thesis
    proof (cases "rest = []")
      case True
      then show ?thesis using pg less.prems \<open>length ?events < limit\<close> by (subst fetch_since_loop.simps) (simp add: k_def)
    next
      case False
      have ne: "take k rest \<noteq> []" using False k(1) by (cases rest) auto
      have "parse_page parse ?events (take k rest) = Inr (List.map_filter event (seen @ take k rest))"
        using assms(6) less.prems(1) by (subst parse_page_ok [where event = event]) (auto dest: in_set_takeD)
      moreover have "si_signature (last (take k rest)) = cursor_of (seen @ take k rest)" using ne by (simp add: cursor_of_def)
      ultimately have unfold: "fetch_since_loop page parse after batch limit ?events (cursor_of seen) =
          fetch_since_loop page parse after batch limit (List.map_filter event (seen @ take k rest)) (cursor_of (seen @ take k rest))"
        using True ne pg by (subst fetch_since_loop.simps) (simp add: k_def [symmetric])
      have shorter: "length (drop k rest) < length rest" using False k(1) by simp
      have split: "newer_than after ledger = (seen @ take k rest) @ drop k rest" using less.prems(1) by simp
      have "length (List.map_filter event (seen @ take k rest)) \<le> limit"
        using length_map_filter_le [of event "take k rest"] k(3) True by simp linarith
      then show ?thesis unfolding unfold by (rule less.hyps [OF shorter split])
    qed
  qed
qed

lemma fetch_since_ok:
  assumes "serves ledger page" and "ledger_ok ledger" and "1 \<le> batch" and "batch \<le> 1000"
    and "\<forall>i \<in> set (newer_than after ledger). parse i = Inr (event i)"
  shows "fetch_since page parse batch after limit =
    Some (Inr (rev (take (case limit of Some n \<Rightarrow> n | None \<Rightarrow> 2 ^ 64 - 1) (List.map_filter event (newer_than after ledger)))))"
  using fetch_since_loop_ok [OF assms(1-4), of after "[]" "newer_than after ledger" parse event] assms(5)
  by (simp add: fetch_since_def cursor_of_def map_filter_simps)

section \<open>Polling\<close>

lemma send_events_ok:
  assumes "\<forall>i \<in> set infos. \<exists>s. si_signature i = Some s \<and> parse s = Inr (event i)"
  shows "send_events (\<lambda>_. True) parse sent infos = (sent @ List.map_filter event infos, Inr ())"
  using assms by (induction infos arbitrary: sent) (auto simp: map_filter_simps split: option.split)

definition checkpoint_after :: "signature option \<Rightarrow> sig_info list \<Rightarrow> signature option" where
  "checkpoint_after after new = (case new of [] \<Rightarrow> after | newest # _ \<Rightarrow> si_signature newest)"

lemma poll_once_ok:
  assumes "serves ledger page" and "ledger_ok ledger" and "1 \<le> batch" and "batch \<le> 1000"
    and "\<forall>i \<in> set ledger. \<exists>s. si_signature i = Some s \<and> parse s = Inr (event i)"
  shows "poll_once page parse (\<lambda>_. True) batch after =
    (checkpoint_after after (newer_than after ledger), List.map_filter event (rev (take batch (newer_than after ledger))), Inr ())"
proof -
  let ?new = "newer_than after ledger"
  have pg: "page None after batch = Inr (take batch ?new)"
    using page_after [OF assms(1,2), of after "[]" ?new batch] assms(3,4) by (simp add: cursor_of_def)
  have "set ?new \<subseteq> set ledger" by (cases after) (auto simp: newer_than_def dest: set_takeWhileD)
  then have parsed: "\<forall>i \<in> set (rev (take batch ?new)). \<exists>s. si_signature i = Some s \<and> parse s = Inr (event i)"
    using assms(5) by (auto dest: in_set_takeD)
  show ?thesis
  proof (cases ?new)
    case Nil
    then show ?thesis using pg by (simp add: poll_once_def checkpoint_after_def map_filter_simps)
  next
    case (Cons newest older)
    obtain b where b: "batch = Suc b" using assms(3) by (cases batch) auto
    obtain s where "si_signature newest = Some s" using parsed Cons b by auto
    then show ?thesis
      using pg send_events_ok [OF parsed, of "[]"] Cons b by (simp add: poll_once_def checkpoint_after_def)
  qed
qed

text \<open>The ledger as it grows: before each poll the transactions of \<open>news\<close> arrive, newest first.\<close>

fun grow :: "sig_info list \<Rightarrow> sig_info list list \<Rightarrow> sig_info list list" where
  "grow ledger [] = []"
| "grow ledger (new # news) = (new @ ledger) # grow (new @ ledger) news"

lemma newer_than_head:
  assumes "ledger_ok (new @ ledger)" and "after = si_signature (hd ledger)" and "ledger \<noteq> []"
  shows "newer_than after (new @ ledger) = new"
proof -
  obtain x xs where l: "ledger = x # xs" using assms(3) by (cases ledger) auto
  then obtain s where s: "si_signature x = Some s" using assms(1) by (cases "si_signature x") (auto simp: ledger_ok_def)
  have "\<forall>i \<in> set new. si_signature i \<noteq> Some s" using assms(1) l s by (force simp: ledger_ok_def)
  then show ?thesis using assms(2) l s by (simp add: newer_than_def takeWhile_append2)
qed

lemma monitor_loop_ok:
  assumes "list_all2 serves (grow ledger news) pages" and "\<forall>l \<in> set (grow ledger news). ledger_ok l"
    and "1 \<le> batch" and "batch \<le> 1000" and "\<forall>new \<in> set news. length new \<le> batch"
    and "\<forall>l \<in> set (grow ledger news). \<forall>i \<in> set l. \<exists>s. si_signature i = Some s \<and> parse s = Inr (event i)"
    and "ledger \<noteq> []"
  shows "snd (monitor_loop pages parse batch (si_signature (hd ledger))) = List.map_filter event (concat (map rev news))"
  using assms(1,2,5,6,7)
proof (induction news arbitrary: ledger pages)
  case Nil
  then show ?case by (simp add: map_filter_simps)
next
  case (Cons new news)
  then obtain page pages' where pages: "pages = page # pages'" "serves (new @ ledger) page"
    "list_all2 serves (grow (new @ ledger) news) pages'" by (auto simp: list_all2_Cons1)
  have new: "newer_than (si_signature (hd ledger)) (new @ ledger) = new"
    using newer_than_head Cons.prems by simp
  have check: "checkpoint_after (si_signature (hd ledger)) new = si_signature (hd (new @ ledger))"
    by (simp add: checkpoint_after_def split: list.split)
  have "poll_once page parse (\<lambda>_. True) batch (si_signature (hd ledger)) =
      (si_signature (hd (new @ ledger)), List.map_filter event (rev new), Inr ())"
    using poll_once_ok [OF pages(2) _ assms(3,4), of parse event "si_signature (hd ledger)"] Cons.prems new check by simp
  moreover have "snd (monitor_loop pages' parse batch (si_signature (hd (new @ ledger)))) = List.map_filter event (concat (map rev news))"
    using Cons.IH [OF pages(3)] Cons.prems by simp
  ultimately show ?case by (simp add: pages(1) case_prod_unfold)
qed

section \<open>Collecting all signatures\<close>

lemma push_signatures_ok:
  assumes "\<forall>i \<in> set infos. si_signature i \<noteq> None" and "infos \<noteq> []"
  shows "push_signatures acc infos = (fst acc @ map (the \<circ> si_signature) infos, si_signature (last infos))"
  using assms
proof (induction infos arbitrary: acc)
  case Nil
  then show ?case by simp
next
  case (Cons i infos)
  then obtain s where "si_signature i = Some s" by auto
  with Cons show ?case by (cases acc; cases "infos = []") auto
qed

lemma collect_loop_ok:
  assumes "serves ledger page" and "ledger_ok ledger" and "1 \<le> batch" and "batch \<le> 1000"
    and "newer_than after ledger = seen @ rest"
  shows "collect_loop page after batch (map (the \<circ> si_signature) seen, cursor_of seen) =
    Some (Inr (map (the \<circ> si_signature) (newer_than after ledger)))"
  using assms(5)
proof (induction "length rest" arbitrary: seen rest rule: less_induct)
  case less
  have pg: "page (cursor_of seen) after batch = Inr (take batch rest)"
    by (rule page_after [OF assms(1,2) less.prems assms(3,4)])
  show ?case
  proof (cases "rest = []")
    case True
    then show ?thesis using pg less.prems by (subst collect_loop.simps) simp
  next
    case False
    have ne: "take batch rest \<noteq> []" using False assms(3) by (cases rest) auto
    have "set (newer_than after ledger) \<subseteq> set ledger" by (cases after) (auto simp: newer_than_def dest: set_takeWhileD)
    then have some: "\<forall>i \<in> set (take batch rest). si_signature i \<noteq> None"
      using assms(2) less.prems by (force simp: ledger_ok_def dest: in_set_takeD)
    have "collect_loop page after batch (map (the \<circ> si_signature) seen, cursor_of seen) =
        collect_loop page after batch (map (the \<circ> si_signature) (seen @ take batch rest), cursor_of (seen @ take batch rest))"
      using pg ne by (subst collect_loop.simps) (simp add: push_signatures_ok [OF some ne] cursor_of_def)
    also have "\<dots> = Some (Inr (map (the \<circ> si_signature) (newer_than after ledger)))"
      using less.hyps [of "drop batch rest" "seen @ take batch rest"] False assms(3) less.prems by simp
    finally show ?thesis .
  qed
qed

lemma collect_all_ok:
  assumes "serves ledger page" and "ledger_ok ledger" and "1 \<le> batch" and "batch \<le> 1000"
  shows "collect_all_signatures page after batch = Some (Inr (map (the \<circ> si_signature) (newer_than after ledger)))"
  using collect_loop_ok [OF assms, of after "[]" "newer_than after ledger"] by (simp add: collect_all_signatures_def cursor_of_def)

end
