(* ===== verification/ShimMonitor.thy ===== *)
theory ShimMonitor
  imports SignatureFeed BridgeProgram
begin

text \<open>
  The way of a withdrawal to the party that signs it: the message program \<open>programs/noop-shim\<close>, to which the
  bridge sends the Dogecoin transaction, and the client that reads these messages back from the chain
  (\<open>clients/rust/src/noop_shim_monitor.rs\<close>). Transactions come from a node, a parameter;
  decoding of base64, base58 and bincode and the check of ed25519 signatures are code outside the
  sources: a transaction is given decoded (\<open>None\<close> when the decoding fails), with the bytes its signers
  signed. \<open>ct_failed\<close> is the status the node reports with it.
\<close>

section \<open>Transactions as the node returns them\<close>

record compiled_instruction =
  ci_program_id_index :: u8
  ci_accounts :: "u8 list"
  ci_data :: bytes

datatype inner_instruction = InnerCompiled u8 "u8 list" "bytes option" | InnerParsed

record versioned_transaction =
  vt_signatures :: "signature list"
  vt_num_required_signatures :: u8
  vt_message_bytes :: bytes
  vt_static_keys :: "pubkey list"
  vt_instructions :: "compiled_instruction list"

datatype encoded_transaction = BinaryTx "versioned_transaction option" | OtherEncoding

record confirmed_transaction =
  ct_slot :: u64
  ct_block_time :: "int option"
  ct_transaction :: encoded_transaction
  ct_inner :: "inner_instruction list list"
  ct_failed :: bool

type_synonym transaction_source = "signature \<Rightarrow> confirmed_transaction client_result"

text \<open>The key that an instruction names by an index into its accounts, if both indices are in range.\<close>

definition key_at :: "pubkey list \<Rightarrow> u8 list \<Rightarrow> nat \<Rightarrow> pubkey option" where
  "key_at keys accounts i =
     (if i < length accounts \<and> unat (accounts ! i) < length keys then Some (keys ! unat (accounts ! i)) else None)"

section \<open>The message program\<close>

definition noop_shim_process :: "runtime \<Rightarrow> pubkey \<Rightarrow> AccountInfo list \<Rightarrow> bytes \<Rightarrow> unit ProgramResult" where
  "noop_shim_process rt doge_bridge_program_id accounts instruction_data =
     (case accounts of bridge_config # message # emitter # sequence # payer # others \<Rightarrow>
        if \<not> ai_is_signer emitter then Inl (Err MissingRequiredSignature)
        else if \<not> ai_is_signer payer then Inl (Err MissingRequiredSignature)
        else if ai_key emitter \<noteq> fst (rt_find_program_address rt [bridge_state_seed] doge_bridge_program_id)
        then Inl (Err InvalidAccountData)
        else Inr ()
      | _ \<Rightarrow> Inl (Err NotEnoughAccountKeys))"

section \<open>Reading a message\<close>

record NoopShimWithdrawalMessage =
  nm_signature :: signature
  nm_slot :: u64
  nm_block_time :: "int option"
  nm_nonce :: u32
  nm_consistency_level :: u8
  nm_sighash :: bytes
  nm_doge_tx_bytes :: bytes
  nm_emitter :: pubkey
  nm_payer :: pubkey

record NoopShimMonitorConfig =
  nc_noop_shim_program_id :: pubkey
  nc_bridge_state_pda :: pubkey
  nc_batch_size :: nat

text \<open>The loop over the required signatures: \<open>None\<close> when one is missing.\<close>

fun verify_signatures ::
  "(pubkey \<Rightarrow> bytes \<Rightarrow> signature \<Rightarrow> bool) \<Rightarrow> versioned_transaction \<Rightarrow> nat list \<Rightarrow> unit option client_result" where
  "verify_signatures verify tx [] = Inr (Some ())"
| "verify_signatures verify tx (i # is) =
     (if i \<ge> length (vt_signatures tx) \<or> i \<ge> length (vt_static_keys tx) then Inr None
      else if \<not> verify (vt_static_keys tx ! i) (vt_message_bytes tx) (vt_signatures tx ! i)
      then Inl (CE_InvalidInput ''Invalid signature'')
      else verify_signatures verify tx is)"

definition parse_message_data :: "bytes \<Rightarrow> (u32 \<times> u8 \<times> bytes \<times> bytes) option" where
  "parse_message_data instr_data =
     (if length instr_data < 17 then None
      else if bslice instr_data 0 8 \<noteq> WORMHOLE_VAA_DISCRIMINATOR then None
      else let nonce = from_le_bytes (bslice instr_data 8 12); consistency_level = instr_data ! 12;
               payload_len = unat (from_le_bytes (bslice instr_data 13 17) :: u32)
      in if length instr_data < 17 + payload_len then None
      else let payload = bslice instr_data 17 (17 + payload_len)
      in if length payload < 32 then None
      else Some (nonce, consistency_level, bslice payload 0 32, drop 32 payload))"

definition parse_inner_instruction ::
  "NoopShimMonitorConfig \<Rightarrow> signature \<Rightarrow> confirmed_transaction \<Rightarrow> pubkey list \<Rightarrow> inner_instruction \<Rightarrow> NoopShimWithdrawalMessage option" where
  "parse_inner_instruction config sig tx account_keys ui_ix =
     (case ui_ix of
        InnerCompiled program_id_index accounts (Some data) \<Rightarrow>
          if unat program_id_index \<ge> length account_keys then None
          else if account_keys ! unat program_id_index \<noteq> nc_noop_shim_program_id config then None
          else (case parse_message_data data of
              None \<Rightarrow> None
            | Some (nonce, consistency_level, sighash, doge_tx_bytes) \<Rightarrow>
                (case key_at account_keys accounts 2 of
                   None \<Rightarrow> None
                 | Some emitter \<Rightarrow> Some
                     \<lparr> nm_signature = sig, nm_slot = ct_slot tx, nm_block_time = ct_block_time tx, nm_nonce = nonce,
                       nm_consistency_level = consistency_level, nm_sighash = sighash, nm_doge_tx_bytes = doge_tx_bytes,
                       nm_emitter = emitter,
                       nm_payer = (case key_at account_keys accounts 4 of Some payer \<Rightarrow> payer | None \<Rightarrow> zero32) \<rparr>))
      | _ \<Rightarrow> None)"

fun first_message ::
  "NoopShimMonitorConfig \<Rightarrow> signature \<Rightarrow> confirmed_transaction \<Rightarrow> pubkey list \<Rightarrow> inner_instruction list \<Rightarrow>
   NoopShimWithdrawalMessage option" where
  "first_message config sig tx account_keys [] = None"
| "first_message config sig tx account_keys (ui_ix # rest) =
     (case parse_inner_instruction config sig tx account_keys ui_ix of
        Some msg \<Rightarrow> Some msg
      | None \<Rightarrow> first_message config sig tx account_keys rest)"

definition shim_parse_transaction ::
  "transaction_source \<Rightarrow> (pubkey \<Rightarrow> bytes \<Rightarrow> signature \<Rightarrow> bool) \<Rightarrow> NoopShimMonitorConfig \<Rightarrow> signature \<Rightarrow>
   NoopShimWithdrawalMessage option client_result" where
  "shim_parse_transaction source verify config sig =
     rbind (source sig) (\<lambda>tx.
     case ct_transaction tx of
       OtherEncoding \<Rightarrow> Inr None
     | BinaryTx None \<Rightarrow> Inl (CE_InvalidInput ''Failed to decode tx'')
     | BinaryTx (Some transaction) \<Rightarrow>
         rbind (verify_signatures verify transaction [0..<unat (vt_num_required_signatures transaction)]) (\<lambda>verified.
         case verified of
           None \<Rightarrow> Inr None
         | Some _ \<Rightarrow> Inr (first_message config sig tx (vt_static_keys transaction) (concat (ct_inner tx)))))"

text \<open>Only messages of the expected emitter are kept.\<close>

definition shim_event ::
  "transaction_source \<Rightarrow> (pubkey \<Rightarrow> bytes \<Rightarrow> signature \<Rightarrow> bool) \<Rightarrow> NoopShimMonitorConfig \<Rightarrow> signature \<Rightarrow>
   NoopShimWithdrawalMessage option client_result" where
  "shim_event source verify config sig =
     rbind (shim_parse_transaction source verify config sig) (\<lambda>r.
     Inr (case r of Some msg \<Rightarrow> (if nm_emitter msg = nc_bridge_state_pda config then Some msg else None) | None \<Rightarrow> None))"

definition shim_event_of ::
  "transaction_source \<Rightarrow> (pubkey \<Rightarrow> bytes \<Rightarrow> signature \<Rightarrow> bool) \<Rightarrow> NoopShimMonitorConfig \<Rightarrow> sig_info \<Rightarrow>
   NoopShimWithdrawalMessage option client_result" where
  "shim_event_of source verify config info =
     (case si_signature info of Some sig \<Rightarrow> shim_event source verify config sig | None \<Rightarrow> Inr None)"

record WithdrawalPage =
  wp_messages :: "NoopShimWithdrawalMessage list"
  wp_next_cursor :: "signature option"
  wp_has_more :: bool

fun last_signature :: "sig_info list \<Rightarrow> signature option \<Rightarrow> signature option" where
  "last_signature [] last_sig = last_sig"
| "last_signature (info # infos) last_sig =
     last_signature infos (case si_signature info of Some sig \<Rightarrow> Some sig | None \<Rightarrow> last_sig)"

definition get_withdrawals ::
  "signature_page \<Rightarrow> transaction_source \<Rightarrow> (pubkey \<Rightarrow> bytes \<Rightarrow> signature \<Rightarrow> bool) \<Rightarrow> NoopShimMonitorConfig \<Rightarrow> signature option \<Rightarrow>
   nat \<Rightarrow> WithdrawalPage client_result" where
  "get_withdrawals page source verify config before limit =
     rbind (page before None (limit + 1)) (\<lambda>signatures.
     let has_more = length signatures > limit; signatures_to_process = take limit signatures
     in rbind (parse_page (shim_event_of source verify config) [] signatures_to_process) (\<lambda>messages.
     Inr \<lparr> wp_messages = messages,
           wp_next_cursor = (if has_more then last_signature signatures_to_process None else None),
           wp_has_more = has_more \<rparr>))"

definition shim_fetch_since ::
  "signature_page \<Rightarrow> transaction_source \<Rightarrow> (pubkey \<Rightarrow> bytes \<Rightarrow> signature \<Rightarrow> bool) \<Rightarrow> NoopShimMonitorConfig \<Rightarrow> signature option \<Rightarrow>
   nat option \<Rightarrow> NoopShimWithdrawalMessage list client_result option" where
  "shim_fetch_since page source verify config after_signature limit =
     fetch_since page (shim_event_of source verify config) (nc_batch_size config) after_signature limit"

definition shim_poll_once ::
  "signature_page \<Rightarrow> transaction_source \<Rightarrow> (pubkey \<Rightarrow> bytes \<Rightarrow> signature \<Rightarrow> bool) \<Rightarrow> NoopShimMonitorConfig \<Rightarrow> (nat \<Rightarrow> bool) \<Rightarrow>
   signature option \<Rightarrow> signature option \<times> NoopShimWithdrawalMessage list \<times> unit client_result" where
  "shim_poll_once page source verify config open after_signature =
     poll_once page (shim_event source verify config) open (nc_batch_size config) after_signature"

section \<open>The message of a withdrawal is read back\<close>

text \<open>How an instruction is recorded in a transaction: by the indices of its program and accounts among the keys.\<close>

definition compiles :: "pubkey list \<Rightarrow> Instruction \<Rightarrow> u8 \<Rightarrow> u8 list \<Rightarrow> bool" where
  "compiles keys ix program_index accounts \<longleftrightarrow>
     unat program_index < length keys \<and> keys ! unat program_index = ix_program_id ix \<and>
     map (\<lambda>j. if unat j < length keys then Some (keys ! unat j) else None) accounts = map (Some \<circ> am_pubkey) (ix_accounts ix)"

lemma key_at_compiled:
  assumes "compiles keys ix p accounts" and "i < length (ix_accounts ix)"
  shows "key_at keys accounts i = Some (am_pubkey (ix_accounts ix ! i))"
proof -
  let ?key = "\<lambda>j. if unat j < length keys then Some (keys ! unat j) else None"
  have eq: "map ?key accounts = map (Some \<circ> am_pubkey) (ix_accounts ix)" using assms(1) by (simp add: compiles_def)
  then have len: "length accounts = length (ix_accounts ix)" by (rule map_eq_imp_length_eq)
  have "map ?key accounts ! i = Some (am_pubkey (ix_accounts ix ! i))" unfolding eq using assms(2) by simp
  then show ?thesis using len assms(2) by (simp add: key_at_def split: if_splits)
qed

lemma parse_message_ok:
  fixes nonce :: u32
  assumes "length sighash = 32" and "32 + length tx < 2 ^ 32"
  shows "parse_message_data (WORMHOLE_VAA_DISCRIMINATOR @ to_le_bytes nonce @ [level] @ to_le_bytes (of_nat (32 + length tx) :: u32) @
    sighash @ tx) = Some (nonce, level, sighash, tx)"
proof -
  define len where "len = (of_nat (32 + length tx) :: u32)"
  have "unat len = (32 + length tx) mod 2 ^ 32" unfolding len_def by (simp only: unat_of_nat) simp
  then have len: "unat len = 32 + length tx" using assms(2) by simp
  let ?data = "WORMHOLE_VAA_DISCRIMINATOR @ to_le_bytes nonce @ [level] @ to_le_bytes len @ sighash @ tx"
  have disc: "length WORMHOLE_VAA_DISCRIMINATOR = 8" by (simp add: WORMHOLE_VAA_DISCRIMINATOR_def)
  have parts: "bslice ?data 0 8 = WORMHOLE_VAA_DISCRIMINATOR" "bslice ?data 8 12 = to_le_bytes nonce" "?data ! 12 = level"
    "bslice ?data 13 17 = to_le_bytes len" "bslice ?data 17 (17 + (32 + length tx)) = sighash @ tx"
    using disc assms(1) by (simp_all add: bslice_def nth_append)
  have "parse_message_data ?data = Some (nonce, level, sighash, tx)"
    unfolding parse_message_data_def Let_def parts from_to_le_bytes_sized len using disc assms(1) by (simp add: bslice_def)
  then show ?thesis by (simp only: len_def)
qed

lemma withdrawal_posts:
  assumes "process_process_withdrawal e pid accounts p = Inr (accounts', [PostMessage ix])"
  obtains a buf shim cfg msg sq payer fc clock sys core ev others
  where "accounts = a # buf # shim # cfg # msg # sq # payer # fc # clock # sys # core # ev # others"
    and "ai_key a = bridge_state_address (env_rt e) pid"
    and "ix = wormhole_vaa_instruction (ucast (pw_new_next_processed_withdrawals_index p)) (ai_key shim) (ai_key cfg) (ai_key msg)
      (ai_key a) (ai_key sq) (ai_key payer) (ai_key fc) (ai_key clock) (ai_key sys) (ai_key core) (ai_key ev)
      (env_sha e (drop 32 (ai_data buf))) (drop 32 (ai_data buf))"
proof (rule withdrawal_ok [OF assms])
  fix a buf shim cfg msg sq payer fc clock sys core ev others st s sighash
  assume accs: "accounts = a # buf # shim # cfg # msg # sq # payer # fc # clock # sys # core # ev # others"
    "ai_key a = bridge_state_address (env_rt e) pid"
    and run: "run_process_bridge_withdrawal (env_sha e) (env_zkv e) (core_state st) (pw_proof p) (WITHDRAWAL_VK (env_mock_zkp e))
      (drop 32 (ai_data buf)) (pw_new_return_output p) (pw_new_spent_txo_tree_root p)
      (pw_new_next_processed_withdrawals_index p) = Inr (s, sighash)"
    and post: "send_wormhole_vaa e accounts (wormhole_vaa_instruction (ucast (bs_next_processed_withdrawals_index s)) (ai_key shim)
      (ai_key cfg) (ai_key msg) (ai_key a) (ai_key sq) (ai_key payer) (ai_key fc) (ai_key clock) (ai_key sys)
      (ai_key core) (ai_key ev) sighash (drop 32 (ai_data buf))) = Inr [PostMessage ix]"
  have "sighash = env_sha e (drop 32 (ai_data buf))"
    "bs_next_processed_withdrawals_index s = pw_new_next_processed_withdrawals_index p"
    using run by (auto simp: run_process_bridge_withdrawal_def Let_def hash_impl_sha256_bytes_def update_for_withdrawal_def split: if_splits)
  with post that [OF accs] show thesis by (auto simp: send_wormhole_vaa_def result_simps split: if_splits)
qed

definition signed_by_all :: "(pubkey \<Rightarrow> bytes \<Rightarrow> signature \<Rightarrow> bool) \<Rightarrow> versioned_transaction \<Rightarrow> bool" where
  "signed_by_all verify tx \<longleftrightarrow> (\<forall>i < unat (vt_num_required_signatures tx). i < length (vt_signatures tx) \<and> i < length (vt_static_keys tx) \<and>
     verify (vt_static_keys tx ! i) (vt_message_bytes tx) (vt_signatures tx ! i))"

lemma verify_signatures_iff:
  "verify_signatures verify tx is = Inr (Some ()) \<longleftrightarrow> (\<forall>i \<in> set is. i < length (vt_signatures tx) \<and> i < length (vt_static_keys tx) \<and>
     verify (vt_static_keys tx ! i) (vt_message_bytes tx) (vt_signatures tx ! i))"
  by (induction "is") auto

lemma signed_verified: "verify_signatures verify tx [0..<unat (vt_num_required_signatures tx)] = Inr (Some ()) \<longleftrightarrow> signed_by_all verify tx"
  by (auto simp: verify_signatures_iff signed_by_all_def)

lemma first_message_skips:
  "\<forall>i \<in> set pre. parse_inner_instruction config sig tx keys i = None \<Longrightarrow>
     first_message config sig tx keys (pre @ post) = first_message config sig tx keys post"
  by (induction pre) auto

lemma message_instruction_parsed:
  assumes "compiles keys ix pidx accs"
    and "ix = wormhole_vaa_instruction nonce (nc_noop_shim_program_id config) cfg msg emitter sq payer fc clock sys core ev sighash doge_tx"
    and "length sighash = 32" and "32 + length doge_tx < 2 ^ 32"
  shows "parse_inner_instruction config sig tx keys (InnerCompiled pidx accs (Some (ix_data ix))) = Some
    \<lparr> nm_signature = sig, nm_slot = ct_slot tx, nm_block_time = ct_block_time tx, nm_nonce = nonce, nm_consistency_level = 1,
      nm_sighash = sighash, nm_doge_tx_bytes = doge_tx, nm_emitter = emitter, nm_payer = payer \<rparr>"
proof -
  have "parse_message_data (ix_data ix) = Some (nonce, 1, sighash, doge_tx)"
    using parse_message_ok [OF assms(3,4)] assms(2,3) by (simp add: wormhole_vaa_instruction_def Let_def)
  moreover have "key_at keys accs 2 = Some emitter" "key_at keys accs 4 = Some payer"
    using key_at_compiled [OF assms(1)] assms(2) by (simp_all add: wormhole_vaa_instruction_def Let_def)
  moreover have "unat pidx < length keys" "keys ! unat pidx = nc_noop_shim_program_id config"
    using assms(1,2) by (simp_all add: compiles_def wormhole_vaa_instruction_def Let_def)
  ultimately show ?thesis by (simp add: parse_inner_instruction_def)
qed

lemma shim_event_found:
  assumes "source sig = Inr tx" and "ct_transaction tx = BinaryTx (Some vt)" and "signed_by_all verify vt"
    and "concat (ct_inner tx) = pre @ ui_ix # post" and "\<forall>i \<in> set pre. parse_inner_instruction config sig tx (vt_static_keys vt) i = None"
    and "parse_inner_instruction config sig tx (vt_static_keys vt) ui_ix = Some msg" and "nm_emitter msg = nc_bridge_state_pda config"
  shows "shim_event source verify config sig = Inr (Some msg)"
  using assms first_message_skips [OF assms(5), of "ui_ix # post"] signed_verified [of verify vt]
  by (simp add: shim_event_def shim_parse_transaction_def)

text \<open>A page of messages, taken where the previous one ended, and the cursor for the next page.\<close>

lemma last_signature_ok:
  assumes "\<forall>i \<in> set infos. si_signature i \<noteq> None" and "infos \<noteq> []"
  shows "last_signature infos start = si_signature (last infos)"
  using assms by (induction infos arbitrary: start) (auto split: option.split)

lemma get_withdrawals_ok:
  assumes "serves ledger page" and "ledger_ok ledger" and "1 \<le> limit" and "limit < 1000" and "ledger = seen @ rest"
    and "\<forall>i \<in> set ledger. shim_event_of source verify config i = Inr (event i)"
  shows "get_withdrawals page source verify config (cursor_of seen) limit = Inr
    \<lparr> wp_messages = List.map_filter event (take limit rest),
      wp_next_cursor = (if limit < length rest then cursor_of (seen @ take limit rest) else None), wp_has_more = (limit < length rest) \<rparr>"
proof -
  have pg: "page (cursor_of seen) None (limit + 1) = Inr (take (limit + 1) rest)"
    using assms by (intro page_after) (simp_all add: newer_than_def)
  have few: "take limit (take (limit + 1) rest) = take limit rest" by simp
  have parsed: "parse_page (shim_event_of source verify config) [] (take limit rest) = Inr (List.map_filter event (take limit rest))"
    using assms(5,6) by (subst parse_page_ok [where event = event]) (auto dest: in_set_takeD)
  have some: "\<forall>i \<in> set (take limit rest). si_signature i \<noteq> None"
    using assms(2,5) by (force simp: ledger_ok_def dest: in_set_takeD)
  have "last_signature (take limit rest) None = cursor_of (seen @ take limit rest)" if "limit < length rest"
  proof -
    have ne: "take limit rest \<noteq> []" using that assms(3) by auto
    show ?thesis unfolding last_signature_ok [OF some ne] using ne by (simp add: cursor_of_def)
  qed
  then show ?thesis
    unfolding get_withdrawals_def pg rbind_Inr Let_def few parsed by simp
qed

section \<open>Properties\<close>

text \<open>C9. What the bridge sends is what the signer reads: when a withdrawal is accepted and its message
  is recorded among the inner instructions of a signed transaction (with no message to that program before it), the
  monitor reports exactly the digest and the Dogecoin transaction of the buffer, under the number of the withdrawal
  and with the state account of the bridge as the emitter.\<close>

theorem accepted_withdrawal_reported:
  assumes "process_process_withdrawal e pid (a # buf # shim # rest) p = Inr (accounts', [PostMessage ix])"
    and "digest32 (env_sha e)" and "length (ai_data buf) < 2 ^ 32"
    and "nc_noop_shim_program_id config = ai_key shim" and "nc_bridge_state_pda config = bridge_state_address (env_rt e) pid"
    and "source sig = Inr tx" and "ct_transaction tx = BinaryTx (Some vt)" and "signed_by_all verify vt"
    and "compiles (vt_static_keys vt) ix pidx accs"
    and "concat (ct_inner tx) = pre @ InnerCompiled pidx accs (Some (ix_data ix)) # post"
    and "\<forall>i \<in> set pre. parse_inner_instruction config sig tx (vt_static_keys vt) i = None"
  shows "\<exists>payer. shim_event source verify config sig = Inr (Some
    \<lparr> nm_signature = sig, nm_slot = ct_slot tx, nm_block_time = ct_block_time tx,
      nm_nonce = ucast (pw_new_next_processed_withdrawals_index p), nm_consistency_level = 1,
      nm_sighash = env_sha e (drop 32 (ai_data buf)), nm_doge_tx_bytes = drop 32 (ai_data buf),
      nm_emitter = ai_key a, nm_payer = payer \<rparr>)"
proof (rule withdrawal_posts [OF assms(1)])
  fix a0 buf0 shim0 cfg msg sq payer fc clock sys core ev others
  assume accs: "a # buf # shim # rest = a0 # buf0 # shim0 # cfg # msg # sq # payer # fc # clock # sys # core # ev # others"
    and key: "ai_key a0 = bridge_state_address (env_rt e) pid"
    and ix: "ix = wormhole_vaa_instruction (ucast (pw_new_next_processed_withdrawals_index p)) (ai_key shim0) (ai_key cfg) (ai_key msg)
      (ai_key a0) (ai_key sq) (ai_key payer) (ai_key fc) (ai_key clock) (ai_key sys) (ai_key core) (ai_key ev)
      (env_sha e (drop 32 (ai_data buf0))) (drop 32 (ai_data buf0))"
  have ix': "ix = wormhole_vaa_instruction (ucast (pw_new_next_processed_withdrawals_index p)) (nc_noop_shim_program_id config)
      (ai_key cfg) (ai_key msg) (ai_key a) (ai_key sq) (ai_key payer) (ai_key fc) (ai_key clock) (ai_key sys) (ai_key core)
      (ai_key ev) (env_sha e (drop 32 (ai_data buf))) (drop 32 (ai_data buf))" using ix accs assms(4) by simp
  have len: "length (env_sha e (drop 32 (ai_data buf))) = 32" using assms(2) by (simp add: digest32_def)
  have short: "32 + length (drop 32 (ai_data buf)) < 2 ^ 32" using assms(3) by simp
  have emitter: "ai_key a = nc_bridge_state_pda config" using accs key assms(5) by simp
  note parsed = message_instruction_parsed [OF assms(9) ix' len short, of sig tx]
  show ?thesis
    using shim_event_found [of source sig tx, OF assms(6-8,10,11) parsed] emitter by auto
qed

definition example_message_keys :: "pubkey list" where
  "example_message_keys = example_state_key # map (\<lambda>k. replicate 32 k) [21, 22, 23, 24, 25, 26, 27, 28, 29, 30]"

definition example_message_vt :: versioned_transaction where
  "example_message_vt = \<lparr> vt_signatures = [replicate 64 1], vt_num_required_signatures = 1, vt_message_bytes = [],
     vt_static_keys = example_message_keys, vt_instructions = [] \<rparr>"

lemma example_vt: "vt_static_keys example_message_vt = example_message_keys" "signed_by_all (\<lambda>_ _ _. True) example_message_vt"
  by (simp_all add: example_message_vt_def signed_by_all_def example_message_keys_def)

definition example_message_tx :: "Instruction \<Rightarrow> confirmed_transaction" where
  "example_message_tx ix = \<lparr> ct_slot = 9, ct_block_time = None, ct_transaction = BinaryTx (Some example_message_vt),
     ct_inner = [[InnerParsed, InnerCompiled 1 [2, 3, 0, 4, 5, 6, 7, 8, 9, 10] (Some (ix_data ix))]], ct_failed = False \<rparr>"

definition example_shim_config :: NoopShimMonitorConfig where
  "example_shim_config = \<lparr> nc_noop_shim_program_id = replicate 32 21, nc_bridge_state_pda = example_state_key, nc_batch_size = 100 \<rparr>"

lemma example_withdrawal_posts:
  "\<exists>ix accounts'. process_process_withdrawal (example_env ones_digest) example_bridge
     (example_bridge_account # example_tx_buffer (replicate 40 2) # example_wormhole_accounts) example_withdrawal =
     Inr (accounts', [PostMessage ix]) \<and> compiles example_message_keys ix 1 [2, 3, 0, 4, 5, 6, 7, 8, 9, 10]"
proof -
  obtain a' rest' calls where run: "process_process_withdrawal (example_env ones_digest) example_bridge
     (example_bridge_account # example_tx_buffer (replicate 40 2) # example_wormhole_accounts) example_withdrawal =
     Inr (a' # rest', calls)" using example_withdraw by blast
  then have "\<exists>ix. calls = [PostMessage ix]"
    by (rule withdrawal_ok) (auto simp: send_wormhole_vaa_def result_simps split: if_splits)
  with run show ?thesis
    by (elim exE) (rule withdrawal_posts, fastforce, auto simp: compiles_def example_message_keys_def wormhole_vaa_instruction_def Let_def
        example_account_def)
qed

theorem accepted_withdrawal_reported_witness:
  "\<exists>ix msg. shim_event (\<lambda>_. Inr (example_message_tx ix)) (\<lambda>_ _ _. True) example_shim_config (replicate 64 1) = Inr (Some msg) \<and>
     nm_doge_tx_bytes msg = replicate 8 2 \<and> nm_nonce msg = 4"
proof -
  obtain ix accounts' where run: "process_process_withdrawal (example_env ones_digest) example_bridge
      (example_bridge_account # example_tx_buffer (replicate 40 2) # example_wormhole_accounts) example_withdrawal =
      Inr (accounts', [PostMessage ix])" and comp: "compiles example_message_keys ix 1 [2, 3, 0, 4, 5, 6, 7, 8, 9, 10]"
    using example_withdrawal_posts by blast
  let ?tx = "example_message_tx ix"
  have tx: "ct_transaction ?tx = BinaryTx (Some example_message_vt)"
    "concat (ct_inner ?tx) = [InnerParsed] @ InnerCompiled 1 [2, 3, 0, 4, 5, 6, 7, 8, 9, 10] (Some (ix_data ix)) # []"
    by (simp_all add: example_message_tx_def)
  have "\<exists>payer. shim_event (\<lambda>_. Inr ?tx) (\<lambda>_ _ _. True) example_shim_config (replicate 64 1) = Inr (Some
    \<lparr> nm_signature = replicate 64 1, nm_slot = ct_slot ?tx, nm_block_time = ct_block_time ?tx,
      nm_nonce = ucast (pw_new_next_processed_withdrawals_index example_withdrawal), nm_consistency_level = 1,
      nm_sighash = env_sha (example_env ones_digest) (drop 32 (ai_data (example_tx_buffer (replicate 40 2)))),
      nm_doge_tx_bytes = drop 32 (ai_data (example_tx_buffer (replicate 40 2))), nm_emitter = ai_key example_bridge_account, nm_payer = payer \<rparr>)"
    by (rule accepted_withdrawal_reported [OF run [unfolded list.map] _ _ _ _ refl tx(1) _ _ tx(2)])
       (simp_all add: comp ones_digest_ok example_account_def example_shim_config_def example_state_address example_vt
          parse_inner_instruction_def)
  then obtain payer where event: "shim_event (\<lambda>_. Inr ?tx) (\<lambda>_ _ _. True) example_shim_config (replicate 64 1) = Inr (Some
    \<lparr> nm_signature = replicate 64 1, nm_slot = ct_slot ?tx, nm_block_time = ct_block_time ?tx,
      nm_nonce = ucast (pw_new_next_processed_withdrawals_index example_withdrawal), nm_consistency_level = 1,
      nm_sighash = env_sha (example_env ones_digest) (drop 32 (ai_data (example_tx_buffer (replicate 40 2)))),
      nm_doge_tx_bytes = drop 32 (ai_data (example_tx_buffer (replicate 40 2))), nm_emitter = ai_key example_bridge_account,
      nm_payer = payer \<rparr>)" by blast
  show ?thesis by (rule exI, rule exI, rule conjI [OF event]) (simp add: example_withdrawal_def example_account_def)
qed

text \<open>C17. Catching up ends and is complete: against a node that serves a finite ledger, with a batch size
  that the node accepts, and when no transaction of it fails to parse, \<open>fetch_since\<close> returns, and returns
  the messages of exactly the transactions newer than the checkpoint, oldest first and each once; with a limit, it
  returns the newest of them up to the limit.\<close>

theorem fetch_since_complete:
  assumes "serves ledger page" and "ledger_ok ledger" and "1 \<le> nc_batch_size config" and "nc_batch_size config \<le> 1000"
    and "\<forall>i \<in> set (newer_than after ledger). shim_event_of source verify config i = Inr (event i)"
  shows "shim_fetch_since page source verify config after limit =
    Some (Inr (rev (take (case limit of Some n \<Rightarrow> n | None \<Rightarrow> 2 ^ 64 - 1) (List.map_filter event (newer_than after ledger)))))"
  unfolding shim_fetch_since_def by (rule fetch_since_ok [OF assms])

definition example_info :: "u8 \<Rightarrow> sig_info" where
  "example_info k = \<lparr> si_signature = Some (replicate 64 k), si_slot = 0 \<rparr>"

definition example_message_ix :: Instruction where
  "example_message_ix = wormhole_vaa_instruction 4 (replicate 32 21) (replicate 32 22) (replicate 32 23) example_state_key (replicate 32 24)
     (replicate 32 25) (replicate 32 26) (replicate 32 27) (replicate 32 28) (replicate 32 29) (replicate 32 30) (replicate 32 1) (replicate 8 2)"

definition example_source :: transaction_source where
  "example_source sig = Inr (if sig = replicate 64 2 then example_message_tx example_message_ix
     else \<lparr> ct_slot = 0, ct_block_time = None, ct_transaction = OtherEncoding, ct_inner = [], ct_failed = False \<rparr>)"

definition example_message :: NoopShimWithdrawalMessage where
  "example_message = \<lparr> nm_signature = replicate 64 2, nm_slot = 9, nm_block_time = None, nm_nonce = 4, nm_consistency_level = 1,
     nm_sighash = replicate 32 1, nm_doge_tx_bytes = replicate 8 2, nm_emitter = example_state_key, nm_payer = replicate 32 25 \<rparr>"

definition example_event :: "sig_info \<Rightarrow> NoopShimWithdrawalMessage option" where
  "example_event info = (if si_signature info = Some (replicate 64 2) then Some example_message else None)"

lemma example_source_event:
  assumes "nc_noop_shim_program_id config = replicate 32 21" and "nc_bridge_state_pda config = example_state_key"
  shows "shim_event example_source (\<lambda>_ _ _. True) config sig =
      Inr (if sig = replicate 64 2 then Some example_message else None)"
    and "shim_event_of example_source (\<lambda>_ _ _. True) config info = Inr (example_event info)"
proof -
  let ?tx = "example_message_tx example_message_ix"
  have comp: "compiles example_message_keys example_message_ix 1 [2, 3, 0, 4, 5, 6, 7, 8, 9, 10]"
    by (simp add: compiles_def example_message_keys_def example_message_ix_def wormhole_vaa_instruction_def Let_def)
  have parsed: "parse_inner_instruction config (replicate 64 2) ?tx example_message_keys
      (InnerCompiled 1 [2, 3, 0, 4, 5, 6, 7, 8, 9, 10] (Some (ix_data example_message_ix))) = Some example_message"
    using message_instruction_parsed [OF comp, of 4 config "replicate 32 22" "replicate 32 23" example_state_key "replicate 32 24"
        "replicate 32 25" "replicate 32 26" "replicate 32 27" "replicate 32 28" "replicate 32 29" "replicate 32 30" "replicate 32 1"
        "replicate 8 2" "replicate 64 2" ?tx] assms(1)
    by (simp add: example_message_ix_def) (simp add: example_message_def example_message_tx_def)
  have none: "parse_inner_instruction config (replicate 64 2) ?tx example_message_keys InnerParsed = None"
    by (simp add: parse_inner_instruction_def)
  have emitter: "nm_emitter example_message = nc_bridge_state_pda config" using assms(2) by (simp add: example_message_def)
  have "shim_event example_source (\<lambda>_ _ _. True) config (replicate 64 2) = Inr (Some example_message)"
    using parsed none emitter
    by (intro shim_event_found [where tx = ?tx and vt = example_message_vt and pre = "[InnerParsed]" and post = "[]"])
       (simp_all add: example_source_def example_vt, simp_all add: example_message_tx_def)
  then show event: "shim_event example_source (\<lambda>_ _ _. True) config sig =
      Inr (if sig = replicate 64 2 then Some example_message else None)" for sig
    by (cases "sig = replicate 64 2") (simp, simp add: shim_event_def shim_parse_transaction_def example_source_def)
  show "shim_event_of example_source (\<lambda>_ _ _. True) config info = Inr (example_event info)"
    by (simp add: shim_event_of_def example_event_def event split: option.split)
qed

abbreviation example_shim_ledger :: "sig_info list" where
  "example_shim_ledger \<equiv> [example_info 3, example_info 2, example_info 1]"

lemma example_ledger_ok: "ledger_ok example_shim_ledger" "ledger_ok [example_info 2, example_info 1]"
  by (simp_all add: ledger_ok_def example_info_def)

lemma example_newer: "newer_than (Some (replicate 64 1)) example_shim_ledger = [example_info 3, example_info 2]"
  by (simp add: newer_than_def example_info_def)

lemma example_event_simps [simp]:
  "example_event (example_info 3) = None" "example_event (example_info 2) = Some example_message" "example_event (example_info 1) = None"
  by (simp_all add: example_event_def example_info_def)

theorem fetch_since_complete_witness:
  "shim_fetch_since (sample_page example_shim_ledger) example_source (\<lambda>_ _ _. True)
     (example_shim_config \<lparr> nc_batch_size := 1 \<rparr>) (Some (replicate 64 1)) None = Some (Inr [example_message])"
  using fetch_since_complete [OF sample_page_serves example_ledger_ok(1), of "example_shim_config \<lparr> nc_batch_size := 1 \<rparr>"
      "Some (replicate 64 1)" example_source "\<lambda>_ _ _. True" example_event None]
  by (simp add: example_source_event example_shim_config_def example_newer map_filter_simps)

text \<open>C18. A running monitor delivers every message once and in order: whatever the number of polls and
  however the ledger grows between them, as long as no more than a batch of transactions arrives between two
  polls and they can be read, the messages sent to the receiver are those of the transactions after the checkpoint,
  in the order of the chain.\<close>

theorem monitor_delivers_each_once:
  assumes "list_all2 serves (grow ledger news) pages" and "\<forall>l \<in> set (grow ledger news). ledger_ok l" and "ledger \<noteq> []"
    and "1 \<le> nc_batch_size config" and "nc_batch_size config \<le> 1000" and "\<forall>new \<in> set news. length new \<le> nc_batch_size config"
    and "\<forall>l \<in> set (grow ledger news). \<forall>i \<in> set l. \<exists>s. si_signature i = Some s \<and> shim_event source verify config s = Inr (event i)"
  shows "snd (monitor_loop pages (shim_event source verify config) (nc_batch_size config) (si_signature (hd ledger))) =
    List.map_filter event (concat (map rev news))"
  by (rule monitor_loop_ok [OF assms(1,2,4,5,6,7,3)])

lemma example_events_read:
  assumes "nc_noop_shim_program_id config = replicate 32 21" and "nc_bridge_state_pda config = example_state_key"
  shows "\<forall>i \<in> set example_shim_ledger. \<exists>s. si_signature i = Some s \<and> shim_event example_source (\<lambda>_ _ _. True) config s = Inr (example_event i)"
  unfolding example_source_event(1) [OF assms] by (auto simp: example_event_def example_info_def)

theorem monitor_delivers_each_once_witness:
  "snd (monitor_loop [sample_page [example_info 2, example_info 1], sample_page example_shim_ledger]
     (shim_event example_source (\<lambda>_ _ _. True) example_shim_config) (nc_batch_size example_shim_config)
     (si_signature (hd [example_info 1]))) = [example_message]"
proof -
  let ?news = "[[example_info 2], [example_info 3]]" and ?ledger = "[example_info 1]"
  let ?pages = "[sample_page [example_info 2, example_info 1], sample_page example_shim_ledger]"
  have grow: "grow ?ledger ?news = [[example_info 2, example_info 1], example_shim_ledger]" by simp
  have "list_all2 serves (grow ?ledger ?news) ?pages" by (simp add: sample_page_serves)
  moreover have "\<forall>l \<in> set (grow ?ledger ?news). ledger_ok l" unfolding grow using example_ledger_ok by simp
  moreover have "\<forall>l \<in> set (grow ?ledger ?news). \<forall>i \<in> set l. \<exists>s. si_signature i = Some s \<and>
      shim_event example_source (\<lambda>_ _ _. True) example_shim_config s = Inr (example_event i)"
    unfolding grow using example_events_read [of example_shim_config] by (simp add: example_shim_config_def)
  moreover have "\<forall>new \<in> set ?news. length new \<le> nc_batch_size example_shim_config" "1 \<le> nc_batch_size example_shim_config"
    "nc_batch_size example_shim_config \<le> 1000" by (simp_all add: example_shim_config_def)
  ultimately have "snd (monitor_loop ?pages (shim_event example_source (\<lambda>_ _ _. True) example_shim_config)
      (nc_batch_size example_shim_config) (si_signature (hd ?ledger))) = List.map_filter example_event (concat (map rev ?news))"
    by (intro monitor_delivers_each_once) simp_all
  then show ?thesis by (simp only: list.map rev.simps concat.simps append.simps map_filter_simps example_event_simps option.case)
qed

text \<open>A poll that meets a backlog loses it: when more than a batch of transactions has arrived since
  the checkpoint, only the newest batch is read, the checkpoint still moves to the newest transaction, and
  the next poll sends nothing: the messages of the older ones are never delivered.\<close>

theorem poll_skips_backlog:
  assumes "serves ledger page" and "ledger_ok ledger" and "1 \<le> nc_batch_size config" and "nc_batch_size config \<le> 1000"
    and "\<forall>i \<in> set ledger. \<exists>s. si_signature i = Some s \<and> shim_event source verify config s = Inr (event i)"
    and "nc_batch_size config < length (newer_than after ledger)"
  shows "\<exists>after'. shim_poll_once page source verify config (\<lambda>_. True) after =
      (after', List.map_filter event (rev (take (nc_batch_size config) (newer_than after ledger))), Inr ()) \<and>
    shim_poll_once page source verify config (\<lambda>_. True) after' = (after', [], Inr ())"
proof -
  obtain newest older where new: "newer_than after ledger = newest # older" using assms(6) by (cases "newer_than after ledger") auto
  obtain tail where "ledger = (newest # older) @ tail" using newer_than_prefix [of ledger after] new by auto
  then have "newer_than (si_signature newest) ledger = []"
    using newer_than_head [of "[]" ledger "si_signature newest"] assms(2) by simp
  then show ?thesis
    using poll_once_ok [OF assms(1-5), of after] poll_once_ok [OF assms(1-5), of "si_signature newest"] new
    by (simp add: shim_poll_once_def checkpoint_after_def map_filter_def)
qed

theorem poll_skips_backlog_witness:
  "\<exists>after'. shim_poll_once (sample_page example_shim_ledger) example_source (\<lambda>_ _ _. True)
     (example_shim_config \<lparr> nc_batch_size := 1 \<rparr>) (\<lambda>_. True) (Some (replicate 64 1)) = (after', [], Inr ()) \<and>
   shim_poll_once (sample_page example_shim_ledger) example_source (\<lambda>_ _ _. True)
     (example_shim_config \<lparr> nc_batch_size := 1 \<rparr>) (\<lambda>_. True) after' = (after', [], Inr ())"
  using poll_skips_backlog [OF sample_page_serves example_ledger_ok(1), of "example_shim_config \<lparr> nc_batch_size := 1 \<rparr>"
      example_source "\<lambda>_ _ _. True" example_event "Some (replicate 64 1)"] example_events_read [of "example_shim_config \<lparr> nc_batch_size := 1 \<rparr>"]
  by (simp add: example_shim_config_def example_newer map_filter_simps)

text \<open>C31. The status of a transaction is not read: anybody can call the message program with the state
  account of the bridge as the emitter, without its signature. The program refuses the call and the transaction fails,
  but the monitor reports the message, with the digest and the Dogecoin transaction that the caller chose, as one of
  the bridge.\<close>

theorem forged_message_reported:
  assumes "source sig = Inr tx" and "ct_failed tx" and "ct_transaction tx = BinaryTx (Some vt)" and "signed_by_all verify vt"
    and "concat (ct_inner tx) = [InnerCompiled pidx accs (Some (ix_data ix))]" and "compiles (vt_static_keys vt) ix pidx accs"
    and "ix_program_id ix = nc_noop_shim_program_id config"
    and "list_all2 (\<lambda>m a. ai_key a = am_pubkey m \<and> ai_is_signer a = am_is_signer m) (ix_accounts ix) accounts"
    and "5 \<le> length (ix_accounts ix)" and "am_pubkey (ix_accounts ix ! 2) = nc_bridge_state_pda config" and "\<not> am_is_signer (ix_accounts ix ! 2)"
    and "ix_data ix = WORMHOLE_VAA_DISCRIMINATOR @ to_le_bytes (nonce :: u32) @ [1] @ to_le_bytes (of_nat (32 + length doge_tx) :: u32) @
      sighash @ doge_tx"
    and "length sighash = 32" and "32 + length doge_tx < 2 ^ 32"
  shows "noop_shim_process rt bridge accounts (ix_data ix) = Inl (Err MissingRequiredSignature) \<and>
    (\<exists>msg. shim_event source verify config sig = Inr (Some msg) \<and> nm_emitter msg = nc_bridge_state_pda config \<and>
       nm_sighash msg = sighash \<and> nm_doge_tx_bytes msg = doge_tx)"
proof
  obtain c m em sq payer others where accounts: "accounts = c # m # em # sq # payer # others"
    using assms(8,9) by (auto simp: list_all2_iff Suc_le_length_iff numeral_eq_Suc)
  then have "\<not> ai_is_signer em" using assms(8,9,11) by (auto simp: list_all2_conv_all_nth dest!: spec [of _ "2 :: nat"])
  then show "noop_shim_process rt bridge accounts (ix_data ix) = Inl (Err MissingRequiredSignature)"
    by (simp add: noop_shim_process_def accounts)
next
  let ?keys = "vt_static_keys vt"
  have "parse_message_data (ix_data ix) = Some (nonce, 1, sighash, doge_tx)"
    unfolding assms(12) by (rule parse_message_ok [OF assms(13,14)])
  moreover have "key_at ?keys accs 2 = Some (nc_bridge_state_pda config)" "\<exists>k. key_at ?keys accs 4 = Some k"
    using key_at_compiled [OF assms(6)] assms(9,10) by auto
  moreover have "unat pidx < length ?keys" "?keys ! unat pidx = nc_noop_shim_program_id config"
    using assms(6,7) by (simp_all add: compiles_def)
  ultimately obtain msg where "parse_inner_instruction config sig tx ?keys (InnerCompiled pidx accs (Some (ix_data ix))) = Some msg"
    and "nm_emitter msg = nc_bridge_state_pda config" "nm_sighash msg = sighash" "nm_doge_tx_bytes msg = doge_tx"
    by (auto simp: parse_inner_instruction_def)
  then show "\<exists>msg. shim_event source verify config sig = Inr (Some msg) \<and> nm_emitter msg = nc_bridge_state_pda config \<and>
       nm_sighash msg = sighash \<and> nm_doge_tx_bytes msg = doge_tx"
    using shim_event_found [of source sig tx vt verify "[]"] assms(1,3,4,5) by auto
qed

definition forged_ix :: Instruction where
  "forged_ix = example_message_ix \<lparr> ix_accounts := map (\<lambda>m. m \<lparr> am_is_signer := False \<rparr>) (ix_accounts example_message_ix) \<rparr>"

definition forged_tx :: confirmed_transaction where
  "forged_tx = (example_message_tx forged_ix) \<lparr> ct_inner := [[InnerCompiled 1 [2, 3, 0, 4, 5, 6, 7, 8, 9, 10] (Some (ix_data forged_ix))]],
     ct_failed := True \<rparr>"

theorem forged_message_reported_witness:
  "\<exists>msg. shim_event (\<lambda>_. Inr forged_tx) (\<lambda>_ _ _. True) example_shim_config (replicate 64 5) = Inr (Some msg) \<and>
     nm_doge_tx_bytes msg = replicate 8 2 \<and> nm_emitter msg = nc_bridge_state_pda example_shim_config"
proof -
  let ?accounts = "map (\<lambda>m. example_account (am_pubkey m) zero32 [] (am_is_signer m)) (ix_accounts forged_ix)"
  have comp: "compiles example_message_keys forged_ix 1 [2, 3, 0, 4, 5, 6, 7, 8, 9, 10]"
    by (simp add: compiles_def example_message_keys_def forged_ix_def example_message_ix_def wormhole_vaa_instruction_def Let_def)
  have tx: "ct_transaction forged_tx = BinaryTx (Some example_message_vt)" "ct_failed forged_tx"
    "concat (ct_inner forged_tx) = [InnerCompiled 1 [2, 3, 0, 4, 5, 6, 7, 8, 9, 10] (Some (ix_data forged_ix))]"
    by (simp_all add: forged_tx_def example_message_tx_def)
  have accounts: "list_all2 (\<lambda>m a. ai_key a = am_pubkey m \<and> ai_is_signer a = am_is_signer m) (ix_accounts forged_ix) ?accounts"
    by (simp add: list.rel_map example_account_def list.rel_refl)
  have ix: "ix_program_id forged_ix = nc_noop_shim_program_id example_shim_config" "5 \<le> length (ix_accounts forged_ix)"
    "am_pubkey (ix_accounts forged_ix ! 2) = nc_bridge_state_pda example_shim_config" "\<not> am_is_signer (ix_accounts forged_ix ! 2)"
    "ix_data forged_ix = WORMHOLE_VAA_DISCRIMINATOR @ to_le_bytes (4 :: u32) @ [1] @
       to_le_bytes (of_nat (32 + length (replicate 8 (2 :: u8))) :: u32) @ replicate 32 1 @ replicate 8 2"
    by (simp_all add: forged_ix_def example_message_ix_def wormhole_vaa_instruction_def Let_def example_shim_config_def)
  show ?thesis
    using forged_message_reported [of "\<lambda>_. Inr forged_tx" "replicate 64 5", OF refl tx(2) tx(1) example_vt(2) tx(3) _ ix(1)
        accounts ix(2-5)] comp by (auto simp: example_vt)
qed

end
