(* ===== verification/ManualClaim.thy ===== *)
theory ManualClaim
  imports BridgeProgram
begin

text \<open>
  Claims of deposits by their owner: the user's record of claimed outputs
  (\<open>psy-doge-solana-core/src/user_manual_deposit_manager\<close>), the program \<open>programs/manual-claim\<close> that
  checks a proof against it and calls the bridge, and the instruction that the client builds.
  The derivation of associated token accounts and the call of another program are code outside the
  sources; the call gets the addresses of the accounts whose data the caller holds mutably borrowed.
\<close>

section \<open>The user's record of claimed outputs\<close>

record UserManualDepositManagerProgramState =
  ud_manual_claimed_txo_tree_root :: QHash256

definition ud_new_empty :: UserManualDepositManagerProgramState where
  "ud_new_empty = \<lparr> ud_manual_claimed_txo_tree_root = TXO_EMPTY_MERKLE_TREE_ROOT \<rparr>"

record 'r manual_deposit_helper =
  mh_ensure_lowest_pda :: "pubkey \<Rightarrow> bool"
  mh_derive_token_ata :: "pubkey \<Rightarrow> pubkey"
  mh_process_manual_deposit :: "QHash256 \<Rightarrow> QHash256 \<Rightarrow> QHash256 \<Rightarrow> u64 \<Rightarrow> pubkey \<Rightarrow> u64 \<Rightarrow> 'r QDogeResult"

definition manual_claim_deposit ::
  "(bytes \<Rightarrow> bytes) \<Rightarrow> (bytes \<Rightarrow> bytes \<Rightarrow> bytes \<Rightarrow> bool) \<Rightarrow> UserManualDepositManagerProgramState \<Rightarrow> bytes \<Rightarrow> bytes \<Rightarrow>
   'r manual_deposit_helper \<Rightarrow> QHash256 \<Rightarrow> QHash256 \<Rightarrow> QHash256 \<Rightarrow> QHash256 \<Rightarrow> QHash256 \<Rightarrow> u64 \<Rightarrow> pubkey \<Rightarrow> u64 \<Rightarrow>
   (UserManualDepositManagerProgramState \<times> 'r) QDogeResult" where
  "manual_claim_deposit sha zkv self proof known_manual_claim_deposit_vk helper recent_block_merkle_tree_root
       recent_auto_claim_txo_root new_manual_claim_txo_root custodian_wallet_config_hash tx_hash combined_txo_index
       signer_public_key deposit_amount_sats =
     (if \<not> mh_ensure_lowest_pda helper signer_public_key then Inl (Err InvalidPDAForManualDepositManager)
      else let token_pda = mh_derive_token_ata helper signer_public_key;
               expected_public_inputs = get_manual_deposit_proof_public_inputs sha recent_block_merkle_tree_root
                 recent_auto_claim_txo_root (ud_manual_claimed_txo_tree_root self) new_manual_claim_txo_root tx_hash token_pda
                 custodian_wallet_config_hash combined_txo_index deposit_amount_sats
      in if \<not> zkv proof known_manual_claim_deposit_vk expected_public_inputs then Inl (Err BridgeZKPError)
      else rbind (mh_process_manual_deposit helper recent_block_merkle_tree_root recent_auto_claim_txo_root tx_hash
             combined_txo_index signer_public_key deposit_amount_sats) (\<lambda>r.
      Inr (self \<lparr> ud_manual_claimed_txo_tree_root := new_manual_claim_txo_root \<rparr>, r)))"

section \<open>The instruction\<close>

record ManualClaimInstruction =
  mc_proof :: bytes
  mc_recent_block_merkle_tree_root :: QHash256
  mc_recent_auto_claim_txo_root :: QHash256
  mc_new_manual_claim_txo_root :: QHash256
  mc_tx_hash :: QHash256
  mc_combined_txo_index :: u64
  mc_deposit_amount_sats :: u64

definition enc_manual_claim :: "ManualClaimInstruction \<Rightarrow> bytes" where
  "enc_manual_claim i = mc_proof i @ mc_recent_block_merkle_tree_root i @ mc_recent_auto_claim_txo_root i @
     mc_new_manual_claim_txo_root i @ mc_tx_hash i @ to_le_bytes (mc_combined_txo_index i) @ to_le_bytes (mc_deposit_amount_sats i)"

definition dec_manual_claim :: "bytes \<Rightarrow> ManualClaimInstruction" where
  "dec_manual_claim bs =
     \<lparr> mc_proof = bslice bs 0 256, mc_recent_block_merkle_tree_root = bslice bs 256 288,
       mc_recent_auto_claim_txo_root = bslice bs 288 320, mc_new_manual_claim_txo_root = bslice bs 320 352,
       mc_tx_hash = bslice bs 352 384, mc_combined_txo_index = from_le_bytes (bslice bs 384 392),
       mc_deposit_amount_sats = from_le_bytes (bslice bs 392 400) \<rparr>"

definition wf_manual_claim :: "ManualClaimInstruction \<Rightarrow> bool" where
  "wf_manual_claim i \<longleftrightarrow> length (mc_proof i) = 256 \<and> length (mc_recent_block_merkle_tree_root i) = 32 \<and>
     length (mc_recent_auto_claim_txo_root i) = 32 \<and> length (mc_new_manual_claim_txo_root i) = 32 \<and> length (mc_tx_hash i) = 32"

interpretation manual_claim_data: fixed_codec enc_manual_claim dec_manual_claim wf_manual_claim "400 :: nat"
  by unfold_locales (simp_all add: enc_manual_claim_def dec_manual_claim_def wf_manual_claim_def codec_simps)

definition manual_claim_deposit_instruction ::
  "runtime \<Rightarrow> program_ids \<Rightarrow> pubkey \<Rightarrow> pubkey \<Rightarrow> pubkey \<Rightarrow> pubkey \<Rightarrow> pubkey \<Rightarrow> pubkey \<Rightarrow> ManualClaimInstruction \<Rightarrow> Instruction" where
  "manual_claim_deposit_instruction rt ids program_id bridge_program_id user_signer payer mint recipient ix_fields =
     (let claim_pda = fst (rt_find_program_address rt [manual_claim_seed, user_signer] program_id);
          bridge_state = bridge_state_address rt bridge_program_id
      in \<lparr> ix_program_id = program_id,
           ix_accounts = [account_new claim_pda False, account_new_readonly bridge_state False, account_new recipient False,
             account_new mint False, account_new_readonly (pid_spl_token ids) False, account_new_readonly bridge_program_id False,
             account_new_readonly user_signer True, account_new payer True, account_new_readonly system_program_id False],
           ix_data = gen_aligned_instruction 0 (enc_manual_claim ix_fields) \<rparr>)"

section \<open>The program\<close>

datatype ManualClaimError = MC_CoreError | MC_SerializationError | MC_InvalidPDA | MC_InvalidRecipientATA

fun manual_claim_error :: "ManualClaimError \<Rightarrow> ProgramError" where
  "manual_claim_error MC_CoreError = Custom 0"
| "manual_claim_error MC_SerializationError = Custom 1"
| "manual_claim_error MC_InvalidPDA = Custom 2"
| "manual_claim_error MC_InvalidRecipientATA = Custom 3"

type_synonym invocation = "pubkey list \<Rightarrow> Instruction \<Rightarrow> AccountInfo list \<Rightarrow> handler_result"

record claim_env =
  ce_rt :: runtime
  ce_sha :: "bytes \<Rightarrow> bytes"
  ce_zkv :: "bytes \<Rightarrow> bytes \<Rightarrow> bytes \<Rightarrow> bool"
  ce_mock_zkp :: bool
  ce_ata :: "pubkey \<Rightarrow> pubkey \<Rightarrow> pubkey"
  ce_invoke :: invocation

definition MANUAL_CLAIM_VK :: "bool \<Rightarrow> bytes" where
  "MANUAL_CLAIM_VK mock_zkp =
     (if mock_zkp then
        [244, 238, 171, 78, 131, 171, 99, 200, 141, 114, 186, 29, 84, 79, 47, 233, 193, 81, 129, 115, 35, 74, 185, 6, 230, 88,
         87, 77, 239, 104, 25, 48]
      else replicate 32 0)"

text \<open>\<open>SolanaManualDepositHelper::process_manual_deposit\<close>: the instruction for the bridge.\<close>

definition manual_deposit_cpi ::
  "pubkey \<Rightarrow> pubkey \<Rightarrow> pubkey \<Rightarrow> pubkey \<Rightarrow> pubkey \<Rightarrow> pubkey \<Rightarrow> QHash256 \<Rightarrow> QHash256 \<Rightarrow> QHash256 \<Rightarrow> u64 \<Rightarrow> pubkey \<Rightarrow> u64 \<Rightarrow> Instruction" where
  "manual_deposit_cpi bridge_program bridge_state recipient_account doge_mint_account token_program claim_pda
       recent_block_merkle_tree_root recent_auto_claim_txo_root tx_hash combined_txo_index depositor_solana_public_key
       deposit_amount_sats =
     \<lparr> ix_program_id = bridge_program,
       ix_accounts = [account_new bridge_state False, account_new recipient_account False, account_new doge_mint_account False,
         account_new_readonly token_program False, account_new_readonly claim_pda True],
       ix_data = 5 # replicate 7 0 @ enc_manual_deposit
         \<lparr> md_tx_hash = tx_hash, md_recent_block_merkle_tree_root = recent_block_merkle_tree_root,
           md_recent_auto_claim_txo_root = recent_auto_claim_txo_root, md_combined_txo_index = combined_txo_index,
           md_depositor_solana_public_key = depositor_solana_public_key, md_deposit_amount_sats = deposit_amount_sats \<rparr> \<rparr>"

definition solana_manual_deposit_helper ::
  "claim_env \<Rightarrow> AccountInfo \<Rightarrow> AccountInfo \<Rightarrow> AccountInfo \<Rightarrow> AccountInfo \<Rightarrow> AccountInfo \<Rightarrow> AccountInfo \<Rightarrow>
   (AccountInfo list \<times> cpi list) manual_deposit_helper" where
  "solana_manual_deposit_helper e bridge_program bridge_state recipient_account doge_mint_account token_program claim_pda =
     \<lparr> mh_ensure_lowest_pda = (\<lambda>_. True),
       mh_derive_token_ata = (\<lambda>_. ai_key recipient_account),
       mh_process_manual_deposit = (\<lambda>block_root txo_root tx_hash index depositor amount.
         case ce_invoke e [ai_key claim_pda]
                (manual_deposit_cpi (ai_key bridge_program) (ai_key bridge_state) (ai_key recipient_account) (ai_key doge_mint_account)
                   (ai_key token_program) (ai_key claim_pda) block_root txo_root tx_hash index depositor amount)
                [bridge_state, recipient_account, doge_mint_account, token_program, claim_pda] of
           Inl _ \<Rightarrow> Inl (Err CpiManualDepositCallError)
         | Inr r \<Rightarrow> Inr r) \<rparr>"

text \<open>The part of \<open>process_claim\<close> that creates the user's account or checks its owner.\<close>

definition open_claim_account ::
  "claim_env \<Rightarrow> pubkey \<Rightarrow> pubkey \<Rightarrow> u8 \<Rightarrow> AccountInfo \<Rightarrow> AccountInfo \<Rightarrow> (AccountInfo \<times> AccountInfo) ProgramResult" where
  "open_claim_account e program_id user_key bump payer claim_state_pda =
     (if length (ai_data claim_state_pda) = 0
      then rbind (rt_create_account (ce_rt e) [manual_claim_seed, user_key, [bump]] payer claim_state_pda
                    (rt_minimum_balance (ce_rt e) 32) 32 program_id) (\<lambda>(payer, claim_state_pda).
           Inr (payer, claim_state_pda
             \<lparr> ai_data := write_at (ai_data claim_state_pda) 0 (ud_manual_claimed_txo_tree_root ud_new_empty) \<rparr>))
      else if ai_owner claim_state_pda \<noteq> program_id then Inl (Err (manual_claim_error MC_InvalidPDA))
      else Inr (payer, claim_state_pda))"

definition process_claim :: "claim_env \<Rightarrow> pubkey \<Rightarrow> AccountInfo list \<Rightarrow> ManualClaimInstruction \<Rightarrow> handler_result" where
  "process_claim e program_id accounts i =
     (case accounts of claim_state_pda # bridge_state_account # recipient_account # doge_mint_account # token_program #
          main_bridge_program # user # payer # system_program # others \<Rightarrow>
        if \<not> ai_is_signer user then Inl (Err MissingRequiredSignature)
        else case rt_find_program_address (ce_rt e) [manual_claim_seed, ai_key user] program_id of (pda, bump) \<Rightarrow>
        if pda \<noteq> ai_key claim_state_pda then Inl (Err (manual_claim_error MC_InvalidPDA))
        else if ce_ata e (ai_key user) (ai_key doge_mint_account) \<noteq> ai_key recipient_account
        then Inl (Err (manual_claim_error MC_InvalidRecipientATA))
        else rbind (open_claim_account e program_id (ai_key user) bump payer claim_state_pda) (\<lambda>(payer, claim_state_pda).
        if length (ai_data claim_state_pda) \<noteq> 32 then Inl (Err (manual_claim_error MC_SerializationError))
        else if length (ai_data bridge_state_account) \<noteq> BRIDGE_STATE_SIZE
        then Inl (Err (manual_claim_error MC_SerializationError))
        else let custodian_wallet_config_hash =
                   bs_custodian_wallet_config_hash (core_state (dec_bridge_state (ai_data bridge_state_account)));
                 helper = solana_manual_deposit_helper e main_bridge_program bridge_state_account recipient_account
                   doge_mint_account token_program claim_state_pda
        in rbind (map_err (\<lambda>_. manual_claim_error MC_CoreError)
             (manual_claim_deposit (ce_sha e) (ce_zkv e)
                \<lparr> ud_manual_claimed_txo_tree_root = ai_data claim_state_pda \<rparr> (mc_proof i) (MANUAL_CLAIM_VK (ce_mock_zkp e)) helper
                (mc_recent_block_merkle_tree_root i) (mc_recent_auto_claim_txo_root i) (mc_new_manual_claim_txo_root i)
                custodian_wallet_config_hash (mc_tx_hash i) (mc_combined_txo_index i) (ai_key user) (mc_deposit_amount_sats i)))
           (\<lambda>(self, called, calls).
              Inr (claim_state_pda \<lparr> ai_data := ud_manual_claimed_txo_tree_root self \<rparr> # take 4 called @
                     main_bridge_program # user # payer # system_program # others, calls)))
      | _ \<Rightarrow> Inl (Err NotEnoughAccountKeys))"

definition claim_process_instruction :: "claim_env \<Rightarrow> pubkey \<Rightarrow> AccountInfo list \<Rightarrow> bytes \<Rightarrow> handler_result" where
  "claim_process_instruction e program_id accounts instruction_data =
     (if length instruction_data < 8 then Inl Panic
      else let data = drop 8 instruction_data
      in if length data \<noteq> 400 then Inl (Err (manual_claim_error MC_SerializationError))
      else process_claim e program_id accounts (dec_manual_claim data))"

section \<open>What an accepted claim has checked and done\<close>

lemma claim_deposit_ok:
  assumes "manual_claim_deposit sha zkv self pf vk helper blk txo new_root wallet tx idx signer amount = Inr r"
  shows "zkv pf vk (get_manual_deposit_proof_public_inputs sha blk txo (ud_manual_claimed_txo_tree_root self) new_root tx
      (mh_derive_token_ata helper signer) wallet idx amount)"
    and "mh_process_manual_deposit helper blk txo tx idx signer amount = Inr (snd r)"
    and "ud_manual_claimed_txo_tree_root (fst r) = new_root"
  using assms by (auto simp: manual_claim_deposit_def Let_def result_simps)

lemma solana_helper_simps [simp]:
  "mh_derive_token_ata (solana_manual_deposit_helper e prog bridge recipient mint tok claim) signer = ai_key recipient"
  "mh_process_manual_deposit (solana_manual_deposit_helper e prog bridge recipient mint tok claim) blk txo tx idx depositor amount = Inr r \<longleftrightarrow>
     ce_invoke e [ai_key claim] (manual_deposit_cpi (ai_key prog) (ai_key bridge) (ai_key recipient) (ai_key mint) (ai_key tok) (ai_key claim)
       blk txo tx idx depositor amount) [bridge, recipient, mint, tok, claim] = Inr r"
  by (auto simp: solana_manual_deposit_helper_def split: sum.splits)

lemma open_claim_ok:
  assumes "open_claim_account e pid user bump payer claim = Inr (payer', claim')" and "runtime_ok (ce_rt e)"
  shows "ai_key claim' = ai_key claim" and "ai_data claim' = (if ai_data claim = [] then TXO_EMPTY_MERKLE_TREE_ROOT else ai_data claim)"
proof -
  have len: "length TXO_EMPTY_MERKLE_TREE_ROOT = 32" by (simp add: TXO_EMPTY_MERKLE_TREE_ROOT_def)
  have "ai_key claim' = ai_key claim \<and> ai_data claim' = (if ai_data claim = [] then TXO_EMPTY_MERKLE_TREE_ROOT else ai_data claim)"
  proof (cases "ai_data claim = []")
    case True
    then obtain p c where c: "rt_create_account (ce_rt e) [manual_claim_seed, user, [bump]] payer claim (rt_minimum_balance (ce_rt e) 32)
        32 pid = Inr (p, c)" "claim' = c \<lparr> ai_data := write_at (ai_data c) 0 TXO_EMPTY_MERKLE_TREE_ROOT \<rparr>"
      using assms(1) by (auto simp: open_claim_account_def result_simps ud_new_empty_def)
    with runtime_okD(5) [OF assms(2) c(1)] len True show ?thesis by (simp add: write_at_def)
  next
    case False
    with assms(1) show ?thesis by (auto simp: open_claim_account_def split: if_splits)
  qed
  then show "ai_key claim' = ai_key claim" "ai_data claim' = (if ai_data claim = [] then TXO_EMPTY_MERKLE_TREE_ROOT else ai_data claim)"
    by simp_all
qed

lemma process_claim_ok:
  assumes "process_claim e pid accounts i = Inr (accounts', calls)"
  obtains claim bridge recipient mint tok prog user payer sys others bump payer' claim' called
  where "accounts = claim # bridge # recipient # mint # tok # prog # user # payer # sys # others" and "ai_is_signer user"
    and "rt_find_program_address (ce_rt e) [manual_claim_seed, ai_key user] pid = (ai_key claim, bump)"
    and "ce_ata e (ai_key user) (ai_key mint) = ai_key recipient"
    and "open_claim_account e pid (ai_key user) bump payer claim = Inr (payer', claim')"
    and "length (ai_data claim') = 32" and "length (ai_data bridge) = BRIDGE_STATE_SIZE"
    and "ce_zkv e (mc_proof i) (MANUAL_CLAIM_VK (ce_mock_zkp e)) (get_manual_deposit_proof_public_inputs (ce_sha e)
      (mc_recent_block_merkle_tree_root i) (mc_recent_auto_claim_txo_root i) (ai_data claim') (mc_new_manual_claim_txo_root i)
      (mc_tx_hash i) (ai_key recipient) (bs_custodian_wallet_config_hash (core_state (dec_bridge_state (ai_data bridge))))
      (mc_combined_txo_index i) (mc_deposit_amount_sats i))"
    and "ce_invoke e [ai_key claim'] (manual_deposit_cpi (ai_key prog) (ai_key bridge) (ai_key recipient) (ai_key mint) (ai_key tok)
      (ai_key claim') (mc_recent_block_merkle_tree_root i) (mc_recent_auto_claim_txo_root i) (mc_tx_hash i)
      (mc_combined_txo_index i) (ai_key user) (mc_deposit_amount_sats i)) [bridge, recipient, mint, tok, claim'] = Inr (called, calls)"
    and "accounts' = claim' \<lparr> ai_data := mc_new_manual_claim_txo_root i \<rparr> # take 4 called @ prog # user # payer' # sys # others"
  using assms unfolding process_claim_def Let_def case_prod_unfold
  apply (elim handler_elims)
  subgoal for claim ys bridge ys1 recipient ys2 mint ys3 tok ys4 prog ys5 user ys6 payer ys7 sys others opened r
    by (rule that [of claim bridge recipient mint tok prog user payer sys others
          "snd (rt_find_program_address (ce_rt e) [manual_claim_seed, ai_key user] pid)" "fst opened" "snd opened" "fst (snd r)"])
       (auto simp: prod_eq_iff dest: claim_deposit_ok)
  done

section \<open>Properties\<close>


text \<open>The three parties of a claim agree on it: the claim program reads from the client's instruction
  exactly the claim the client meant, and the bridge decodes the call that the claim program makes for a user
  to the manual deposit of that user with the same roots, transaction, output and amount.\<close>

theorem claim_instructions_agree:
  assumes "wf_manual_claim i" and "length user = 32"
  shows "claim_process_instruction e pid accounts (ix_data (manual_claim_deposit_instruction rt ids pid bridge user payer mint recipient i)) =
      process_claim e pid accounts i \<and>
    process_instruction be bridge accounts' (ix_data (manual_deposit_cpi bridge state recipient' mint' tok claim
        (mc_recent_block_merkle_tree_root i) (mc_recent_auto_claim_txo_root i) (mc_tx_hash i) (mc_combined_txo_index i) user
        (mc_deposit_amount_sats i))) =
      process_process_manual_deposit be bridge accounts'
        \<lparr> md_tx_hash = mc_tx_hash i, md_recent_block_merkle_tree_root = mc_recent_block_merkle_tree_root i,
          md_recent_auto_claim_txo_root = mc_recent_auto_claim_txo_root i, md_combined_txo_index = mc_combined_txo_index i,
          md_depositor_solana_public_key = user, md_deposit_amount_sats = mc_deposit_amount_sats i \<rparr>"
proof
  show "claim_process_instruction e pid accounts (ix_data (manual_claim_deposit_instruction rt ids pid bridge user payer mint recipient i)) =
      process_claim e pid accounts i"
    using assms(1) by (simp add: claim_process_instruction_def manual_claim_deposit_instruction_def Let_def
        manual_claim_data.enc_length manual_claim_data.dec_enc)
  let ?md = "\<lparr> md_tx_hash = mc_tx_hash i, md_recent_block_merkle_tree_root = mc_recent_block_merkle_tree_root i,
          md_recent_auto_claim_txo_root = mc_recent_auto_claim_txo_root i, md_combined_txo_index = mc_combined_txo_index i,
          md_depositor_solana_public_key = user, md_deposit_amount_sats = mc_deposit_amount_sats i \<rparr>"
  have "wf_manual_deposit ?md" using assms by (simp add: wf_manual_deposit_def wf_manual_claim_def)
  then have "decode_instruction (5 # replicate 7 0 @ enc_manual_deposit ?md) = Inr (ProcessManualDeposit ?md)"
    by (simp add: decode_instruction_def Let_def manual_deposit_data.enc_length manual_deposit_data.dec_enc)
  then show "process_instruction be bridge accounts' (ix_data (manual_deposit_cpi bridge state recipient' mint' tok claim
        (mc_recent_block_merkle_tree_root i) (mc_recent_auto_claim_txo_root i) (mc_tx_hash i) (mc_combined_txo_index i) user
        (mc_deposit_amount_sats i))) = process_process_manual_deposit be bridge accounts' ?md"
    by (simp add: process_instruction_def manual_deposit_cpi_def run_instruction_def)
qed

text \<open>C33. No claim is ever accepted: the program still holds the data of the user's record mutably borrowed when
  it calls the bridge with that record as the signer. A call is refused when it passes an account whose data
  is mutably borrowed, so every claim ends in an error, whatever its proof.\<close>

theorem manual_claim_never_succeeds:
  assumes "\<And>borrowed ix infos. \<exists>m \<in> set (ix_accounts ix). am_pubkey m \<in> set borrowed \<Longrightarrow>
      ce_invoke e borrowed ix infos = Inl (Err AccountBorrowFailed)"
  shows "\<exists>err. claim_process_instruction e pid accounts data = Inl err"
proof (rule ccontr)
  assume "\<nexists>err. claim_process_instruction e pid accounts data = Inl err"
  then obtain accounts' calls where "claim_process_instruction e pid accounts data = Inr (accounts', calls)"
    by (cases "claim_process_instruction e pid accounts data") auto
  then have "process_claim e pid accounts (dec_manual_claim (drop 8 data)) = Inr (accounts', calls)"
    by (simp add: claim_process_instruction_def Let_def split: if_splits)
  then show False by (rule process_claim_ok) (simp add: assms manual_deposit_cpi_def)
qed

text \<open>
  Even without the borrow, the client's instruction would not do: the account of the bridge state is writable
  in the call of the bridge and read-only in the client's instruction.
\<close>

lemma claim_client_grants_no_write:
  assumes "bridge_state_address rt bridge \<notin> {fst (rt_find_program_address rt [manual_claim_seed, user] pid), recipient, mint, payer}"
    and "m \<in> set (ix_accounts (manual_claim_deposit_instruction rt ids pid bridge user payer mint recipient i))"
    and "am_pubkey m = bridge_state_address rt bridge"
  shows "\<not> am_is_writable m \<and> (\<exists>m' \<in> set (ix_accounts (manual_deposit_cpi bridge (bridge_state_address rt bridge) recipient mint
      tok claim blk txo tx idx depositor amount)). am_pubkey m' = am_pubkey m \<and> am_is_writable m')"
  using assms by (auto simp: manual_claim_deposit_instruction_def manual_deposit_cpi_def Let_def)

text \<open>A concrete claim, for a runtime that lends every account and for one that checks the borrows.\<close>

definition example_claim_env :: "bool \<Rightarrow> claim_env" where
  "example_claim_env checks = \<lparr> ce_rt = sample_runtime, ce_sha = ones_digest, ce_zkv = (\<lambda>pf vk inputs. True), ce_mock_zkp = True,
     ce_ata = (\<lambda>user mint. user),
     ce_invoke = (\<lambda>borrowed ix infos. if checks \<and> (\<exists>m \<in> set (ix_accounts ix). am_pubkey m \<in> set borrowed)
       then Inl (Err AccountBorrowFailed) else Inr (infos, [])) \<rparr>"

definition example_claim :: ManualClaimInstruction where
  "example_claim = dec_manual_claim (replicate 400 2)"

abbreviation example_claim_accounts :: "AccountInfo list" where
  "example_claim_accounts \<equiv> [example_account (sample_address [manual_claim_seed, replicate 32 5] (replicate 32 14)) zero32 [] False,
     example_bridge_account, example_account (replicate 32 5) zero32 [] False, example_account (replicate 32 3) zero32 [] False,
     example_account (replicate 32 15) zero32 [] False, example_account example_bridge zero32 [] False,
     example_account (replicate 32 5) zero32 [] True, example_account (replicate 32 5) zero32 [] True, example_account zero32 zero32 [] False]"

abbreviation example_claim_data :: bytes where
  "example_claim_data \<equiv> gen_aligned_instruction 0 (enc_manual_claim example_claim)"

lemma wf_example_claim: "wf_manual_claim example_claim"
  unfolding example_claim_def by (rule manual_claim_data.wf_dec) simp

lemma example_claim_accepted:
  "\<exists>accounts'. claim_process_instruction (example_claim_env False) (replicate 32 14) example_claim_accounts example_claim_data = Inr (accounts', [])"
  using example_stored(2) wf_example_claim
  by (simp add: claim_process_instruction_def Let_def manual_claim_data.enc_length manual_claim_data.dec_enc process_claim_def
      example_claim_env_def open_claim_account_def manual_claim_deposit_def solana_manual_deposit_helper_def sample_runtime_def
      write_at_def ud_new_empty_def TXO_EMPTY_MERKLE_TREE_ROOT_def)


theorem claim_instructions_agree_witness:
  "claim_process_instruction (example_claim_env True) (replicate 32 14) example_claim_accounts (ix_data (manual_claim_deposit_instruction
     sample_runtime example_ids (replicate 32 14) example_bridge (replicate 32 5) (replicate 32 5) (replicate 32 3) (replicate 32 5) example_claim)) =
   process_claim (example_claim_env True) (replicate 32 14) example_claim_accounts example_claim"
  using claim_instructions_agree [OF wf_example_claim, of "replicate 32 5"] by simp

theorem manual_claim_never_succeeds_witness:
  "\<exists>err. claim_process_instruction (example_claim_env True) (replicate 32 14) example_claim_accounts example_claim_data = Inl err"
  by (rule manual_claim_never_succeeds) (auto simp: example_claim_env_def)

end
