(* ===== verification/EventMonitor.thy ===== *)
theory EventMonitor
  imports ShimMonitor ManualClaim
begin

text \<open>
  The event monitor of the client (\<open>clients/rust/src/monitor.rs\<close>): the events it knows, how it reads
  them from the instructions of a transaction, and its walks over the transactions of the bridge state
  account, which are the loops of \<open>SignatureFeed\<close> with another reader. A structure read with
  \<open>bytemuck::from_bytes\<close> is its decoded bytes.
\<close>

section \<open>Events\<close>

record WithdrawalRequestedEvent =
  wq_signature :: signature
  wq_slot :: u64
  wq_block_time :: "int option"
  wq_amount_sats :: u64
  wq_recipient_address :: bytes
  wq_address_type :: u32
  wq_user_pubkey :: pubkey
  wq_withdrawal_index :: u64

record WithdrawalProcessedEvent =
  we_signature :: signature
  we_slot :: u64
  we_block_time :: "int option"
  we_new_return_output_sighash :: bytes
  we_new_return_output_index :: u64
  we_new_return_output_amount :: u64
  we_new_spent_txo_tree_root :: bytes
  we_new_next_processed_withdrawals_index :: u64

record ManualDepositClaimedEvent =
  me_signature :: signature
  me_slot :: u64
  me_block_time :: "int option"
  me_tx_hash :: bytes
  me_combined_txo_index :: u64
  me_deposit_amount_sats :: u64
  me_depositor_pubkey :: pubkey
  me_claimer_pubkey :: pubkey

record BlockTransitionEvent =
  be_signature :: signature
  be_slot :: u64
  be_block_time :: "int option"
  be_block_height :: u32
  be_is_reorg :: bool

datatype BridgeEvent =
    WithdrawalRequested WithdrawalRequestedEvent
  | WithdrawalProcessed WithdrawalProcessedEvent
  | ManualDepositClaimed ManualDepositClaimedEvent
  | BlockTransition BlockTransitionEvent

definition first_key :: "u8 list \<Rightarrow> pubkey list \<Rightarrow> pubkey" where
  "first_key accounts account_keys = (case key_at account_keys accounts 0 of Some k \<Rightarrow> k | None \<Rightarrow> zero32)"

definition event_withdrawal_request ::
  "signature \<Rightarrow> u64 \<Rightarrow> int option \<Rightarrow> bytes \<Rightarrow> u8 list \<Rightarrow> pubkey list \<Rightarrow> WithdrawalRequestedEvent option" where
  "event_withdrawal_request sig slot block_time data accounts account_keys =
     (if length data < 8 + 32 then None
      else let request = dec_withdrawal_request (bslice data 8 40)
      in Some \<lparr> wq_signature = sig, wq_slot = slot, wq_block_time = block_time, wq_amount_sats = wr_amount_sats request,
           wq_recipient_address = wr_recipient_address request, wq_address_type = wr_address_type request,
           wq_user_pubkey = first_key accounts account_keys, wq_withdrawal_index = 0 \<rparr>)"

definition event_process_withdrawal :: "signature \<Rightarrow> u64 \<Rightarrow> int option \<Rightarrow> bytes \<Rightarrow> WithdrawalProcessedEvent option" where
  "event_process_withdrawal sig slot block_time data =
     (if length data < 8 + 344 then None
      else let d = dec_process_withdrawal (bslice data 8 352)
      in Some \<lparr> we_signature = sig, we_slot = slot, we_block_time = block_time,
           we_new_return_output_sighash = ro_sighash (pw_new_return_output d),
           we_new_return_output_index = ro_output_index (pw_new_return_output d),
           we_new_return_output_amount = ro_amount_sats (pw_new_return_output d),
           we_new_spent_txo_tree_root = pw_new_spent_txo_tree_root d,
           we_new_next_processed_withdrawals_index = pw_new_next_processed_withdrawals_index d \<rparr>)"

definition event_manual_deposit ::
  "signature \<Rightarrow> u64 \<Rightarrow> int option \<Rightarrow> bytes \<Rightarrow> u8 list \<Rightarrow> pubkey list \<Rightarrow> ManualDepositClaimedEvent option" where
  "event_manual_deposit sig slot block_time data accounts account_keys =
     (if length data < 8 + 144 then None
      else let d = dec_manual_deposit (bslice data 8 152)
      in Some \<lparr> me_signature = sig, me_slot = slot, me_block_time = block_time, me_tx_hash = md_tx_hash d,
           me_combined_txo_index = md_combined_txo_index d, me_deposit_amount_sats = md_deposit_amount_sats d,
           me_depositor_pubkey = md_depositor_solana_public_key d, me_claimer_pubkey = first_key accounts account_keys \<rparr>)"

section \<open>Reading a transaction\<close>

definition event_instruction ::
  "pubkey \<Rightarrow> signature \<Rightarrow> confirmed_transaction \<Rightarrow> pubkey list \<Rightarrow> compiled_instruction \<Rightarrow> BridgeEvent option" where
  "event_instruction program_id sig tx account_keys ix =
     (if unat (ci_program_id_index ix) \<ge> length account_keys then None
      else if account_keys ! unat (ci_program_id_index ix) \<noteq> program_id then None
      else if length (ci_data ix) < 5 then None
      else let discriminator = ci_data ix ! 4
      in if discriminator = 2
      then map_option WithdrawalRequested
             (event_withdrawal_request sig (ct_slot tx) (ct_block_time tx) (ci_data ix) (ci_accounts ix) account_keys)
      else if discriminator = 3
      then map_option WithdrawalProcessed (event_process_withdrawal sig (ct_slot tx) (ct_block_time tx) (ci_data ix))
      else if discriminator = 5
      then map_option ManualDepositClaimed
             (event_manual_deposit sig (ct_slot tx) (ct_block_time tx) (ci_data ix) (ci_accounts ix) account_keys)
      else None)"

fun first_event ::
  "pubkey \<Rightarrow> signature \<Rightarrow> confirmed_transaction \<Rightarrow> pubkey list \<Rightarrow> compiled_instruction list \<Rightarrow> BridgeEvent option" where
  "first_event program_id sig tx account_keys [] = None"
| "first_event program_id sig tx account_keys (ix # rest) =
     (case event_instruction program_id sig tx account_keys ix of
        Some event \<Rightarrow> Some event
      | None \<Rightarrow> first_event program_id sig tx account_keys rest)"

definition monitor_parse_transaction :: "transaction_source \<Rightarrow> pubkey \<Rightarrow> signature \<Rightarrow> BridgeEvent option client_result" where
  "monitor_parse_transaction source program_id sig =
     rbind (source sig) (\<lambda>tx.
     case ct_transaction tx of
       OtherEncoding \<Rightarrow> Inr None
     | BinaryTx None \<Rightarrow> Inl (CE_InvalidInput ''Failed to decode tx'')
     | BinaryTx (Some transaction) \<Rightarrow>
         Inr (first_event program_id sig tx (vt_static_keys transaction) (vt_instructions transaction)))"

text \<open>\<open>parse_transaction\<close>, which refuses a signature that is none.\<close>

definition monitor_event_of :: "transaction_source \<Rightarrow> pubkey \<Rightarrow> sig_info \<Rightarrow> BridgeEvent option client_result" where
  "monitor_event_of source program_id info =
     (case si_signature info of
        Some sig \<Rightarrow> monitor_parse_transaction source program_id sig
      | None \<Rightarrow> Inl (CE_InvalidInput ''Invalid signature''))"

definition monitor_fetch_since ::
  "signature_page \<Rightarrow> transaction_source \<Rightarrow> pubkey \<Rightarrow> nat \<Rightarrow> signature option \<Rightarrow> nat option \<Rightarrow> BridgeEvent list client_result option" where
  "monitor_fetch_since page source program_id batch_size after_signature limit =
     fetch_since page (monitor_event_of source program_id) batch_size after_signature limit"

definition monitor_poll_once ::
  "signature_page \<Rightarrow> transaction_source \<Rightarrow> pubkey \<Rightarrow> nat \<Rightarrow> (nat \<Rightarrow> bool) \<Rightarrow> signature option \<Rightarrow>
   signature option \<times> BridgeEvent list \<times> unit client_result" where
  "monitor_poll_once page source program_id batch_size open after_signature =
     poll_once page (monitor_parse_transaction source program_id) open batch_size after_signature"

section \<open>What the monitor reads of the instructions of the client\<close>

definition recorded :: "pubkey list \<Rightarrow> Instruction \<Rightarrow> compiled_instruction \<Rightarrow> bool" where
  "recorded keys ix ci \<longleftrightarrow> compiles keys ix (ci_program_id_index ci) (ci_accounts ci) \<and> ci_data ci = ix_data ix"

lemma recorded_parts:
  assumes "recorded keys ix ci"
  shows "unat (ci_program_id_index ci) < length keys" "keys ! unat (ci_program_id_index ci) = ix_program_id ix" "ci_data ci = ix_data ix"
    "ix_accounts ix \<noteq> [] \<Longrightarrow> first_key (ci_accounts ci) keys = am_pubkey (hd (ix_accounts ix))"
  using assms key_at_compiled [of keys ix "ci_program_id_index ci" "ci_accounts ci" 0]
  by (auto simp: recorded_def compiles_def first_key_def hd_conv_nth)

lemma aligned_fifth [simp]: "gen_aligned_instruction d data ! 4 = d"
  by (simp add: gen_aligned_instruction_def nth_append)

lemma aligned_slice: "length data = n \<Longrightarrow> bslice (gen_aligned_instruction d data) 8 (8 + n) = data"
  by (simp add: gen_aligned_instruction_def bslice_def)

lemma request_event:
  assumes "recorded keys (request_withdrawal_ix rt ids program_id user mint token address amount ty) ci" and "length address = 20"
  shows "event_instruction program_id sig tx keys ci = Some (WithdrawalRequested
    \<lparr> wq_signature = sig, wq_slot = ct_slot tx, wq_block_time = ct_block_time tx, wq_amount_sats = amount,
      wq_recipient_address = address, wq_address_type = ty, wq_user_pubkey = bridge_state_address rt program_id, wq_withdrawal_index = 0 \<rparr>)"
proof -
  let ?r = "withdrawal_request_new address amount ty"
  have wf: "wf_withdrawal_request ?r" using assms(2) by (simp add: wf_withdrawal_request_def withdrawal_request_new_def)
  have len: "length (enc_withdrawal_request ?r) = 32" by (rule withdrawal_request.enc_length [OF wf])
  have "bslice (gen_aligned_instruction 2 (enc_withdrawal_request ?r)) 8 40 = enc_withdrawal_request ?r"
    using aligned_slice [OF len] by simp
  moreover note recorded_parts [OF assms(1)] withdrawal_request.dec_enc [OF wf]
  ultimately show ?thesis
    by (simp add: event_instruction_def event_withdrawal_request_def request_withdrawal_ix_def len Let_def)
       (simp add: withdrawal_request_new_def)
qed

lemma withdrawal_event:
  assumes "recorded keys (process_withdrawal_ix rt ids program_id payer buffer shim core p) ci" and "wf_process_withdrawal p"
  shows "event_instruction program_id sig tx keys ci = Some (WithdrawalProcessed
    \<lparr> we_signature = sig, we_slot = ct_slot tx, we_block_time = ct_block_time tx,
      we_new_return_output_sighash = ro_sighash (pw_new_return_output p),
      we_new_return_output_index = ro_output_index (pw_new_return_output p),
      we_new_return_output_amount = ro_amount_sats (pw_new_return_output p),
      we_new_spent_txo_tree_root = pw_new_spent_txo_tree_root p,
      we_new_next_processed_withdrawals_index = pw_new_next_processed_withdrawals_index p \<rparr>)"
proof -
  have len: "length (enc_process_withdrawal p) = 344" by (rule process_withdrawal_data.enc_length [OF assms(2)])
  have "bslice (gen_aligned_instruction 3 (enc_process_withdrawal p)) 8 352 = enc_process_withdrawal p"
    using aligned_slice [OF len] by simp
  moreover note recorded_parts [OF assms(1)] process_withdrawal_data.dec_enc [OF assms(2)]
  ultimately show ?thesis
    by (simp add: event_instruction_def event_process_withdrawal_def process_withdrawal_ix_def len Let_def)
qed

lemma foreign_no_event:
  "recorded keys ix ci \<Longrightarrow> ix_program_id ix \<noteq> program_id \<Longrightarrow> event_instruction program_id sig tx keys ci = None"
  by (simp add: event_instruction_def recorded_parts)

lemma first_event_skips:
  "\<forall>ix \<in> set pre. event_instruction program_id sig tx keys ix = None \<Longrightarrow>
     first_event program_id sig tx keys (pre @ post) = first_event program_id sig tx keys post"
  by (induction pre) auto

section \<open>Properties\<close>

text \<open>C39. The monitor reads what the client wrote: for a transaction whose first instruction to the bridge is
  a withdrawal request built by the client, the event has the amount, the address and the type of the request, and for
  a processed withdrawal the new return output, spent root and index. The \<open>user\<close> of a request, however, is always the
  state account of the bridge, which comes first in the accounts, and never the user that signed.\<close>

theorem events_of_client_instructions:
  assumes "source sig = Inr tx" and "ct_transaction tx = BinaryTx (Some vt)" and "vt_instructions vt = pre @ ci # post"
    and "\<forall>i \<in> set pre. event_instruction program_id sig tx (vt_static_keys vt) i = None"
  shows "(length address = 20 \<longrightarrow>
      recorded (vt_static_keys vt) (request_withdrawal_ix rt ids program_id user mint token address amount ty) ci \<longrightarrow>
      monitor_parse_transaction source program_id sig = Inr (Some (WithdrawalRequested
        \<lparr> wq_signature = sig, wq_slot = ct_slot tx, wq_block_time = ct_block_time tx, wq_amount_sats = amount,
          wq_recipient_address = address, wq_address_type = ty, wq_user_pubkey = bridge_state_address rt program_id,
          wq_withdrawal_index = 0 \<rparr>))) \<and>
    (wf_process_withdrawal p \<longrightarrow>
      recorded (vt_static_keys vt) (process_withdrawal_ix rt ids program_id payer buffer shim core p) ci \<longrightarrow>
      monitor_parse_transaction source program_id sig = Inr (Some (WithdrawalProcessed
        \<lparr> we_signature = sig, we_slot = ct_slot tx, we_block_time = ct_block_time tx,
          we_new_return_output_sighash = ro_sighash (pw_new_return_output p),
          we_new_return_output_index = ro_output_index (pw_new_return_output p),
          we_new_return_output_amount = ro_amount_sats (pw_new_return_output p),
          we_new_spent_txo_tree_root = pw_new_spent_txo_tree_root p,
          we_new_next_processed_withdrawals_index = pw_new_next_processed_withdrawals_index p \<rparr>)))"
  using assms first_event_skips [OF assms(4), of "ci # post"]
  by (simp add: monitor_parse_transaction_def request_event withdrawal_event)

definition example_request_ix :: Instruction where
  "example_request_ix = request_withdrawal_ix sample_runtime example_ids (replicate 32 10) (replicate 32 1) (replicate 32 2) (replicate 32 3)
     (replicate 20 7) 1000 0"

definition example_request_vt :: versioned_transaction where
  "example_request_vt = \<lparr> vt_signatures = [replicate 64 1], vt_num_required_signatures = 1, vt_message_bytes = [],
     vt_static_keys = map am_pubkey (ix_accounts example_request_ix) @ [replicate 32 10],
     vt_instructions = [\<lparr> ci_program_id_index = 5, ci_accounts = [0, 1, 2, 3, 4], ci_data = ix_data example_request_ix \<rparr>] \<rparr>"

theorem events_of_client_instructions_witness:
  "\<exists>e. monitor_parse_transaction (\<lambda>_. Inr \<lparr> ct_slot = 9, ct_block_time = None, ct_transaction = BinaryTx (Some example_request_vt),
      ct_inner = [], ct_failed = False \<rparr>) (replicate 32 10) (replicate 64 1) = Inr (Some (WithdrawalRequested e)) \<and>
    wq_amount_sats e = 1000 \<and> wq_recipient_address e = replicate 20 7 \<and>
    wq_user_pubkey e = bridge_state_address sample_runtime (replicate 32 10)"
proof -
  let ?ci = "\<lparr> ci_program_id_index = 5, ci_accounts = [0, 1, 2, 3, 4], ci_data = ix_data example_request_ix \<rparr>"
  have "recorded (vt_static_keys example_request_vt) example_request_ix ?ci"
    by (simp add: recorded_def compiles_def example_request_vt_def example_request_ix_def request_withdrawal_ix_def)
  moreover have "vt_instructions example_request_vt = [] @ ?ci # []" by (simp add: example_request_vt_def)
  ultimately show ?thesis
    using events_of_client_instructions [of "\<lambda>_. Inr \<lparr> ct_slot = 9, ct_block_time = None,
        ct_transaction = BinaryTx (Some example_request_vt), ct_inner = [], ct_failed = False \<rparr>" "replicate 64 1" _ example_request_vt "[]" ?ci
        "[]" "replicate 32 10" "replicate 20 7" sample_runtime example_ids "replicate 32 1" "replicate 32 2" "replicate 32 3" 1000 0]
    by (simp add: example_request_ix_def)
qed

text \<open>A claim reaches the bridge only through the claim program, so that its transaction has no event.\<close>

lemma claims_not_reported:
  assumes "source sig = Inr tx" and "ct_transaction tx = BinaryTx (Some vt)" and "program_id \<noteq> claim_program"
    and "recorded (vt_static_keys vt) (manual_claim_deposit_instruction rt ids claim_program program_id user payer mint recipient claim) ci"
    and "vt_instructions vt = [ci]"
  shows "monitor_parse_transaction source program_id sig = Inr None"
proof -
  have "ix_program_id (manual_claim_deposit_instruction rt ids claim_program program_id user payer mint recipient claim) = claim_program"
    by (simp add: manual_claim_deposit_instruction_def Let_def)
  then show ?thesis
    using foreign_no_event [OF assms(4)] assms by (simp add: monitor_parse_transaction_def)
qed

text \<open>Even the call that the claim program makes would not be recognised: its fifth byte is zero.\<close>

lemma claim_call_not_recognised:
  assumes "recorded keys (manual_deposit_cpi program_id st rc mint tok pda r1 r2 h idx dep amount) ci"
  shows "event_instruction program_id sig tx keys ci = None"
  using recorded_parts [OF assms] by (simp add: event_instruction_def manual_deposit_cpi_def Let_def nth_append)

end
