(* ===== verification/MintUpload.thy ===== *)
theory MintUpload
  imports BufferClient "HOL-Library.Multiset"
begin

text \<open>
  The upload of a block's mints (\<open>clients/rust/src/buffer/pending_mint.rs\<close> and
  \<open>create_pending_mint_buffer\<close> of \<open>clients/rust/src/buffer/manager.rs\<close>): the client splits the
  mints into groups of 24, sizes the buffer and inserts the groups in parallel. Together with
  the payouts of \<open>AutoMint\<close> this closes the circle: the mints that the bridge reads from the
  buffer are the mints of the client.
\<close>

section \<open>The builder\<close>

definition builder_num_groups :: "PendingMint list \<Rightarrow> nat" where
  "builder_num_groups mints = (if mints = [] then 0 else (length mints + 24 - 1) div 24)"

definition builder_buffer_size :: "PendingMint list \<Rightarrow> nat" where
  "builder_buffer_size mints = (let groups = builder_num_groups mints in 72 + groups * 32 + length mints * 40)"

definition builder_get_group :: "PendingMint list \<Rightarrow> nat \<Rightarrow> PendingMint list" where
  "builder_get_group mints group_idx =
     (let start = group_idx * 24; stop = min (start + 24) (length mints) in bslice mints start stop)"

definition builder_serialize_group :: "PendingMint list \<Rightarrow> nat \<Rightarrow> bytes" where
  "builder_serialize_group mints group_idx = concat (map enc_pending_mint (builder_get_group mints group_idx))"

section \<open>The upload protocol\<close>

definition ensure_pending_mint_buffer_exists ::
  "runtime \<Rightarrow> (bytes \<Rightarrow> bytes) \<Rightarrow> pubkey \<Rightarrow> pubkey \<Rightarrow> pubkey \<Rightarrow> pubkey \<Rightarrow> pubkey \<Rightarrow> ledger \<Rightarrow> ledger ProgramResult" where
  "ensure_pending_mint_buffer_exists rt sha program_id payer operator buffer_pubkey locker L =
     (case L buffer_pubkey of
        None \<Rightarrow> rbind (send_transfer rt payer buffer_pubkey (rt_minimum_balance rt 72) L)
          (send_instruction (pmb_process_instruction rt sha program_id)
            (pending_mint_setup program_id buffer_pubkey locker operator))
      | Some _ \<Rightarrow> Inr L)"

definition reinit_pending_mint_buffer ::
  "runtime \<Rightarrow> (bytes \<Rightarrow> bytes) \<Rightarrow> pubkey \<Rightarrow> pubkey \<Rightarrow> pubkey \<Rightarrow> u16 \<Rightarrow> ledger \<Rightarrow> ledger ProgramResult" where
  "reinit_pending_mint_buffer rt sha program_id operator buffer_pubkey total_mints =
     send_instruction (pmb_process_instruction rt sha program_id)
       (pending_mint_reinit program_id buffer_pubkey operator total_mints)"

definition insert_pending_mint_group ::
  "runtime \<Rightarrow> (bytes \<Rightarrow> bytes) \<Rightarrow> pubkey \<Rightarrow> pubkey \<Rightarrow> pubkey \<Rightarrow> u16 \<Rightarrow> bytes \<Rightarrow> ledger \<Rightarrow> ledger ProgramResult" where
  "insert_pending_mint_group rt sha program_id operator buffer_pubkey group_idx group_data =
     send_instruction (pmb_process_instruction rt sha program_id)
       (pending_mint_insert program_id buffer_pubkey operator group_idx group_data)"

text \<open>The groups arrive in the order \<open>gs\<close>.\<close>

primrec insert_groups ::
  "runtime \<Rightarrow> (bytes \<Rightarrow> bytes) \<Rightarrow> pubkey \<Rightarrow> pubkey \<Rightarrow> pubkey \<Rightarrow> PendingMint list \<Rightarrow> nat list \<Rightarrow> ledger \<Rightarrow> ledger ProgramResult" where
  "insert_groups rt sha program_id operator buffer_pubkey mints [] L = Inr L"
| "insert_groups rt sha program_id operator buffer_pubkey mints (g # gs) L =
     rbind (insert_pending_mint_group rt sha program_id operator buffer_pubkey (of_nat g) (builder_serialize_group mints g) L)
       (insert_groups rt sha program_id operator buffer_pubkey mints gs)"

definition create_pending_mint_buffer ::
  "runtime \<Rightarrow> (bytes \<Rightarrow> bytes) \<Rightarrow> pubkey \<Rightarrow> pubkey \<Rightarrow> pubkey \<Rightarrow> pubkey \<Rightarrow> PendingMint list \<Rightarrow> nat list \<Rightarrow> ledger \<Rightarrow>
   (ledger \<times> pubkey \<times> u8) ProgramResult" where
  "create_pending_mint_buffer rt sha program_id payer operator locker mints gs L =
     (let (buffer_pubkey, bump) = rt_find_program_address rt [mint_buffer_seed, operator] program_id
      in rbind (ensure_pending_mint_buffer_exists rt sha program_id payer operator buffer_pubkey locker L) (\<lambda>L.
      if mints = [] then Inr (L, buffer_pubkey, bump)
      else rbind (reinit_pending_mint_buffer rt sha program_id operator buffer_pubkey (of_nat (length mints)) L) (\<lambda>L.
      rbind (insert_groups rt sha program_id operator buffer_pubkey mints gs L) (\<lambda>L.
      Inr (L, buffer_pubkey, bump)))))"

section \<open>The groups of the builder\<close>

lemma builder_num_groups_eq: "builder_num_groups mints = group_count (length mints)"
  by (simp add: builder_num_groups_def group_count_def add.commute)

lemma builder_buffer_size_eq: "builder_buffer_size mints = buffer_size (length mints)"
  by (simp add: builder_buffer_size_def buffer_size_def builder_num_groups_eq Let_def)

lemma length_get_group: "g < group_count (length mints) \<Longrightarrow> length (builder_get_group mints g) = group_size (length mints) g"
  using group_below [of g "length mints"] by (auto simp: builder_get_group_def Let_def group_size_def min_def mult.commute)

lemma set_get_group: "set (builder_get_group mints g) \<subseteq> set mints"
  by (auto simp: builder_get_group_def Let_def bslice_def dest: in_set_takeD in_set_dropD)

lemma length_serialize_group:
  "\<forall>m \<in> set mints. wf_pending_mint m \<Longrightarrow> g < group_count (length mints) \<Longrightarrow>
   length (builder_serialize_group mints g) = 40 * group_size (length mints) g"
  unfolding builder_serialize_group_def using set_get_group [of mints g]
  by (subst pending_mint.sequence_length) (auto simp: length_get_group)

section \<open>Inserting one group\<close>

text \<open>What the client has achieved when the groups in \<open>filled\<close> are inserted.\<close>

definition upload_inv :: "(bytes \<Rightarrow> bytes) \<Rightarrow> pubkey \<Rightarrow> pubkey \<Rightarrow> PendingMint list \<Rightarrow> nat set \<Rightarrow> bytes \<Rightarrow> bool" where
  "upload_inv sha locker operator mints filled d \<longleftrightarrow>
     (let n = length mints; h = buffer_hdr d in
      length d = buffer_size n \<and> bh_is_locked h = 0 \<and> unat (bh_pending_mints_count h) = n \<and>
      unat (bh_pending_mint_groups_count h) = group_count n \<and> buffer_locker d = locker \<and> buffer_writer d = operator \<and>
      bh_pending_mints_initialized h = of_nat (\<Sum>g \<in> filled. group_size n g) \<and>
      (\<forall>g < group_count n. if g \<in> filled
         then group_hash d g = sha (builder_serialize_group mints g) \<and>
              group_mints d n g (group_size n g) = builder_serialize_group mints g
         else group_hash d g = zero32))"

text \<open>Inserting the data of a group into a full-size buffer changes this group only.\<close>

lemma insert_group_data:
  fixes d :: bytes and g :: nat
  defines "h \<equiv> buffer_hdr d"
  defines "n \<equiv> unat (bh_pending_mints_count h)"
  assumes digest: "digest32 sha" and len: "length d = buffer_size n" and unlocked: "bh_is_locked h = 0"
    and groups: "unat (bh_pending_mint_groups_count h) = group_count n" and g: "g < group_count n"
    and xs: "length xs = 40 * group_size n g" and free: "group_hash d g = zero32"
  shows "\<exists>d'. insert_pending_mints sha d (of_nat g) xs = Inr d' \<and> length d' = length d \<and>
    buffer_hdr d' = h \<lparr> bh_pending_mints_initialized := bh_pending_mints_initialized h + of_nat (group_size n g) \<rparr> \<and>
    group_hash d' g = sha xs \<and> group_mints d' n g (group_size n g) = xs \<and>
    (\<forall>k < group_count n. k \<noteq> g \<longrightarrow> group_hash d' k = group_hash d k \<and>
       group_mints d' n k (group_size n k) = group_mints d n k (group_size n k))"
proof -
  let ?G = "group_count n"
  define a b where "a = 72 + 32 * g" and "b = 72 + 32 * ?G + 960 * g"
  have n: "n < 65536" unfolding n_def by (rule u16_bound)
  have below: "24 * g < n" by (rule group_below [OF g])
  have g16: "unat (of_nat g :: u16) = g" using below n by (simp add: unat_of_nat)
  have "unat (of_nat g * 24 :: u16) = 24 * g" using below n by (simp add: unat_word_ariths g16)
  then have offs: "72 + unat (of_nat g :: u16) * 32 = a"
      "72 + unat (bh_pending_mint_groups_count h) * 32 + unat (of_nat g * 24 :: u16) * 40 = b"
    by (simp_all add: a_def b_def g16 groups)
  have sha: "length (sha xs) = 32" using digest by simp
  have size: "group_size n g \<le> 24" "24 * g + group_size n g \<le> n" using below by (simp_all add: group_size_def)
  have ab: "a + length (sha xs) \<le> b" using g by (simp add: a_def b_def sha)
  have bd: "b + length xs \<le> length d" using size(2) by (simp add: b_def xs len buffer_size_def)
  define v where "v = write_at (write_at d a (sha xs)) b xs"
  note two = two_writes [OF ab bd, folded v_def]
  have v: "length v = length d" "72 \<le> length v" "buffer_hdr v = h"
    using two(1) two(4) [of 72 0] by (simp_all add: len buffer_size_def h_def a_def b_def)
  let ?h = "h \<lparr> bh_pending_mints_initialized := bh_pending_mints_initialized h + of_nat (group_size n g) \<rparr>"
  have "72 \<le> length d" by (simp add: len buffer_size_def)
  then have wf: "wf_buffer_header ?h" using wf_buffer_hdr by (simp add: h_def wf_buffer_header_def)
  have "bslice d a (a + 32) = zero32" using free by (simp add: group_hash_def a_def)
  moreover have "of_nat g < bh_pending_mint_groups_count h" using g groups by (simp add: word_less_nat_alt g16)
  moreover have "length xs \<le> 960" using size(1) by (simp add: xs)
  moreover have "a + 32 \<le> length d" using ab bd by (simp add: sha)
  ultimately have ins: "insert_pending_mints sha d (of_nat g) xs = Inr (put_header v ?h)"
    unfolding insert_ok_iff h_def [symmetric] offs Let_def v_def [symmetric]
    using v unlocked bd \<open>72 \<le> length d\<close> by (simp add: xs)
  note slice = put_header_simps(3) [OF v(2) wf]
  have other: "bslice (put_header v ?h) t u = bslice d t u"
    if "72 \<le> t" "u \<le> a \<or> a + 32 \<le> t" "u \<le> b \<or> b + 40 * group_size n g \<le> t" for t u
    using two(4) [of u t] that slice by (simp add: sha xs)
  have "group_hash (put_header v ?h) g = sha xs" "group_mints (put_header v ?h) n g (group_size n g) = xs"
    unfolding group_hash_def group_mints_def using slice two(2,3) by (simp_all add: a_def b_def sha xs)
  moreover have "group_hash (put_header v ?h) k = group_hash d k"
      "group_mints (put_header v ?h) n k (group_size n k) = group_mints d n k (group_size n k)" if k: "k < ?G" "k \<noteq> g" for k
  proof -
    have "k < g \<or> g < k" using k(2) by linarith
    then show "group_hash (put_header v ?h) k = group_hash d k"
      unfolding group_hash_def by (intro other) (use k(1) in \<open>auto simp: a_def b_def\<close>)
    have "group_size n k \<le> 24" by (simp add: group_size_def)
    then have "960 * k + 40 * group_size n k \<le> 960 * g \<or> 960 * g + 40 * group_size n g \<le> 960 * k"
      using k(2) size(1) by linarith
    then show "group_mints (put_header v ?h) n k (group_size n k) = group_mints d n k (group_size n k)"
      unfolding group_mints_def by (intro other) (use g in \<open>auto simp: a_def b_def\<close>)
  qed
  ultimately show ?thesis using ins put_header_simps(1,2) [OF v(2) wf] v(1) by (intro exI [of _ "put_header v ?h"]) simp
qed

lemma upload_inv_insert:
  assumes digest: "digest32 sha" and inv: "upload_inv sha locker operator mints F d" and mints: "\<forall>m \<in> set mints. wf_pending_mint m"
    and g: "g < group_count (length mints)" "g \<notin> F" and F: "finite F"
  shows "\<exists>d'. insert_pending_mints sha d (of_nat g) (builder_serialize_group mints g) = Inr d' \<and>
    upload_inv sha locker operator mints (insert g F) d'"
proof -
  let ?n = "length mints" and ?xs = "builder_serialize_group mints g"
  have i: "length d = buffer_size ?n" "bh_is_locked (buffer_hdr d) = 0" "unat (bh_pending_mints_count (buffer_hdr d)) = ?n"
      "unat (bh_pending_mint_groups_count (buffer_hdr d)) = group_count ?n" "group_hash d g = zero32"
    using inv g by (simp_all add: upload_inv_def Let_def)
  have xs: "length ?xs = 40 * group_size ?n g" by (rule length_serialize_group [OF mints g(1)])
  obtain d' where d': "insert_pending_mints sha d (of_nat g) ?xs = Inr d'" "length d' = length d"
    "buffer_hdr d' = (buffer_hdr d) \<lparr> bh_pending_mints_initialized :=
       bh_pending_mints_initialized (buffer_hdr d) + of_nat (group_size ?n g) \<rparr>"
    "group_hash d' g = sha ?xs" "group_mints d' ?n g (group_size ?n g) = ?xs"
    "\<forall>k < group_count ?n. k \<noteq> g \<longrightarrow> group_hash d' k = group_hash d k \<and>
       group_mints d' ?n k (group_size ?n k) = group_mints d ?n k (group_size ?n k)"
    using insert_group_data [OF digest, of d g ?xs, unfolded i(3), OF i(1,2,4) g(1) xs i(5)] by blast
  have sum: "(\<Sum>k \<in> insert g F. group_size ?n k) = (\<Sum>k \<in> F. group_size ?n k) + group_size ?n g"
    using F g(2) by simp
  have "upload_inv sha locker operator mints (insert g F) d'"
    unfolding upload_inv_def Let_def d'(2,3) sum using inv d'(4-6)
    by (simp add: upload_inv_def Let_def add.commute) (metis (no_types))
  with d'(1) show ?thesis by blast
qed

lemma pmb_insert_upload:
  assumes digest: "digest32 sha" and inv: "upload_inv sha locker operator mints F (ai_data st)"
    and mints: "\<forall>m \<in> set mints. wf_pending_mint m" and g: "g < group_count (length mints)" "g \<notin> F" and F: "finite F"
    and accs: "ai_owner st = pid" "ai_is_signer p" "ai_key p = operator"
  shows "\<exists>d'. pmb_process_instruction rt sha pid (st # p # sys # os)
      (3 # to_le_bytes (of_nat g :: u16) @ builder_serialize_group mints g) = Inr (st \<lparr> ai_data := d' \<rparr> # p # sys # os) \<and>
    upload_inv sha locker operator mints (insert g F) d'"
proof -
  let ?d = "ai_data st"
  obtain d' where d': "insert_pending_mints sha ?d (of_nat g) (builder_serialize_group mints g) = Inr d'"
      "upload_inv sha locker operator mints (insert g F) d'"
    using upload_inv_insert [OF digest inv mints g F] by blast
  have d: "72 \<le> length ?d" "get_total_buffer_size (buffer_hdr ?d) = length ?d" "buffer_writer ?d = operator"
    using inv by (simp_all add: upload_inv_def Let_def get_total_buffer_size_def buffer_size_def)
  then have "pmb_insert rt sha pid st (p # sys # os) (to_le_bytes (of_nat g :: u16) @ builder_serialize_group mints g) =
      Inr (st \<lparr> ai_data := d' \<rparr>, p # sys # os)"
    using accs d'(1) by (simp add: pmb_insert_def require_signer_def verify_writer_def codec_simps Let_def)
  then show ?thesis using d'(2) by (auto simp: pmb_process_instruction_def)
qed

section \<open>All groups, in any order\<close>

definition mint_ready :: "(bytes \<Rightarrow> bytes) \<Rightarrow> pubkey \<Rightarrow> pubkey \<Rightarrow> pubkey \<Rightarrow> pubkey \<Rightarrow> PendingMint list \<Rightarrow> nat set \<Rightarrow> ledger \<Rightarrow> bool" where
  "mint_ready sha pid buf operator locker mints F L \<longleftrightarrow> buf \<noteq> operator \<and> ai_owner (load_account L buf False) = pid \<and>
     upload_inv sha locker operator mints F (ai_data (load_account L buf False))"

lemma insert_pending_mint_group_ok:
  assumes digest: "digest32 sha" and ready: "mint_ready sha pid buf operator locker mints F L"
    and mints: "\<forall>m \<in> set mints. wf_pending_mint m" and g: "g < group_count (length mints)" "g \<notin> F" and F: "finite F"
  shows "\<exists>L'. insert_pending_mint_group rt sha pid operator buf (of_nat g) (builder_serialize_group mints g) L = Inr L' \<and>
    mint_ready sha pid buf operator locker mints (insert g F) L'"
proof -
  let ?c = "load_account L buf False" and ?p = "load_account L operator True" and ?sys = "load_account L system_program_id False"
  have r: "buf \<noteq> operator" "ai_owner ?c = pid" "upload_inv sha locker operator mints F (ai_data ?c)"
    using ready by (simp_all add: mint_ready_def)
  obtain d' where d': "pmb_process_instruction rt sha pid [?c, ?p, ?sys]
      (3 # to_le_bytes (of_nat g :: u16) @ builder_serialize_group mints g) = Inr [?c \<lparr> ai_data := d' \<rparr>, ?p, ?sys]"
      "upload_inv sha locker operator mints (insert g F) d'"
    using pmb_insert_upload [OF digest r(3) mints g F r(2), of ?p rt ?sys "[]"] by auto
  let ?L = "store_accounts [?c \<lparr> ai_data := d' \<rparr>, ?p, ?sys] L"
  have "load_account ?L buf False = ?c \<lparr> ai_data := d', ai_is_signer := False \<rparr>" by (rule load_store_first) simp
  then have "mint_ready sha pid buf operator locker mints (insert g F) ?L" using r d'(2) by (simp add: mint_ready_def)
  moreover have "insert_pending_mint_group rt sha pid operator buf (of_nat g) (builder_serialize_group mints g) L = Inr ?L"
    using d'(1) by (simp add: insert_pending_mint_group_def send_instruction_def pending_mint_insert_def)
  ultimately show ?thesis by blast
qed

lemma insert_groups_ok:
  assumes digest: "digest32 sha" and mints: "\<forall>m \<in> set mints. wf_pending_mint m"
    and ready: "mint_ready sha pid buf operator locker mints F L" and F: "finite F"
    and gs: "distinct gs" "set gs \<inter> F = {}" "set gs \<subseteq> {..<group_count (length mints)}"
  shows "\<exists>L'. insert_groups rt sha pid operator buf mints gs L = Inr L' \<and>
    mint_ready sha pid buf operator locker mints (set gs \<union> F) L'"
  using ready F gs
proof (induction gs arbitrary: F L)
  case (Cons g gs)
  obtain L1 where L1: "insert_pending_mint_group rt sha pid operator buf (of_nat g) (builder_serialize_group mints g) L = Inr L1"
      "mint_ready sha pid buf operator locker mints (insert g F) L1"
    using insert_pending_mint_group_ok [OF digest Cons.prems(1) mints, of g rt] Cons.prems by auto
  obtain L' where "insert_groups rt sha pid operator buf mints gs L1 = Inr L'"
      "mint_ready sha pid buf operator locker mints (set gs \<union> insert g F) L'"
    using Cons.IH [OF L1(2)] Cons.prems by auto
  then show ?case using L1(1) by auto
qed simp

lemma reinit_ready:
  assumes rt: "runtime_ok rt" and ne: "buf \<noteq> operator" and n: "length mints < 65513"
    and run: "reinit_pending_mint_buffer rt sha pid operator buf (of_nat (length mints)) L = Inr L1"
    and full: "length (ai_data (load_account L1 buf False)) = buffer_size (length mints)"
  shows "mint_ready sha pid buf operator (buffer_locker (ai_data (load_account L buf False))) mints {} L1"
proof -
  let ?c = "load_account L buf False" and ?p = "load_account L operator True" and ?sys = "load_account L system_program_id False"
  let ?n = "length mints" and ?w = "of_nat (length mints) :: u16"
  have w: "unat ?w = ?n" using n by (simp add: unat_of_nat)
  obtain accs' where r: "pmb_process_instruction rt sha pid [?c, ?p, ?sys] (1 # to_le_bytes ?w) = Inr accs'"
      and L1: "L1 = store_accounts accs' L"
    using run by (auto simp: reinit_pending_mint_buffer_def send_instruction_def pending_mint_reinit_def result_simps)
  obtain st' os' where st': "pmb_reinit rt pid ?c [?p, ?sys] (to_le_bytes ?w) = Inr (st', os')" "accs' = st' # os'"
    using r by (auto simp: pmb_process_instruction_def result_simps)
  obtain m h where re: "ai_owner ?c = pid" "72 \<le> length (ai_data ?c)" "operator = buffer_writer (ai_data ?c)" "72 \<le> m"
      "header_reinit (buffer_hdr (ai_data ?c)) ?w = Inr h"
      "ai_data st' = clear_hashes (put_header (realloc (ai_data ?c) m) h) (unat (bh_pending_mint_groups_count h))"
      "ai_key st' = buf" "ai_owner st' = pid"
    using reinit_data [OF rt st'(1)] by (auto simp: codec_simps)
  have c: "load_account L1 buf False = st' \<lparr> ai_is_signer := False \<rparr>"
    unfolding L1 st'(2) using re(7) by (rule load_store_first)
  let ?e = "put_header (realloc (ai_data ?c) m) h"
  have h: "h = (buffer_hdr (ai_data ?c)) \<lparr> bh_pending_mints_count := ?w,
      bh_pending_mint_groups_count := (?w + 24 - 1) div 24, bh_pending_mints_initialized := 0 \<rparr>"
      "bh_is_locked (buffer_hdr (ai_data ?c)) = 0"
    using re(5) by (simp_all only: header_reinit_ok_iff)
  have G: "unat ((?w + 24 - 1) div 24 :: u16) = group_count ?n" unfolding reinit_groups w using n by simp
  have hf: "unat (bh_pending_mint_groups_count h) = group_count ?n" "bh_is_locked h = 0" "bh_pending_mints_count h = ?w"
      "bh_pending_mints_initialized h = 0" "bh_authorized_locker_public_key h = buffer_locker (ai_data ?c)"
      "bh_authorized_writer_public_key h = buffer_writer (ai_data ?c)"
    using G h(2) by (simp_all add: h(1))
  have wf: "wf_buffer_header h" using wf_header_reinit [OF re(5) wf_buffer_hdr [OF re(2)]] .
  have e: "length ?e = m" "buffer_hdr ?e = h" using put_header_simps(1,2) [OF _ wf] re(4) by simp_all
  have d: "ai_data st' = clear_hashes ?e (group_count ?n)" using re(6) by (simp only: hf(1))
  have len: "length (ai_data st') = m" "buffer_hdr (ai_data st') = h"
    unfolding d using clear_hashes_hdr [of ?e "group_count ?n"] re(4) e by simp_all
  have m: "m = buffer_size ?n" using full len(1) by (simp add: c)
  have "group_hash (ai_data st') g = zero32" if "g < group_count ?n" for g
  proof -
    have "group_hash (realloc (ai_data st') (buffer_size ?n)) g = zero32"
      unfolding d using that e(1) re(4) m by (intro clear_hashes_zero) simp_all
    then show ?thesis using len(1) m by (simp add: realloc_same)
  qed
  then have "upload_inv sha (buffer_locker (ai_data ?c)) operator mints {} (ai_data st')"
    unfolding upload_inv_def Let_def len using m re(3) hf w by simp
  then show ?thesis using ne re(8) by (simp add: mint_ready_def c)
qed

lemma upload_complete:
  assumes inv: "upload_inv sha locker operator mints {..<group_count (length mints)} d" and n: "length mints < 65536"
    and mints: "\<forall>m \<in> set mints. wf_pending_mint m"
  shows "header_lock (buffer_hdr d) locker = Inr ((buffer_hdr d) \<lparr> bh_is_locked := 1 \<rparr>)"
    and "i < length mints \<Longrightarrow> buffer_mint d (length mints) i = mints ! i"
proof -
  let ?n = "length mints"
  have d: "length d = buffer_size ?n" "bh_is_locked (buffer_hdr d) = 0" "unat (bh_pending_mints_count (buffer_hdr d)) = ?n"
      "buffer_locker d = locker" "bh_pending_mints_initialized (buffer_hdr d) = of_nat ?n"
    using inv unfolding upload_inv_def Let_def group_sizes_sum by simp_all
  have "bh_pending_mints_count (buffer_hdr d) = of_nat ?n" using arg_cong [OF d(3), of "of_nat :: nat \<Rightarrow> u16"] by simp
  then show "header_lock (buffer_hdr d) locker = Inr ((buffer_hdr d) \<lparr> bh_is_locked := 1 \<rparr>)"
    using d by (simp add: header_lock_def)
  assume i: "i < ?n"
  define g j where "g = i div 24" and "j = i mod 24"
  have ij: "i = 24 * g + j" "j < 24" by (simp_all add: g_def j_def)
  have g: "g < group_count ?n" using i by (simp add: g_def group_count_def)
  have j: "j < group_size ?n g" using i ij by (simp add: group_size_def)
  have gm: "group_mints d ?n g (group_size ?n g) = builder_serialize_group mints g"
    using inv g by (simp add: upload_inv_def Let_def)
  have "bslice d (72 + 32 * group_count ?n + i * 40) (72 + 32 * group_count ?n + i * 40 + 40) =
      bslice (group_mints d ?n g (group_size ?n g)) (40 * j) (40 * j + 40)"
    unfolding group_mints_def using j by (subst bslice_bslice) (simp_all add: ij(1) algebra_simps)
  also have "\<dots> = enc_pending_mint (builder_get_group mints g ! j)"
    unfolding gm builder_serialize_group_def using set_get_group [of mints g] mints j length_get_group [OF g]
    by (intro pending_mint.sequence_nth) auto
  also have "builder_get_group mints g ! j = mints ! i"
    unfolding builder_get_group_def Let_def using j i by (subst nth_slice) (auto simp: ij(1) mult.commute group_size_def)
  finally show "buffer_mint d ?n i = mints ! i"
    using mints i by (simp add: buffer_mint_def pending_mint_at_def pending_mint.dec_enc)
qed

text \<open>C11. The upload of a block's mints works in every order. Once the re-initialisation is accepted
  and the account has its full size, the inserts of all groups succeed in whatever order they
  arrive; the buffer can then be locked by its locker, and mint \<open>i\<close> that the bridge reads from
  the buffer is mint \<open>i\<close> of the client.\<close>

theorem mint_upload_any_order:
  assumes "runtime_ok rt" and "digest32 sha" and "rt_find_program_address rt [mint_buffer_seed, operator] pid = (buf, bump)"
    and "buf \<noteq> operator" and "mints \<noteq> []" and "length mints < 65513" and "\<forall>m \<in> set mints. wf_pending_mint m"
    and "ensure_pending_mint_buffer_exists rt sha pid payer operator buf locker L = Inr L0"
    and "reinit_pending_mint_buffer rt sha pid operator buf (of_nat (length mints)) L0 = Inr L1"
    and "length (ai_data (load_account L1 buf False)) = builder_buffer_size mints"
    and "mset gs = mset [0..<builder_num_groups mints]"
  shows "\<exists>L' d. create_pending_mint_buffer rt sha pid payer operator locker mints gs L = Inr (L', buf, bump) \<and>
    d = ai_data (load_account L' buf False) \<and> length d = builder_buffer_size mints \<and>
    buffer_locker d = buffer_locker (ai_data (load_account L0 buf False)) \<and>
    header_lock (buffer_hdr d) (buffer_locker d) = Inr ((buffer_hdr d) \<lparr> bh_is_locked := 1 \<rparr>) \<and>
    (\<forall>i < length mints. buffer_mint d (length mints) i = mints ! i)"
proof -
  let ?lk = "buffer_locker (ai_data (load_account L0 buf False))"
  have gs: "distinct gs" "set gs = {..<group_count (length mints)}"
    unfolding mset_eq_imp_distinct_iff [OF assms(11)] mset_eq_setD [OF assms(11)]
    by (simp_all add: builder_num_groups_eq lessThan_atLeast0)
  have r: "mint_ready sha pid buf operator ?lk mints {} L1"
    using reinit_ready [OF assms(1,4,6,9)] assms(10) by (simp add: builder_buffer_size_eq)
  obtain L' where L': "insert_groups rt sha pid operator buf mints gs L1 = Inr L'"
      "mint_ready sha pid buf operator ?lk mints (set gs) L'"
    using insert_groups_ok [OF assms(2,7) r finite.emptyI gs(1), of rt] unfolding gs(2) Un_empty_right by blast
  have inv: "upload_inv sha ?lk operator mints {..<group_count (length mints)} (ai_data (load_account L' buf False))"
    using L'(2) by (simp add: mint_ready_def gs(2))
  have d: "length (ai_data (load_account L' buf False)) = builder_buffer_size mints"
      "buffer_locker (ai_data (load_account L' buf False)) = ?lk"
    using inv by (simp_all add: upload_inv_def Let_def builder_buffer_size_eq)
  have run: "create_pending_mint_buffer rt sha pid payer operator locker mints gs L = Inr (L', buf, bump)"
    unfolding create_pending_mint_buffer_def assms(3) using assms(5,8,9) L'(1) by simp
  have "length mints < 65536" using assms(6) by simp
  note complete = upload_complete [OF inv this assms(7)]
  show ?thesis
    using complete unfolding d(2) [symmetric]
    by (intro exI [of _ L'] exI [of _ "ai_data (load_account L' buf False)"] conjI run refl d allI impI)
qed

abbreviation example_mint_key :: pubkey where
  "example_mint_key \<equiv> sample_address [mint_buffer_seed, example_operator] example_program"

definition example_mint_ledger :: ledger where
  "example_mint_ledger = [example_mint_key \<mapsto> example_storage 100 example_buffer0,
     example_operator \<mapsto> example_signer example_operator]"

lemma example_mint_key_ne: "example_mint_key \<noteq> example_operator" "example_mint_key \<noteq> zero32"
proof -
  have "hd example_mint_key = 109" by (simp add: sample_address_def mint_buffer_seed_def)
  then have "hd example_mint_key \<noteq> hd example_operator" "hd example_mint_key \<noteq> hd zero32" by simp_all
  then show "example_mint_key \<noteq> example_operator" "example_mint_key \<noteq> zero32" by metis+
qed

lemma example_mint_load:
  "load_account example_mint_ledger example_mint_key False = example_storage 100 example_buffer0"
  "load_account example_mint_ledger example_operator True = example_signer example_operator"
  using example_mint_key_ne by (simp_all add: load_account_def example_mint_ledger_def)
    (simp_all add: example_storage_def example_signer_def)

abbreviation example_mints :: "PendingMint list" where
  "example_mints \<equiv> [\<lparr> pm_recipient = replicate 32 1, pm_amount = 500 \<rparr>]"

lemma example_mint_reinit:
  "\<exists>L1. reinit_pending_mint_buffer sample_runtime ones_digest example_program example_operator example_mint_key
       (of_nat (length example_mints)) example_mint_ledger = Inr L1 \<and>
     length (ai_data (load_account L1 example_mint_key False)) = builder_buffer_size example_mints"
proof -
  let ?sys = "load_account example_mint_ledger system_program_id False"
  obtain accs where r: "pmb_process_instruction sample_runtime ones_digest example_program
     (example_storage 100 example_buffer0 # [example_signer example_operator, ?sys])
     (1 # to_le_bytes (1 :: u16)) = Inr (example_storage 172 example_buffer1 # accs)"
    using example_reinit by blast
  let ?L = "store_accounts (example_storage 172 example_buffer1 # accs) example_mint_ledger"
  have "reinit_pending_mint_buffer sample_runtime ones_digest example_program example_operator example_mint_key
      (of_nat (length example_mints)) example_mint_ledger = Inr ?L"
    using r by (simp add: reinit_pending_mint_buffer_def send_instruction_def pending_mint_reinit_def example_mint_load)
  moreover have "load_account ?L example_mint_key False = (example_storage 172 example_buffer1) \<lparr> ai_is_signer := False \<rparr>"
    by (rule load_store_first) (simp add: example_storage_def)
  ultimately show ?thesis
    by (simp add: builder_buffer_size_def builder_num_groups_def example_storage_def)
qed

theorem mint_upload_any_order_witness:
  "\<exists>L' d. create_pending_mint_buffer sample_runtime ones_digest example_program example_operator example_operator example_locker
       example_mints [0] example_mint_ledger = Inr (L', example_mint_key, 255) \<and>
     d = ai_data (load_account L' example_mint_key False) \<and>
     header_lock (buffer_hdr d) example_locker = Inr ((buffer_hdr d) \<lparr> bh_is_locked := 1 \<rparr>) \<and>
     buffer_mint d 1 0 = \<lparr> pm_recipient = replicate 32 1, pm_amount = 500 \<rparr>"
proof -
  have pda: "rt_find_program_address sample_runtime [mint_buffer_seed, example_operator] example_program = (example_mint_key, 255)"
    by (simp add: sample_runtime_def)
  have ens: "ensure_pending_mint_buffer_exists sample_runtime ones_digest example_program example_operator example_operator
      example_mint_key example_locker example_mint_ledger = Inr example_mint_ledger"
    using example_mint_key_ne by (simp add: ensure_pending_mint_buffer_exists_def example_mint_ledger_def)
  obtain L1 where L1: "reinit_pending_mint_buffer sample_runtime ones_digest example_program example_operator example_mint_key
       (of_nat (length example_mints)) example_mint_ledger = Inr L1"
     "length (ai_data (load_account L1 example_mint_key False)) = builder_buffer_size example_mints"
    using example_mint_reinit by blast
  have lk: "buffer_locker (ai_data (load_account example_mint_ledger example_mint_key False)) = example_locker"
    by (simp add: example_mint_load) (simp add: example_storage_def fresh_header_def)
  show ?thesis
    using mint_upload_any_order [OF sample_runtime_ok ones_digest_ok(1) pda example_mint_key_ne(1) _ _ _ ens L1, of "[0]"]
    unfolding lk by (auto simp: wf_pending_mint_def builder_num_groups_def)
qed

end
