(* ===== verification/HistoryBuffers.thy ===== *)
theory HistoryBuffers
  imports EventMonitor MintUpload "HOL-Library.AList"
begin

text \<open>
  Rebuilding the mints and outputs of a block from the transactions of the operator
  (\<open>clients/rust/src/history.rs\<close>): how a transaction is read, how the walk from the newest to the oldest one collects
  what was written to the two buffers, and how the pieces are put together. A hash map is an association
  list without repeated keys; the order in which Rust walks a hash map is unspecified and a parameter,
  \<open>order\<close>, where the result might depend on it.
\<close>

section \<open>Reading the transactions of the operator\<close>

record HistorySyncConfig =
  hc_program_id :: pubkey
  hc_bridge_state_pda :: pubkey
  hc_pending_mint_program_id :: pubkey
  hc_txo_buffer_program_id :: pubkey
  hc_signature_batch_size :: nat
  hc_include_withdrawals :: bool
  hc_include_manual_deposits :: bool

record ParsedOperatorTx =
  pt_slot :: u64
  pt_is_block_update :: bool
  pt_mint_inserts :: "(pubkey \<times> u16 \<times> PendingMint list) list"
  pt_txo_set_lens :: "(pubkey \<times> u32 \<times> u32) list"
  pt_txo_writes :: "(pubkey \<times> u32 \<times> u32 \<times> bytes) list"
  pt_mint_reinits :: "pubkey list"

text \<open>The method \<open>chunks_exact\<close> of Rust's slices.\<close>

definition chunks_exact :: "nat \<Rightarrow> 'a list \<Rightarrow> 'a list list" where
  "chunks_exact n xs = filter (\<lambda>c. length c = n) (chunks_of n xs)"

definition parse_mints :: "bytes \<Rightarrow> PendingMint list" where
  "parse_mints mint_data = map dec_pending_mint (chunks_exact 40 mint_data)"

definition is_block_update_data :: "bytes \<Rightarrow> bool" where
  "is_block_update_data data \<longleftrightarrow> length data \<ge> 5 \<and> (data ! 4 = 1 \<or> data ! 4 = 8)"

text \<open>The three parts of the loop body of \<open>parse_operator_tx\<close>.\<close>

definition parse_bridge_part :: "HistorySyncConfig \<Rightarrow> pubkey \<Rightarrow> bytes \<Rightarrow> ParsedOperatorTx \<Rightarrow> ParsedOperatorTx" where
  "parse_bridge_part config program_id data parsed =
     (if program_id = hc_program_id config \<and> is_block_update_data data then parsed \<lparr> pt_is_block_update := True \<rparr> else parsed)"

definition parse_mint_part :: "pubkey \<Rightarrow> bytes \<Rightarrow> ParsedOperatorTx \<Rightarrow> ParsedOperatorTx" where
  "parse_mint_part buffer data parsed =
     (let parsed = (if data \<noteq> [] \<and> data ! 0 = 1 then parsed \<lparr> pt_mint_reinits := pt_mint_reinits parsed @ [buffer] \<rparr> else parsed)
      in if length data \<ge> 3 \<and> data ! 0 = 3 \<and> parse_mints (drop 3 data) \<noteq> []
         then parsed \<lparr> pt_mint_inserts := pt_mint_inserts parsed @ [(buffer, from_le_bytes (bslice data 1 3), parse_mints (drop 3 data))] \<rparr>
         else parsed)"

definition parse_txo_part :: "pubkey \<Rightarrow> bytes \<Rightarrow> ParsedOperatorTx \<Rightarrow> ParsedOperatorTx" where
  "parse_txo_part buffer data parsed =
     (let parsed = (if length data \<ge> 14 \<and> data ! 0 = 1
            then parsed \<lparr> pt_txo_set_lens := pt_txo_set_lens parsed @
              [(buffer, from_le_bytes (bslice data 6 10), from_le_bytes (bslice data 1 5))] \<rparr> else parsed)
      in if length data \<ge> 9 \<and> data ! 0 = 2
         then parsed \<lparr> pt_txo_writes := pt_txo_writes parsed @
           [(buffer, from_le_bytes (bslice data 1 5), from_le_bytes (bslice data 5 9), drop 9 data)] \<rparr>
         else parsed)"

definition parse_operator_ix ::
  "HistorySyncConfig \<Rightarrow> pubkey list \<Rightarrow> compiled_instruction \<Rightarrow> ParsedOperatorTx \<Rightarrow> ParsedOperatorTx" where
  "parse_operator_ix config account_keys ix parsed =
     (if unat (ci_program_id_index ix) \<ge> length account_keys then parsed
      else let program_id = account_keys ! unat (ci_program_id_index ix); data = ci_data ix;
               parsed = parse_bridge_part config program_id data parsed
      in if program_id = hc_pending_mint_program_id config \<or> program_id = hc_txo_buffer_program_id config
      then (case key_at account_keys (ci_accounts ix) 0 of
              None \<Rightarrow> parsed
            | Some buffer \<Rightarrow>
                let parsed = (if program_id = hc_pending_mint_program_id config then parse_mint_part buffer data parsed else parsed)
                in if program_id = hc_txo_buffer_program_id config then parse_txo_part buffer data parsed else parsed)
      else parsed)"

definition parse_operator_tx :: "HistorySyncConfig \<Rightarrow> u64 \<Rightarrow> versioned_transaction \<Rightarrow> ParsedOperatorTx" where
  "parse_operator_tx config slot transaction =
     fold (parse_operator_ix config (vt_static_keys transaction)) (vt_instructions transaction)
       \<lparr> pt_slot = slot, pt_is_block_update = False, pt_mint_inserts = [], pt_txo_set_lens = [], pt_txo_writes = [],
         pt_mint_reinits = [] \<rparr>"

section \<open>Collecting what was written to the buffers\<close>

record rebuild_state =
  rs_pending_mints :: "(u16 \<times> PendingMint list) list"
  rs_txo_writes :: "(u32 \<times> bytes) list"
  rs_txo_data_size :: u32
  rs_txo_batch_id :: "u32 option"
  rs_found_block_update :: bool

definition rebuild_start :: rebuild_state where
  "rebuild_start = \<lparr> rs_pending_mints = [], rs_txo_writes = [], rs_txo_data_size = 0, rs_txo_batch_id = None,
     rs_found_block_update = False \<rparr>"

text \<open>The four inner loops; two of them are left early.\<close>

fun reinit_loop :: "pubkey \<Rightarrow> pubkey list \<Rightarrow> rebuild_state \<Rightarrow> rebuild_state" where
  "reinit_loop mint_buffer [] st = st"
| "reinit_loop mint_buffer (buffer # rest) st =
     (if buffer = mint_buffer
      then if rs_found_block_update st then st else reinit_loop mint_buffer rest (st \<lparr> rs_pending_mints := [] \<rparr>)
      else reinit_loop mint_buffer rest st)"

fun insert_loop :: "pubkey \<Rightarrow> (pubkey \<times> u16 \<times> PendingMint list) list \<Rightarrow> rebuild_state \<Rightarrow> rebuild_state" where
  "insert_loop mint_buffer [] st = st"
| "insert_loop mint_buffer ((buffer, group_idx, mints) # rest) st =
     insert_loop mint_buffer rest
       (if buffer = mint_buffer then st \<lparr> rs_pending_mints := AList.update group_idx mints (rs_pending_mints st) \<rparr> else st)"

fun set_len_loop :: "pubkey \<Rightarrow> (pubkey \<times> u32 \<times> u32) list \<Rightarrow> rebuild_state \<Rightarrow> rebuild_state" where
  "set_len_loop txo_buffer [] st = st"
| "set_len_loop txo_buffer ((buffer, batch_id, new_size) # rest) st =
     (if buffer = txo_buffer
      then (case rs_txo_batch_id st of
              None \<Rightarrow> set_len_loop txo_buffer rest (st \<lparr> rs_txo_batch_id := Some batch_id, rs_txo_data_size := new_size \<rparr>)
            | Some current \<Rightarrow>
                if current = batch_id then set_len_loop txo_buffer rest (st \<lparr> rs_txo_data_size := new_size \<rparr>)
                else if rs_found_block_update st then st
                else set_len_loop txo_buffer rest
                       (st \<lparr> rs_txo_writes := [], rs_txo_batch_id := Some batch_id, rs_txo_data_size := new_size \<rparr>))
      else set_len_loop txo_buffer rest st)"

fun write_loop :: "pubkey \<Rightarrow> (pubkey \<times> u32 \<times> u32 \<times> bytes) list \<Rightarrow> rebuild_state \<Rightarrow> rebuild_state" where
  "write_loop txo_buffer [] st = st"
| "write_loop txo_buffer ((buffer, batch_id, offset, data) # rest) st =
     write_loop txo_buffer rest
       (if buffer = txo_buffer \<and> (rs_txo_batch_id st = None \<or> rs_txo_batch_id st = Some batch_id)
        then st \<lparr> rs_txo_batch_id := Some batch_id, rs_txo_writes := AList.update offset data (rs_txo_writes st) \<rparr> else st)"

definition rebuild_tx :: "pubkey \<Rightarrow> pubkey \<Rightarrow> ParsedOperatorTx \<Rightarrow> rebuild_state \<Rightarrow> rebuild_state" where
  "rebuild_tx mint_buffer txo_buffer tx st =
     write_loop txo_buffer (pt_txo_writes tx) (set_len_loop txo_buffer (pt_txo_set_lens tx)
       (insert_loop mint_buffer (pt_mint_inserts tx) (reinit_loop mint_buffer (pt_mint_reinits tx) st)))"

fun rebuild_loop :: "pubkey \<Rightarrow> pubkey \<Rightarrow> ParsedOperatorTx list \<Rightarrow> rebuild_state \<Rightarrow> rebuild_state" where
  "rebuild_loop mint_buffer txo_buffer [] st = st"
| "rebuild_loop mint_buffer txo_buffer (tx # txs) st =
     (if pt_is_block_update tx \<and> rs_found_block_update st then st
      else rebuild_loop mint_buffer txo_buffer txs (rebuild_tx mint_buffer txo_buffer tx
        (if pt_is_block_update tx then st \<lparr> rs_found_block_update := True \<rparr> else st)))"

section \<open>Putting the pieces together\<close>

definition assemble_mints :: "(u16 \<times> PendingMint list) list \<Rightarrow> PendingMint list" where
  "assemble_mints pending_mints =
     concat (map (\<lambda>idx. case map_of pending_mints idx of Some mints \<Rightarrow> mints | None \<Rightarrow> []) (sort (map fst pending_mints)))"

text \<open>A write that starts after the end makes the length of the copy underflow.\<close>

fun copy_writes :: "(u32 \<times> bytes) list \<Rightarrow> bytes \<Rightarrow> ClientError fault + bytes" where
  "copy_writes [] raw_data = Inr raw_data"
| "copy_writes ((offset, data) # rest) raw_data =
     (let start = unat offset; stop = min (start + length data) (length raw_data)
      in if stop < start then Inl Panic
      else copy_writes rest (if stop - start > 0 then write_at raw_data start (take (stop - start) data) else raw_data))"

definition assemble_txo_indices ::
  "((u32 \<times> bytes) list \<Rightarrow> (u32 \<times> bytes) list) \<Rightarrow> (u32 \<times> bytes) list \<Rightarrow> u32 \<Rightarrow> ClientError fault + u32 list" where
  "assemble_txo_indices order writes expected_size =
     (if writes = [] \<or> expected_size = 0 then Inr []
      else rbind (copy_writes (order writes) (replicate (unat expected_size) 0)) (\<lambda>raw_data.
           Inr (map from_le_bytes (chunks_exact 4 raw_data))))"

definition rebuild_result ::
  "((u32 \<times> bytes) list \<Rightarrow> (u32 \<times> bytes) list) \<Rightarrow> rebuild_state \<Rightarrow> ClientError fault + (PendingMint list \<times> u32 list)" where
  "rebuild_result order st =
     rbind (assemble_txo_indices order (rs_txo_writes st) (rs_txo_data_size st)) (\<lambda>txo_indices.
     Inr (assemble_mints (rs_pending_mints st), txo_indices))"

definition reconstruct_buffers_from_cache ::
  "((u32 \<times> bytes) list \<Rightarrow> (u32 \<times> bytes) list) \<Rightarrow> ParsedOperatorTx list \<Rightarrow> pubkey \<Rightarrow> pubkey \<Rightarrow> u64 \<Rightarrow>
   ClientError fault + (PendingMint list \<times> u32 list)" where
  "reconstruct_buffers_from_cache order transactions mint_buffer txo_buffer block_update_slot =
     rebuild_result order (rebuild_loop mint_buffer txo_buffer
       (filter (\<lambda>tx. pt_slot tx \<le> block_update_slot) transactions) rebuild_start)"

section \<open>Reading the instructions of the client\<close>

lemma chunks_exact_concat:
  assumes "\<forall>x \<in> set xs. length (f x) = n" and "0 < n"
  shows "chunks_exact n (concat (map f xs)) = map f xs"
  using assms(1)
proof (induction xs)
  case Nil
  then show ?case by (simp add: chunks_exact_def chunks_of.simps)
next
  case (Cons x xs)
  then have "chunks_of n (concat (map f (x # xs))) = f x # chunks_of n (concat (map f xs))"
    using assms(2) by (subst chunks_of.simps) auto
  with Cons show ?case by (simp add: chunks_exact_def)
qed

lemma parse_mints_group:
  assumes "\<forall>m \<in> set mints. wf_pending_mint m"
  shows "parse_mints (builder_serialize_group mints g) = builder_get_group mints g"
proof -
  have wf: "\<forall>m \<in> set (builder_get_group mints g). wf_pending_mint m" using assms set_get_group [of mints g] by auto
  then have "chunks_exact 40 (concat (map enc_pending_mint (builder_get_group mints g))) = map enc_pending_mint (builder_get_group mints g)"
    by (intro chunks_exact_concat) (simp_all add: pending_mint.enc_length)
  then show ?thesis using wf by (simp add: parse_mints_def builder_serialize_group_def pending_mint.dec_enc map_idI)
qed

text \<open>A transaction that carries one instruction, as the buffer managers send them.\<close>

definition carries :: "versioned_transaction \<Rightarrow> Instruction \<Rightarrow> bool" where
  "carries vt ix \<longleftrightarrow> (\<exists>ci. vt_instructions vt = [ci] \<and> recorded (vt_static_keys vt) ix ci)"

definition blank_tx :: "u64 \<Rightarrow> ParsedOperatorTx" where
  "blank_tx slot = \<lparr> pt_slot = slot, pt_is_block_update = False, pt_mint_inserts = [], pt_txo_set_lens = [], pt_txo_writes = [],
     pt_mint_reinits = [] \<rparr>"

lemma parse_carried:
  assumes "carries vt ix" and "ix_accounts ix \<noteq> []"
  shows "parse_operator_tx config slot vt =
    (let parsed = parse_bridge_part config (ix_program_id ix) (ix_data ix) (blank_tx slot);
         parsed = (if ix_program_id ix = hc_pending_mint_program_id config
                   then parse_mint_part (am_pubkey (hd (ix_accounts ix))) (ix_data ix) parsed else parsed)
     in if ix_program_id ix = hc_txo_buffer_program_id config
        then parse_txo_part (am_pubkey (hd (ix_accounts ix))) (ix_data ix) parsed else parsed)"
proof -
  obtain ci where ci: "vt_instructions vt = [ci]" "recorded (vt_static_keys vt) ix ci" using assms(1) by (auto simp: carries_def)
  have "key_at (vt_static_keys vt) (ci_accounts ci) 0 = Some (am_pubkey (hd (ix_accounts ix)))"
    using key_at_compiled [of "vt_static_keys vt" ix "ci_program_id_index ci" "ci_accounts ci" 0] ci(2) assms(2)
    by (simp add: recorded_def hd_conv_nth)
  then show ?thesis
    using recorded_parts [OF ci(2)] ci(1) by (simp add: parse_operator_tx_def parse_operator_ix_def blank_tx_def Let_def)
qed

lemma parsed_slot: "pt_slot (parse_operator_tx config slot vt) = slot"
proof -
  have "pt_slot (parse_operator_ix config keys ix p) = pt_slot p" for keys ix p
    by (simp add: parse_operator_ix_def parse_bridge_part_def parse_mint_part_def parse_txo_part_def Let_def split: option.split)
  then have "pt_slot (fold (parse_operator_ix config keys) ixs p) = pt_slot p" for keys ixs p by (induction ixs arbitrary: p) simp_all
  then show ?thesis by (simp add: parse_operator_tx_def)
qed

definition distinct_programs :: "HistorySyncConfig \<Rightarrow> bool" where
  "distinct_programs config \<longleftrightarrow>
     distinct [hc_program_id config, hc_pending_mint_program_id config, hc_txo_buffer_program_id config]"

lemma distinct_programsD:
  assumes "distinct_programs config"
  shows "hc_program_id config \<noteq> hc_pending_mint_program_id config" "hc_pending_mint_program_id config \<noteq> hc_program_id config"
    "hc_program_id config \<noteq> hc_txo_buffer_program_id config" "hc_txo_buffer_program_id config \<noteq> hc_program_id config"
    "hc_pending_mint_program_id config \<noteq> hc_txo_buffer_program_id config"
    "hc_txo_buffer_program_id config \<noteq> hc_pending_mint_program_id config"
  using assms by (auto simp: distinct_programs_def)

lemma parse_uploads:
  assumes "distinct_programs config"
  shows "carries vt (pending_mint_reinit (hc_pending_mint_program_id config) buf payer n) \<Longrightarrow>
      parse_operator_tx config slot vt = (blank_tx slot) \<lparr> pt_mint_reinits := [buf] \<rparr>"
    and "carries vt (pending_mint_insert (hc_pending_mint_program_id config) buf payer g d) \<Longrightarrow> parse_mints d \<noteq> [] \<Longrightarrow>
      parse_operator_tx config slot vt = (blank_tx slot) \<lparr> pt_mint_inserts := [(buf, g, parse_mints d)] \<rparr>"
    and "carries vt (txo_buffer_set_len (hc_txo_buffer_program_id config) buf payer writer len resize batch height fin) \<Longrightarrow>
      parse_operator_tx config slot vt = (blank_tx slot) \<lparr> pt_txo_set_lens := [(buf, batch, len)] \<rparr>"
    and "carries vt (txo_buffer_write (hc_txo_buffer_program_id config) buf writer batch offset c) \<Longrightarrow>
      parse_operator_tx config slot vt = (blank_tx slot) \<lparr> pt_txo_writes := [(buf, batch, offset, c)] \<rparr>"
  by (simp_all add: distinct_programsD [OF assms] parse_carried parse_bridge_part_def parse_mint_part_def parse_txo_part_def
      pending_mint_reinit_def pending_mint_insert_def txo_buffer_set_len_def txo_buffer_write_def blank_tx_def Let_def bslice_def
      from_to_le_bytes_sized)

lemma parse_block_update:
  assumes "distinct_programs config" and "block_update_ix rt ids (hc_program_id config) payer pf header op mb tb b1 b2 = Inr ix"
    and "carries vt ix"
  shows "parse_operator_tx config slot vt = (blank_tx slot) \<lparr> pt_is_block_update := True \<rparr>"
proof -
  have ix: "ix_program_id ix = hc_program_id config" "ix_accounts ix \<noteq> []" "length (ix_data ix) \<ge> 5" "ix_data ix ! 4 = 1"
    using assms(2) by (auto simp: block_update_ix_def with_bumps_ok nth_append)
  then show ?thesis
    by (simp add: distinct_programsD [OF assms(1)] parse_carried [OF assms(3)] parse_bridge_part_def is_block_update_data_def Let_def)
qed

section \<open>What the walk collects of an upload\<close>

definition group_entry :: "PendingMint list \<Rightarrow> u16 \<times> PendingMint list \<Rightarrow> bool" where
  "group_entry mints e \<longleftrightarrow> (\<exists>k < builder_num_groups mints. e = (of_nat k, builder_get_group mints k))"

definition chunk_entry :: "bytes \<Rightarrow> u32 \<times> bytes \<Rightarrow> bool" where
  "chunk_entry d e \<longleftrightarrow> (\<exists>(off, c) \<in> set (upload_chunks d). e = (of_nat off, c))"

text \<open>A transaction that only takes part in the upload of \<open>mints\<close> and \<open>d\<close>, or touches other buffers.\<close>

definition upload_tx :: "pubkey \<Rightarrow> pubkey \<Rightarrow> PendingMint list \<Rightarrow> bytes \<Rightarrow> u32 \<Rightarrow> ParsedOperatorTx \<Rightarrow> bool" where
  "upload_tx mb tb mints d batch p \<longleftrightarrow> \<not> pt_is_block_update p \<and>
     (\<forall>e. (mb, e) \<in> set (pt_mint_inserts p) \<longrightarrow> group_entry mints e) \<and>
     (\<forall>b n. (tb, b, n) \<in> set (pt_txo_set_lens p) \<longrightarrow> b = batch \<and> n = of_nat (length d)) \<and>
     (\<forall>b e. (tb, b, e) \<in> set (pt_txo_writes p) \<longrightarrow> b = batch \<and> chunk_entry d e)"

definition collected :: "PendingMint list \<Rightarrow> bytes \<Rightarrow> u32 \<Rightarrow> rebuild_state \<Rightarrow> bool" where
  "collected mints d batch st \<longleftrightarrow> rs_found_block_update st \<and> distinct (map fst (rs_pending_mints st)) \<and>
     (\<forall>e \<in> set (rs_pending_mints st). group_entry mints e) \<and> (\<forall>e \<in> set (rs_txo_writes st). chunk_entry d e) \<and>
     distinct (map fst (rs_txo_writes st)) \<and> (rs_txo_batch_id st = None \<or> rs_txo_batch_id st = Some batch)"

lemma set_alist_update: "set (AList.update k v al) \<subseteq> insert (k, v) (set al)"
  by (induction al) auto

lemma keys_alist_update: "fst ` set (AList.update k v al) = insert k (fst ` set al)"
  using dom_update [of k v al] by (simp add: dom_map_of_conv_image_fst)

lemma reinit_found: "rs_found_block_update st \<Longrightarrow> reinit_loop mb bs st = st"
  by (induction bs) auto

lemma insert_loop_collects:
  assumes "\<forall>e. (mb, e) \<in> set ins \<longrightarrow> group_entry mints e" and "collected mints d batch st"
  shows "collected mints d batch (insert_loop mb ins st) \<and>
    fst ` set (rs_pending_mints (insert_loop mb ins st)) = fst ` set (rs_pending_mints st) \<union> {g. \<exists>ms. (mb, g, ms) \<in> set ins} \<and>
    rs_txo_writes (insert_loop mb ins st) = rs_txo_writes st \<and> rs_txo_data_size (insert_loop mb ins st) = rs_txo_data_size st"
  using assms
proof (induction mb ins st rule: insert_loop.induct)
  case (2 mb buf g ms rest st)
  let ?st = "if buf = mb then st \<lparr> rs_pending_mints := AList.update g ms (rs_pending_mints st) \<rparr> else st"
  have "collected mints d batch ?st"
    using 2 set_alist_update [of g ms "rs_pending_mints st"] by (fastforce simp: collected_def distinct_update)
  moreover have "fst ` set (rs_pending_mints ?st) = fst ` set (rs_pending_mints st) \<union> {k. \<exists>ms'. (mb, k, ms') = (buf, g, ms)}"
    by (auto simp: keys_alist_update)
  ultimately show ?case using 2 by auto
qed simp

lemma set_len_loop_collects:
  assumes "\<forall>b n. (tb, b, n) \<in> set lens \<longrightarrow> b = batch \<and> n = tot" and "collected mints d batch st"
  shows "collected mints d batch (set_len_loop tb lens st) \<and> rs_pending_mints (set_len_loop tb lens st) = rs_pending_mints st \<and>
    rs_txo_writes (set_len_loop tb lens st) = rs_txo_writes st \<and>
    rs_txo_data_size (set_len_loop tb lens st) = (if \<exists>b n. (tb, b, n) \<in> set lens then tot else rs_txo_data_size st)"
  using assms
proof (induction tb lens st rule: set_len_loop.induct)
  case (2 tb buf b n rest st)
  show ?case
  proof (cases "buf = tb")
    case False
    with 2 show ?thesis by simp
  next
    case True
    then have bn: "b = batch" "n = tot" using 2(5) by auto
    have rest: "\<forall>b n. (tb, b, n) \<in> set rest \<longrightarrow> b = batch \<and> n = tot" using 2(5) by simp
    show ?thesis
    proof (cases "rs_txo_batch_id st")
      case None
      have "collected mints d batch (st \<lparr> rs_txo_batch_id := Some b, rs_txo_data_size := n \<rparr>)"
        using 2(6) bn by (simp add: collected_def)
      then show ?thesis using 2(1) [OF True None rest] True bn None by auto
    next
      case (Some cur)
      then have cur: "cur = b" using 2(6) bn by (simp add: collected_def)
      have "collected mints d batch (st \<lparr> rs_txo_data_size := n \<rparr>)" using 2(6) by (simp add: collected_def)
      then show ?thesis using 2(2) [OF True Some cur rest] True bn Some cur by auto
    qed
  qed
qed simp

lemma write_loop_collects:
  assumes "\<forall>b e. (tb, b, e) \<in> set ws \<longrightarrow> b = batch \<and> chunk_entry d e" and "collected mints d batch st"
  shows "collected mints d batch (write_loop tb ws st) \<and> rs_pending_mints (write_loop tb ws st) = rs_pending_mints st \<and>
    fst ` set (rs_txo_writes (write_loop tb ws st)) = fst ` set (rs_txo_writes st) \<union> {k. \<exists>b c. (tb, b, k, c) \<in> set ws} \<and>
    rs_txo_data_size (write_loop tb ws st) = rs_txo_data_size st"
  using assms
proof (induction tb ws st rule: write_loop.induct)
  case (2 tb buf b k c rest st)
  let ?st = "if buf = tb then st \<lparr> rs_txo_batch_id := Some b, rs_txo_writes := AList.update k c (rs_txo_writes st) \<rparr> else st"
  have step: "write_loop tb ((buf, b, k, c) # rest) st = write_loop tb rest ?st"
    using 2(2,3) by (auto simp: collected_def)
  have inv: "collected mints d batch ?st"
    using 2(2,3) set_alist_update [of k c "rs_txo_writes st"] by (fastforce simp: collected_def distinct_update)
  have keys: "fst ` set (rs_txo_writes ?st) = fst ` set (rs_txo_writes st) \<union> {x. \<exists>b' c'. (tb, b', x, c') = (buf, b, k, c)}"
    by (auto simp: keys_alist_update)
  have "(if buf = tb \<and> (rs_txo_batch_id st = None \<or> rs_txo_batch_id st = Some b)
      then st \<lparr> rs_txo_batch_id := Some b, rs_txo_writes := AList.update k c (rs_txo_writes st) \<rparr> else st) = ?st"
    using 2(2,3) by (auto simp: collected_def)
  then show ?case unfolding step using 2(1,2) inv keys by auto
qed simp

definition groups_in :: "pubkey \<Rightarrow> ParsedOperatorTx list \<Rightarrow> u16 set" where
  "groups_in mb ps = (\<Union>p \<in> set ps. {g. \<exists>ms. (mb, g, ms) \<in> set (pt_mint_inserts p)})"

definition offsets_in :: "pubkey \<Rightarrow> ParsedOperatorTx list \<Rightarrow> u32 set" where
  "offsets_in tb ps = (\<Union>p \<in> set ps. {k. \<exists>b c. (tb, b, k, c) \<in> set (pt_txo_writes p)})"

definition sized_in :: "pubkey \<Rightarrow> ParsedOperatorTx list \<Rightarrow> bool" where
  "sized_in tb ps \<longleftrightarrow> (\<exists>p \<in> set ps. \<exists>b n. (tb, b, n) \<in> set (pt_txo_set_lens p))"

lemma rebuild_tx_collects:
  assumes "upload_tx mb tb mints d batch p" and "collected mints d batch st"
  shows "collected mints d batch (rebuild_tx mb tb p st) \<and>
    fst ` set (rs_pending_mints (rebuild_tx mb tb p st)) = fst ` set (rs_pending_mints st) \<union> groups_in mb [p] \<and>
    fst ` set (rs_txo_writes (rebuild_tx mb tb p st)) = fst ` set (rs_txo_writes st) \<union> offsets_in tb [p] \<and>
    rs_txo_data_size (rebuild_tx mb tb p st) = (if sized_in tb [p] then of_nat (length d) else rs_txo_data_size st)"
proof -
  let ?st1 = "insert_loop mb (pt_mint_inserts p) st" and ?st2 = "set_len_loop tb (pt_txo_set_lens p) (insert_loop mb (pt_mint_inserts p) st)"
  have "reinit_loop mb (pt_mint_reinits p) st = st" using assms(2) by (intro reinit_found) (simp add: collected_def)
  then have eq: "rebuild_tx mb tb p st = write_loop tb (pt_txo_writes p) ?st2" by (simp add: rebuild_tx_def)
  have e: "\<forall>e. (mb, e) \<in> set (pt_mint_inserts p) \<longrightarrow> group_entry mints e"
    "\<forall>b n. (tb, b, n) \<in> set (pt_txo_set_lens p) \<longrightarrow> b = batch \<and> n = of_nat (length d)"
    "\<forall>b e. (tb, b, e) \<in> set (pt_txo_writes p) \<longrightarrow> b = batch \<and> chunk_entry d e"
    using assms(1) by (simp_all add: upload_tx_def)
  note 1 = insert_loop_collects [OF e(1) assms(2)]
  note 2 = set_len_loop_collects [OF e(2) conjunct1 [OF 1]]
  note 3 = write_loop_collects [OF e(3) conjunct1 [OF 2]]
  show ?thesis unfolding eq using 1 2 3 by (simp add: groups_in_def offsets_in_def sized_in_def)
qed

text \<open>The walk over the uploads ends with nothing left or at the previous block update.\<close>

lemma rebuild_loop_collects:
  assumes "\<forall>p \<in> set ps. upload_tx mb tb mints d batch p" and "collected mints d batch st"
    and "older = [] \<or> pt_is_block_update (hd older)"
  shows "collected mints d batch (rebuild_loop mb tb (ps @ older) st) \<and>
    fst ` set (rs_pending_mints (rebuild_loop mb tb (ps @ older) st)) = fst ` set (rs_pending_mints st) \<union> groups_in mb ps \<and>
    fst ` set (rs_txo_writes (rebuild_loop mb tb (ps @ older) st)) = fst ` set (rs_txo_writes st) \<union> offsets_in tb ps \<and>
    rs_txo_data_size (rebuild_loop mb tb (ps @ older) st) = (if sized_in tb ps then of_nat (length d) else rs_txo_data_size st)"
  using assms(1,2)
proof (induction ps arbitrary: st)
  case Nil
  then have "rebuild_loop mb tb older st = st" using assms(3) by (cases older) (auto simp: collected_def)
  then show ?case using Nil by (simp add: groups_in_def offsets_in_def sized_in_def)
next
  case (Cons p ps)
  have "\<not> pt_is_block_update p" using Cons.prems(1) by (simp add: upload_tx_def)
  then have step: "rebuild_loop mb tb ((p # ps) @ older) st = rebuild_loop mb tb (ps @ older) (rebuild_tx mb tb p st)" by simp
  have p: "upload_tx mb tb mints d batch p" "\<forall>p \<in> set ps. upload_tx mb tb mints d batch p" using Cons.prems(1) by simp_all
  note one = rebuild_tx_collects [OF p(1) Cons.prems(2)]
  note rest = Cons.IH [OF p(2) conjunct1 [OF one]]
  show ?case unfolding step using one rest by (auto simp: groups_in_def offsets_in_def sized_in_def)
qed

section \<open>Putting an upload together\<close>

interpretation raw_store: chunk_store "\<lambda>raw off xs. Inr (write_at raw (unat off) xs)" "\<lambda>raw. raw" "\<lambda>_. True"
  by unfold_locales simp

lemma copy_writes_send:
  assumes "\<forall>(k, c) \<in> set ws. unat k + length c \<le> length raw"
  shows "\<exists>raw'. send_chunks (\<lambda>raw off xs. Inr (write_at raw (unat off) xs)) (map (\<lambda>(k, c). (unat k, c)) ws) raw = Inr raw' \<and>
    copy_writes ws raw = Inr raw'"
  using assms
proof (induction ws arbitrary: raw)
  case (Cons w ws)
  obtain k c where w: "w = (k, c)" by (cases w)
  have fits: "unat k + length c \<le> length raw" using Cons.prems w by simp
  have "write_at raw (unat k) c = raw" if "c = []" using that fits by (simp add: write_at_def)
  then have "copy_writes (w # ws) raw = copy_writes ws (write_at raw (unat k) c)" using fits by (auto simp: w Let_def min_def)
  moreover have "\<forall>(k', c') \<in> set ws. unat k' + length c' \<le> length (write_at raw (unat k) c)" using Cons.prems fits by auto
  ultimately show ?case using Cons.IH [of "write_at raw (unat k) c"] by (simp add: w)
qed simp

lemma chunk_entries_all:
  assumes "\<forall>e \<in> set ws. chunk_entry d e" and "fst ` set ws = of_nat ` fst ` set (upload_chunks d)" and "length d < 2 ^ 32"
  shows "set (map (\<lambda>(k, c). (unat k, c)) ws) = set (upload_chunks d)"
proof -
  have small: "unat (of_nat off :: u32) = off" if "(off, c) \<in> set (upload_chunks d)" for off c
  proof -
    have "off < 2 ^ 32" using upload_chunks_pieces [of d] that assms(3) by (force simp: pieces_of_def)
    then show ?thesis by (simp add: unat_of_nat)
  qed
  have same_chunk: "c = c'" if "(off, c) \<in> set (upload_chunks d)" "(off, c') \<in> set (upload_chunks d)" for off c c'
    using that by (auto simp: upload_chunks_eq)
  show ?thesis
  proof (intro equalityI subsetI)
    fix x assume "x \<in> set (map (\<lambda>(k, c). (unat k, c)) ws)"
    then show "x \<in> set (upload_chunks d)" using assms(1) small by (fastforce simp: chunk_entry_def)
  next
    fix x assume x: "x \<in> set (upload_chunks d)"
    obtain off c where oc: "x = (off, c)" by (cases x)
    then have "of_nat off \<in> fst ` set ws" using assms(2) x by force
    then obtain c' where w: "(of_nat off, c') \<in> set ws" by auto
    then obtain off' where off': "(off', c') \<in> set (upload_chunks d)" "(of_nat off :: u32) = of_nat off'"
      using assms(1) by (force simp: chunk_entry_def)
    then have "off' = off" using small x oc by metis
    then have "c' = c" using same_chunk off'(1) x oc by blast
    then show "x \<in> set (map (\<lambda>(k, c). (unat k, c)) ws)" using w small x oc by force
  qed
qed

lemma assemble_upload:
  assumes "\<forall>e \<in> set ws. chunk_entry (serialize_all indices) e"
    and "fst ` set ws = of_nat ` fst ` set (upload_chunks (serialize_all indices))" and "4 * length indices < 2 ^ 32"
    and "\<And>xs. mset (order xs) = mset xs"
  shows "assemble_txo_indices order ws (of_nat (length (serialize_all indices))) = Inr indices"
proof (cases "indices = []")
  case True
  then show ?thesis by (simp add: assemble_txo_indices_def serialize_all_def)
next
  case False
  let ?d = "serialize_all indices"
  have size: "unat (of_nat (length ?d) :: u32) = length ?d"
    using assms(3) by (simp only: unat_of_nat length_serialize_all) simp
  then have nonzero: "(of_nat (length ?d) :: u32) \<noteq> 0" using False by (metis length_0_conv length_serialize_all mult_eq_0_iff unat_0 zero_neq_numeral)
  have ord: "set (order ws) = set ws" using assms(4) [of ws] by (metis set_mset_mset)
  have all: "set (map (\<lambda>(k, c). (unat k, c)) (order ws)) = set (upload_chunks ?d)"
    using chunk_entries_all [OF assms(1,2)] assms(3) ord by simp
  have ne: "ws \<noteq> []" using chunk_entries_all [OF assms(1,2)] assms(3) False upload_chunks_covered [of 0 ?d] by (auto simp: covered_def)
  have "\<forall>(k, c) \<in> set (order ws). unat k + length c \<le> length (replicate (length ?d) (0 :: u8))"
    using upload_chunks_pieces [of ?d] all by (fastforce simp: pieces_of_def)
  from copy_writes_send [OF this] obtain raw where raw: "copy_writes (order ws) (replicate (length ?d) 0) = Inr raw"
      "send_chunks (\<lambda>raw off xs. Inr (write_at raw (unat off) xs)) (map (\<lambda>(k, c). (unat k, c)) (order ws)) (replicate (length ?d) 0) = Inr raw"
    by blast
  then have "raw = ?d"
    using raw_store.upload_ok [OF all, of "replicate (length ?d) 0"] assms(3) by simp
  moreover have "map from_le_bytes (chunks_exact 4 ?d) = indices"
    unfolding serialize_all_def by (subst chunks_exact_concat) (simp_all add: map_idI)
  ultimately show ?thesis
    using raw(1) ne nonzero size by (simp add: assemble_txo_indices_def)
qed

lemma get_group_take: "builder_get_group mints k = take 24 (drop (24 * k) mints)"
  by (simp add: builder_get_group_def Let_def bslice_def min_def mult.commute)

lemma concat_groups: "concat (map (builder_get_group mints) [0..<builder_num_groups mints]) = mints"
proof -
  have "concat (map (builder_get_group mints) [0..<n]) = take (24 * n) mints" for n
    by (induction n) (simp_all add: get_group_take take_add [symmetric] add.commute)
  moreover have "length mints \<le> 24 * builder_num_groups mints" unfolding builder_num_groups_eq group_count_def by simp
  ultimately show ?thesis by simp
qed

lemma sort_group_keys:
  assumes "distinct ks" and "set ks = (of_nat ` {..<n} :: u16 set)" and "n \<le> 65536"
  shows "sort ks = map of_nat [0..<n]"
proof (rule sorted_distinct_set_unique)
  have small: "unat (of_nat k :: u16) = k" if "k < n" for k using that assms(3) by (simp add: unat_of_nat)
  then have "sorted_wrt (\<lambda>a b. (of_nat a :: u16) \<le> of_nat b) [0..<n]"
    by (intro sorted_wrt_mono_rel [OF _ sorted_wrt_upt]) (auto simp: word_le_nat_alt)
  then show "sorted (map of_nat [0..<n] :: u16 list)" by (simp add: sorted_wrt_map)
  have "inj_on (of_nat :: nat \<Rightarrow> u16) {..<n}" using small by (metis inj_on_inverseI lessThan_iff)
  then show "distinct (map of_nat [0..<n] :: u16 list)" by (simp add: distinct_map atLeast0LessThan)
qed (use assms in \<open>auto simp: atLeast0LessThan\<close>)

lemma assemble_groups:
  assumes "distinct (map fst gs)" and "\<forall>e \<in> set gs. group_entry mints e"
    and "fst ` set gs = of_nat ` {..<builder_num_groups mints}" and "builder_num_groups mints \<le> 65536"
  shows "assemble_mints gs = mints"
proof -
  let ?n = "builder_num_groups mints"
  have found: "map_of gs (of_nat k) = Some (builder_get_group mints k)" if "k < ?n" for k
  proof -
    have "of_nat k \<in> fst ` set gs" unfolding assms(3) using that by (intro imageI) simp
    then obtain ms where ms: "(of_nat k, ms) \<in> set gs" by auto
    then obtain j where j: "j < ?n" "(of_nat k :: u16) = of_nat j" "ms = builder_get_group mints j"
      using assms(2) by (auto simp: group_entry_def)
    have "k < 65536" "j < 65536" using that j(1) assms(4) by linarith+
    then have "unat (of_nat k :: u16) = k" "unat (of_nat j :: u16) = j" by (simp_all add: unat_of_nat)
    then have "j = k" using j(2) by metis
    then show ?thesis using map_of_is_SomeI [OF assms(1) ms] j(3) by simp
  qed
  have keys: "sort (map fst gs) = map of_nat [0..<?n]"
    by (rule sort_group_keys) (use assms in simp_all)
  have "map (\<lambda>idx. case map_of gs idx of Some ms \<Rightarrow> ms | None \<Rightarrow> []) (map of_nat [0..<?n]) = map (builder_get_group mints) [0..<?n]"
    unfolding list.map_comp by (rule map_cong [OF refl]) (simp add: found)
  then show ?thesis unfolding assemble_mints_def keys by (simp only: concat_groups)
qed

section \<open>The instructions of an upload\<close>

text \<open>What the client sends for the mints and outputs of one block, once or repeatedly and in any order.\<close>

definition upload_instructions ::
  "HistorySyncConfig \<Rightarrow> pubkey \<Rightarrow> pubkey \<Rightarrow> pubkey \<Rightarrow> PendingMint list \<Rightarrow> u32 list \<Rightarrow> u32 \<Rightarrow> u32 \<Rightarrow> Instruction set" where
  "upload_instructions config operator mint_buffer txo_buffer mints indices batch_id height =
     {pending_mint_reinit (hc_pending_mint_program_id config) mint_buffer operator (of_nat (length mints))} \<union>
     {pending_mint_insert (hc_pending_mint_program_id config) mint_buffer operator (of_nat g) (builder_serialize_group mints g) | g.
        g < builder_num_groups mints} \<union>
     {txo_buffer_set_len (hc_txo_buffer_program_id config) txo_buffer operator operator (of_nat (length (serialize_all indices)))
        resize batch_id height finalize | resize finalize. resize \<noteq> finalize} \<union>
     {txo_buffer_write (hc_txo_buffer_program_id config) txo_buffer operator batch_id (of_nat off) c | off c.
        (off, c) \<in> set (upload_chunks (serialize_all indices))}"

definition uploads_done ::
  "HistorySyncConfig \<Rightarrow> pubkey \<Rightarrow> pubkey \<Rightarrow> pubkey \<Rightarrow> PendingMint list \<Rightarrow> u32 list \<Rightarrow> u32 \<Rightarrow> u32 \<Rightarrow> (u64 \<times> versioned_transaction) list \<Rightarrow> bool" where
  "uploads_done config operator mint_buffer txo_buffer mints indices batch_id height ups \<longleftrightarrow>
     (let ixs = upload_instructions config operator mint_buffer txo_buffer mints indices batch_id height
      in (\<forall>(slot, vt) \<in> set ups. \<exists>ix \<in> ixs. carries vt ix) \<and> (\<forall>ix \<in> ixs. \<exists>(slot, vt) \<in> set ups. carries vt ix))"

lemma group_nonempty: "g < builder_num_groups mints \<Longrightarrow> builder_get_group mints g \<noteq> []"
proof -
  assume "g < builder_num_groups mints"
  then have "24 * g < length mints" unfolding builder_num_groups_eq by (rule group_below)
  then show ?thesis by (simp add: get_group_take)
qed

lemma parse_insert:
  assumes "distinct_programs config" and "\<forall>m \<in> set mints. wf_pending_mint m" and "g < builder_num_groups mints"
    and "carries vt (pending_mint_insert (hc_pending_mint_program_id config) mb op (of_nat g) (builder_serialize_group mints g))"
  shows "parse_operator_tx config slot vt = (blank_tx slot) \<lparr> pt_mint_inserts := [(mb, of_nat g, builder_get_group mints g)] \<rparr>"
  using parse_uploads(2) [OF assms(1,4)] parse_mints_group [OF assms(2)] group_nonempty [OF assms(3)] by simp

lemma upload_ix_parsed:
  assumes "distinct_programs config" and "\<forall>m \<in> set mints. wf_pending_mint m"
    and "ix \<in> upload_instructions config op mb tb mints indices batch height" and "carries vt ix"
  shows "upload_tx mb tb mints (serialize_all indices) batch (parse_operator_tx config slot vt)"
  using assms(3) unfolding upload_instructions_def
proof (elim UnE CollectE exE conjE singletonE)
  assume "ix = pending_mint_reinit (hc_pending_mint_program_id config) mb op (of_nat (length mints))"
  then show ?thesis using parse_uploads(1) [OF assms(1)] assms(4) by (simp add: upload_tx_def blank_tx_def)
next
  fix g assume "ix = pending_mint_insert (hc_pending_mint_program_id config) mb op (of_nat g) (builder_serialize_group mints g)"
    and g: "g < builder_num_groups mints"
  then have "parse_operator_tx config slot vt = (blank_tx slot) \<lparr> pt_mint_inserts := [(mb, of_nat g, builder_get_group mints g)] \<rparr>"
    using parse_insert [OF assms(1,2)] assms(4) by simp
  then show ?thesis using g by (auto simp: upload_tx_def blank_tx_def group_entry_def)
next
  fix resize fin assume "ix = txo_buffer_set_len (hc_txo_buffer_program_id config) tb op op
      (of_nat (length (serialize_all indices))) resize batch height fin"
  then show ?thesis using parse_uploads(3) [OF assms(1)] assms(4) by (simp add: upload_tx_def blank_tx_def)
next
  fix off c assume "ix = txo_buffer_write (hc_txo_buffer_program_id config) tb op batch (of_nat off) c"
    and c: "(off, c) \<in> set (upload_chunks (serialize_all indices))"
  then have "parse_operator_tx config slot vt = (blank_tx slot) \<lparr> pt_txo_writes := [(tb, batch, of_nat off, c)] \<rparr>"
    using parse_uploads(4) [OF assms(1)] assms(4) by simp
  then show ?thesis using c by (auto simp: upload_tx_def blank_tx_def chunk_entry_def)
qed

lemma uploads_parsed:
  assumes "distinct_programs config" and "\<forall>m \<in> set mints. wf_pending_mint m"
    and "uploads_done config op mb tb mints indices batch height ups"
  defines "ps \<equiv> map (\<lambda>(slot, vt). parse_operator_tx config slot vt) ups"
  shows "\<forall>p \<in> set ps. upload_tx mb tb mints (serialize_all indices) batch p"
    and "groups_in mb ps = of_nat ` {..<builder_num_groups mints}"
    and "offsets_in tb ps = of_nat ` fst ` set (upload_chunks (serialize_all indices))"
    and "sized_in tb ps"
proof -
  let ?ixs = "upload_instructions config op mb tb mints indices batch height" and ?d = "serialize_all indices"
  have sent: "\<exists>slot vt. (slot, vt) \<in> set ups \<and> carries vt ix" if "ix \<in> ?ixs" for ix
    using assms(3) that by (fastforce simp: uploads_done_def Let_def)
  have in_ps: "parse_operator_tx config slot vt \<in> set ps" if "(slot, vt) \<in> set ups" for slot vt
    using that by (force simp: ps_def)
  show all: "\<forall>p \<in> set ps. upload_tx mb tb mints ?d batch p"
    using assms(3) upload_ix_parsed [OF assms(1,2)] by (fastforce simp: uploads_done_def Let_def ps_def)
  show "groups_in mb ps = of_nat ` {..<builder_num_groups mints}"
  proof (intro equalityI subsetI)
    fix g assume "g \<in> groups_in mb ps"
    then obtain p ms where "p \<in> set ps" "(mb, g, ms) \<in> set (pt_mint_inserts p)" by (auto simp: groups_in_def)
    then have "group_entry mints (g, ms)" using all by (simp add: upload_tx_def)
    then show "g \<in> of_nat ` {..<builder_num_groups mints}" by (auto simp: group_entry_def)
  next
    fix g :: u16 assume "g \<in> of_nat ` {..<builder_num_groups mints}"
    then obtain k where k: "g = of_nat k" "k < builder_num_groups mints" by auto
    then have "pending_mint_insert (hc_pending_mint_program_id config) mb op (of_nat k) (builder_serialize_group mints k) \<in> ?ixs"
      by (auto simp: upload_instructions_def)
    then obtain slot vt where vt: "(slot, vt) \<in> set ups"
        "carries vt (pending_mint_insert (hc_pending_mint_program_id config) mb op (of_nat k) (builder_serialize_group mints k))"
      using sent by blast
    have "(mb, g, builder_get_group mints k) \<in> set (pt_mint_inserts (parse_operator_tx config slot vt))"
      using parse_insert [OF assms(1,2) k(2) vt(2)] k(1) by simp
    then show "g \<in> groups_in mb ps" using in_ps [OF vt(1)] by (auto simp: groups_in_def)
  qed
  show "offsets_in tb ps = of_nat ` fst ` set (upload_chunks ?d)"
  proof (intro equalityI subsetI)
    fix k assume "k \<in> offsets_in tb ps"
    then obtain p b c where "p \<in> set ps" "(tb, b, k, c) \<in> set (pt_txo_writes p)" by (auto simp: offsets_in_def)
    then have "chunk_entry ?d (k, c)" using all by (simp add: upload_tx_def)
    then show "k \<in> of_nat ` fst ` set (upload_chunks ?d)" by (force simp: chunk_entry_def)
  next
    fix k :: u32 assume "k \<in> of_nat ` fst ` set (upload_chunks ?d)"
    then obtain off c where k: "k = of_nat off" "(off, c) \<in> set (upload_chunks ?d)" by auto
    then have "txo_buffer_write (hc_txo_buffer_program_id config) tb op batch (of_nat off) c \<in> ?ixs"
      by (auto simp: upload_instructions_def)
    then obtain slot vt where vt: "(slot, vt) \<in> set ups"
        "carries vt (txo_buffer_write (hc_txo_buffer_program_id config) tb op batch (of_nat off) c)" using sent by blast
    have "(tb, batch, k, c) \<in> set (pt_txo_writes (parse_operator_tx config slot vt))"
      using parse_uploads(4) [OF assms(1) vt(2)] k(1) by simp
    then show "k \<in> offsets_in tb ps" using in_ps [OF vt(1)] by (auto simp: offsets_in_def)
  qed
  have "txo_buffer_set_len (hc_txo_buffer_program_id config) tb op op (of_nat (length ?d)) True batch height False \<in> ?ixs"
    unfolding upload_instructions_def by (rule UnI1, rule UnI2, rule CollectI) (intro exI [of _ True] exI [of _ False], simp)
  then obtain slot vt where vt: "(slot, vt) \<in> set ups"
      "carries vt (txo_buffer_set_len (hc_txo_buffer_program_id config) tb op op (of_nat (length ?d)) True batch height False)"
    using sent by blast
  have "(tb, batch, of_nat (length ?d)) \<in> set (pt_txo_set_lens (parse_operator_tx config slot vt))"
    using parse_uploads(3) [OF assms(1) vt(2)] by simp
  then show "sized_in tb ps" using in_ps [OF vt(1)] by (auto simp: sized_in_def)
qed

text \<open>The walk over an upload that ends with a block update.\<close>

lemma reconstruct_upload:
  assumes "distinct_programs config" and "\<forall>m \<in> set mints. wf_pending_mint m" and "length mints < 65536" and "length indices < 65536"
    and "uploads_done config operator mint_buffer txo_buffer mints indices batch_id height ups"
    and "parse_operator_tx config slot update = (blank_tx slot) \<lparr> pt_is_block_update := True \<rparr>"
    and "transactions = map (\<lambda>(s, vt). parse_operator_tx config s vt) (later @ (slot, update) # rev ups @ earlier)"
    and "\<forall>(s, vt) \<in> set later. slot < s" and "\<forall>(s, vt) \<in> set (ups @ earlier). s \<le> slot"
    and "earlier = [] \<or> (case hd earlier of (s, vt) \<Rightarrow> pt_is_block_update (parse_operator_tx config s vt))"
    and "\<And>xs. mset (order xs) = mset xs"
  shows "reconstruct_buffers_from_cache order transactions mint_buffer txo_buffer slot = Inr (mints, indices)"
proof -
  let ?d = "serialize_all indices" and ?read = "\<lambda>(s, vt). parse_operator_tx config s vt"
  have slot_of: "pt_slot (parse_operator_tx config s vt) = s" for s vt by (rule parsed_slot)
  define upd where "upd = (blank_tx slot) \<lparr> pt_is_block_update := True \<rparr>"
  have u: "parse_operator_tx config slot update = upd" unfolding upd_def by (rule assms(6))
  have us: "pt_slot upd = slot" by (simp add: upd_def blank_tx_def)
  have relevant: "filter (\<lambda>tx. pt_slot tx \<le> slot) transactions = upd # map ?read (rev ups) @ map ?read earlier"
    unfolding assms(7) using assms(8,9) by (auto simp: filter_map o_def slot_of u us split_beta intro!: filter_True filter_False)
  define st where "st = rebuild_start \<lparr> rs_found_block_update := True \<rparr>"
  have step: "rebuild_loop mint_buffer txo_buffer (filter (\<lambda>tx. pt_slot tx \<le> slot) transactions) rebuild_start =
      rebuild_loop mint_buffer txo_buffer (map ?read (rev ups) @ map ?read earlier) st"
    unfolding relevant by (simp add: upd_def blank_tx_def rebuild_tx_def rebuild_start_def st_def)
  have earlier: "map ?read earlier = [] \<or> pt_is_block_update (hd (map ?read earlier))"
    using assms(10) by (cases earlier) (simp_all add: case_prod_unfold)
  have start: "collected mints ?d batch_id st" by (simp add: collected_def st_def rebuild_start_def)
  note ups = uploads_parsed [OF assms(1,2,5)]
  have sets: "set (map ?read (rev ups)) = set (map ?read ups)" by simp
  have same: "groups_in mint_buffer (map ?read (rev ups)) = groups_in mint_buffer (map ?read ups)"
    "offsets_in txo_buffer (map ?read (rev ups)) = offsets_in txo_buffer (map ?read ups)"
    "sized_in txo_buffer (map ?read (rev ups)) = sized_in txo_buffer (map ?read ups)"
    unfolding groups_in_def offsets_in_def sized_in_def sets by (rule refl)+
  have upload: "\<forall>p \<in> set (map ?read (rev ups)). upload_tx mint_buffer txo_buffer mints ?d batch_id p" unfolding sets by (rule ups(1))
  define final where "final = rebuild_loop mint_buffer txo_buffer (map ?read (rev ups) @ map ?read earlier) st"
  have final: "collected mints ?d batch_id final" "fst ` set (rs_pending_mints final) = of_nat ` {..<builder_num_groups mints}"
    "fst ` set (rs_txo_writes final) = of_nat ` fst ` set (upload_chunks ?d)" "rs_txo_data_size final = of_nat (length ?d)"
    using rebuild_loop_collects [OF upload start earlier] ups(2-4) unfolding same final_def [symmetric]
    by (simp_all add: st_def rebuild_start_def)
  have "builder_num_groups mints \<le> 65536" using assms(3) unfolding builder_num_groups_eq group_count_def by simp
  then have "assemble_mints (rs_pending_mints final) = mints"
    using final(1,2) by (intro assemble_groups) (simp_all add: collected_def)
  moreover have "assemble_txo_indices order (rs_txo_writes final) (rs_txo_data_size final) = Inr indices"
    unfolding final(4) using final(1,3) assms(4,11) by (intro assemble_upload) (simp_all add: collected_def)
  ultimately show ?thesis
    unfolding reconstruct_buffers_from_cache_def step final_def [symmetric] rebuild_result_def by simp
qed

section \<open>Properties\<close>

text \<open>The history of a block is what the operator uploaded: when the transactions of the operator since
  the previous block update are the instructions that the client sends for a list of mints and a list of outputs, in any order and
  with any repetitions, followed by the block update, and when nothing else of the operator happens in the slot of the block update
  after it, the walk over the transactions returns exactly these mints and these outputs, in order, in whatever order
  the writes are put together.\<close>

theorem history_reconstructs_upload:
  assumes "distinct_programs config" and "\<forall>m \<in> set mints. wf_pending_mint m" and "length mints < 65536" and "length indices < 65536"
    and "uploads_done config operator mint_buffer txo_buffer mints indices batch_id height ups"
    and "block_update_ix rt ids (hc_program_id config) payer pf header operator mint_buffer txo_buffer b1 b2 = Inr ix" and "carries update ix"
    and "transactions = map (\<lambda>(s, vt). parse_operator_tx config s vt) (later @ (slot, update) # rev ups @ earlier)"
    and "\<forall>(s, vt) \<in> set later. slot < s" and "\<forall>(s, vt) \<in> set (ups @ earlier). s \<le> slot"
    and "earlier = [] \<or> (case hd earlier of (s, vt) \<Rightarrow> pt_is_block_update (parse_operator_tx config s vt))"
    and "\<And>xs. mset (order xs) = mset xs"
  shows "reconstruct_buffers_from_cache order transactions mint_buffer txo_buffer slot = Inr (mints, indices)"
  using reconstruct_upload [OF assms(1-5) parse_block_update [OF assms(1,6,7)] assms(8-11)] assms(12) by blast

text \<open>A transaction with a given instruction, and all the instructions of an upload in the order of the client.\<close>

definition tx_of :: "Instruction \<Rightarrow> versioned_transaction" where
  "tx_of ix = \<lparr> vt_signatures = [], vt_num_required_signatures = 0, vt_message_bytes = [],
     vt_static_keys = ix_program_id ix # map am_pubkey (ix_accounts ix),
     vt_instructions = [\<lparr> ci_program_id_index = 0, ci_accounts = map of_nat [1..<Suc (length (ix_accounts ix))], ci_data = ix_data ix \<rparr>] \<rparr>"

lemma carries_tx_of:
  assumes "length (ix_accounts ix) < 255"
  shows "carries (tx_of ix) ix"
proof -
  have tx: "vt_static_keys (tx_of ix) = ix_program_id ix # map am_pubkey (ix_accounts ix)" "vt_instructions (tx_of ix) =
      [\<lparr> ci_program_id_index = 0, ci_accounts = map of_nat [1..<Suc (length (ix_accounts ix))], ci_data = ix_data ix \<rparr>]"
    by (simp_all add: tx_of_def)
  have "unat (of_nat j :: u8) = j" if "j < 256" for j using that by (simp add: unat_of_nat)
  from this [of "Suc i" for i] have small: "unat (1 + of_nat i :: u8) = Suc i" if "i < 255" for i using that by simp
  have "map (\<lambda>j. if unat (j :: u8) < Suc (length (ix_accounts ix)) then Some ((ix_program_id ix # map am_pubkey (ix_accounts ix)) ! unat j)
      else None) (map of_nat [1..<Suc (length (ix_accounts ix))]) = map (Some \<circ> am_pubkey) (ix_accounts ix)"
    using assms by (intro nth_equalityI) (auto simp del: upt_Suc simp add: small)
  then show ?thesis
    unfolding carries_def recorded_def compiles_def tx by (simp del: upt_Suc map_map)
qed

definition upload_list :: "HistorySyncConfig \<Rightarrow> pubkey \<Rightarrow> pubkey \<Rightarrow> pubkey \<Rightarrow> PendingMint list \<Rightarrow> u32 list \<Rightarrow> u32 \<Rightarrow> u32 \<Rightarrow> Instruction list" where
  "upload_list config operator mint_buffer txo_buffer mints indices batch_id height =
     pending_mint_reinit (hc_pending_mint_program_id config) mint_buffer operator (of_nat (length mints)) #
     map (\<lambda>g. pending_mint_insert (hc_pending_mint_program_id config) mint_buffer operator (of_nat g) (builder_serialize_group mints g))
       [0..<builder_num_groups mints] @
     txo_buffer_set_len (hc_txo_buffer_program_id config) txo_buffer operator operator (of_nat (length (serialize_all indices)))
       True batch_id height False #
     map (\<lambda>(off, c). txo_buffer_write (hc_txo_buffer_program_id config) txo_buffer operator batch_id (of_nat off) c)
       (upload_chunks (serialize_all indices)) @
     [txo_buffer_set_len (hc_txo_buffer_program_id config) txo_buffer operator operator (of_nat (length (serialize_all indices)))
       False batch_id height True]"

lemma set_upload_list:
  "set (upload_list config op mb tb mints indices batch height) = upload_instructions config op mb tb mints indices batch height"
proof -
  let ?len = "txo_buffer_set_len (hc_txo_buffer_program_id config) tb op op (of_nat (length (serialize_all indices)))"
  have "{?len r batch height f | r f. r \<noteq> f} = {?len True batch height False, ?len False batch height True}"
    by (auto simp del: length_serialize_all) (metis (full_types))+
  then show ?thesis
    unfolding upload_list_def upload_instructions_def by (auto simp del: length_serialize_all)
qed

lemma upload_list_done:
  "uploads_done config op mb tb mints indices batch height
     (map (\<lambda>ix. (slot, tx_of ix)) (upload_list config op mb tb mints indices batch height))"
proof -
  let ?ixs = "upload_instructions config op mb tb mints indices batch height"
  have "length (ix_accounts ix) < 255" if "ix \<in> ?ixs" for ix
    using that by (auto simp: upload_instructions_def pending_mint_reinit_def pending_mint_insert_def txo_buffer_set_len_def
        txo_buffer_write_def)
  then have "\<forall>ix \<in> ?ixs. carries (tx_of ix) ix" by (blast intro: carries_tx_of)
  then show ?thesis unfolding uploads_done_def Let_def set_upload_list [symmetric] by (auto simp: set_upload_list)
qed

definition example_history_config :: HistorySyncConfig where
  "example_history_config = \<lparr> hc_program_id = replicate 32 10, hc_bridge_state_pda = replicate 32 9,
     hc_pending_mint_program_id = replicate 32 11, hc_txo_buffer_program_id = replicate 32 12, hc_signature_batch_size = 100,
     hc_include_withdrawals = True, hc_include_manual_deposits = True \<rparr>"

abbreviation example_upload :: "Instruction list" where
  "example_upload \<equiv> upload_list example_history_config (replicate 32 5) (replicate 32 6) (replicate 32 7)
     [\<lparr> pm_recipient = replicate 32 1, pm_amount = 50 \<rparr>, \<lparr> pm_recipient = replicate 32 2, pm_amount = 60 \<rparr>] [7, 8, 9] 3 100"

abbreviation example_update_ix :: Instruction where
  "example_update_ix \<equiv> \<lparr> ix_program_id = replicate 32 10,
     ix_accounts = [account_new (bridge_state_address sample_runtime (replicate 32 10)) False, account_new (replicate 32 6) False,
       account_new (replicate 32 7) False, account_new_readonly (replicate 32 5) True, account_new (replicate 32 5) True,
       account_new_readonly (pid_pending_mint_buffer example_ids) False, account_new_readonly (pid_txo_buffer example_ids) False],
     ix_data = two_bumps 1 254 255 (enc_block_update \<lparr> bu_proof = replicate 256 0, bu_header = dec_header (replicate 320 0) \<rparr>) \<rparr>"

theorem history_reconstructs_upload_witness:
  "reconstruct_buffers_from_cache rev
     (map (\<lambda>(s, vt). parse_operator_tx example_history_config s vt)
        ([] @ (20, tx_of example_update_ix) # rev (map (\<lambda>ix. (19, tx_of ix)) example_upload) @ [(18, tx_of example_update_ix)]))
     (replicate 32 6) (replicate 32 7) 20 =
   Inr ([\<lparr> pm_recipient = replicate 32 1, pm_amount = 50 \<rparr>, \<lparr> pm_recipient = replicate 32 2, pm_amount = 60 \<rparr>], [7, 8, 9])"
proof (rule history_reconstructs_upload [OF _ _ _ _ upload_list_done _ _ refl])
  have ids: "distinct_programs example_history_config"
    by (simp add: distinct_programs_def example_history_config_def)
  then show "distinct_programs example_history_config" .
  show ix: "block_update_ix sample_runtime example_ids (hc_program_id example_history_config) (replicate 32 5) (replicate 256 0)
      (dec_header (replicate 320 0)) (replicate 32 5) (replicate 32 6) (replicate 32 7) 254 255 = Inr example_update_ix"
    by (simp add: block_update_ix_def with_bumps_ok example_history_config_def)
  show carried: "carries (tx_of example_update_ix) example_update_ix" by (rule carries_tx_of) simp
  show "[(18 :: u64, tx_of example_update_ix)] = [] \<or> (case hd [(18 :: u64, tx_of example_update_ix)] of
      (s, vt) \<Rightarrow> pt_is_block_update (parse_operator_tx example_history_config s vt))"
    using parse_block_update [OF ids ix carried] by simp
qed (auto simp: wf_pending_mint_def)

end
