(* ===== verification/HistorySync.thy ===== *)
theory HistorySync
  imports HistoryBuffers
begin

text \<open>
  The history of the bridge (\<open>clients/rust/src/history.rs\<close>): the records, reading them from transactions, fetching
  the blocks of a range, reading the buffers as they are now, and the stream of all records with its checkpoints.
  The node is a parameter: the signatures of an address, the transaction of a signature, the data of an account, and
  the answer of the rate limiter before the transaction of a signature is requested.
  For the other requests a refusal of the rate limiter is one of their failures. A structure read with
  \<open>bytemuck::from_bytes\<close> is its decoded bytes.
\<close>

section \<open>Records\<close>

record BlockRecord =
  br_block_height :: u32
  br_signature :: signature
  br_slot :: u64
  br_block_time :: "int option"
  br_txo_indices :: "u32 list"
  br_pending_mints :: "PendingMint list"
  br_is_reorg :: bool
  br_extra_finalized_blocks :: "FinalizedBlockMintTxoInfo list"

record WithdrawalRequestRecord =
  rr_signature :: signature
  rr_slot :: u64
  rr_block_time :: "int option"
  rr_amount_sats :: u64
  rr_recipient_address :: bytes
  rr_address_type :: u32
  rr_user_pubkey :: pubkey

record ProcessedWithdrawalRecord =
  pr_signature :: signature
  pr_slot :: u64
  pr_block_time :: "int option"
  pr_return_output_sighash :: bytes
  pr_return_output_index :: u64
  pr_return_output_amount :: u64
  pr_spent_txo_tree_root :: bytes
  pr_next_processed_withdrawals_index :: u64

record ManualDepositRecord =
  dr_signature :: signature
  dr_slot :: u64
  dr_block_time :: "int option"
  dr_tx_hash :: bytes
  dr_combined_txo_index :: u64
  dr_deposit_amount_sats :: u64
  dr_depositor_pubkey :: pubkey

datatype HistoryRecord =
    Block BlockRecord
  | WithdrawalRequest WithdrawalRequestRecord
  | ProcessedWithdrawal ProcessedWithdrawalRecord
  | ManualDeposit ManualDepositRecord

record BlockUpdateInfo =
  bi_block_height :: u32
  bi_signature :: signature
  bi_slot :: u64
  bi_block_time :: "int option"
  bi_is_reorg :: bool
  bi_extra_finalized_blocks :: "FinalizedBlockMintTxoInfo list"
  bi_mint_buffer :: "pubkey option"
  bi_txo_buffer :: "pubkey option"
  bi_operator :: "pubkey option"

definition to_block_record :: "BlockUpdateInfo \<Rightarrow> PendingMint list \<Rightarrow> u32 list \<Rightarrow> BlockRecord" where
  "to_block_record info pending_mints txo_indices =
     \<lparr> br_block_height = bi_block_height info, br_signature = bi_signature info, br_slot = bi_slot info,
       br_block_time = bi_block_time info, br_txo_indices = txo_indices, br_pending_mints = pending_mints,
       br_is_reorg = bi_is_reorg info, br_extra_finalized_blocks = bi_extra_finalized_blocks info \<rparr>"

record SyncCheckpoint =
  ck_last_signature :: signature
  ck_last_slot :: u64
  ck_records_processed :: u64
  ck_last_block_height :: "u32 option"

text \<open>\<open>Signature::default()\<close> is 64 zero bytes.\<close>

definition default_signature :: signature where
  "default_signature = replicate 64 0"

definition checkpoint_new :: SyncCheckpoint where
  "checkpoint_new = \<lparr> ck_last_signature = default_signature, ck_last_slot = 0, ck_records_processed = 0, ck_last_block_height = None \<rparr>"

section \<open>The node\<close>

record history_node =
  hn_signatures :: "pubkey \<Rightarrow> signature_page"
  hn_gate :: "signature \<Rightarrow> unit client_result"
  hn_transaction :: transaction_source
  hn_account :: "pubkey \<Rightarrow> bytes client_result"

definition lift_client :: "'a client_result \<Rightarrow> ClientError fault + 'a" where
  "lift_client r = (case r of Inl e \<Rightarrow> Inl (Err e) | Inr x \<Rightarrow> Inr x)"

definition decoded :: "confirmed_transaction \<Rightarrow> versioned_transaction option" where
  "decoded tx = (case ct_transaction tx of BinaryTx t \<Rightarrow> t | OtherEncoding \<Rightarrow> None)"

text \<open>The program that an instruction is sent to, if its index is in range.\<close>

definition program_of :: "pubkey list \<Rightarrow> compiled_instruction \<Rightarrow> pubkey option" where
  "program_of account_keys ix =
     (if unat (ci_program_id_index ix) \<ge> length account_keys then None else Some (account_keys ! unat (ci_program_id_index ix)))"

section \<open>Fetching the blocks of a range\<close>

definition extra_blocks :: "bool \<Rightarrow> bytes \<Rightarrow> FinalizedBlockMintTxoInfo list" where
  "extra_blocks is_reorg data = (if is_reorg then map dec_mint_txo_info (chunks_exact 64 (drop (8 + 576) data)) else [])"

text \<open>The first instruction that is a block update decides, even when its data is too short.\<close>

fun first_block_info ::
  "HistorySyncConfig \<Rightarrow> signature \<Rightarrow> confirmed_transaction \<Rightarrow> pubkey list \<Rightarrow> compiled_instruction list \<Rightarrow> BlockUpdateInfo option" where
  "first_block_info config sig tx account_keys [] = None"
| "first_block_info config sig tx account_keys (ix # rest) =
     (if program_of account_keys ix \<noteq> Some (hc_program_id config) then first_block_info config sig tx account_keys rest
      else if \<not> is_block_update_data (ci_data ix) then first_block_info config sig tx account_keys rest
      else if length (ci_data ix) < 8 + 576 then None
      else let is_reorg = (ci_data ix ! 4 = 8); fixed = dec_block_update (bslice (ci_data ix) 8 (8 + 576))
      in Some \<lparr> bi_block_height = sc_block_height (finalized_state (bu_header fixed)), bi_signature = sig,
           bi_slot = ct_slot tx, bi_block_time = ct_block_time tx, bi_is_reorg = is_reorg,
           bi_extra_finalized_blocks = extra_blocks is_reorg (ci_data ix),
           bi_mint_buffer = key_at account_keys (ci_accounts ix) 1,
           bi_txo_buffer = key_at account_keys (ci_accounts ix) 2,
           bi_operator = key_at account_keys (ci_accounts ix) 3 \<rparr>)"

definition fetch_block_update_info :: "history_node \<Rightarrow> HistorySyncConfig \<Rightarrow> signature \<Rightarrow> BlockUpdateInfo option client_result" where
  "fetch_block_update_info node config sig =
     rbind (hn_gate node sig) (\<lambda>_.
     rbind (hn_transaction node sig) (\<lambda>tx.
     Inr (case decoded tx of
            None \<Rightarrow> None
          | Some transaction \<Rightarrow> first_block_info config sig tx (vt_static_keys transaction) (vt_instructions transaction))))"

text \<open>One page of the first pass: the blocks found, the operator of the first one, and the cursor.\<close>

type_synonym block_walk = "BlockUpdateInfo list \<times> pubkey option \<times> signature option"

fun push_block_infos ::
  "history_node \<Rightarrow> HistorySyncConfig \<Rightarrow> u32 option \<Rightarrow> block_walk \<Rightarrow> sig_info list \<Rightarrow> block_walk client_result" where
  "push_block_infos node config from_height st [] = Inr st"
| "push_block_infos node config from_height (block_infos, operator, before_sig) (info # infos) =
     (case si_signature info of
        None \<Rightarrow> push_block_infos node config from_height (block_infos, operator, before_sig) infos
      | Some sig \<Rightarrow>
          rbind (fetch_block_update_info node config sig) (\<lambda>r.
          push_block_infos node config from_height
            (case r of
               None \<Rightarrow> (block_infos, operator, Some sig)
             | Some bi \<Rightarrow>
                 if (case from_height of Some from \<Rightarrow> bi_block_height bi < from | None \<Rightarrow> False)
                 then (block_infos, operator, Some sig)
                 else (block_infos @ [bi], if operator = None then bi_operator bi else operator, Some sig)) infos))"

partial_function (option) block_info_loop ::
  "history_node \<Rightarrow> HistorySyncConfig \<Rightarrow> u32 option \<Rightarrow> block_walk \<Rightarrow> block_walk client_result option" where
  "block_info_loop node config from_height st =
     (case hn_signatures node (hc_bridge_state_pda config) (snd (snd st)) None (hc_signature_batch_size config) of
        Inl e \<Rightarrow> Some (Inl e)
      | Inr signatures \<Rightarrow>
          if signatures = [] then Some (Inr st)
          else (case push_block_infos node config from_height st signatures of
                  Inl e \<Rightarrow> Some (Inl e)
                | Inr st' \<Rightarrow> block_info_loop node config from_height st'))"

text \<open>The second pass: a transaction that cannot be fetched or decoded is skipped, a refusal of the rate limiter is not.\<close>

fun cache_loop :: "history_node \<Rightarrow> HistorySyncConfig \<Rightarrow> sig_info list \<Rightarrow> ParsedOperatorTx list client_result" where
  "cache_loop node config [] = Inr []"
| "cache_loop node config (info # infos) =
     (case si_signature info of
        None \<Rightarrow> cache_loop node config infos
      | Some sig \<Rightarrow>
          rbind (hn_gate node sig) (\<lambda>_.
          case hn_transaction node sig of
            Inl e \<Rightarrow> cache_loop node config infos
          | Inr tx \<Rightarrow>
              (case decoded tx of
                 None \<Rightarrow> cache_loop node config infos
               | Some transaction \<Rightarrow>
                   rbind (cache_loop node config infos) (\<lambda>transactions.
                   Inr (parse_operator_tx config (si_slot info) transaction # transactions)))))"

definition build_operator_tx_cache :: "history_node \<Rightarrow> HistorySyncConfig \<Rightarrow> pubkey \<Rightarrow> ParsedOperatorTx list client_result" where
  "build_operator_tx_cache node config operator =
     rbind (hn_signatures node operator None None 1000) (cache_loop node config)"

text \<open>The third pass.\<close>

type_synonym write_order = "(u32 \<times> bytes) list \<Rightarrow> (u32 \<times> bytes) list"

definition key_or_default :: "pubkey option \<Rightarrow> pubkey" where
  "key_or_default k = (case k of Some x \<Rightarrow> x | None \<Rightarrow> zero32)"

fun rebuild_blocks :: "write_order \<Rightarrow> ParsedOperatorTx list \<Rightarrow> BlockUpdateInfo list \<Rightarrow> ClientError fault + BlockRecord list" where
  "rebuild_blocks order cache [] = Inr []"
| "rebuild_blocks order cache (info # infos) =
     rbind (reconstruct_buffers_from_cache order cache (key_or_default (bi_mint_buffer info))
              (key_or_default (bi_txo_buffer info)) (bi_slot info)) (\<lambda>(pending_mints, txo_indices).
     rbind (rebuild_blocks order cache infos) (\<lambda>blocks.
     Inr (to_block_record info pending_mints txo_indices # blocks)))"

text \<open>The upper bound of the range is compared and then ignored, as in the source.\<close>

definition fetch_blocks ::
  "write_order \<Rightarrow> history_node \<Rightarrow> HistorySyncConfig \<Rightarrow> u32 option \<Rightarrow> u32 option \<Rightarrow> (ClientError fault + BlockRecord list) option" where
  "fetch_blocks order node config from_height to_height =
     map_option (\<lambda>r.
       rbind (lift_client r) (\<lambda>(block_infos, operator, _).
       if block_infos = [] then Inr []
       else case operator of
         None \<Rightarrow> Inr (map (\<lambda>info. to_block_record info [] []) block_infos)
       | Some op \<Rightarrow>
           rbind (lift_client (build_operator_tx_cache node config op)) (\<lambda>op_tx_cache.
           rbind (rebuild_blocks order op_tx_cache block_infos) (\<lambda>blocks.
           Inr (sort_key br_block_height blocks)))))
       (block_info_loop node config from_height ([], None, None))"

definition reconstruct_block ::
  "write_order \<Rightarrow> history_node \<Rightarrow> HistorySyncConfig \<Rightarrow> u32 \<Rightarrow> (ClientError fault + BlockRecord option) option" where
  "reconstruct_block order node config block_height =
     map_option (\<lambda>r. rbind r (\<lambda>blocks. Inr (List.find (\<lambda>b. br_block_height b = block_height) blocks)))
       (fetch_blocks order node config (Some block_height) (Some block_height))"

section \<open>Reading the buffers as they are now\<close>

fun read_mints :: "bytes \<Rightarrow> nat \<Rightarrow> nat list \<Rightarrow> PendingMint list" where
  "read_mints data mints_offset [] = []"
| "read_mints data mints_offset (i # is) =
     (let offset = mints_offset + i * PM_DA_PENDING_MINT_SIZE
      in if offset + PM_DA_PENDING_MINT_SIZE > length data then []
         else dec_pending_mint (bslice data offset (offset + PM_DA_PENDING_MINT_SIZE)) # read_mints data mints_offset is)"

definition fetch_pending_mints_from_buffer :: "history_node \<Rightarrow> pubkey \<Rightarrow> PendingMint list client_result" where
  "fetch_pending_mints_from_buffer node buffer_account =
     rbind (hn_account node buffer_account) (\<lambda>data.
     if length data < PM_DA_PENDING_MINTS_BUFFER_STATE_HEADER_SIZE then Inl (CE_InvalidInput ''Buffer too small'')
     else let header = dec_buffer_header (bslice data 0 PM_DA_PENDING_MINTS_BUFFER_STATE_HEADER_SIZE);
              mint_count = unat (bh_pending_mints_count header);
              mints_offset = PM_DA_PENDING_MINTS_BUFFER_STATE_HEADER_SIZE + unat (bh_pending_mint_groups_count header) * 32
     in Inr (read_mints data mints_offset [0..<mint_count]))"

fun read_txos :: "bytes \<Rightarrow> nat list \<Rightarrow> u32 list" where
  "read_txos data [] = []"
| "read_txos data (i # is) =
     (let offset = PM_TXO_BUFFER_HEADER_SIZE + i * 4
      in if offset + 4 > length data then [] else from_le_bytes (bslice data offset (offset + 4)) # read_txos data is)"

definition fetch_txos_from_buffer :: "history_node \<Rightarrow> pubkey \<Rightarrow> u32 list client_result" where
  "fetch_txos_from_buffer node buffer_account =
     rbind (hn_account node buffer_account) (\<lambda>data.
     if length data < PM_TXO_BUFFER_HEADER_SIZE then Inl (CE_InvalidInput ''Buffer too small'')
     else let header = dec_txo_header (bslice data 0 PM_TXO_BUFFER_HEADER_SIZE)
     in Inr (read_txos data [0..<unat (th_data_size header) div 4]))"

section \<open>Collecting the buffers of one block\<close>

definition parse_txo_buffer_set_len_with_batch :: "bytes \<Rightarrow> u8 list \<Rightarrow> pubkey list \<Rightarrow> pubkey \<Rightarrow> (u32 \<times> u32) option" where
  "parse_txo_buffer_set_len_with_batch data accounts account_keys expected_buffer =
     (if data = [] \<or> data ! 0 \<noteq> 1 then None
      else if key_at account_keys accounts 0 \<noteq> Some expected_buffer then None
      else if length data < 14 then None
      else Some (from_le_bytes (bslice data 6 10), from_le_bytes (bslice data 1 5)))"

definition parse_txo_buffer_write_with_batch ::
  "bytes \<Rightarrow> u8 list \<Rightarrow> pubkey list \<Rightarrow> pubkey \<Rightarrow> (u32 \<times> u32 \<times> bytes) option" where
  "parse_txo_buffer_write_with_batch data accounts account_keys expected_buffer =
     (if data = [] \<or> data ! 0 \<noteq> 2 then None
      else if key_at account_keys accounts 0 \<noteq> Some expected_buffer then None
      else if length data < 9 then None
      else Some (from_le_bytes (bslice data 1 5), from_le_bytes (bslice data 5 9), drop 9 data))"

definition parse_pending_mint_insert :: "bytes \<Rightarrow> u8 list \<Rightarrow> pubkey list \<Rightarrow> pubkey \<Rightarrow> (u16 \<times> PendingMint list) option" where
  "parse_pending_mint_insert data accounts account_keys expected_buffer =
     (if data = [] \<or> data ! 0 \<noteq> 3 then None
      else if key_at account_keys accounts 0 \<noteq> Some expected_buffer then None
      else if length data < 3 then None
      else Some (from_le_bytes (bslice data 1 3), parse_mints (drop 3 data)))"

definition is_block_update_tx :: "HistorySyncConfig \<Rightarrow> pubkey list \<Rightarrow> compiled_instruction list \<Rightarrow> bool" where
  "is_block_update_tx config account_keys ixs \<longleftrightarrow>
     list_ex (\<lambda>ix. program_of account_keys ix = Some (hc_program_id config) \<and> is_block_update_data (ci_data ix)) ixs"

text \<open>The two parts of the loop over the instructions; \<open>None\<close> leaves the loop.\<close>

definition stream_mint_part :: "pubkey \<Rightarrow> pubkey list \<Rightarrow> compiled_instruction \<Rightarrow> rebuild_state \<Rightarrow> rebuild_state option" where
  "stream_mint_part mint_buffer account_keys ix st =
     (let data = ci_data ix; reinit = (data \<noteq> [] \<and> data ! 0 = 1)
      in if reinit \<and> rs_found_block_update st then None
      else let st = (if reinit then st \<lparr> rs_pending_mints := [] \<rparr> else st)
      in Some (case parse_pending_mint_insert data (ci_accounts ix) account_keys mint_buffer of
                 Some (group_idx, mints) \<Rightarrow> st \<lparr> rs_pending_mints := AList.update group_idx mints (rs_pending_mints st) \<rparr>
               | None \<Rightarrow> st))"

definition stream_set_len :: "u32 \<times> u32 \<Rightarrow> rebuild_state \<Rightarrow> rebuild_state option" where
  "stream_set_len b st = (case b of (batch_id, new_size) \<Rightarrow>
     (case rs_txo_batch_id st of
        None \<Rightarrow> Some (st \<lparr> rs_txo_batch_id := Some batch_id, rs_txo_data_size := new_size \<rparr>)
      | Some current \<Rightarrow>
          if current = batch_id then Some (st \<lparr> rs_txo_data_size := new_size \<rparr>)
          else if rs_found_block_update st then None
          else Some (st \<lparr> rs_txo_writes := [], rs_txo_batch_id := Some batch_id, rs_txo_data_size := new_size \<rparr>)))"

definition stream_txo_part :: "pubkey \<Rightarrow> pubkey list \<Rightarrow> compiled_instruction \<Rightarrow> rebuild_state \<Rightarrow> rebuild_state option" where
  "stream_txo_part txo_buffer account_keys ix st =
     Option.bind (case parse_txo_buffer_set_len_with_batch (ci_data ix) (ci_accounts ix) account_keys txo_buffer of
                    Some b \<Rightarrow> stream_set_len b st | None \<Rightarrow> Some st) (\<lambda>st.
     Some (case parse_txo_buffer_write_with_batch (ci_data ix) (ci_accounts ix) account_keys txo_buffer of
             Some (batch_id, offset, data) \<Rightarrow>
               if rs_txo_batch_id st = None \<or> rs_txo_batch_id st = Some batch_id
               then st \<lparr> rs_txo_batch_id := Some batch_id, rs_txo_writes := AList.update offset data (rs_txo_writes st) \<rparr> else st
           | None \<Rightarrow> st))"

fun stream_ix_loop ::
  "HistorySyncConfig \<Rightarrow> pubkey list \<Rightarrow> pubkey \<Rightarrow> pubkey \<Rightarrow> compiled_instruction list \<Rightarrow> rebuild_state \<Rightarrow> rebuild_state" where
  "stream_ix_loop config account_keys mint_buffer txo_buffer [] st = st"
| "stream_ix_loop config account_keys mint_buffer txo_buffer (ix # rest) st =
     (case program_of account_keys ix of
        None \<Rightarrow> stream_ix_loop config account_keys mint_buffer txo_buffer rest st
      | Some program_id \<Rightarrow>
          (case (if program_id = hc_pending_mint_program_id config then stream_mint_part mint_buffer account_keys ix st else Some st) of
             None \<Rightarrow> st
           | Some st1 \<Rightarrow>
               (case (if program_id = hc_txo_buffer_program_id config then stream_txo_part txo_buffer account_keys ix st1 else Some st1) of
                  None \<Rightarrow> st1
                | Some st2 \<Rightarrow> stream_ix_loop config account_keys mint_buffer txo_buffer rest st2)))"

fun operator_loop ::
  "history_node \<Rightarrow> HistorySyncConfig \<Rightarrow> pubkey \<Rightarrow> pubkey \<Rightarrow> sig_info list \<Rightarrow> rebuild_state \<Rightarrow> rebuild_state client_result" where
  "operator_loop node config mint_buffer txo_buffer [] st = Inr st"
| "operator_loop node config mint_buffer txo_buffer (info # infos) st =
     (case si_signature info of
        None \<Rightarrow> operator_loop node config mint_buffer txo_buffer infos st
      | Some sig \<Rightarrow>
          rbind (hn_gate node sig) (\<lambda>_.
          case hn_transaction node sig of
            Inl e \<Rightarrow> operator_loop node config mint_buffer txo_buffer infos st
          | Inr tx \<Rightarrow>
              (case decoded tx of
                 None \<Rightarrow> operator_loop node config mint_buffer txo_buffer infos st
               | Some transaction \<Rightarrow>
                   let account_keys = vt_static_keys transaction; ixs = vt_instructions transaction;
                       update = is_block_update_tx config account_keys ixs
                   in if update \<and> rs_found_block_update st then Inr st
                   else operator_loop node config mint_buffer txo_buffer infos
                          (stream_ix_loop config account_keys mint_buffer txo_buffer ixs
                             (if update then st \<lparr> rs_found_block_update := True \<rparr> else st)))))"

definition reconstruct_buffers_from_operator_txs ::
  "write_order \<Rightarrow> history_node \<Rightarrow> HistorySyncConfig \<Rightarrow> pubkey \<Rightarrow> pubkey \<Rightarrow> pubkey \<Rightarrow> u64 \<Rightarrow>
   ClientError fault + (PendingMint list \<times> u32 list)" where
  "reconstruct_buffers_from_operator_txs order node config operator mint_buffer txo_buffer block_update_slot =
     rbind (lift_client (hn_signatures node operator None None 100)) (\<lambda>signatures.
     rbind (lift_client (operator_loop node config mint_buffer txo_buffer
              (filter (\<lambda>s. si_slot s \<le> block_update_slot) signatures) rebuild_start)) (rebuild_result order))"

section \<open>Reading one record\<close>

definition parse_withdrawal_request ::
  "signature \<Rightarrow> u64 \<Rightarrow> int option \<Rightarrow> bytes \<Rightarrow> u8 list \<Rightarrow> pubkey list \<Rightarrow> HistoryRecord option" where
  "parse_withdrawal_request sig slot block_time data accounts account_keys =
     (if length data < 8 + 32 then None
      else let request = dec_withdrawal_request (bslice data 8 (8 + 32))
      in Some (WithdrawalRequest \<lparr> rr_signature = sig, rr_slot = slot, rr_block_time = block_time,
           rr_amount_sats = wr_amount_sats request, rr_recipient_address = wr_recipient_address request,
           rr_address_type = wr_address_type request, rr_user_pubkey = first_key accounts account_keys \<rparr>))"

definition parse_processed_withdrawal :: "signature \<Rightarrow> u64 \<Rightarrow> int option \<Rightarrow> bytes \<Rightarrow> HistoryRecord option" where
  "parse_processed_withdrawal sig slot block_time data =
     (if length data < 8 + 344 then None
      else let d = dec_process_withdrawal (bslice data 8 (8 + 344))
      in Some (ProcessedWithdrawal \<lparr> pr_signature = sig, pr_slot = slot, pr_block_time = block_time,
           pr_return_output_sighash = ro_sighash (pw_new_return_output d),
           pr_return_output_index = ro_output_index (pw_new_return_output d),
           pr_return_output_amount = ro_amount_sats (pw_new_return_output d),
           pr_spent_txo_tree_root = pw_new_spent_txo_tree_root d,
           pr_next_processed_withdrawals_index = pw_new_next_processed_withdrawals_index d \<rparr>))"

definition parse_manual_deposit :: "signature \<Rightarrow> u64 \<Rightarrow> int option \<Rightarrow> bytes \<Rightarrow> HistoryRecord option" where
  "parse_manual_deposit sig slot block_time data =
     (if length data < 8 + 144 then None
      else let d = dec_manual_deposit (bslice data 8 (8 + 144))
      in Some (ManualDeposit \<lparr> dr_signature = sig, dr_slot = slot, dr_block_time = block_time, dr_tx_hash = md_tx_hash d,
           dr_combined_txo_index = md_combined_txo_index d, dr_deposit_amount_sats = md_deposit_amount_sats d,
           dr_depositor_pubkey = md_depositor_solana_public_key d \<rparr>))"

text \<open>An error while the buffers are collected leaves them empty; a panic ends the task.\<close>

definition parse_block_update ::
  "write_order \<Rightarrow> history_node \<Rightarrow> HistorySyncConfig \<Rightarrow> signature \<Rightarrow> u64 \<Rightarrow> int option \<Rightarrow> bytes \<Rightarrow> u8 list \<Rightarrow> pubkey list \<Rightarrow> bool \<Rightarrow>
   ClientError fault + HistoryRecord option" where
  "parse_block_update order node config sig slot block_time data accounts account_keys is_reorg =
     (if length data < 8 + 576 then Inr None
      else let fixed = dec_block_update (bslice data 8 (8 + 576));
               rebuilt = (case (key_at account_keys accounts 3, key_at account_keys accounts 1, key_at account_keys accounts 2) of
                   (Some op, Some mint_buf, Some txo_buf) \<Rightarrow>
                     (case reconstruct_buffers_from_operator_txs order node config op mint_buf txo_buf slot of
                        Inl (Err _) \<Rightarrow> Inr ([], []) | r \<Rightarrow> r)
                 | _ \<Rightarrow> Inr ([], []))
      in rbind rebuilt (\<lambda>(pending_mints, txo_indices).
         Inr (Some (Block \<lparr> br_block_height = sc_block_height (finalized_state (bu_header fixed)), br_signature = sig,
           br_slot = slot, br_block_time = block_time, br_txo_indices = txo_indices, br_pending_mints = pending_mints,
           br_is_reorg = is_reorg, br_extra_finalized_blocks = extra_blocks is_reorg data \<rparr>))))"

fun first_record ::
  "write_order \<Rightarrow> history_node \<Rightarrow> HistorySyncConfig \<Rightarrow> signature \<Rightarrow> confirmed_transaction \<Rightarrow> pubkey list \<Rightarrow> compiled_instruction list \<Rightarrow>
   ClientError fault + HistoryRecord option" where
  "first_record order node config sig tx account_keys [] = Inr None"
| "first_record order node config sig tx account_keys (ix # rest) =
     (let data = ci_data ix; slot = ct_slot tx; block_time = ct_block_time tx
      in if program_of account_keys ix \<noteq> Some (hc_program_id config) then first_record order node config sig tx account_keys rest
      else if length data < 5 then first_record order node config sig tx account_keys rest
      else if data ! 4 = 1
      then parse_block_update order node config sig slot block_time data (ci_accounts ix) account_keys False
      else if data ! 4 = 8
      then parse_block_update order node config sig slot block_time data (ci_accounts ix) account_keys True
      else if data ! 4 = 2 \<and> hc_include_withdrawals config
      then Inr (parse_withdrawal_request sig slot block_time data (ci_accounts ix) account_keys)
      else if data ! 4 = 3 \<and> hc_include_withdrawals config
      then Inr (parse_processed_withdrawal sig slot block_time data)
      else if data ! 4 = 5 \<and> hc_include_manual_deposits config
      then Inr (parse_manual_deposit sig slot block_time data)
      else first_record order node config sig tx account_keys rest)"

definition process_transaction ::
  "write_order \<Rightarrow> history_node \<Rightarrow> HistorySyncConfig \<Rightarrow> signature \<Rightarrow> ClientError fault + HistoryRecord option" where
  "process_transaction order node config sig =
     rbind (lift_client (hn_gate node sig)) (\<lambda>_.
     rbind (lift_client (hn_transaction node sig)) (\<lambda>tx.
     case ct_transaction tx of
       OtherEncoding \<Rightarrow> Inr None
     | BinaryTx None \<Rightarrow> Inl (Err (CE_InvalidInput ''Failed to decode tx''))
     | BinaryTx (Some transaction) \<Rightarrow>
         first_record order node config sig tx (vt_static_keys transaction) (vt_instructions transaction)))"

section \<open>The stream\<close>

text \<open>
  What a run of \<open>stream_loop\<close> does: the records it sends, the checkpoints it offers to the handle, its own checkpoint,
  and whether it ended without a panic. \<open>stop\<close> tells whether a request to stop has arrived when a signature is
  reached, \<open>open\<close> whether the receiver takes the next record.
\<close>

record stream_run =
  sr_records :: "HistoryRecord list"
  sr_offered :: "SyncCheckpoint list"
  sr_checkpoint :: SyncCheckpoint
  sr_finished :: bool

definition advance_checkpoint :: "signature \<Rightarrow> HistoryRecord \<Rightarrow> SyncCheckpoint \<Rightarrow> SyncCheckpoint" where
  "advance_checkpoint sig rec ck =
     (case rec of Block b \<Rightarrow> ck \<lparr> ck_last_block_height := Some (br_block_height b) \<rparr> | _ \<Rightarrow> ck)
       \<lparr> ck_last_signature := sig, ck_records_processed := ck_records_processed ck + 1 \<rparr>"

fun stream_signatures ::
  "(signature \<Rightarrow> bool) \<Rightarrow> (nat \<Rightarrow> bool) \<Rightarrow> (signature \<Rightarrow> ClientError fault + HistoryRecord option) \<Rightarrow> signature list \<Rightarrow> stream_run \<Rightarrow> stream_run" where
  "stream_signatures stop open process [] run = run"
| "stream_signatures stop open process (sig # sigs) run =
     (if stop sig then run
      else case process sig of
        Inr (Some rec) \<Rightarrow>
          let run = run \<lparr> sr_checkpoint := advance_checkpoint sig rec (sr_checkpoint run) \<rparr>
          in if open (length (sr_records run))
             then stream_signatures stop open process sigs
                    (run \<lparr> sr_records := sr_records run @ [rec], sr_offered := sr_offered run @ [sr_checkpoint run] \<rparr>)
             else run
      | Inr None \<Rightarrow>
          stream_signatures stop open process sigs (run \<lparr> sr_checkpoint := (sr_checkpoint run) \<lparr> ck_last_signature := sig \<rparr> \<rparr>)
      | Inl (Err e) \<Rightarrow> stream_signatures stop open process sigs run
      | Inl Panic \<Rightarrow> run \<lparr> sr_finished := False \<rparr>)"

definition after_signature_of :: "SyncCheckpoint \<Rightarrow> signature option" where
  "after_signature_of ck = (if ck_last_signature ck = default_signature then None else Some (ck_last_signature ck))"

definition stream_loop ::
  "(signature \<Rightarrow> bool) \<Rightarrow> (nat \<Rightarrow> bool) \<Rightarrow> write_order \<Rightarrow> history_node \<Rightarrow> HistorySyncConfig \<Rightarrow> SyncCheckpoint \<Rightarrow> stream_run option" where
  "stream_loop stop open order node config checkpoint =
     map_option (\<lambda>r.
       let run = \<lparr> sr_records = [], sr_offered = [], sr_checkpoint = checkpoint, sr_finished = True \<rparr>
       in case r of
            Inl e \<Rightarrow> run
          | Inr signatures \<Rightarrow> stream_signatures stop open (process_transaction order node config) (rev signatures) run)
       (collect_all_signatures (hn_signatures node (hc_bridge_state_pda config)) (after_signature_of checkpoint)
          (hc_signature_batch_size config))"

section \<open>Checkpoints\<close>

text \<open>The records of a list of signatures, each with its signature.\<close>

definition tagged :: "(signature \<Rightarrow> HistoryRecord option) \<Rightarrow> signature list \<Rightarrow> (signature \<times> HistoryRecord) list" where
  "tagged r sigs = List.map_filter (\<lambda>s. map_option (Pair s) (r s)) sigs"

lemma tagged_simps [simp]:
  "tagged r [] = []"
  "tagged r (s # sigs) = (case r s of Some rec \<Rightarrow> (s, rec) # tagged r sigs | None \<Rightarrow> tagged r sigs)"
  "tagged r (xs @ ys) = tagged r xs @ tagged r ys"
  by (simp_all add: tagged_def map_filter_simps split: option.split)

lemma map_snd_tagged: "map snd (tagged r sigs) = List.map_filter r sigs"
  by (induction sigs) (simp_all add: map_filter_simps split: option.split)

lemma tagged_in: "(s, rec) \<in> set (tagged r sigs) \<Longrightarrow> s \<in> set sigs \<and> r s = Some rec"
  by (induction sigs) (auto split: option.splits)

lemma distinct_tagged: "distinct sigs \<Longrightarrow> distinct (tagged r sigs)"
  by (induction sigs) (auto split: option.splits dest: tagged_in)

lemma advance_signature [simp]: "ck_last_signature (advance_checkpoint sig rec ck) = sig"
  by (simp add: advance_checkpoint_def)

lemma stream_some:
  assumes "\<forall>s \<in> set sigs. process s = Inr (r s)"
  shows "\<exists>k. sr_records (stream_signatures stop open process sigs run) = sr_records run @ map snd (take k (tagged r sigs)) \<and>
    map ck_last_signature (sr_offered (stream_signatures stop open process sigs run)) =
      map ck_last_signature (sr_offered run) @ map fst (take k (tagged r sigs))"
  using assms
proof (induction sigs arbitrary: run)
  case Nil
  then show ?case by simp
next
  case (Cons s sigs)
  show ?case
  proof (cases "r s")
    case None
    with None Cons.prems Cons.IH [of "run \<lparr> sr_checkpoint := (sr_checkpoint run) \<lparr> ck_last_signature := s \<rparr> \<rparr>"]
    show ?thesis by (cases "stop s") (auto intro: exI [of _ 0])
  next
    case (Some rec)
    define ck where "ck = advance_checkpoint s rec (sr_checkpoint run)"
    define run1 where "run1 = run \<lparr> sr_checkpoint := ck, sr_records := sr_records run @ [rec], sr_offered := sr_offered run @ [ck] \<rparr>"
    show ?thesis
    proof (cases "stop s \<or> \<not> open (length (sr_records run))")
      case True
      with Some Cons.prems show ?thesis by (auto simp: Let_def intro!: exI [of _ 0])
    next
      case False
      have step: "stream_signatures stop open process (s # sigs) run = stream_signatures stop open process sigs run1"
        using False Some Cons.prems by (simp add: run1_def ck_def Let_def)
      obtain k where "sr_records (stream_signatures stop open process sigs run1) = sr_records run1 @ map snd (take k (tagged r sigs))"
        "map ck_last_signature (sr_offered (stream_signatures stop open process sigs run1)) =
          map ck_last_signature (sr_offered run1) @ map fst (take k (tagged r sigs))"
        using Cons.IH [of run1] Cons.prems by auto
      then show ?thesis unfolding step using Some by (intro exI [of _ "Suc k"]) (simp add: run1_def ck_def)
    qed
  qed
qed

lemma stream_all:
  assumes "\<forall>s \<in> set sigs. process s = Inr (r s)"
  shows "sr_records (stream_signatures (\<lambda>_. False) (\<lambda>_. True) process sigs run) = sr_records run @ List.map_filter r sigs \<and>
    sr_finished (stream_signatures (\<lambda>_. False) (\<lambda>_. True) process sigs run) = sr_finished run"
  using assms by (induction sigs arbitrary: run) (simp_all add: map_filter_simps Let_def split: option.split)

abbreviation signatures_of :: "sig_info list \<Rightarrow> signature list" where
  "signatures_of infos \<equiv> map (the \<circ> si_signature) infos"

lemma ledger_signature: "ledger_ok ledger \<Longrightarrow> i \<in> set ledger \<Longrightarrow> si_signature i = Some (the (si_signature i))"
  by (cases "si_signature i") (force simp: ledger_ok_def)+

lemma ledger_ok_append: "ledger_ok (xs @ ys) \<Longrightarrow> ledger_ok xs \<and> ledger_ok ys"
  by (auto simp: ledger_ok_def)

lemma distinct_signatures: "ledger_ok ledger \<Longrightarrow> distinct (signatures_of ledger)"
proof -
  assume ok: "ledger_ok ledger"
  have "map Some (signatures_of ledger) = map si_signature ledger" using ledger_signature [OF ok] by auto
  moreover have "distinct (map si_signature ledger)" using ok by (simp add: ledger_ok_def)
  ultimately have "distinct (map Some (signatures_of ledger))" by (simp only:)
  then show ?thesis unfolding distinct_map [of Some] by blast
qed

lemma stream_loop_ok:
  assumes "serves ledger (hn_signatures node (hc_bridge_state_pda config))" and "ledger_ok ledger"
    and "1 \<le> hc_signature_batch_size config" and "hc_signature_batch_size config \<le> 1000"
  shows "stream_loop stop open order node config ck =
    Some (stream_signatures stop open (process_transaction order node config)
      (rev (signatures_of (newer_than (after_signature_of ck) ledger)))
      \<lparr> sr_records = [], sr_offered = [], sr_checkpoint = ck, sr_finished = True \<rparr>)"
  by (simp add: stream_loop_def collect_all_ok [OF assms])

section \<open>What is read of the buffers\<close>

lemma read_mints_all:
  assumes "\<forall>i \<in> set is. off + (i + 1) * 40 \<le> length data"
  shows "read_mints data off is = map (pending_mint_at data off) is"
  using assms by (induction "is") (simp_all add: pending_mint_at_def Let_def)

text \<open>Read from a complete buffer, the mints are those that the bridge pays from it.\<close>

lemma fetched_mints:
  assumes "hn_account node buffer = Inr data" and "n = unat (bh_pending_mints_count (dec_buffer_header (bslice data 0 72)))"
    and "unat (bh_pending_mint_groups_count (dec_buffer_header (bslice data 0 72))) = group_count n"
    and "72 + 32 * group_count n + 40 * n \<le> length data"
  shows "fetch_pending_mints_from_buffer node buffer = Inr (map (buffer_mint data n) [0..<n])"
proof -
  have "\<forall>i \<in> set [0..<n]. 72 + group_count n * 32 + (i + 1) * 40 \<le> length data" using assms(4) by auto
  from read_mints_all [OF this] show ?thesis
    using assms by (simp add: fetch_pending_mints_from_buffer_def Let_def buffer_mint_def [abs_def] mult.commute)
qed

text \<open>Read from a buffer that holds an upload, the outputs are the uploaded ones.\<close>

lemma serialized_at:
  "i < length indices \<Longrightarrow> from_le_bytes (bslice (serialize_all indices) (4 * i) (4 * i + 4)) = indices ! i"
proof (induction indices arbitrary: i)
  case (Cons x indices)
  have len: "length (to_le_bytes x) = 4" by simp
  show ?case
  proof (cases i)
    case 0
    then show ?thesis using len by (simp add: serialize_all_def bslice_def from_to_le_bytes_sized)
  next
    case (Suc j)
    then have "bslice (serialize_all (x # indices)) (4 * i) (4 * i + 4) = bslice (serialize_all indices) (4 * j) (4 * j + 4)"
      using len by (simp add: serialize_all_def bslice_def)
    with Suc Cons show ?thesis by simp
  qed
qed simp

lemma fetched_txos:
  assumes "hn_account node buffer = Inr data" and "bslice data 48 (48 + 4 * length indices) = serialize_all indices"
    and "48 + 4 * length indices \<le> length data" and "unat (th_data_size (dec_txo_header (bslice data 0 48))) = 4 * length indices"
  shows "fetch_txos_from_buffer node buffer = Inr indices"
proof -
  have all: "read_txos data is = map (\<lambda>i. from_le_bytes (bslice data (48 + i * 4) (48 + i * 4 + 4))) is" if "\<forall>i \<in> set is. 48 + (i + 1) * 4 \<le> length data" for "is"
    using that by (induction "is") (simp_all add: Let_def)
  have "bslice data (48 + i * 4) (48 + i * 4 + 4) = bslice (serialize_all indices) (4 * i) (4 * i + 4)" if "i < length indices" for i
    unfolding assms(2) [symmetric] using that by (simp add: bslice_def drop_take min_def ac_simps)
  then have "map (\<lambda>i. from_le_bytes (bslice data (48 + i * 4) (48 + i * 4 + 4))) [0..<length indices] = indices"
    using serialized_at by (intro nth_equalityI) simp_all
  then show ?thesis using all [of "[0..<length indices]"] assms by (simp add: fetch_txos_from_buffer_def Let_def)
qed

section \<open>Records of the instructions of the client\<close>

lemma program_of_recorded: "recorded keys ix ci \<Longrightarrow> program_of keys ci = Some (ix_program_id ix)"
  using recorded_parts(1,2) [of keys ix ci] by (simp add: program_of_def)

text \<open>The stream and the monitor read the same values of a withdrawal request.\<close>

lemma request_as_event:
  "parse_withdrawal_request sig slot block_time data accounts keys =
     map_option (\<lambda>e. WithdrawalRequest \<lparr> rr_signature = wq_signature e, rr_slot = wq_slot e, rr_block_time = wq_block_time e,
       rr_amount_sats = wq_amount_sats e, rr_recipient_address = wq_recipient_address e, rr_address_type = wq_address_type e,
       rr_user_pubkey = wq_user_pubkey e \<rparr>) (event_withdrawal_request sig slot block_time data accounts keys)"
  by (simp add: parse_withdrawal_request_def event_withdrawal_request_def Let_def)

lemma request_record:
  assumes "recorded keys (request_withdrawal_ix rt ids (hc_program_id config) user mint token address amount ty) ci"
    and "length address = 20" and "hc_include_withdrawals config"
  shows "first_record order node config sig tx keys (ci # rest) = Inr (Some (WithdrawalRequest
    \<lparr> rr_signature = sig, rr_slot = ct_slot tx, rr_block_time = ct_block_time tx, rr_amount_sats = amount,
      rr_recipient_address = address, rr_address_type = ty, rr_user_pubkey = bridge_state_address rt (hc_program_id config) \<rparr>))"
proof -
  let ?ix = "request_withdrawal_ix rt ids (hc_program_id config) user mint token address amount ty"
  have data: "ix_program_id ?ix = hc_program_id config" "ix_data ?ix = gen_aligned_instruction 2
      (enc_withdrawal_request (withdrawal_request_new address amount ty))" by (simp_all add: request_withdrawal_ix_def)
  have parts: "ci_data ci = ix_data ?ix" "program_of keys ci = Some (hc_program_id config)"
    using recorded_parts [OF assms(1)] program_of_recorded [OF assms(1)] data by simp_all
  have shape: "\<not> length (ci_data ci) < 5" "ci_data ci ! 4 = 2" unfolding parts(1) data(2)
    by (simp_all add: gen_aligned_instruction_def nth_append)
  have ev: "event_withdrawal_request sig (ct_slot tx) (ct_block_time tx) (ci_data ci) (ci_accounts ci) keys = Some
     \<lparr> wq_signature = sig, wq_slot = ct_slot tx, wq_block_time = ct_block_time tx, wq_amount_sats = amount,
      wq_recipient_address = address, wq_address_type = ty, wq_user_pubkey = bridge_state_address rt (hc_program_id config), wq_withdrawal_index = 0 \<rparr>"
    using request_event [OF assms(1,2), of sig tx] shape recorded_parts(1,2) [OF assms(1)] data(1) by (simp add: event_instruction_def Let_def)
  show ?thesis using parts(2) shape assms(3) by (simp add: Let_def request_as_event ev)
qed

section \<open>Properties\<close>

text \<open>C19. A stream can be resumed without loss or repetition: a run from the beginning, stopped at any time and with a receiver
  that leaves at any time, offers a checkpoint with every record it sends. A later run from any of these checkpoints, against
  a node that may have seen new transactions in between, returns and sends exactly the records that follow the one of the checkpoint,
  oldest first. (Every transaction is read without an error, and no signature is the zero signature that stands for no checkpoint.)\<close>

theorem stream_resumes:
  assumes "ledger_ok (new @ ledger)" and "Some default_signature \<notin> si_signature ` set ledger"
    and "serves ledger (hn_signatures node (hc_bridge_state_pda config))"
    and "serves (new @ ledger) (hn_signatures node' (hc_bridge_state_pda config))"
    and "1 \<le> hc_signature_batch_size config" and "hc_signature_batch_size config \<le> 1000"
    and "\<forall>s \<in> set (signatures_of ledger). process_transaction order node config s = Inr (r s)"
    and "\<forall>s \<in> set (signatures_of (new @ ledger)). process_transaction order node' config s = Inr (r s)"
    and "stream_loop stop open order node config checkpoint_new = Some run" and "j < length (sr_offered run)"
  shows "\<exists>run'. stream_loop (\<lambda>_. False) (\<lambda>_. True) order node' config (sr_offered run ! j) = Some run' \<and> sr_finished run' \<and>
    take (Suc j) (sr_records run) @ sr_records run' = List.map_filter r (rev (signatures_of (new @ ledger)))"
proof -
  let ?sigs = "rev (signatures_of ledger)" and ?start = "\<lambda>ck. \<lparr> sr_records = [], sr_offered = [], sr_checkpoint = ck, sr_finished = True \<rparr>"
  have ok: "ledger_ok ledger" using assms(1) ledger_ok_append by blast
  have "after_signature_of checkpoint_new = None" by (simp add: after_signature_of_def checkpoint_new_def)
  then have run: "run = stream_signatures stop open (process_transaction order node config) ?sigs (?start checkpoint_new)"
    using assms(9) stream_loop_ok [OF assms(3) ok assms(5,6), of stop "open" order checkpoint_new] by (simp add: newer_than_def)
  obtain k where k: "sr_records run = map snd (take k (tagged r ?sigs))"
      "map ck_last_signature (sr_offered run) = map fst (take k (tagged r ?sigs))"
    using stream_some [of ?sigs "process_transaction order node config" r stop "open" "?start checkpoint_new"] assms(7) unfolding run by auto
  have len: "length (sr_offered run) = length (take k (tagged r ?sigs))" using k(2) by (metis length_map)
  then have j: "j < length (tagged r ?sigs)" "j < k" using assms(10) by simp_all
  obtain s rec where sr: "tagged r ?sigs ! j = (s, rec)" by (cases "tagged r ?sigs ! j")
  have "ck_last_signature (sr_offered run ! j) = map ck_last_signature (sr_offered run) ! j" using assms(10) by simp
  then have s: "ck_last_signature (sr_offered run ! j) = s" unfolding k(2) using j sr by simp
  have "s \<in> set (signatures_of ledger)" "r s = Some rec" using tagged_in [of s rec r ?sigs] sr nth_mem [OF j(1)] by auto
  then obtain X x Y where l: "ledger = X @ x # Y" "s = the (si_signature x)" by (auto dest: split_list)
  have x: "si_signature x = Some s" using ledger_signature [OF ok, of x] l by simp
  have later: "newer_than (Some s) (new @ ledger) = new @ X"
    using newer_than_head [of "new @ X" "x # Y" "Some s"] assms(1) l(1) x by simp
  have "s \<noteq> default_signature" using assms(2) l(1) x by force
  then have after: "after_signature_of (sr_offered run ! j) = Some s" by (simp add: after_signature_of_def s)
  let ?A = "tagged r (rev (signatures_of Y))" and ?B = "tagged r (rev (signatures_of X))"
  have split: "tagged r ?sigs = ?A @ (s, rec) # ?B" using l(1) x \<open>r s = Some rec\<close> by simp
  have "distinct (tagged r ?sigs)" using distinct_signatures [OF ok] by (intro distinct_tagged) simp
  then have "length ?A = j"
    using j(1) sr nth_eq_iff_index_eq [of "tagged r ?sigs" "length ?A" j] unfolding split by (simp add: nth_append)
  then have taken: "take (Suc j) (sr_records run) = List.map_filter r (rev (signatures_of Y) @ [s])"
    using j(2) split unfolding k(1) map_snd_tagged [symmetric] by (simp add: take_map min_def \<open>r s = Some rec\<close>)
  have "\<forall>s \<in> set (rev (signatures_of (new @ X))). process_transaction order node' config s = Inr (r s)" using assms(8) l(1) by auto
  note all = stream_all [OF this, of "?start (sr_offered run ! j)"]
  show ?thesis
    using all taken stream_loop_ok [OF assms(4,1,5,6), of "\<lambda>_. False" "\<lambda>_. True" order "sr_offered run ! j"]
    unfolding after later by (simp add: l(1) x \<open>r s = Some rec\<close> map_filter_simps)
qed

text \<open>A node where every transaction is a withdrawal request.\<close>

definition example_history_node :: "sig_info list \<Rightarrow> history_node" where
  "example_history_node ledger = \<lparr> hn_signatures = \<lambda>_. sample_page ledger, hn_gate = \<lambda>_. Inr (),
     hn_transaction = \<lambda>_. Inr \<lparr> ct_slot = 9, ct_block_time = None, ct_transaction = BinaryTx (Some example_request_vt),
       ct_inner = [], ct_failed = False \<rparr>, hn_account = \<lambda>_. Inr [] \<rparr>"

definition example_record :: "signature \<Rightarrow> HistoryRecord option" where
  "example_record sig = Some (WithdrawalRequest \<lparr> rr_signature = sig, rr_slot = 9, rr_block_time = None, rr_amount_sats = 1000,
     rr_recipient_address = replicate 20 7, rr_address_type = 0, rr_user_pubkey = bridge_state_address sample_runtime (replicate 32 10) \<rparr>)"

lemma example_history_record:
  "process_transaction order (example_history_node ledger) example_history_config sig = Inr (example_record sig)"
proof -
  let ?ci = "\<lparr> ci_program_id_index = 5, ci_accounts = [0, 1, 2, 3, 4], ci_data = ix_data example_request_ix \<rparr>"
  have parts: "hc_include_withdrawals example_history_config" "hc_program_id example_history_config = replicate 32 10"
    "vt_instructions example_request_vt = [?ci]" by (simp_all add: example_history_config_def example_request_vt_def)
  have "recorded (vt_static_keys example_request_vt) (request_withdrawal_ix sample_runtime example_ids (hc_program_id example_history_config)
      (replicate 32 1) (replicate 32 2) (replicate 32 3) (replicate 20 7) 1000 0) ?ci"
    unfolding parts by (simp add: recorded_def compiles_def example_request_vt_def example_request_ix_def request_withdrawal_ix_def)
  note rec = request_record [OF this length_replicate parts(1), of order "example_history_node ledger" sig _ "[]", unfolded parts(2)]
  have "hn_gate (example_history_node ledger) sig = Inr ()"
    "hn_transaction (example_history_node ledger) sig = Inr \<lparr> ct_slot = 9, ct_block_time = None,
      ct_transaction = BinaryTx (Some example_request_vt), ct_inner = [], ct_failed = False \<rparr>"
    by (simp_all add: example_history_node_def)
  then show ?thesis
    by (simp add: process_transaction_def lift_client_def parts(3) rec del: first_record.simps) (simp add: example_record_def)
qed

theorem stream_resumes_witness:
  "\<exists>run run'. stream_loop (\<lambda>s. s = replicate 64 2) (\<lambda>_. True) rev (example_history_node [example_info 2, example_info 1])
       example_history_config checkpoint_new = Some run \<and> sr_records run = [the (example_record (replicate 64 1))] \<and>
     stream_loop (\<lambda>_. False) (\<lambda>_. True) rev (example_history_node [example_info 3, example_info 2, example_info 1])
       example_history_config (sr_offered run ! 0) = Some run' \<and>
     sr_records run' = [the (example_record (replicate 64 2)), the (example_record (replicate 64 3))]"
proof -
  let ?new = "[example_info 3]" and ?old = "[example_info 2, example_info 1]"
  have ok: "ledger_ok (?new @ ?old)" by (simp add: ledger_ok_def example_info_def)
  have serve: "serves l (hn_signatures (example_history_node l) (hc_bridge_state_pda example_history_config))" for l
    by (simp add: example_history_node_def sample_page_serves)
  have batch: "1 \<le> hc_signature_batch_size example_history_config" "hc_signature_batch_size example_history_config \<le> 1000"
    by (simp_all add: example_history_config_def)
  have "ledger_ok ?old" using ledger_ok_append [OF ok] by blast
  note first = stream_loop_ok [OF serve this batch, of "\<lambda>s. s = replicate 64 2" "\<lambda>_. True" rev checkpoint_new]
  obtain run where run: "stream_loop (\<lambda>s. s = replicate 64 2) (\<lambda>_. True) rev (example_history_node ?old)
      example_history_config checkpoint_new = Some run" "sr_records run = [the (example_record (replicate 64 1))]" "0 < length (sr_offered run)"
    unfolding first by (simp add: after_signature_of_def checkpoint_new_def newer_than_def example_info_def example_history_record
        example_record_def Let_def)
  have none: "Some default_signature \<notin> si_signature ` set ?old" by (simp add: default_signature_def example_info_def)
  from stream_resumes [OF ok none serve serve batch _ _ run(1,3), of example_record] run
  show ?thesis by (auto simp: example_history_record example_record_def example_info_def map_filter_simps)
qed

end
