(* ===== verification/HistoryBlocks.thy ===== *)
theory HistoryBlocks
  imports HistorySync
begin

text \<open>
  The two ways in which \<open>clients/rust/src/history.rs\<close> rebuilds the buffers of a block, and the list of all blocks.
  \<open>fetch_blocks\<close> reads the transactions of the operator once and rebuilds every block from them; the stream asks again for
  each block and reads the instructions as it goes. They agree when a transaction carries one
  instruction, as the buffer managers send them, and differ otherwise: the stream takes the reinitialisation of any mint
  buffer for one of its own.
\<close>

section \<open>The two walks over the transactions of the operator\<close>

text \<open>One instruction, and none that reinitialises another mint buffer or inserts nothing.\<close>

definition plain_tx :: "HistorySyncConfig \<Rightarrow> pubkey \<Rightarrow> versioned_transaction \<Rightarrow> bool" where
  "plain_tx config mint_buffer vt \<longleftrightarrow> length (vt_instructions vt) \<le> 1 \<and>
     (\<forall>ix \<in> set (vt_instructions vt). program_of (vt_static_keys vt) ix = Some (hc_pending_mint_program_id config) \<longrightarrow> ci_data ix \<noteq> [] \<longrightarrow>
        (ci_data ix ! 0 = 1 \<longrightarrow> key_at (vt_static_keys vt) (ci_accounts ix) 0 = Some mint_buffer) \<and>
        (ci_data ix ! 0 = 3 \<longrightarrow> parse_mints (drop 3 (ci_data ix)) \<noteq> []))"

lemma is_update_parsed:
  assumes "length (vt_instructions vt) \<le> 1"
  shows "pt_is_block_update (parse_operator_tx config slot vt) = is_block_update_tx config (vt_static_keys vt) (vt_instructions vt)"
proof (cases "vt_instructions vt")
  case Nil
  then show ?thesis by (simp add: parse_operator_tx_def is_block_update_tx_def)
next
  case (Cons ix rest)
  then have "vt_instructions vt = [ix]" using assms by simp
  then show ?thesis
    by (simp add: parse_operator_tx_def is_block_update_tx_def parse_operator_ix_def program_of_def parse_bridge_part_def
        parse_mint_part_def parse_txo_part_def Let_def split: option.split)
qed

lemma stream_mint_agrees:
  assumes "data \<noteq> [] \<longrightarrow> (data ! 0 = 1 \<longrightarrow> key = Some mb) \<and> (data ! 0 = 3 \<longrightarrow> parse_mints (drop 3 data) \<noteq> [])"
    and "key = key_at keys (ci_accounts ix) 0" and "data = ci_data ix"
  shows "(case stream_mint_part mb keys ix st of None \<Rightarrow> st | Some st' \<Rightarrow> st') =
    rebuild_tx mb tb (case key of None \<Rightarrow> blank_tx slot | Some b \<Rightarrow> parse_mint_part b data (blank_tx slot)) st"
  using assms
  by (auto simp: stream_mint_part_def parse_pending_mint_insert_def parse_mint_part_def rebuild_tx_def blank_tx_def Let_def split: option.split)

lemma stream_txo_agrees:
  assumes "key = key_at keys (ci_accounts ix) 0" and "data = ci_data ix"
  shows "(case stream_txo_part tb keys ix st of None \<Rightarrow> st | Some st' \<Rightarrow> st') =
    rebuild_tx mb tb (case key of None \<Rightarrow> blank_tx slot | Some b \<Rightarrow> parse_txo_part b data (blank_tx slot)) st"
  using assms
  by (auto simp: stream_txo_part_def stream_set_len_def parse_txo_buffer_set_len_with_batch_def parse_txo_buffer_write_with_batch_def
     parse_txo_part_def rebuild_tx_def blank_tx_def Let_def split: option.split)

lemma stream_ix_agrees:
  assumes "distinct_programs config" and "plain_tx config mb vt"
  shows "stream_ix_loop config (vt_static_keys vt) mb tb (vt_instructions vt) st = rebuild_tx mb tb (parse_operator_tx config slot vt) st"
proof (cases "vt_instructions vt")
  case Nil
  then show ?thesis by (simp add: parse_operator_tx_def rebuild_tx_def)
next
  case (Cons ix rest)
  then have one: "vt_instructions vt = [ix]" using assms(2) by (simp add: plain_tx_def)
  have blank: "\<lparr> pt_slot = slot, pt_is_block_update = False, pt_mint_inserts = [], pt_txo_set_lens = [], pt_txo_writes = [], pt_mint_reinits = [] \<rparr> =
      blank_tx slot" by (simp add: blank_tx_def)
  have idle: "rebuild_tx mb tb (parse_bridge_part config p d (blank_tx slot)) st = st" for p d
    by (simp add: parse_bridge_part_def rebuild_tx_def blank_tx_def)
  let ?keys = "vt_static_keys vt" and ?data = "ci_data ix"
  define key where "key = key_at ?keys (ci_accounts ix) 0"
  note d = distinct_programsD [OF assms(1)]
  consider (none) "program_of ?keys ix = None" | (mint) "program_of ?keys ix = Some (hc_pending_mint_program_id config)"
    | (txo) "program_of ?keys ix = Some (hc_txo_buffer_program_id config)"
    | (other) p where "program_of ?keys ix = Some p" "p \<noteq> hc_pending_mint_program_id config" "p \<noteq> hc_txo_buffer_program_id config"
    by (cases "program_of ?keys ix") auto
  then show ?thesis
  proof cases
    case none
    then show ?thesis by (simp add: one parse_operator_tx_def parse_operator_ix_def rebuild_tx_def program_of_def split: if_splits)
  next
    case mint
    have "parse_operator_tx config slot vt = (case key of None \<Rightarrow> blank_tx slot | Some b \<Rightarrow> parse_mint_part b ?data (blank_tx slot))"
      using mint d by (simp add: one parse_operator_tx_def blank parse_operator_ix_def program_of_def parse_bridge_part_def key_def Let_def split: if_splits option.split)
    moreover have "?data \<noteq> [] \<longrightarrow> (?data ! 0 = 1 \<longrightarrow> key = Some mb) \<and> (?data ! 0 = 3 \<longrightarrow> parse_mints (drop 3 ?data) \<noteq> [])"
      using assms(2) mint one by (simp add: plain_tx_def key_def)
    from stream_mint_agrees [OF this key_def refl, of st tb slot] calculation show ?thesis using mint d
      by (simp add: one split: option.splits)
  next
    case txo
    have "parse_operator_tx config slot vt = (case key of None \<Rightarrow> blank_tx slot | Some b \<Rightarrow> parse_txo_part b ?data (blank_tx slot))"
      using txo d by (simp add: one parse_operator_tx_def blank parse_operator_ix_def program_of_def parse_bridge_part_def key_def Let_def split: if_splits option.split)
    then show ?thesis using txo d stream_txo_agrees [OF key_def refl, of st tb mb slot] by (simp add: one split: option.splits)
  next
    case other
    then show ?thesis using idle
      by (simp add: one parse_operator_tx_def blank parse_operator_ix_def program_of_def Let_def split: if_splits)
  qed
qed

definition fetches_plain :: "history_node \<Rightarrow> HistorySyncConfig \<Rightarrow> pubkey \<Rightarrow> sig_info list \<Rightarrow> bool" where
  "fetches_plain node config mint_buffer infos \<longleftrightarrow> (\<forall>i \<in> set infos. \<forall>sig. si_signature i = Some sig \<longrightarrow> hn_gate node sig = Inr () \<and>
     (\<forall>tx vt. hn_transaction node sig = Inr tx \<longrightarrow> decoded tx = Some vt \<longrightarrow> plain_tx config mint_buffer vt))"

lemma cache_loop_returns:
  assumes "\<forall>i \<in> set infos. \<forall>sig. si_signature i = Some sig \<longrightarrow> hn_gate node sig = Inr ()"
  obtains ts where "cache_loop node config infos = Inr ts"
proof -
  have "\<exists>ts. cache_loop node config infos = Inr ts"
    using assms by (induction infos) (auto split: option.split sum.split)
  then show ?thesis using that by blast
qed

lemma cache_loop_filter:
  assumes "cache_loop node config infos = Inr ts"
  shows "cache_loop node config (filter (\<lambda>i. si_slot i \<le> s) infos) = Inr (filter (\<lambda>t. pt_slot t \<le> s) ts)"
  using assms
  by (induction infos arbitrary: ts) (auto simp: parsed_slot result_simps split: option.splits sum.splits)

lemma operator_loop_agrees:
  assumes "distinct_programs config" and "fetches_plain node config mb infos" and "cache_loop node config infos = Inr ts"
  shows "operator_loop node config mb tb infos st = Inr (rebuild_loop mb tb ts st)"
  using assms(2,3)
proof (induction infos arbitrary: ts st)
  case Nil
  then show ?case by simp
next
  case (Cons i infos)
  have plain: "fetches_plain node config mb infos" using Cons.prems(1) by (simp add: fetches_plain_def)
  show ?case
  proof (cases "\<exists>sig tx vt. si_signature i = Some sig \<and> hn_transaction node sig = Inr tx \<and> decoded tx = Some vt")
    case True
    then obtain sig tx vt where tx: "si_signature i = Some sig" "hn_transaction node sig = Inr tx" "decoded tx = Some vt" by blast
    then have p: "hn_gate node sig = Inr ()" "plain_tx config mb vt" using Cons.prems(1) by (auto simp: fetches_plain_def)
    obtain ts' where ts': "cache_loop node config infos = Inr ts'" "ts = parse_operator_tx config (si_slot i) vt # ts'"
      using Cons.prems(2) tx p(1) by (auto simp: result_simps)
    have "pt_is_block_update (parse_operator_tx config (si_slot i) vt) = is_block_update_tx config (vt_static_keys vt) (vt_instructions vt)"
      using is_update_parsed p(2) by (simp add: plain_tx_def)
    then show ?thesis
      using tx p(1) Cons.IH [OF plain ts'(1)] stream_ix_agrees [OF assms(1) p(2)] unfolding ts'(2) by (simp add: Let_def)
  next
    case False
    then show ?thesis using Cons plain by (auto simp: fetches_plain_def split: option.splits sum.splits)
  qed
qed

lemma operator_walk_agrees:
  assumes "distinct_programs config" and "serves ledger (hn_signatures node operator)" and "length ledger \<le> 100"
    and "fetches_plain node config mb ledger" and "build_operator_tx_cache node config operator = Inr cache"
  shows "reconstruct_buffers_from_operator_txs order node config operator mb tb slot = reconstruct_buffers_from_cache order cache mb tb slot"
proof -
  have page: "hn_signatures node operator None None k = Inr ledger" if "100 \<le> k" "k \<le> 1000" for k
    using assms(2,3) that by (simp add: serves_def older_than_def newer_than_def)
  have "cache_loop node config ledger = Inr cache" using assms(5) page [of 1000] by (simp add: build_operator_tx_cache_def)
  note cached = cache_loop_filter [OF this, of slot]
  have "fetches_plain node config mb (filter (\<lambda>i. si_slot i \<le> slot) ledger)" using assms(4) by (auto simp: fetches_plain_def)
  from operator_loop_agrees [OF assms(1) this cached] show ?thesis
    by (simp add: reconstruct_buffers_from_operator_txs_def page lift_client_def reconstruct_buffers_from_cache_def)
qed
lemma rebuild_result_no_error: "rebuild_result order st \<noteq> Inl (Err e)"
proof -
  have "copy_writes ws raw \<noteq> Inl (Err e)" for ws raw by (induction ws raw rule: copy_writes.induct) (simp_all add: Let_def)
  then show ?thesis by (auto simp: rebuild_result_def assemble_txo_indices_def result_simps split: sum.splits if_splits)
qed

lemma stream_agrees_with_fetch:
  assumes "distinct_programs config" and "fetch_block_update_info node config sig = Inr (Some info)"
    and "hn_transaction node sig = Inr tx" and "decoded tx = Some vt" and "length (vt_instructions vt) \<le> 1"
    and "bi_operator info = Some operator" and "bi_mint_buffer info = Some mb" and "bi_txo_buffer info = Some tb"
    and "serves ledger (hn_signatures node operator)" and "length ledger \<le> 100" and "fetches_plain node config mb ledger"
    and "build_operator_tx_cache node config operator = Inr cache"
  shows "process_transaction order node config sig =
    rbind (reconstruct_buffers_from_cache order cache mb tb (bi_slot info)) (\<lambda>(mints, indices).
      Inr (Some (Block (to_block_record info mints indices))))"
proof -
  have gate: "hn_gate node sig = Inr ()" and first: "first_block_info config sig tx (vt_static_keys vt) (vt_instructions vt) = Some info"
    using assms(2-4) by (auto simp: fetch_block_update_info_def result_simps)
  obtain ix where one: "vt_instructions vt = [ix]" using first assms(5) by (cases "vt_instructions vt") auto
  let ?keys = "vt_static_keys vt" and ?data = "ci_data ix"
  have ix: "program_of ?keys ix = Some (hc_program_id config)" "is_block_update_data ?data" "\<not> length ?data < 8 + 576"
    using first one by (auto split: if_splits)
  define fixed where "fixed = dec_block_update (bslice ?data 8 (8 + 576))"
  have info: "info = \<lparr> bi_block_height = sc_block_height (finalized_state (bu_header fixed)), bi_signature = sig,
      bi_slot = ct_slot tx, bi_block_time = ct_block_time tx, bi_is_reorg = (?data ! 4 = 8),
      bi_extra_finalized_blocks = extra_blocks (?data ! 4 = 8) ?data, bi_mint_buffer = key_at ?keys (ci_accounts ix) 1,
      bi_txo_buffer = key_at ?keys (ci_accounts ix) 2, bi_operator = key_at ?keys (ci_accounts ix) 3 \<rparr>"
    using first one ix by (simp add: Let_def fixed_def)
  have keys: "key_at ?keys (ci_accounts ix) 1 = Some mb" "key_at ?keys (ci_accounts ix) 2 = Some tb" "key_at ?keys (ci_accounts ix) 3 = Some operator"
    using assms(6-8) info by simp_all
  have "ct_transaction tx = BinaryTx (Some vt)" using assms(4) by (simp add: decoded_def split: encoded_transaction.splits)
  then have "process_transaction order node config sig =
      parse_block_update order node config sig (ct_slot tx) (ct_block_time tx) ?data (ci_accounts ix) ?keys (?data ! 4 = 8)"
    using gate assms(3) one ix by (auto simp: process_transaction_def lift_client_def is_block_update_data_def Let_def)
  also have "\<dots> = rbind (reconstruct_buffers_from_cache order cache mb tb (ct_slot tx)) (\<lambda>(mints, indices).
      Inr (Some (Block (to_block_record info mints indices))))"
    using ix(3) keys operator_walk_agrees [OF assms(1,9-12), of order tb "ct_slot tx"] rebuild_result_no_error [of order]
    by (simp add: parse_block_update_def Let_def fixed_def to_block_record_def info reconstruct_buffers_from_cache_def
        split: sum.split fault.split)
  finally show ?thesis by (simp add: info)
qed

section \<open>Walking the blocks\<close>

definition in_range :: "u32 option \<Rightarrow> BlockUpdateInfo \<Rightarrow> bool" where
  "in_range from_height bi \<longleftrightarrow> (case from_height of Some from \<Rightarrow> from \<le> bi_block_height bi | None \<Rightarrow> True)"

definition walk_of :: "(signature \<Rightarrow> BlockUpdateInfo option) \<Rightarrow> u32 option \<Rightarrow> sig_info list \<Rightarrow> BlockUpdateInfo list" where
  "walk_of b from_height infos = filter (in_range from_height) (List.map_filter b (signatures_of infos))"

definition first_operator :: "BlockUpdateInfo list \<Rightarrow> pubkey option" where
  "first_operator infos = foldl (\<lambda>op bi. if op = None then bi_operator bi else op) None infos"

lemma push_block_infos_ok:
  assumes "\<forall>i \<in> set infos. si_signature i \<noteq> None \<and> fetch_block_update_info node config (the (si_signature i)) = Inr (b (the (si_signature i)))"
    and "infos \<noteq> []"
  shows "push_block_infos node config from_height (bs, op, before) infos =
    Inr (bs @ walk_of b from_height infos,
         foldl (\<lambda>op bi. if op = None then bi_operator bi else op) op (walk_of b from_height infos), si_signature (last infos))"
  using assms
proof (induction infos arbitrary: bs op before)
  case Nil
  then show ?case by simp
next
  case (Cons i infos)
  then obtain s where s: "si_signature i = Some s" by auto
  have "fetch_block_update_info node config s = Inr (b s)" using Cons.prems(1) s by auto
  with Cons s show ?case
    by (cases "infos = []") (auto simp: walk_of_def in_range_def map_filter_simps not_less split: option.splits)
qed

lemma block_info_loop_ok:
  assumes "serves ledger (hn_signatures node (hc_bridge_state_pda config))" and "ledger_ok ledger"
    and "1 \<le> hc_signature_batch_size config" and "hc_signature_batch_size config \<le> 1000"
    and "\<forall>s \<in> set (signatures_of ledger). fetch_block_update_info node config s = Inr (b s)" and "ledger = seen @ rest"
  shows "block_info_loop node config from_height (walk_of b from_height seen, first_operator (walk_of b from_height seen), cursor_of seen) =
    Some (Inr (walk_of b from_height ledger, first_operator (walk_of b from_height ledger), cursor_of ledger))"
  using assms(6)
proof (induction "length rest" arbitrary: seen rest rule: less_induct)
  case less
  let ?n = "hc_signature_batch_size config"
  have "newer_than None ledger = seen @ rest" using less.prems by (simp add: newer_than_def)
  then have pg: "hn_signatures node (hc_bridge_state_pda config) (cursor_of seen) None ?n = Inr (take ?n rest)"
    by (rule page_after [OF assms(1,2) _ assms(3,4)])
  show ?case
  proof (cases "rest = []")
    case True
    then show ?thesis using pg less.prems by (subst block_info_loop.simps) simp
  next
    case False
    have ne: "take ?n rest \<noteq> []" using False assms(3) by (cases rest) auto
    have "\<forall>i \<in> set (take ?n rest). si_signature i \<noteq> None \<and> fetch_block_update_info node config (the (si_signature i)) = Inr (b (the (si_signature i)))"
      using assms(2,5) less.prems ledger_signature [OF assms(2)] by (auto dest!: in_set_takeD)
    note push = push_block_infos_ok [OF this ne, of from_height]
    have "block_info_loop node config from_height (walk_of b from_height seen, first_operator (walk_of b from_height seen), cursor_of seen) =
        block_info_loop node config from_height (walk_of b from_height (seen @ take ?n rest),
          first_operator (walk_of b from_height (seen @ take ?n rest)), cursor_of (seen @ take ?n rest))"
      using pg ne by (subst block_info_loop.simps) (simp add: push cursor_of_def walk_of_def first_operator_def)
    also have "\<dots> = Some (Inr (walk_of b from_height ledger, first_operator (walk_of b from_height ledger), cursor_of ledger))"
      using less.hyps [of "drop ?n rest" "seen @ take ?n rest"] False assms(3) less.prems by simp
    finally show ?thesis .
  qed
qed

lemma rebuild_blocks_ok:
  assumes "\<forall>b \<in> set bs. reconstruct_buffers_from_cache order cache (key_or_default (bi_mint_buffer (f b)))
      (key_or_default (bi_txo_buffer (f b))) (bi_slot (f b)) = Inr (mints b, indices b)"
  shows "rebuild_blocks order cache (map f bs) = Inr (map (\<lambda>b. to_block_record (f b) (mints b) (indices b)) bs)"
  using assms by (induction bs) simp_all

lemma first_operator_same:
  assumes "\<forall>bi \<in> set infos. bi_operator bi = Some op" and "infos \<noteq> []"
  shows "first_operator infos = Some op"
proof -
  have "foldl (\<lambda>op bi. if op = None then bi_operator bi else op) (Some op) infos = Some op" for infos by (induction infos) simp_all
  with assms show ?thesis by (cases infos) (simp_all add: first_operator_def)
qed

lemma fetch_blocks_ok:
  assumes "serves ledger (hn_signatures node (hc_bridge_state_pda config))" and "ledger_ok ledger"
    and "1 \<le> hc_signature_batch_size config" and "hc_signature_batch_size config \<le> 1000"
    and "\<forall>s \<in> set (signatures_of ledger). fetch_block_update_info node config s = Inr (b s)"
    and "build_operator_tx_cache node config op = Inr cache" and "walk_of b from_height ledger = map f bs"
    and "\<forall>x \<in> set bs. bi_operator (f x) = Some op \<and> reconstruct_buffers_from_cache order cache (key_or_default (bi_mint_buffer (f x)))
      (key_or_default (bi_txo_buffer (f x))) (bi_slot (f x)) = Inr (mints x, indices x)"
  shows "fetch_blocks order node config from_height to_height =
    Some (Inr (sort_key br_block_height (map (\<lambda>x. to_block_record (f x) (mints x) (indices x)) bs)))"
proof -
  have start: "walk_of b from_height [] = []" "first_operator [] = None" "cursor_of [] = None"
    by (simp_all add: walk_of_def first_operator_def cursor_of_def map_filter_simps)
  note loop = block_info_loop_ok [OF assms(1-5), of "[]" ledger from_height, unfolded start assms(7), simplified]
  show ?thesis
  proof (cases "bs = []")
    case True
    then show ?thesis by (simp add: fetch_blocks_def loop lift_client_def)
  next
    case False
    then have "first_operator (map f bs) = Some op" using assms(8) by (intro first_operator_same) auto
    moreover have "rebuild_blocks order cache (map f bs) = Inr (map (\<lambda>x. to_block_record (f x) (mints x) (indices x)) bs)"
      using assms(8) by (intro rebuild_blocks_ok) blast
    ultimately show ?thesis using False assms(6) by (simp add: fetch_blocks_def loop lift_client_def)
  qed
qed

section \<open>Blocks sent by the client\<close>

text \<open>A block as the operator sends it: the uploads, then the block update, or a reorg with its further blocks.\<close>

record uploaded_block =
  ub_signature :: signature
  ub_slot :: u64
  ub_time :: "int option"
  ub_update :: versioned_transaction
  ub_header :: PsyBridgeHeader
  ub_extra :: "FinalizedBlockMintTxoInfo list option"
  ub_mint_buffer :: pubkey
  ub_txo_buffer :: pubkey
  ub_mints :: "PendingMint list"
  ub_indices :: "u32 list"
  ub_batch_id :: u32
  ub_uploads :: "(u64 \<times> versioned_transaction) list"

definition sends_block :: "runtime \<Rightarrow> program_ids \<Rightarrow> pubkey \<Rightarrow> pubkey \<Rightarrow> uploaded_block \<Rightarrow> Instruction \<Rightarrow> bool" where
  "sends_block rt ids program_id operator b ix \<longleftrightarrow> wf_header (ub_header b) \<and> (\<exists>payer pf b1 b2. length pf = 256 \<and>
     (case ub_extra b of
        None \<Rightarrow> block_update_ix rt ids program_id payer pf (ub_header b) operator (ub_mint_buffer b) (ub_txo_buffer b) b1 b2 = Inr ix
      | Some blocks \<Rightarrow> list_all wf_mint_txo_info blocks \<and>
          process_reorg_blocks_ix rt ids program_id payer pf (ub_header b) blocks operator (ub_mint_buffer b) (ub_txo_buffer b) b1 b2 = Inr ix))"

definition block_sent :: "runtime \<Rightarrow> program_ids \<Rightarrow> HistorySyncConfig \<Rightarrow> pubkey \<Rightarrow> uploaded_block \<Rightarrow> bool" where
  "block_sent rt ids config operator b \<longleftrightarrow>
     (\<forall>m \<in> set (ub_mints b). wf_pending_mint m) \<and> length (ub_mints b) < 65536 \<and> length (ub_indices b) < 65536 \<and>
     uploads_done config operator (ub_mint_buffer b) (ub_txo_buffer b) (ub_mints b) (ub_indices b) (ub_batch_id b)
       (sc_block_height (finalized_state (ub_header b))) (ub_uploads b) \<and>
     (\<forall>(s, vt) \<in> set (ub_uploads b). s \<le> ub_slot b) \<and>
     (\<exists>ix. sends_block rt ids (hc_program_id config) operator b ix \<and> carries (ub_update b) ix)"

text \<open>The transactions of the operator, newest first, for blocks given oldest first. A block is uploaded after the update of the one before.\<close>

fun operator_txs :: "uploaded_block list \<Rightarrow> (u64 \<times> versioned_transaction) list" where
  "operator_txs [] = []"
| "operator_txs (b # bs) = operator_txs bs @ (ub_slot b, ub_update b) # rev (ub_uploads b)"

definition history_ok :: "runtime \<Rightarrow> program_ids \<Rightarrow> HistorySyncConfig \<Rightarrow> pubkey \<Rightarrow> uploaded_block list \<Rightarrow> bool" where
  "history_ok rt ids config operator blocks \<longleftrightarrow> (\<forall>b \<in> set blocks. block_sent rt ids config operator b) \<and>
     sorted_wrt (\<lambda>b b'. ub_slot b < ub_slot b' \<and> (\<forall>(s, vt) \<in> set (ub_uploads b'). ub_slot b < s)) blocks"

definition block_info :: "pubkey \<Rightarrow> uploaded_block \<Rightarrow> BlockUpdateInfo" where
  "block_info operator b = \<lparr> bi_block_height = sc_block_height (finalized_state (ub_header b)), bi_signature = ub_signature b,
     bi_slot = ub_slot b, bi_block_time = ub_time b, bi_is_reorg = (ub_extra b \<noteq> None),
     bi_extra_finalized_blocks = (case ub_extra b of Some blocks \<Rightarrow> blocks | None \<Rightarrow> []),
     bi_mint_buffer = Some (ub_mint_buffer b), bi_txo_buffer = Some (ub_txo_buffer b), bi_operator = Some operator \<rparr>"

definition block_record :: "uploaded_block \<Rightarrow> BlockRecord" where
  "block_record b = \<lparr> br_block_height = sc_block_height (finalized_state (ub_header b)), br_signature = ub_signature b,
     br_slot = ub_slot b, br_block_time = ub_time b, br_txo_indices = ub_indices b, br_pending_mints = ub_mints b,
     br_is_reorg = (ub_extra b \<noteq> None), br_extra_finalized_blocks = (case ub_extra b of Some blocks \<Rightarrow> blocks | None \<Rightarrow> []) \<rparr>"

lemma sent_shape:
  assumes "sends_block rt ids program_id operator b ix"
  obtains d b1 b2 pf where "ix_program_id ix = program_id" "d = (if ub_extra b = None then 1 else 8)"
    "ix_data ix = replicate 6 d @ b1 # b2 # enc_block_update \<lparr> bu_proof = pf, bu_header = ub_header b \<rparr> @
       concat (map enc_mint_txo_info (case ub_extra b of Some blocks \<Rightarrow> blocks | None \<Rightarrow> []))"
    "wf_block_update \<lparr> bu_proof = pf, bu_header = ub_header b \<rparr>" "3 < length (ix_accounts ix)"
    "map (\<lambda>i. am_pubkey (ix_accounts ix ! i)) [1, 2, 3] = [ub_mint_buffer b, ub_txo_buffer b, operator]"
    "\<forall>x \<in> set (case ub_extra b of Some blocks \<Rightarrow> blocks | None \<Rightarrow> []). wf_mint_txo_info x"
  using assms that
  by (cases "ub_extra b") (auto simp: sends_block_def block_update_ix_def process_reorg_blocks_ix_def with_bumps_ok wf_block_update_def list_all_iff)

lemma sent_parsed:
  assumes "distinct_programs config" and "sends_block rt ids (hc_program_id config) operator b ix" and "carries vt ix"
  shows "parse_operator_tx config slot vt = (blank_tx slot) \<lparr> pt_is_block_update := True \<rparr>"
proof -
  obtain d b1 b2 pf where shape: "ix_program_id ix = hc_program_id config" "d = (if ub_extra b = None then 1 else 8)"
    "ix_data ix = replicate 6 d @ b1 # b2 # enc_block_update \<lparr> bu_proof = pf, bu_header = ub_header b \<rparr> @
       concat (map enc_mint_txo_info (case ub_extra b of Some blocks \<Rightarrow> blocks | None \<Rightarrow> []))" "3 < length (ix_accounts ix)"
    using sent_shape [OF assms(2)] by metis
  then have "is_block_update_data (ix_data ix)" "ix_accounts ix \<noteq> []" by (auto simp: is_block_update_data_def nth_append)
  then show ?thesis
    by (simp add: distinct_programsD [OF assms(1)] parse_carried [OF assms(3)] parse_bridge_part_def shape(1) Let_def)
qed

lemma sent_info:
  assumes "sends_block rt ids (hc_program_id config) operator b ix" and "carries (ub_update b) ix"
    and "ct_slot tx = ub_slot b" and "ct_block_time tx = ub_time b"
  shows "first_block_info config (ub_signature b) tx (vt_static_keys (ub_update b)) (vt_instructions (ub_update b)) = Some (block_info operator b)"
proof -
  let ?extra = "case ub_extra b of Some blocks \<Rightarrow> blocks | None \<Rightarrow> []"
  obtain d b1 b2 pf where shape: "ix_program_id ix = hc_program_id config" "d = (if ub_extra b = None then 1 else 8)"
    "ix_data ix = replicate 6 d @ b1 # b2 # enc_block_update \<lparr> bu_proof = pf, bu_header = ub_header b \<rparr> @ concat (map enc_mint_txo_info ?extra)"
    "wf_block_update \<lparr> bu_proof = pf, bu_header = ub_header b \<rparr>" "3 < length (ix_accounts ix)"
    "map (\<lambda>i. am_pubkey (ix_accounts ix ! i)) [1, 2, 3] = [ub_mint_buffer b, ub_txo_buffer b, operator]" "\<forall>x \<in> set ?extra. wf_mint_txo_info x"
    using sent_shape [OF assms(1)] by metis
  obtain ci where ci: "vt_instructions (ub_update b) = [ci]" "recorded (vt_static_keys (ub_update b)) ix ci"
    using assms(2) by (auto simp: carries_def)
  let ?keys = "vt_static_keys (ub_update b)"
  have len: "length (enc_block_update \<lparr> bu_proof = pf, bu_header = ub_header b \<rparr>) = 576" by (rule block_update_data.enc_length [OF shape(4)])
  have data: "ci_data ci = ix_data ix" "program_of ?keys ci = Some (hc_program_id config)"
    using recorded_parts(3) [OF ci(2)] program_of_recorded [OF ci(2)] shape(1) by simp_all
  have parts: "is_block_update_data (ci_data ci)" "\<not> length (ci_data ci) < 8 + 576" "ci_data ci ! 4 = d"
      "bslice (ci_data ci) 8 584 = enc_block_update \<lparr> bu_proof = pf, bu_header = ub_header b \<rparr>"
      "drop 584 (ci_data ci) = concat (map enc_mint_txo_info ?extra)"
    unfolding data(1) shape(3) using shape(2) len by (simp_all add: is_block_update_data_def nth_append bslice_def)
  have key: "key_at ?keys (ci_accounts ci) i = Some (am_pubkey (ix_accounts ix ! i))" if "i \<le> 3" for i
    using key_at_compiled [of ?keys ix "ci_program_id_index ci" "ci_accounts ci" i] ci(2) shape(5) that by (simp add: recorded_def)
  have "map dec_mint_txo_info (chunks_exact 64 (concat (map enc_mint_txo_info xs))) = xs" if "\<forall>x \<in> set xs. wf_mint_txo_info x" for xs
    using that by (simp add: chunks_exact_concat mint_txo_info.enc_length map_idI mint_txo_info.dec_enc)
  note extra = this [OF shape(7)]
  show ?thesis
    unfolding ci(1) using data(2) parts(1,2) key [of 1] key [of 2] key [of 3] shape(6) assms(3,4)
    by (simp add: Let_def parts(3-5) block_update_data.dec_enc [OF shape(4)] extra_blocks_def block_info_def extra shape(2))
qed
section \<open>The history of the blocks\<close>

lemma operator_txs_append: "operator_txs (xs @ ys) = operator_txs ys @ operator_txs xs"
  by (induction xs) simp_all

lemma operator_txs_slot:
  "(s, vt) \<in> set (operator_txs bs) \<Longrightarrow> \<exists>b \<in> set bs. s = ub_slot b \<or> (s, vt) \<in> set (ub_uploads b)"
  by (induction bs) auto

lemma history_block:
  assumes "distinct_programs config" and "history_ok rt ids config operator blocks" and "b \<in> set blocks" and "\<And>xs. mset (order xs) = mset xs"
  shows "reconstruct_buffers_from_cache order (map (\<lambda>(s, vt). parse_operator_tx config s vt) (operator_txs blocks))
    (ub_mint_buffer b) (ub_txo_buffer b) (ub_slot b) = Inr (ub_mints b, ub_indices b)"
proof -
  obtain pre post where blocks: "blocks = pre @ b # post" using assms(3) by (auto dest: split_list)
  have sent: "block_sent rt ids config operator x" if "x \<in> set blocks" for x using assms(2) that by (simp add: history_ok_def)
  have before: "ub_slot x < ub_slot b" if "x \<in> set pre" for x
    using assms(2) that by (auto simp: history_ok_def blocks sorted_wrt_append)
  have upd: "parse_operator_tx config s (ub_update x) = (blank_tx s) \<lparr> pt_is_block_update := True \<rparr>" if "x \<in> set blocks" for x s
    using sent_parsed [OF assms(1)] sent [OF that] by (auto simp: block_sent_def)
  have txs: "operator_txs blocks = operator_txs post @ (ub_slot b, ub_update b) # rev (ub_uploads b) @ operator_txs pre"
    by (simp add: blocks operator_txs_append)
  have later: "\<forall>(s, vt) \<in> set (operator_txs post). ub_slot b < s"
    using assms(2) by (auto dest!: operator_txs_slot simp: history_ok_def blocks sorted_wrt_append)
  have "s \<le> ub_slot x" if "(s, vt) \<in> set (ub_uploads x)" "x \<in> set blocks" for s vt x
    using sent [OF that(2)] that(1) by (auto simp: block_sent_def)
  then have earlier: "\<forall>(s, vt) \<in> set (ub_uploads b @ operator_txs pre). s \<le> ub_slot b"
    using before by (auto dest!: operator_txs_slot simp: blocks) (metis less_imp_le order.trans)+
  have first: "operator_txs pre = [] \<or> (case hd (operator_txs pre) of (s, vt) \<Rightarrow> pt_is_block_update (parse_operator_tx config s vt))"
  proof (cases pre rule: rev_cases)
    case (snoc xs x)
    then show ?thesis using upd [of x] by (simp add: operator_txs_append blocks)
  qed simp
  have b: "block_sent rt ids config operator b" "b \<in> set blocks" using sent blocks by simp_all
  have complete: "\<forall>m \<in> set (ub_mints b). wf_pending_mint m" "length (ub_mints b) < 65536" "length (ub_indices b) < 65536"
      "uploads_done config operator (ub_mint_buffer b) (ub_txo_buffer b) (ub_mints b) (ub_indices b) (ub_batch_id b)
         (sc_block_height (finalized_state (ub_header b))) (ub_uploads b)"
    using b(1) by (simp_all add: block_sent_def)
  show ?thesis
    unfolding txs by (rule reconstruct_upload [OF assms(1) complete upd [OF b(2)] refl later earlier first assms(4)])
qed

text \<open>The node knows the transactions of the operator, and what it answers for a signature of the state account.\<close>

definition knows :: "history_node \<Rightarrow> sig_info \<Rightarrow> u64 \<times> versioned_transaction \<Rightarrow> bool" where
  "knows node i entry \<longleftrightarrow> si_slot i = fst entry \<and>
     (\<exists>sig tx. si_signature i = Some sig \<and> hn_gate node sig = Inr () \<and> hn_transaction node sig = Inr tx \<and> decoded tx = Some (snd entry))"

definition shows_update :: "history_node \<Rightarrow> HistorySyncConfig \<Rightarrow> sig_info \<Rightarrow> uploaded_block option \<Rightarrow> bool" where
  "shows_update node config i seen \<longleftrightarrow> (case seen of
     None \<Rightarrow> (\<exists>sig. si_signature i = Some sig \<and> fetch_block_update_info node config sig = Inr None)
   | Some b \<Rightarrow> si_signature i = Some (ub_signature b) \<and> hn_gate node (ub_signature b) = Inr () \<and>
       (\<exists>tx. hn_transaction node (ub_signature b) = Inr tx \<and> decoded tx = Some (ub_update b) \<and> ct_slot tx = ub_slot b \<and> ct_block_time tx = ub_time b))"

lemma cache_of_known:
  "list_all2 (knows node) infos txs \<Longrightarrow> cache_loop node config infos = Inr (map (\<lambda>(s, vt). parse_operator_tx config s vt) txs)"
  by (induction rule: list_all2_induct) (auto simp: knows_def)

lemma update_info:
  assumes "shows_update node config i seen" and "\<forall>b. seen = Some b \<longrightarrow> block_sent rt ids config operator b"
  shows "si_signature i \<noteq> None \<and> fetch_block_update_info node config (the (si_signature i)) = Inr (map_option (block_info operator) seen)"
proof (cases seen)
  case None
  then show ?thesis using assms(1) by (auto simp: shows_update_def)
next
  case (Some b)
  then obtain tx where tx: "si_signature i = Some (ub_signature b)" "hn_gate node (ub_signature b) = Inr ()"
      "hn_transaction node (ub_signature b) = Inr tx" "decoded tx = Some (ub_update b)" "ct_slot tx = ub_slot b" "ct_block_time tx = ub_time b"
    using assms(1) by (auto simp: shows_update_def)
  obtain ix where "sends_block rt ids (hc_program_id config) operator b ix" "carries (ub_update b) ix"
    using assms(2) Some by (auto simp: block_sent_def)
  from sent_info [OF this tx(5,6)] tx show ?thesis by (simp add: fetch_block_update_info_def Some)
qed

lemma carried_plain:
  assumes "carries vt ix" and "ix_program_id ix = hc_pending_mint_program_id config \<Longrightarrow> ix_data ix \<noteq> [] \<Longrightarrow> ix_accounts ix \<noteq> [] \<and>
      am_pubkey (hd (ix_accounts ix)) = mb \<and> (ix_data ix ! 0 = 3 \<longrightarrow> parse_mints (drop 3 (ix_data ix)) \<noteq> [])"
  shows "plain_tx config mb vt"
proof -
  obtain ci where ci: "vt_instructions vt = [ci]" "recorded (vt_static_keys vt) ix ci" using assms(1) by (auto simp: carries_def)
  have "ix_accounts ix \<noteq> [] \<Longrightarrow> key_at (vt_static_keys vt) (ci_accounts ci) 0 = Some (am_pubkey (hd (ix_accounts ix)))"
    using key_at_compiled [of "vt_static_keys vt" ix "ci_program_id_index ci" "ci_accounts ci" 0] ci(2)
    by (simp add: recorded_def hd_conv_nth)
  then show ?thesis
    using assms(2) ci(1) recorded_parts(3) [OF ci(2)] program_of_recorded [OF ci(2)] by (auto simp: plain_tx_def)
qed

lemma upload_plain:
  assumes "distinct_programs config" and "\<forall>m \<in> set mints. wf_pending_mint m"
    and "ix \<in> upload_instructions config op mb tb mints indices batch height" and "carries vt ix"
  shows "plain_tx config mb vt"
  using assms(3) unfolding upload_instructions_def
proof (elim UnE CollectE exE conjE singletonE)
  assume "ix = pending_mint_reinit (hc_pending_mint_program_id config) mb op (of_nat (length mints))"
  then show ?thesis by (intro carried_plain [OF assms(4)]) (simp add: pending_mint_reinit_def)
next
  fix g assume "ix = pending_mint_insert (hc_pending_mint_program_id config) mb op (of_nat g) (builder_serialize_group mints g)"
    and "g < builder_num_groups mints"
  then show ?thesis using parse_mints_group [OF assms(2), of g] group_nonempty [of g mints]
    by (intro carried_plain [OF assms(4)]) (simp add: pending_mint_insert_def)
next
  fix resize fin assume "ix = txo_buffer_set_len (hc_txo_buffer_program_id config) tb op op
      (of_nat (length (serialize_all indices))) resize batch height fin"
  then show ?thesis using distinct_programsD [OF assms(1)] by (intro carried_plain [OF assms(4)]) (simp add: txo_buffer_set_len_def)
next
  fix off c assume "ix = txo_buffer_write (hc_txo_buffer_program_id config) tb op batch (of_nat off) c"
  then show ?thesis using distinct_programsD [OF assms(1)] by (intro carried_plain [OF assms(4)]) (simp add: txo_buffer_write_def)
qed

lemma history_plain:
  assumes "distinct_programs config" and "history_ok rt ids config operator blocks" and "\<forall>b \<in> set blocks. ub_mint_buffer b = mb"
    and "(s, vt) \<in> set (operator_txs blocks)"
  shows "plain_tx config mb vt"
proof -
  have "\<exists>b \<in> set blocks. vt = ub_update b \<or> (s, vt) \<in> set (ub_uploads b)" using assms(4) by (induction blocks) auto
  then obtain b where b: "b \<in> set blocks" "vt = ub_update b \<or> (s, vt) \<in> set (ub_uploads b)" by blast
  then have sent: "block_sent rt ids config operator b" using assms(2) by (simp add: history_ok_def)
  from b(2) show ?thesis
  proof
    assume vt: "vt = ub_update b"
    obtain ix where ix: "sends_block rt ids (hc_program_id config) operator b ix" "carries vt ix" using sent vt by (auto simp: block_sent_def)
    have "ix_program_id ix = hc_program_id config" using sent_shape [OF ix(1)] by metis
    then show ?thesis using distinct_programsD [OF assms(1)] by (intro carried_plain [OF ix(2)]) simp
  next
    assume "(s, vt) \<in> set (ub_uploads b)"
    then obtain ix where "ix \<in> upload_instructions config operator mb (ub_txo_buffer b) (ub_mints b) (ub_indices b) (ub_batch_id b)
        (sc_block_height (finalized_state (ub_header b)))" "carries vt ix"
      using sent assms(3) b(1) by (fastforce simp: block_sent_def uploads_done_def Let_def)
    moreover have "\<forall>m \<in> set (ub_mints b). wf_pending_mint m" using sent by (simp add: block_sent_def)
    ultimately show ?thesis by (rule upload_plain [OF assms(1), rotated])
  qed
qed

section \<open>Properties\<close>

text \<open>C20. The stream returns the same record for a block as \<open>fetch_blocks\<close>: for every block of such a history, with one
  mint buffer and at most 100 transactions of the operator, the transaction of its update is read as a record with exactly its height,
  mints and outputs.\<close>

theorem stream_returns_history:
  assumes "distinct_programs config" and "history_ok rt ids config operator blocks" and "\<forall>b \<in> set blocks. ub_mint_buffer b = mint_buffer"
    and "b \<in> set blocks" and "shows_update node config i (Some b)"
    and "serves operator_ledger (hn_signatures node operator)" and "length operator_ledger \<le> 100"
    and "list_all2 (knows node) operator_ledger (operator_txs blocks)" and "\<And>xs. mset (order xs) = mset xs"
  shows "process_transaction order node config (ub_signature b) = Inr (Some (Block (block_record b)))"
proof -
  let ?cache = "map (\<lambda>(s, vt). parse_operator_tx config s vt) (operator_txs blocks)"
  have sent: "block_sent rt ids config operator b" using assms(2,4) by (simp add: history_ok_def)
  obtain tx where tx: "si_signature i = Some (ub_signature b)" "hn_transaction node (ub_signature b) = Inr tx" "decoded tx = Some (ub_update b)"
    using assms(5) by (auto simp: shows_update_def)
  have info: "fetch_block_update_info node config (ub_signature b) = Inr (Some (block_info operator b))"
    using update_info [OF assms(5)] sent tx(1) by simp
  have one: "length (vt_instructions (ub_update b)) \<le> 1" using sent by (auto simp: block_sent_def carries_def)
  have keys: "bi_operator (block_info operator b) = Some operator" "bi_mint_buffer (block_info operator b) = Some mint_buffer"
      "bi_txo_buffer (block_info operator b) = Some (ub_txo_buffer b)" "bi_slot (block_info operator b) = ub_slot b"
    using assms(3,4) by (simp_all add: block_info_def)
  have "hn_signatures node operator None None 1000 = Inr operator_ledger"
    using assms(6,7) by (simp add: serves_def older_than_def newer_than_def)
  then have cache: "build_operator_tx_cache node config operator = Inr ?cache"
    using cache_of_known [OF assms(8)] by (simp add: build_operator_tx_cache_def)
  have "fetches_plain node config mint_buffer operator_ledger"
    unfolding fetches_plain_def
  proof (intro ballI allI impI)
    fix j sig assume j: "j \<in> set operator_ledger" "si_signature j = Some sig"
    then obtain e where "e \<in> set (operator_txs blocks)" "knows node j e"
      using assms(8) by (metis list_all2_conv_all_nth in_set_conv_nth)
    then show "hn_gate node sig = Inr () \<and> (\<forall>tx vt. hn_transaction node sig = Inr tx \<longrightarrow> decoded tx = Some vt \<longrightarrow> plain_tx config mint_buffer vt)"
      using j(2) history_plain [OF assms(1-3), of "fst e" "snd e"] by (auto simp: knows_def)
  qed
  note agree = stream_agrees_with_fetch [OF assms(1) info tx(2,3) one keys(1-3) assms(6,7) this cache, of order]
  have "reconstruct_buffers_from_cache order ?cache mint_buffer (ub_txo_buffer b) (ub_slot b) = Inr (ub_mints b, ub_indices b)"
    using history_block [OF assms(1,2,4,9)] assms(3,4) by simp
  then show ?thesis unfolding agree keys(4) by (simp add: to_block_record_def block_info_def block_record_def)
qed
text \<open>A node that knows a list of transactions, newest first, the first of which touches the state account.\<close>

definition ledger_of :: "(u64 \<times> versioned_transaction) list \<Rightarrow> sig_info list" where
  "ledger_of txs = map (\<lambda>k. \<lparr> si_signature = Some (replicate 64 (of_nat (Suc k))), si_slot = fst (txs ! k) \<rparr>) [0..<length txs]"

definition ledger_node :: "pubkey \<Rightarrow> (u64 \<times> versioned_transaction) list \<Rightarrow> history_node" where
  "ledger_node operator txs = \<lparr> hn_signatures = \<lambda>a. sample_page (if a = operator then ledger_of txs else take 1 (ledger_of txs)),
     hn_gate = \<lambda>_. Inr (),
     hn_transaction = \<lambda>sig. let k = unat (hd sig) - 1 in Inr \<lparr> ct_slot = fst (txs ! k), ct_block_time = None,
       ct_transaction = BinaryTx (Some (snd (txs ! k))), ct_inner = [], ct_failed = False \<rparr>,
     hn_account = \<lambda>_. Inr [] \<rparr>"

lemma ledger_node_knows:
  assumes "length txs < 255"
  shows "list_all2 (knows (ledger_node operator txs)) (ledger_of txs) txs"
proof -
  have "unat (of_nat (Suc k) :: u8) = Suc k" if "k < 255" for k using that by (simp only: unat_of_nat) simp
  then show ?thesis
    using assms by (auto simp: list_all2_conv_all_nth ledger_of_def knows_def ledger_node_def decoded_def Let_def simp del: of_nat_Suc)
qed

definition example_block :: uploaded_block where
  "example_block = \<lparr> ub_signature = replicate 64 1, ub_slot = 20, ub_time = None, ub_update = tx_of example_update_ix,
     ub_header = dec_header (replicate 320 0), ub_extra = None, ub_mint_buffer = replicate 32 6, ub_txo_buffer = replicate 32 7,
     ub_mints = [\<lparr> pm_recipient = replicate 32 1, pm_amount = 50 \<rparr>, \<lparr> pm_recipient = replicate 32 2, pm_amount = 60 \<rparr>],
     ub_indices = [7, 8, 9], ub_batch_id = 3, ub_uploads = map (\<lambda>ix. (19, tx_of ix))
       (upload_list example_history_config (replicate 32 5) (replicate 32 6) (replicate 32 7)
         [\<lparr> pm_recipient = replicate 32 1, pm_amount = 50 \<rparr>, \<lparr> pm_recipient = replicate 32 2, pm_amount = 60 \<rparr>] [7, 8, 9] 3
         (sc_block_height (finalized_state (dec_header (replicate 320 0))))) \<rparr>"

abbreviation example_block_node :: history_node where
  "example_block_node \<equiv> ledger_node (replicate 32 5) (operator_txs [example_block])"

lemma example_block_history:
  "history_ok sample_runtime example_ids example_history_config (replicate 32 5) [example_block]"
proof -
  have "wf_header (dec_header (replicate 320 0))" by (rule header.wf_dec) simp
  moreover have "block_update_ix sample_runtime example_ids (hc_program_id example_history_config) (replicate 32 5) (replicate 256 0)
      (dec_header (replicate 320 0)) (replicate 32 5) (replicate 32 6) (replicate 32 7) 254 255 = Inr example_update_ix"
    by (simp add: block_update_ix_def with_bumps_ok example_history_config_def)
  ultimately have "sends_block sample_runtime example_ids (hc_program_id example_history_config) (replicate 32 5) example_block example_update_ix"
    unfolding sends_block_def by (simp add: example_block_def) (metis length_replicate)
  moreover have "carries (ub_update example_block) example_update_ix" by (simp add: example_block_def carries_tx_of)
  moreover have "uploads_done example_history_config (replicate 32 5) (ub_mint_buffer example_block) (ub_txo_buffer example_block)
      (ub_mints example_block) (ub_indices example_block) (ub_batch_id example_block)
      (sc_block_height (finalized_state (ub_header example_block))) (ub_uploads example_block)"
    unfolding example_block_def by (simp add: upload_list_done)
  ultimately have "block_sent sample_runtime example_ids example_history_config (replicate 32 5) example_block"
    unfolding block_sent_def by (auto simp: example_block_def wf_pending_mint_def)
  then show ?thesis by (simp add: history_ok_def)
qed

lemma example_block_txs: "length (operator_txs [example_block]) \<le> 100"
  by (simp add: example_block_def upload_list_def builder_num_groups_def upload_chunks_def length_chunks_of)

lemma example_block_shown: "shows_update example_block_node example_history_config (hd (ledger_of (operator_txs [example_block]))) (Some example_block)"
proof -
  have first: "operator_txs [example_block] ! 0 = (20, ub_update example_block)" by (simp add: example_block_def)
  have "0 < length (operator_txs [example_block])" by simp
  then show ?thesis using first
    by (simp add: shows_update_def ledger_of_def ledger_node_def hd_map decoded_def Let_def del: operator_txs.simps upt_Suc)
       (simp add: example_block_def)
qed

theorem stream_returns_history_witness:
  "process_transaction rev example_block_node example_history_config (replicate 64 1) = Inr (Some (Block (block_record example_block)))"
proof -
  let ?txs = "operator_txs [example_block]"
  have config: "distinct_programs example_history_config" by (simp add: example_history_config_def distinct_programs_def)
  have serve: "serves (ledger_of ?txs) (hn_signatures example_block_node (replicate 32 5))"
    using sample_page_serves by (simp add: ledger_node_def)
  have len: "length (ledger_of ?txs) \<le> 100" "length ?txs < 255" using example_block_txs by (simp_all add: ledger_of_def)
  have sig: "ub_signature example_block = replicate 64 1" by (simp add: example_block_def)
  show ?thesis
    using stream_returns_history [OF config example_block_history _ _ example_block_shown serve len(1) ledger_node_knows [OF len(2)],
        of "ub_mint_buffer example_block" rev] unfolding sig by simp
qed

end
