(* ===== verification/JsClient.thy ===== *)
theory JsClient
  imports HistoryBuffers
begin

text \<open>
  The instruction builders and uploads of the TypeScript client (\<open>clients/js/src/types.ts\<close>, \<open>instructions.ts\<close> and
  \<open>buffers.ts\<close>). A JavaScript integer, a number or a bigint, is an \<open>int\<close>; \<open>DataView\<close> stores it modulo its width.
  A \<open>Uint8Array\<close> is a list of bytes; \<open>set\<close> and the \<open>DataView\<close> methods throw a \<open>RangeError\<close> when they leave the
  array. The addresses of the token program and the clock come from the libraries and are those of the Rust client.
\<close>

section \<open>Typed arrays\<close>

datatype JsError = RangeError | TooManyBumps

definition u8_set :: "bytes \<Rightarrow> nat \<Rightarrow> bytes \<Rightarrow> JsError + bytes" where
  "u8_set buffer pos src = (if pos + length src \<le> length buffer then Inr (write_at buffer pos src) else Inl RangeError)"

text \<open>The bytes that \<open>setUint8\<close>, \<open>setUint16\<close>, \<open>setUint32\<close> and \<open>setBigUint64\<close> store, little-endian.\<close>

definition le16 :: "int \<Rightarrow> bytes" where
  "le16 n = to_le_bytes (word_of_int n :: u16)"

definition le32 :: "int \<Rightarrow> bytes" where
  "le32 n = to_le_bytes (word_of_int n :: u32)"

definition le64 :: "int \<Rightarrow> bytes" where
  "le64 n = to_le_bytes (word_of_int n :: u64)"

definition le8 :: "int \<Rightarrow> bytes" where
  "le8 n = [word_of_int n]"

text \<open>A run of stores, each followed by \<open>pos += step\<close>.\<close>

fun set_fields :: "bytes \<Rightarrow> nat \<Rightarrow> (bytes \<times> nat) list \<Rightarrow> JsError + (bytes \<times> nat)" where
  "set_fields buffer pos [] = Inr (buffer, pos)"
| "set_fields buffer pos ((src, step) # rest) = rbind (u8_set buffer pos src) (\<lambda>buffer. set_fields buffer (pos + step) rest)"

section \<open>Encoders\<close>

record JsStateCommitment =
  js_blockHash :: bytes
  js_blockMerkleTreeRoot :: bytes
  js_pendingMintsFinalizedHash :: bytes
  js_txoOutputListFinalizedHash :: bytes
  js_autoClaimedTxoTreeRoot :: bytes
  js_autoClaimedDepositsTreeRoot :: bytes
  js_autoClaimedDepositsNextIndex :: int
  js_blockHeight :: int

record JsBridgeHeader =
  js_tipState :: JsStateCommitment
  js_finalizedState :: JsStateCommitment
  js_bridgeStateHash :: bytes
  js_lastRollbackAtSecs :: int
  js_pausedUntilSecs :: int
  js_totalFinalizedFeesCollectedChainHistory :: int

record JsReturnTxOutput =
  js_sighash :: bytes
  js_outputIndex :: int
  js_amountSats :: int

record JsBridgeConfig =
  js_depositFeeRateNumerator :: int
  js_depositFeeRateDenominator :: int
  js_withdrawalFeeRateNumerator :: int
  js_withdrawalFeeRateDenominator :: int
  js_depositFlatFeeSats :: int
  js_withdrawalFlatFeeSats :: int

record JsPendingMint =
  js_recipient :: pubkey
  js_amount :: int

text \<open>The constants of \<open>types.ts\<close>.\<close>

abbreviation PSY_BRIDGE_HEADER_SIZE :: nat where
  "PSY_BRIDGE_HEADER_SIZE \<equiv> 448"

abbreviation PSY_RETURN_TX_OUTPUT_SIZE :: nat where
  "PSY_RETURN_TX_OUTPUT_SIZE \<equiv> 48"

abbreviation MANUAL_CLAIM_INSTRUCTION_DATA_SIZE :: nat where
  "MANUAL_CLAIM_INSTRUCTION_DATA_SIZE \<equiv> 256 + 32 * 4 + 16"

definition state_commitment_fields :: "JsStateCommitment \<Rightarrow> (bytes \<times> nat) list" where
  "state_commitment_fields state =
     [(js_blockHash state, 32), (js_blockMerkleTreeRoot state, 32), (js_pendingMintsFinalizedHash state, 32),
      (js_txoOutputListFinalizedHash state, 32), (js_autoClaimedTxoTreeRoot state, 32), (js_autoClaimedDepositsTreeRoot state, 32),
      (le32 (js_autoClaimedDepositsNextIndex state), 4), (le32 (js_blockHeight state), 4)]"

definition encodePsyBridgeHeader :: "JsBridgeHeader \<Rightarrow> bytes \<Rightarrow> nat \<Rightarrow> JsError + (bytes \<times> nat)" where
  "encodePsyBridgeHeader header buffer offset =
     set_fields buffer offset (state_commitment_fields (js_tipState header) @ state_commitment_fields (js_finalizedState header) @
       [(js_bridgeStateHash header, 32), (le32 (js_lastRollbackAtSecs header), 4), (le32 (js_pausedUntilSecs header), 4),
        (le64 (js_totalFinalizedFeesCollectedChainHistory header), 8)])"

definition encodePsyReturnTxOutput :: "JsReturnTxOutput \<Rightarrow> bytes \<Rightarrow> nat \<Rightarrow> JsError + (bytes \<times> nat)" where
  "encodePsyReturnTxOutput output buffer offset =
     set_fields buffer offset [(js_sighash output, 32), (le64 (js_outputIndex output), 8), (le64 (js_amountSats output), 8)]"

definition encodePsyBridgeConfig :: "JsBridgeConfig \<Rightarrow> bytes \<Rightarrow> nat \<Rightarrow> JsError + (bytes \<times> nat)" where
  "encodePsyBridgeConfig config buffer offset =
     set_fields buffer offset [(le64 (js_depositFeeRateNumerator config), 8), (le64 (js_depositFeeRateDenominator config), 8),
       (le64 (js_withdrawalFeeRateNumerator config), 8), (le64 (js_withdrawalFeeRateDenominator config), 8),
       (le64 (js_depositFlatFeeSats config), 8), (le64 (js_withdrawalFlatFeeSats config), 8)]"

definition encodeFinalizedBlockMintTxoInfo :: "FinalizedBlockMintTxoInfo \<Rightarrow> bytes \<Rightarrow> nat \<Rightarrow> JsError + (bytes \<times> nat)" where
  "encodeFinalizedBlockMintTxoInfo info buffer offset =
     set_fields buffer offset [(fi_pending_mints_finalized_hash info, 32), (fi_txo_output_list_finalized_hash info, 32)]"

definition encodePendingMint :: "JsPendingMint \<Rightarrow> bytes \<Rightarrow> nat \<Rightarrow> JsError + (bytes \<times> nat)" where
  "encodePendingMint mint buffer offset = set_fields buffer offset [(js_recipient mint, 32), (le64 (js_amount mint), 8)]"

text \<open>A \<open>Uint8Array\<close> of zeros that is filled with fields.\<close>

definition filled :: "nat \<Rightarrow> (bytes \<times> nat) list \<Rightarrow> JsError + bytes" where
  "filled len xs = map_sum id fst (set_fields (replicate len 0) 0 xs)"

definition encodeManualClaimInstructionData ::
  "bytes \<Rightarrow> bytes \<Rightarrow> bytes \<Rightarrow> bytes \<Rightarrow> bytes \<Rightarrow> int \<Rightarrow> int \<Rightarrow> JsError + bytes" where
  "encodeManualClaimInstructionData proof recentBlockMerkleTreeRoot recentAutoClaimTxoRoot newManualClaimTxoRoot txHash
       combinedTxoIndex depositAmountSats =
     filled MANUAL_CLAIM_INSTRUCTION_DATA_SIZE [(proof, 256), (recentBlockMerkleTreeRoot, 32), (recentAutoClaimTxoRoot, 32),
       (newManualClaimTxoRoot, 32), (txHash, 32), (le64 combinedTxoIndex, 8), (le64 depositAmountSats, 8)]"

definition createInstructionHeader :: "int \<Rightarrow> int list \<Rightarrow> JsError + bytes" where
  "createInstructionHeader instruction bumps =
     (if length bumps \<ge> 8 then Inl TooManyBumps
      else Inr (replicate (8 - length bumps) (word_of_int instruction) @ map word_of_int bumps))"

section \<open>Bridge instructions\<close>

record JsInitializeBridgeParams =
  js_bridgeHeader :: JsBridgeHeader
  js_startReturnTxoOutput :: JsReturnTxOutput
  js_configParams :: JsBridgeConfig
  js_configHash :: bytes

definition initializeBridge ::
  "runtime \<Rightarrow> pubkey \<Rightarrow> pubkey \<Rightarrow> pubkey \<Rightarrow> pubkey \<Rightarrow> JsInitializeBridgeParams \<Rightarrow> pubkey \<Rightarrow> JsError + Instruction" where
  "initializeBridge rt payer operatorPubkey feeSpenderPubkey dogeMint params programId =
     (let dataSize = 32 * 3 + PSY_BRIDGE_HEADER_SIZE + PSY_RETURN_TX_OUTPUT_SIZE + 48 + 32
      in rbind (set_fields (replicate dataSize 0) 0 [(operatorPubkey, 32), (feeSpenderPubkey, 32), (dogeMint, 32)]) (\<lambda>(buffer, pos).
      rbind (encodePsyBridgeHeader (js_bridgeHeader params) buffer pos) (\<lambda>(buffer, pos).
      rbind (encodePsyReturnTxOutput (js_startReturnTxoOutput params) buffer pos) (\<lambda>(buffer, pos).
      rbind (encodePsyBridgeConfig (js_configParams params) buffer pos) (\<lambda>(buffer, pos).
      rbind (u8_set buffer pos (js_configHash params)) (\<lambda>instructionData.
      rbind (createInstructionHeader 0 []) (\<lambda>header.
      Inr \<lparr> ix_program_id = programId,
            ix_accounts = [account_new (bridge_state_address rt programId) False, account_new payer True,
              account_new_readonly system_program_id False],
            ix_data = header @ instructionData \<rparr>)))))))"

definition block_keys ::
  "runtime \<Rightarrow> pubkey \<Rightarrow> pubkey \<Rightarrow> pubkey \<Rightarrow> pubkey \<Rightarrow> pubkey \<Rightarrow> pubkey \<Rightarrow> pubkey \<Rightarrow> AccountMeta list" where
  "block_keys rt programId payer operator mintBuffer txoBuffer pendingMintPid txoBufferPid =
     [account_new (bridge_state_address rt programId) False, account_new mintBuffer False, account_new txoBuffer False,
      account_new_readonly operator True, account_new payer True, account_new_readonly pendingMintPid False,
      account_new_readonly txoBufferPid False]"

definition blockUpdate ::
  "runtime \<Rightarrow> pubkey \<Rightarrow> pubkey \<Rightarrow> bytes \<Rightarrow> JsBridgeHeader \<Rightarrow> pubkey \<Rightarrow> pubkey \<Rightarrow> pubkey \<Rightarrow> int \<Rightarrow> int \<Rightarrow> pubkey \<Rightarrow> pubkey \<Rightarrow>
   JsError + Instruction" where
  "blockUpdate rt programId payer proof header operator mintBuffer txoBuffer mintBufferBump txoBufferBump pendingMintPid txoBufferPid =
     rbind (u8_set (replicate (256 + PSY_BRIDGE_HEADER_SIZE) 0) 0 proof) (\<lambda>buffer.
     rbind (encodePsyBridgeHeader header buffer 256) (\<lambda>(instructionData, _).
     rbind (createInstructionHeader 1 [mintBufferBump, txoBufferBump]) (\<lambda>headerBuffer.
     Inr \<lparr> ix_program_id = programId,
           ix_accounts = block_keys rt programId payer operator mintBuffer txoBuffer pendingMintPid txoBufferPid,
           ix_data = headerBuffer @ instructionData \<rparr>)))"

fun encode_blocks :: "FinalizedBlockMintTxoInfo list \<Rightarrow> bytes \<Rightarrow> nat \<Rightarrow> JsError + bytes" where
  "encode_blocks [] buffer offset = Inr buffer"
| "encode_blocks (block # blocks) buffer offset =
     rbind (encodeFinalizedBlockMintTxoInfo block buffer offset) (\<lambda>(buffer, _). encode_blocks blocks buffer (offset + 64))"

definition processReorgBlocks ::
  "runtime \<Rightarrow> pubkey \<Rightarrow> pubkey \<Rightarrow> bytes \<Rightarrow> JsBridgeHeader \<Rightarrow> FinalizedBlockMintTxoInfo list \<Rightarrow> pubkey \<Rightarrow> pubkey \<Rightarrow> pubkey \<Rightarrow> int \<Rightarrow> int \<Rightarrow>
   pubkey \<Rightarrow> pubkey \<Rightarrow> JsError + Instruction" where
  "processReorgBlocks rt programId payer proof header extraBlocks operator mintBuffer txoBuffer mintBufferBump txoBufferBump
       pendingMintPid txoBufferPid =
     (let fixedSize = 256 + PSY_BRIDGE_HEADER_SIZE
      in rbind (u8_set (replicate (fixedSize + length extraBlocks * 64) 0) 0 proof) (\<lambda>buffer.
      rbind (encodePsyBridgeHeader header buffer 256) (\<lambda>(buffer, _).
      rbind (encode_blocks extraBlocks buffer fixedSize) (\<lambda>instructionData.
      rbind (createInstructionHeader 8 [mintBufferBump, txoBufferBump]) (\<lambda>headerBuffer.
      Inr \<lparr> ix_program_id = programId,
            ix_accounts = block_keys rt programId payer operator mintBuffer txoBuffer pendingMintPid txoBufferPid,
            ix_data = headerBuffer @ instructionData \<rparr>)))))"

definition requestWithdrawal ::
  "runtime \<Rightarrow> program_ids \<Rightarrow> pubkey \<Rightarrow> pubkey \<Rightarrow> pubkey \<Rightarrow> pubkey \<Rightarrow> bytes \<Rightarrow> int \<Rightarrow> int \<Rightarrow> JsError + Instruction" where
  "requestWithdrawal rt ids programId userAuthority mint userTokenAccount recipientAddress amountSats addressType =
     rbind (filled 32 [(le64 amountSats, 8), (le32 addressType, 4), (recipientAddress, 0)]) (\<lambda>instructionData.
     rbind (createInstructionHeader 2 []) (\<lambda>header.
     Inr \<lparr> ix_program_id = programId,
           ix_accounts = [account_new (bridge_state_address rt programId) False, account_new userTokenAccount False,
             account_new mint False, account_new_readonly userAuthority True, account_new_readonly (pid_spl_token ids) False],
           ix_data = header @ instructionData \<rparr>))"

definition withdrawal_keys :: "runtime \<Rightarrow> program_ids \<Rightarrow> pubkey \<Rightarrow> pubkey \<Rightarrow> pubkey \<Rightarrow> pubkey \<Rightarrow> pubkey \<Rightarrow> AccountMeta list" where
  "withdrawal_keys rt ids programId payer genericBufferAccount wormholeShimProgramId wormholeCoreProgramId =
     (let bridgeState = bridge_state_address rt programId;
          bridgeConfig = fst (rt_find_program_address rt [wormhole_bridge_seed] wormholeCoreProgramId);
          feeCollector = fst (rt_find_program_address rt [fee_collector_seed] wormholeCoreProgramId);
          emitter = bridgeState;
          sequence = fst (rt_find_program_address rt [sequence_seed, emitter] wormholeCoreProgramId);
          message = fst (rt_find_program_address rt [emitter] wormholeShimProgramId);
          eventAuthority = fst (rt_find_program_address rt [event_authority_seed] wormholeShimProgramId)
      in [account_new bridgeState False, account_new_readonly genericBufferAccount False,
          account_new_readonly wormholeShimProgramId False, account_new bridgeConfig False, account_new message False,
          account_new sequence False, account_new payer True, account_new feeCollector False,
          account_new_readonly (pid_clock ids) False, account_new_readonly system_program_id False,
          account_new_readonly wormholeCoreProgramId False, account_new_readonly eventAuthority False])"

definition processWithdrawal ::
  "runtime \<Rightarrow> program_ids \<Rightarrow> pubkey \<Rightarrow> pubkey \<Rightarrow> pubkey \<Rightarrow> pubkey \<Rightarrow> pubkey \<Rightarrow> bytes \<Rightarrow> JsReturnTxOutput \<Rightarrow> bytes \<Rightarrow> int \<Rightarrow>
   JsError + Instruction" where
  "processWithdrawal rt ids programId payer genericBufferAccount wormholeShimProgramId wormholeCoreProgramId proof newReturnOutput
       newSpentTxoTreeRoot newNextProcessedWithdrawalsIndex =
     rbind (set_fields (replicate (256 + PSY_RETURN_TX_OUTPUT_SIZE + 32 + 8) 0) 0 [(proof, 256)]) (\<lambda>(buffer, pos).
     rbind (encodePsyReturnTxOutput newReturnOutput buffer pos) (\<lambda>(buffer, pos).
     rbind (set_fields buffer pos [(newSpentTxoTreeRoot, 32), (le64 newNextProcessedWithdrawalsIndex, 8)]) (\<lambda>(instructionData, _).
     rbind (createInstructionHeader 3 []) (\<lambda>header.
     Inr \<lparr> ix_program_id = programId,
           ix_accounts = withdrawal_keys rt ids programId payer genericBufferAccount wormholeShimProgramId wormholeCoreProgramId,
           ix_data = header @ instructionData \<rparr>))))"

definition processReplayWithdrawal ::
  "runtime \<Rightarrow> program_ids \<Rightarrow> pubkey \<Rightarrow> pubkey \<Rightarrow> pubkey \<Rightarrow> pubkey \<Rightarrow> pubkey \<Rightarrow> JsError + Instruction" where
  "processReplayWithdrawal rt ids programId payer genericBufferAccount wormholeShimProgramId wormholeCoreProgramId =
     rbind (createInstructionHeader 6 []) (\<lambda>header.
     Inr \<lparr> ix_program_id = programId,
           ix_accounts = withdrawal_keys rt ids programId payer genericBufferAccount wormholeShimProgramId wormholeCoreProgramId,
           ix_data = header \<rparr>)"

definition processManualDeposit ::
  "runtime \<Rightarrow> program_ids \<Rightarrow> pubkey \<Rightarrow> pubkey \<Rightarrow> pubkey \<Rightarrow> pubkey \<Rightarrow> bytes \<Rightarrow> bytes \<Rightarrow> bytes \<Rightarrow> int \<Rightarrow> bytes \<Rightarrow> int \<Rightarrow>
   JsError + Instruction" where
  "processManualDeposit rt ids programId manualClaimProgramId mint recipient txHash recentBlockMerkleTreeRoot recentAutoClaimTxoRoot
       combinedTxoIndex depositorSolanaPublicKey depositAmountSats =
     rbind (filled (32 + 32 + 32 + 8 + 32 + 8) [(txHash, 32), (recentBlockMerkleTreeRoot, 32), (recentAutoClaimTxoRoot, 32),
       (le64 combinedTxoIndex, 8), (depositorSolanaPublicKey, 32), (le64 depositAmountSats, 8)]) (\<lambda>instructionData.
     rbind (createInstructionHeader 5 []) (\<lambda>header.
     Inr \<lparr> ix_program_id = programId,
           ix_accounts = [account_new (bridge_state_address rt programId) False, account_new recipient False, account_new mint False,
             account_new_readonly (pid_spl_token ids) False, account_new_readonly manualClaimProgramId True],
           ix_data = header @ instructionData \<rparr>))"

definition manualClaimDeposit ::
  "runtime \<Rightarrow> program_ids \<Rightarrow> pubkey \<Rightarrow> pubkey \<Rightarrow> pubkey \<Rightarrow> pubkey \<Rightarrow> pubkey \<Rightarrow> pubkey \<Rightarrow> bytes \<Rightarrow> bytes \<Rightarrow> bytes \<Rightarrow> bytes \<Rightarrow> bytes \<Rightarrow> int \<Rightarrow>
   int \<Rightarrow> JsError + Instruction" where
  "manualClaimDeposit rt ids programId bridgeProgramId userSigner payer mint recipient proof recentBlockMerkleTreeRoot
       recentAutoClaimTxoRoot newManualClaimTxoRoot txHash combinedTxoIndex depositAmountSats =
     rbind (encodeManualClaimInstructionData proof recentBlockMerkleTreeRoot recentAutoClaimTxoRoot newManualClaimTxoRoot txHash
       combinedTxoIndex depositAmountSats) (\<lambda>instructionData.
     rbind (createInstructionHeader 0 []) (\<lambda>header.
     Inr \<lparr> ix_program_id = programId,
           ix_accounts = [account_new (fst (rt_find_program_address rt [manual_claim_seed, userSigner] programId)) False,
             account_new_readonly (bridge_state_address rt bridgeProgramId) False, account_new recipient False,
             account_new mint False, account_new_readonly (pid_spl_token ids) False, account_new_readonly bridgeProgramId False,
             account_new_readonly userSigner True, account_new payer True, account_new_readonly system_program_id False],
           ix_data = header @ instructionData \<rparr>))"

definition mint_group_payload :: "int \<Rightarrow> int \<Rightarrow> bool \<Rightarrow> JsError + bytes" where
  "mint_group_payload groupIndex mintBufferBump shouldUnlock =
     filled 4 [(le16 groupIndex, 2), (le8 mintBufferBump, 1), (le8 (if shouldUnlock then 1 else 0), 1)]"

definition processMintGroup ::
  "runtime \<Rightarrow> program_ids \<Rightarrow> pubkey \<Rightarrow> pubkey \<Rightarrow> pubkey \<Rightarrow> pubkey \<Rightarrow> pubkey list \<Rightarrow> int \<Rightarrow> int \<Rightarrow> bool \<Rightarrow> pubkey \<Rightarrow> JsError + Instruction" where
  "processMintGroup rt ids programId operator mintBuffer dogeMint recipients groupIndex mintBufferBump shouldUnlock pendingMintPid =
     rbind (mint_group_payload groupIndex mintBufferBump shouldUnlock) (\<lambda>payload.
     rbind (createInstructionHeader 7 []) (\<lambda>header.
     Inr \<lparr> ix_program_id = programId,
           ix_accounts = [account_new (bridge_state_address rt programId) False, account_new mintBuffer False,
             account_new_readonly operator True, account_new dogeMint False, account_new operator True,
             account_new_readonly pendingMintPid False, account_new_readonly (pid_spl_token ids) False] @
             map (\<lambda>r. account_new r False) recipients,
           ix_data = header @ payload \<rparr>))"

definition processMintGroupAutoAdvance ::
  "runtime \<Rightarrow> program_ids \<Rightarrow> pubkey \<Rightarrow> pubkey \<Rightarrow> pubkey \<Rightarrow> pubkey \<Rightarrow> pubkey \<Rightarrow> pubkey list \<Rightarrow> int \<Rightarrow> int \<Rightarrow> int \<Rightarrow> bool \<Rightarrow> pubkey \<Rightarrow> pubkey \<Rightarrow>
   JsError + Instruction" where
  "processMintGroupAutoAdvance rt ids programId operator mintBuffer txoBuffer dogeMint recipients groupIndex mintBufferBump txoBufferBump
       shouldUnlock pendingMintPid txoBufferPid =
     rbind (mint_group_payload groupIndex mintBufferBump shouldUnlock) (\<lambda>payload.
     rbind (createInstructionHeader 9 [mintBufferBump, txoBufferBump]) (\<lambda>header.
     Inr \<lparr> ix_program_id = programId,
           ix_accounts = [account_new (bridge_state_address rt programId) False, account_new mintBuffer False,
             account_new txoBuffer False, account_new_readonly operator True, account_new dogeMint False, account_new operator True,
             account_new_readonly pendingMintPid False, account_new_readonly txoBufferPid False,
             account_new_readonly (pid_spl_token ids) False] @ map (\<lambda>r. account_new r False) recipients,
           ix_data = header @ payload \<rparr>))"

definition operatorWithdrawFees :: "runtime \<Rightarrow> program_ids \<Rightarrow> pubkey \<Rightarrow> pubkey \<Rightarrow> pubkey \<Rightarrow> pubkey \<Rightarrow> JsError + Instruction" where
  "operatorWithdrawFees rt ids programId operator operatorTokenAccount dogeMint =
     rbind (createInstructionHeader 4 []) (\<lambda>header.
     Inr \<lparr> ix_program_id = programId,
           ix_accounts = [account_new (bridge_state_address rt programId) False, account_new operatorTokenAccount False,
             account_new dogeMint False, account_new operator True, account_new_readonly (pid_spl_token ids) False],
           ix_data = header \<rparr>)"

definition snapshotWithdrawals :: "runtime \<Rightarrow> pubkey \<Rightarrow> pubkey \<Rightarrow> pubkey \<Rightarrow> JsError + Instruction" where
  "snapshotWithdrawals rt programId operator payer =
     rbind (createInstructionHeader 10 []) (\<lambda>header.
     Inr \<lparr> ix_program_id = programId,
           ix_accounts = [account_new (bridge_state_address rt programId) False, account_new_readonly operator True, account_new payer True],
           ix_data = header \<rparr>)"

section \<open>Buffer instructions\<close>

definition paid_keys :: "pubkey \<Rightarrow> pubkey \<Rightarrow> AccountMeta list" where
  "paid_keys account payer = [account_new account False, account_new payer True, account_new_readonly system_program_id False]"

definition genericBufferInit :: "pubkey \<Rightarrow> pubkey \<Rightarrow> pubkey \<Rightarrow> int \<Rightarrow> JsError + Instruction" where
  "genericBufferInit programId account payer targetSize =
     rbind (filled 5 [([0], 1), (le32 targetSize, 0)]) (\<lambda>data.
     Inr \<lparr> ix_program_id = programId, ix_accounts = paid_keys account payer, ix_data = data \<rparr>)"

definition genericBufferWrite :: "pubkey \<Rightarrow> pubkey \<Rightarrow> pubkey \<Rightarrow> int \<Rightarrow> bytes \<Rightarrow> JsError + Instruction" where
  "genericBufferWrite programId account payer offset bs =
     rbind (filled (5 + length bs) [([2], 1), (le32 offset, 4), (bs, 0)]) (\<lambda>data.
     Inr \<lparr> ix_program_id = programId, ix_accounts = paid_keys account payer, ix_data = data \<rparr>)"

definition pendingMintSetup :: "pubkey \<Rightarrow> pubkey \<Rightarrow> pubkey \<Rightarrow> pubkey \<Rightarrow> JsError + Instruction" where
  "pendingMintSetup programId account locker writer =
     rbind (filled 65 [([0], 1), (locker, 32), (writer, 0)]) (\<lambda>data.
     Inr \<lparr> ix_program_id = programId, ix_accounts = [account_new account False, account_new_readonly system_program_id False],
           ix_data = data \<rparr>)"

definition pendingMintReinit :: "pubkey \<Rightarrow> pubkey \<Rightarrow> pubkey \<Rightarrow> int \<Rightarrow> JsError + Instruction" where
  "pendingMintReinit programId account payer totalMints =
     rbind (filled 3 [([1], 1), (le16 totalMints, 0)]) (\<lambda>data.
     Inr \<lparr> ix_program_id = programId, ix_accounts = paid_keys account payer, ix_data = data \<rparr>)"

definition pendingMintInsert :: "pubkey \<Rightarrow> pubkey \<Rightarrow> pubkey \<Rightarrow> int \<Rightarrow> bytes \<Rightarrow> JsError + Instruction" where
  "pendingMintInsert programId account payer groupIdx mintData =
     rbind (filled (3 + length mintData) [([3], 1), (le16 groupIdx, 2), (mintData, 0)]) (\<lambda>data.
     Inr \<lparr> ix_program_id = programId, ix_accounts = paid_keys account payer, ix_data = data \<rparr>)"

definition txoBufferInit :: "pubkey \<Rightarrow> pubkey \<Rightarrow> pubkey \<Rightarrow> JsError + Instruction" where
  "txoBufferInit programId account writer =
     rbind (filled 33 [([0], 1), (writer, 0)]) (\<lambda>data.
     Inr \<lparr> ix_program_id = programId, ix_accounts = [account_new account False, account_new_readonly system_program_id False],
           ix_data = data \<rparr>)"

definition txoBufferSetLen ::
  "pubkey \<Rightarrow> pubkey \<Rightarrow> pubkey \<Rightarrow> pubkey \<Rightarrow> int \<Rightarrow> bool \<Rightarrow> int \<Rightarrow> int \<Rightarrow> bool \<Rightarrow> JsError + Instruction" where
  "txoBufferSetLen programId account payer writer newLen resize batchId height finalize =
     rbind (filled 15 [([1], 1), (le32 newLen, 4), (le8 (if resize then 1 else 0), 1), (le32 batchId, 4), (le32 height, 4),
       (le8 (if finalize then 1 else 0), 0)]) (\<lambda>data.
     Inr \<lparr> ix_program_id = programId, ix_accounts = paid_keys account payer @ [account_new_readonly writer True], ix_data = data \<rparr>)"

definition txoBufferWrite :: "pubkey \<Rightarrow> pubkey \<Rightarrow> pubkey \<Rightarrow> int \<Rightarrow> int \<Rightarrow> bytes \<Rightarrow> JsError + Instruction" where
  "txoBufferWrite programId account writer batchId offset bs =
     rbind (filled (9 + length bs) [([2], 1), (le32 batchId, 4), (le32 offset, 4), (bs, 0)]) (\<lambda>data.
     Inr \<lparr> ix_program_id = programId, ix_accounts = [account_new account False, account_new writer True], ix_data = data \<rparr>)"

section \<open>Uploads\<close>

fun js_sequence :: "(JsError + 'a) list \<Rightarrow> JsError + 'a list" where
  "js_sequence [] = Inr []"
| "js_sequence (x # xs) = rbind x (\<lambda>y. rbind (js_sequence xs) (\<lambda>ys. Inr (y # ys)))"

text \<open>The loop \<open>for (let i = 0; i < length; i += CHUNK_SIZE)\<close> and the part of the data it takes.\<close>

function js_chunks :: "nat \<Rightarrow> bytes \<Rightarrow> (nat \<times> bytes) list" where
  "js_chunks i data =
     (if i < length data then (i, bslice data i (min (i + CHUNK_SIZE) (length data))) # js_chunks (i + CHUNK_SIZE) data else [])"
  by auto
termination by (relation "measure (\<lambda>(i, data). length data - i)") auto

declare js_chunks.simps [simp del]

definition createGenericBuffer :: "pubkey \<Rightarrow> pubkey \<Rightarrow> pubkey \<Rightarrow> bytes \<Rightarrow> JsError + Instruction list" where
  "createGenericBuffer programId payer buffer dataContent =
     rbind (genericBufferInit programId buffer payer (int (length dataContent))) (\<lambda>initIx.
     rbind (js_sequence (map (\<lambda>(i, chunk). genericBufferWrite programId buffer payer (int i) chunk) (js_chunks 0 dataContent))) (\<lambda>writeIxs.
     Inr (initIx # writeIxs)))"

text \<open>
  The uploads of the two buffers: the instruction that sets up a missing account (sent together with a transfer) and the
  instructions after it. \<open>accountInfo\<close> is the data of the account, if it exists.
\<close>

definition createTxoBuffer ::
  "runtime \<Rightarrow> pubkey \<Rightarrow> pubkey \<Rightarrow> int \<Rightarrow> int list \<Rightarrow> bytes option \<Rightarrow> JsError + (Instruction option \<times> Instruction list)" where
  "createTxoBuffer rt programId payer dogeBlockHeight txoIndicesU32 accountInfo =
     (let bufferPda = fst (rt_find_program_address rt [txo_buffer_seed, payer] programId)
      in rbind (case accountInfo of
            None \<Rightarrow> rbind (txoBufferInit programId bufferPda payer) (\<lambda>initIx. Inr (Some initIx, 0))
          | Some data \<Rightarrow> if length data < 44 then Inl RangeError
              else Inr (None, 1 + uint (from_le_bytes (bslice data 40 44) :: u32))) (\<lambda>(initIx, batchId).
      rbind (filled (length txoIndicesU32 * 4) (map (\<lambda>v. (le32 v, 4)) txoIndicesU32)) (\<lambda>txoBytes.
      rbind (txoBufferSetLen programId bufferPda payer payer (int (length txoBytes)) True batchId dogeBlockHeight False) (\<lambda>setLenIx.
      rbind (js_sequence (map (\<lambda>(i, chunk). txoBufferWrite programId bufferPda payer batchId (int i) chunk) (js_chunks 0 txoBytes))) (\<lambda>writeIxs.
      rbind (txoBufferSetLen programId bufferPda payer payer (int (length txoBytes)) False batchId dogeBlockHeight True) (\<lambda>finalizeIx.
      Inr (initIx, setLenIx # writeIxs @ [finalizeIx])))))))"

fun encode_mints :: "JsPendingMint list \<Rightarrow> bytes \<Rightarrow> nat \<Rightarrow> JsError + bytes" where
  "encode_mints [] buffer offset = Inr buffer"
| "encode_mints (m # ms) buffer offset = rbind (encodePendingMint m buffer offset) (\<lambda>(buffer, _). encode_mints ms buffer (offset + 40))"

definition createPendingMintBuffer ::
  "runtime \<Rightarrow> pubkey \<Rightarrow> pubkey \<Rightarrow> pubkey \<Rightarrow> JsPendingMint list \<Rightarrow> bytes option \<Rightarrow> JsError + (Instruction option \<times> Instruction list)" where
  "createPendingMintBuffer rt programId payer locker mints accountInfo =
     (let bufferPda = fst (rt_find_program_address rt [mint_buffer_seed, payer] programId)
      in rbind (case accountInfo of
            None \<Rightarrow> rbind (pendingMintSetup programId bufferPda locker payer) (\<lambda>setupIx. Inr (Some setupIx))
          | Some _ \<Rightarrow> Inr None) (\<lambda>setupIx.
      rbind (pendingMintReinit programId bufferPda payer (int (length mints))) (\<lambda>reinitIx.
      rbind (js_sequence (map (\<lambda>i.
          let start = i * 24; stop = min (start + 24) (length mints); grp = bslice mints start stop
          in rbind (encode_mints grp (replicate (length grp * 40) 0) 0) (\<lambda>mintData.
             pendingMintInsert programId bufferPda payer (int i) mintData)) [0..<(length mints + 23) div 24])) (\<lambda>insertIxs.
      Inr (setupIx, reinitIx # insertIxs)))))"

section \<open>The Rust data of the JavaScript objects\<close>

definition return_output_of :: "JsReturnTxOutput \<Rightarrow> PsyReturnTxOutput" where
  "return_output_of r = \<lparr> ro_sighash = js_sighash r, ro_output_index = word_of_int (js_outputIndex r), ro_amount_sats = word_of_int (js_amountSats r) \<rparr>"

definition mint_of :: "JsPendingMint \<Rightarrow> PendingMint" where
  "mint_of m = \<lparr> pm_recipient = js_recipient m, pm_amount = word_of_int (js_amount m) \<rparr>"

section \<open>What the stores leave\<close>

lemma le_lengths [simp]: "length (le8 n) = 1" "length (le16 n) = 2" "length (le32 n) = 4" "length (le64 n) = 8"
  by (simp_all add: le8_def le16_def le32_def le64_def)

lemma write_after:
  "pos = length done \<Longrightarrow> length src \<le> m \<Longrightarrow> write_at (done @ replicate m x) pos src = (done @ src) @ replicate (m - length src) x"
  by (simp add: write_at_def)

lemma set_fields_exact:
  assumes "\<forall>(src, step) \<in> set fs. length src = step" and "sum_list (map snd fs) \<le> m"
  shows "set_fields (pre @ replicate m 0) (length pre) fs =
    Inr ((pre @ concat (map fst fs)) @ replicate (m - sum_list (map snd fs)) 0, length pre + sum_list (map snd fs))"
  using assms
proof (induction fs arbitrary: pre m)
  case (Cons f fs)
  obtain src step where f: "f = (src, step)" by (cases f)
  then have len: "length src = step" "step \<le> m" using Cons.prems by auto
  have "set_fields (pre @ replicate m 0) (length pre) (f # fs) = set_fields ((pre @ src) @ replicate (m - step) 0) (length (pre @ src)) fs"
    using len by (simp add: f u8_set_def write_after)
  also have "\<dots> = Inr (((pre @ src) @ concat (map fst fs)) @ replicate (m - step - sum_list (map snd fs)) 0,
      length (pre @ src) + sum_list (map snd fs))"
    by (rule Cons.IH) (use Cons.prems f in auto)
  finally show ?case using len by (simp add: f diff_diff_eq)
qed simp

lemma set_fields_append:
  "set_fields b p (xs @ ys) = rbind (set_fields b p xs) (\<lambda>(b, p). set_fields b p ys)"
  by (induction b p xs rule: set_fields.induct) (auto simp: u8_set_def)

lemma filled_exact:
  assumes "\<forall>(src, step) \<in> set xs. length src = step" and "n = sum_list (map snd xs) + length src"
  shows "filled n (xs @ [(src, k)]) = Inr (concat (map fst xs) @ src)"
proof -
  have "set_fields (replicate n 0) 0 xs = Inr (concat (map fst xs) @ replicate (length src) 0, sum_list (map snd xs))"
    using set_fields_exact [OF assms(1), of n "[]"] assms(2) by simp
  moreover have "length (concat (map fst xs)) = sum_list (map snd xs)" using assms(1) by (induction xs) auto
  ultimately show ?thesis
    using assms(2) by (simp add: filled_def set_fields_append u8_set_def write_at_def)
qed

lemma filled_two: "length a = k \<Longrightarrow> n = k + length b \<Longrightarrow> filled n [(a, k), (b, j)] = Inr (a @ b)"
  using filled_exact [of "[(a, k)]" n b j] by simp

lemma filled_three: "length a = k \<Longrightarrow> length b = l \<Longrightarrow> n = k + l + length c \<Longrightarrow> filled n [(a, k), (b, l), (c, j)] = Inr (a @ b @ c)"
  using filled_exact [of "[(a, k), (b, l)]" n c j] by simp

lemma header_plain: "createInstructionHeader d [] = Inr (replicate 8 (word_of_int d))"
  by (simp add: createInstructionHeader_def)

lemma header_bumps: "createInstructionHeader d [b1, b2] = Inr (replicate 6 (word_of_int d) @ [word_of_int b1, word_of_int b2])"
  by (simp add: createInstructionHeader_def)

declare set_fields.simps [simp del]

section \<open>The instructions are those of the Rust client\<close>

lemma js_mint_group_payload:
  "mint_group_payload g b u = Inr (to_le_bytes (word_of_int g :: u16) @ [word_of_int b] @ [if u then 1 else 0])"
  using filled_exact [of "[(le16 g, 2), (le8 b, 1)]" 4 "le8 (if u then 1 else 0)" 1]
  by (simp add: mint_group_payload_def) (simp add: le16_def le8_def)

lemma js_withdrawal_keys: "withdrawal_keys = wormhole_accounts"
  by (simp add: fun_eq_iff withdrawal_keys_def wormhole_accounts_def Let_def)

lemma js_request_withdrawal:
  assumes "length address = 20"
  shows "requestWithdrawal rt ids pid user mint token address amount ty =
    Inr (request_withdrawal_ix rt ids pid user mint token address (word_of_int amount) (word_of_int ty))"
proof -
  have "filled 32 [(le64 amount, 8), (le32 ty, 4), (address, 0)] = Inr (le64 amount @ le32 ty @ address)"
    by (rule filled_three) (simp_all add: assms)
  then show ?thesis
    by (simp add: requestWithdrawal_def header_plain request_withdrawal_ix_def gen_aligned_instruction_def enc_withdrawal_request_def
        withdrawal_request_new_def) (simp add: le64_def le32_def)
qed

lemma js_process_withdrawal:
  assumes "length pf = 256" and "length (js_sighash r) = 32" and "length root = 32"
  shows "processWithdrawal rt ids pid payer buf shim core pf r root idx =
    Inr (process_withdrawal_ix rt ids pid payer buf shim core
      \<lparr> pw_proof = pf, pw_new_return_output = return_output_of r, pw_new_spent_txo_tree_root = root,
        pw_new_next_processed_withdrawals_index = word_of_int idx \<rparr>)"
proof -
  have 1: "set_fields (replicate (256 + PSY_RETURN_TX_OUTPUT_SIZE + 32 + 8) 0) 0 [(pf, 256)] = Inr (pf @ replicate 88 0, 256)"
    using set_fields_exact [of "[(pf, 256)]" 344 "[]"] assms by simp
  have 2: "encodePsyReturnTxOutput r (pf @ replicate 88 0) 256 = Inr (pf @ enc_return_output (return_output_of r) @ replicate 40 0, 304)"
    using set_fields_exact [of "[(js_sighash r, 32), (le64 (js_outputIndex r), 8), (le64 (js_amountSats r), 8)]" 88 pf] assms
    by (simp add: encodePsyReturnTxOutput_def enc_return_output_def return_output_of_def le64_def)
  have 3: "set_fields (pf @ enc_return_output (return_output_of r) @ replicate 40 0) 304 [(root, 32), (le64 idx, 8)] =
      Inr (pf @ enc_return_output (return_output_of r) @ root @ le64 idx, 344)"
    using set_fields_exact [of "[(root, 32), (le64 idx, 8)]" 40 "pf @ enc_return_output (return_output_of r)"] assms
    by (simp add: enc_return_output_def return_output_of_def)
  show ?thesis
    unfolding processWithdrawal_def 1
    by (simp add: 2 3 header_plain process_withdrawal_ix_def js_withdrawal_keys gen_aligned_instruction_def
        enc_process_withdrawal_def) (simp add: le64_def)
qed
lemma js_replay: "processReplayWithdrawal rt ids pid payer buf shim core = Inr (process_replay_withdrawal_ix rt ids pid payer buf shim core)"
  by (simp add: processReplayWithdrawal_def header_plain process_replay_withdrawal_ix_def js_withdrawal_keys gen_aligned_instruction_def)

lemma js_manual_deposit:
  assumes "length tx = 32" and "length r1 = 32" and "length r2 = 32" and "length dep = 32"
  shows "processManualDeposit rt ids pid claim mint recipient tx r1 r2 idx dep amount =
    Inr (process_manual_deposit_ix rt ids pid claim mint recipient
      \<lparr> md_tx_hash = tx, md_recent_block_merkle_tree_root = r1, md_recent_auto_claim_txo_root = r2, md_combined_txo_index = word_of_int idx,
        md_depositor_solana_public_key = dep, md_deposit_amount_sats = word_of_int amount \<rparr>)"
proof -
  have "filled 144 ([(tx, 32), (r1, 32), (r2, 32), (le64 idx, 8), (dep, 32)] @ [(le64 amount, 8)]) =
      Inr (concat (map fst [(tx, 32 :: nat), (r1, 32), (r2, 32), (le64 idx, 8), (dep, 32)]) @ le64 amount)"
    by (rule filled_exact) (simp_all add: assms)
  then show ?thesis
    by (simp add: processManualDeposit_def header_plain process_manual_deposit_ix_def gen_aligned_instruction_def enc_manual_deposit_def)
       (simp add: le64_def)
qed

lemma js_manual_claim:
  assumes "length pf = 256" and "length r1 = 32" and "length r2 = 32" and "length r3 = 32" and "length tx = 32"
  shows "manualClaimDeposit rt ids pid bridge user payer mint recipient pf r1 r2 r3 tx idx amount =
    Inr (manual_claim_deposit_instruction rt ids pid bridge user payer mint recipient
      \<lparr> mc_proof = pf, mc_recent_block_merkle_tree_root = r1, mc_recent_auto_claim_txo_root = r2, mc_new_manual_claim_txo_root = r3,
        mc_tx_hash = tx, mc_combined_txo_index = word_of_int idx, mc_deposit_amount_sats = word_of_int amount \<rparr>)"
proof -
  have "filled 400 ([(pf, 256), (r1, 32), (r2, 32), (r3, 32), (tx, 32), (le64 idx, 8)] @ [(le64 amount, 8)]) =
      Inr (concat (map fst [(pf, 256 :: nat), (r1, 32), (r2, 32), (r3, 32), (tx, 32), (le64 idx, 8)]) @ le64 amount)"
    by (rule filled_exact) (simp_all add: assms)
  then show ?thesis
    by (simp add: manualClaimDeposit_def encodeManualClaimInstructionData_def header_plain manual_claim_deposit_instruction_def
        gen_aligned_instruction_def enc_manual_claim_def Let_def) (simp add: le64_def)
qed

lemma js_mint_group:
  "processMintGroup rt ids pid op mb mint recipients g b u (pid_pending_mint_buffer ids) =
    Inr (process_mint_group_ix rt ids pid op mb mint recipients (word_of_int g) (word_of_int b) u)"
  by (simp add: processMintGroup_def js_mint_group_payload header_plain process_mint_group_ix_def gen_aligned_instruction_def)

lemma js_mint_group_auto_advance:
  "\<exists>ix. processMintGroupAutoAdvance rt ids pid op mb tb mint recipients g b1 b2 u (pid_pending_mint_buffer ids) (pid_txo_buffer ids) = Inr ix \<and>
    process_mint_group_auto_advance_ix rt ids pid op mb tb mint recipients (word_of_int g) (word_of_int b1) (word_of_int b2) u = Inr ix"
  by (simp add: processMintGroupAutoAdvance_def js_mint_group_payload header_bumps process_mint_group_auto_advance_ix_def with_bumps_ok)

lemma js_operator:
  "operatorWithdrawFees rt ids pid op token mint = Inr (operator_withdraw_fees_ix rt ids pid op token mint)"
  "snapshotWithdrawals rt pid op payer = Inr (snapshot_withdrawals_ix rt pid op payer)"
  by (simp_all add: operatorWithdrawFees_def snapshotWithdrawals_def header_plain operator_withdraw_fees_ix_def snapshot_withdrawals_ix_def
      gen_aligned_instruction_def)

lemma js_buffers:
  "genericBufferInit pid acc payer n = Inr (generic_buffer_init pid acc payer (word_of_int n))"
  "genericBufferWrite pid acc payer off bs = Inr (generic_buffer_write pid acc payer (word_of_int off) bs)"
  "pendingMintReinit pid acc payer n = Inr (pending_mint_reinit pid acc payer (word_of_int n))"
  "pendingMintInsert pid acc payer g bs = Inr (pending_mint_insert pid acc payer (word_of_int g) bs)"
  "txoBufferWrite pid acc payer b off bs = Inr (txo_buffer_write pid acc payer (word_of_int b) (word_of_int off) bs)"
  "txoBufferSetLen pid acc payer wr n r b h f = Inr (txo_buffer_set_len pid acc payer wr (word_of_int n) r (word_of_int b) (word_of_int h) f)"
proof -
  show "genericBufferInit pid acc payer n = Inr (generic_buffer_init pid acc payer (word_of_int n))"
    by (simp add: genericBufferInit_def generic_buffer_init_def paid_keys_def filled_two) (simp add: le32_def)
  show "genericBufferWrite pid acc payer off bs = Inr (generic_buffer_write pid acc payer (word_of_int off) bs)"
    by (simp add: genericBufferWrite_def generic_buffer_write_def paid_keys_def filled_three) (simp add: le32_def)
  show "pendingMintReinit pid acc payer n = Inr (pending_mint_reinit pid acc payer (word_of_int n))"
    by (simp add: pendingMintReinit_def pending_mint_reinit_def paid_keys_def filled_two) (simp add: le16_def)
  show "pendingMintInsert pid acc payer g bs = Inr (pending_mint_insert pid acc payer (word_of_int g) bs)"
    by (simp add: pendingMintInsert_def pending_mint_insert_def paid_keys_def filled_three) (simp add: le16_def)
  show "txoBufferWrite pid acc payer b off bs = Inr (txo_buffer_write pid acc payer (word_of_int b) (word_of_int off) bs)"
    using filled_exact [of "[([2], 1), (le32 b, 4), (le32 off, 4)]" "9 + length bs" bs 0]
    by (simp add: txoBufferWrite_def txo_buffer_write_def) (simp add: le32_def)
  show "txoBufferSetLen pid acc payer wr n r b h f = Inr (txo_buffer_set_len pid acc payer wr (word_of_int n) r (word_of_int b) (word_of_int h) f)"
    using filled_exact [of "[([1], 1), (le32 n, 4), (le8 (if r then 1 else 0), 1), (le32 b, 4), (le32 h, 4)]" 15 "le8 (if f then 1 else 0)" 0]
    by (simp add: txoBufferSetLen_def txo_buffer_set_len_def paid_keys_def) (simp add: le32_def le8_def)
qed

lemma js_buffer_setup:
  "length locker = 32 \<Longrightarrow> length wr = 32 \<Longrightarrow> pendingMintSetup pid acc locker wr = Inr (pending_mint_setup pid acc locker wr)"
  "length wr = 32 \<Longrightarrow> txoBufferInit pid acc wr = Inr (txo_buffer_init pid acc wr)"
  by (simp_all add: pendingMintSetup_def pending_mint_setup_def txoBufferInit_def txo_buffer_init_def filled_two filled_three)

section \<open>The uploads are those of the Rust client\<close>

lemma js_sequence_ok: "js_sequence (map (\<lambda>x. Inr (f x)) xs) = Inr (map f xs)"
  by (induction xs) simp_all

lemma js_chunks_eq: "js_chunks i data = map (\<lambda>(k, c). (i + k * CHUNK_SIZE, c)) (enumerate 0 (chunks_of CHUNK_SIZE (drop i data)))"
proof (induction i data rule: js_chunks.induct)
  case (1 i data)
  show ?case
  proof (cases "i < length data")
    case True
    have "chunks_of CHUNK_SIZE (drop i data) = take CHUNK_SIZE (drop i data) # chunks_of CHUNK_SIZE (drop (i + CHUNK_SIZE) data)"
      using True by (subst chunks_of.simps) (simp add: add.commute)
    moreover have "bslice data i (min (i + CHUNK_SIZE) (length data)) = take CHUNK_SIZE (drop i data)"
      by (simp add: bslice_def min_def)
    moreover have "map (\<lambda>(k, c). (i + CHUNK_SIZE + k * CHUNK_SIZE, c)) (enumerate 0 cs) = map (\<lambda>(k, c). (i + k * CHUNK_SIZE, c)) (enumerate 1 cs)" for cs :: "bytes list"
      by (rule nth_equalityI) (simp_all add: nth_enumerate_eq)
    ultimately show ?thesis using True 1 by (subst js_chunks.simps) simp
  next
    case False
    then show ?thesis by (subst js_chunks.simps) (simp add: chunks_of.simps)
  qed
qed

lemma js_chunks_upload: "js_chunks 0 data = upload_chunks data"
  by (simp add: js_chunks_eq upload_chunks_def)
lemma encode_mints_ok:
  assumes "\<forall>m \<in> set ms. length (js_recipient m) = 32"
  shows "encode_mints ms (pre @ replicate (length ms * 40) 0) (length pre) = Inr (pre @ concat (map (enc_pending_mint \<circ> mint_of) ms))"
  using assms
proof (induction ms arbitrary: pre)
  case (Cons m ms)
  have "encodePendingMint m (pre @ replicate (40 + length ms * 40) 0) (length pre) =
      Inr ((pre @ enc_pending_mint (mint_of m)) @ replicate (length ms * 40) 0, length pre + 40)"
    using set_fields_exact [of "[(js_recipient m, 32), (le64 (js_amount m), 8)]" "40 + length ms * 40" pre] Cons.prems
    by (simp add: encodePendingMint_def enc_pending_mint_def mint_of_def le64_def)
  moreover have "length (enc_pending_mint (mint_of m)) = 40" using Cons.prems by (simp add: enc_pending_mint_def mint_of_def)
  ultimately show ?case using Cons.IH [of "pre @ enc_pending_mint (mint_of m)"] Cons.prems by simp
qed simp

lemma js_txo_bytes: "filled (length xs * 4) (map (\<lambda>v. (le32 v, 4)) xs) = Inr (serialize_all (map word_of_int xs))"
proof -
  have n: "sum_list (map (\<lambda>_. 4) xs) = length xs * (4 :: nat)" by (induction xs) simp_all
  show ?thesis
    using set_fields_exact [of "map (\<lambda>v. (le32 v, 4)) xs" "length xs * 4" "[]"]
    by (simp add: filled_def o_def n serialize_all_def) (simp add: le32_def [abs_def])
qed

lemma js_generic_upload:
  "createGenericBuffer pid payer buffer data = Inr (generic_buffer_init pid buffer payer (of_nat (length data)) #
     map (\<lambda>(off, c). generic_buffer_write pid buffer payer (of_nat off) c) (upload_chunks data))"
  by (simp add: createGenericBuffer_def js_buffers js_chunks_upload case_prod_unfold js_sequence_ok)

lemma js_mint_upload:
  assumes "\<forall>m \<in> set mints. length (js_recipient m) = 32" and "length locker = 32" and "length payer = 32"
  shows "\<exists>set_up. createPendingMintBuffer rt pid payer locker mints info = Inr (set_up,
    (let buffer = fst (rt_find_program_address rt [mint_buffer_seed, payer] pid)
     in pending_mint_reinit pid buffer payer (of_nat (length mints)) #
        map (\<lambda>g. pending_mint_insert pid buffer payer (of_nat g) (builder_serialize_group (map mint_of mints) g))
          [0..<builder_num_groups (map mint_of mints)]))"
proof -
  have groups: "(length mints + 23) div 24 = builder_num_groups (map mint_of mints)" by (simp add: builder_num_groups_def add.commute)
  have mint_group: "encode_mints (bslice mints a b) (replicate (length (bslice mints a b) * 40) 0) 0 =
      Inr (concat (map enc_pending_mint (bslice (map mint_of mints) a b)))" for a b
  proof -
    have "set (bslice mints a b) \<subseteq> set mints" by (auto simp: bslice_def dest!: in_set_takeD in_set_dropD)
    then show ?thesis using encode_mints_ok [of "bslice mints a b" "[]"] assms(1)
      by (auto simp: bslice_def take_map drop_map map_map [symmetric] simp del: map_map)
  qed
  have inserts: "(\<lambda>i. rbind (encode_mints (bslice mints (i * 24) (min (i * 24 + 24) (length mints)))
            (replicate (length (bslice mints (i * 24) (min (i * 24 + 24) (length mints))) * 40) 0) 0)
          (pendingMintInsert pid buffer payer (int i))) =
      (\<lambda>i. Inr (pending_mint_insert pid buffer payer (of_nat i) (builder_serialize_group (map mint_of mints) i)))" for buffer
    unfolding mint_group by (rule ext) (simp add: js_buffers builder_serialize_group_def builder_get_group_def Let_def)
  show ?thesis
    unfolding createPendingMintBuffer_def Let_def groups inserts
    using assms by (cases info) (simp_all add: js_buffers js_buffer_setup js_sequence_ok)
qed

lemma js_txo_upload:
  assumes "length payer = 32" and "\<forall>data. info = Some data \<longrightarrow> 44 \<le> length data"
  shows "\<exists>set_up. createTxoBuffer rt pid payer height xs info = Inr (set_up,
    (let buffer = fst (rt_find_program_address rt [txo_buffer_seed, payer] pid); total = of_nat (length (serialize_all (map word_of_int xs)));
         batch = (case info of None \<Rightarrow> 0 | Some data \<Rightarrow> 1 + from_le_bytes (bslice data 40 44))
     in txo_buffer_set_len pid buffer payer payer total True batch (word_of_int height) False #
        map (\<lambda>(off, c). txo_buffer_write pid buffer payer batch (of_nat off) c) (upload_chunks (serialize_all (map word_of_int xs))) @
        [txo_buffer_set_len pid buffer payer payer total False batch (word_of_int height) True]))"
  using assms
  by (cases info) (simp_all add: createTxoBuffer_def Let_def js_buffers js_buffer_setup js_txo_bytes js_chunks_upload case_prod_unfold
      js_sequence_ok)

section \<open>Block updates\<close>

lemma u8_set_length: "u8_set b p src = Inr b' \<Longrightarrow> length b' = length b"
  by (auto simp: u8_set_def write_at_def split: if_splits)

lemma set_fields_length: "set_fields b p xs = Inr (b', p') \<Longrightarrow> length b' = length b"
  by (induction b p xs rule: set_fields.induct) (auto simp: set_fields.simps rbind_eq_Inr dest: u8_set_length)

lemma encode_blocks_length: "encode_blocks bs b p = Inr b' \<Longrightarrow> length b' = length b"
  by (induction bs b p rule: encode_blocks.induct) (auto simp: rbind_eq_Inr encodeFinalizedBlockMintTxoInfo_def dest: set_fields_length)


lemma js_initialize_data:
  assumes "initializeBridge rt payer op spender mint params pid = Inr ix"
  shows "ix_data ix ! 0 = 0 \<and> length (ix_data ix) = 680"
  using assms
  by (auto simp: initializeBridge_def Let_def header_plain rbind_eq_Inr encodePsyBridgeHeader_def encodePsyReturnTxOutput_def
      encodePsyBridgeConfig_def nth_append dest!: set_fields_length u8_set_length)

lemma js_block_update_data:
  assumes "blockUpdate rt pid payer pf h op mb tb b1 b2 mp tp = Inr ix"
  shows "ix_data ix ! 0 = 1 \<and> length (ix_data ix) = 712"
  using assms
  by (auto simp: blockUpdate_def header_bumps rbind_eq_Inr encodePsyBridgeHeader_def nth_append dest!: set_fields_length u8_set_length)

lemma js_reorg_data:
  assumes "processReorgBlocks rt pid payer pf h extra op mb tb b1 b2 mp tp = Inr ix"
  shows "ix_data ix ! 0 = 8 \<and> length (ix_data ix) = 712 + 64 * length extra"
  using assms
  by (auto simp: processReorgBlocks_def Let_def header_bumps rbind_eq_Inr encodePsyBridgeHeader_def nth_append
      dest!: set_fields_length u8_set_length encode_blocks_length)

lemma decode_refused:
  "xs ! 0 = 0 \<and> length xs = 680 \<or> xs ! 0 = 1 \<and> length xs = 712 \<Longrightarrow>
   decode_instruction xs = Inl (Err (bridge_error BridgeSerializationError))"
  by (auto simp: decode_instruction_def Let_def)

lemma js_reorg_decoded:
  assumes "processReorgBlocks rt pid payer pf h extra op mb tb b1 b2 mp tp = Inr ix"
  shows "\<exists>pf' h' blocks c1 c2. decode_instruction (ix_data ix) = Inr (ProcessReorgBlocks pf' h' blocks c1 c2) \<and>
    length blocks = length extra + 2"
proof -
  have d: "ix_data ix ! 0 = 8" and n: "length (ix_data ix) = 712 + 64 * length extra" using js_reorg_data [OF assms] by simp_all
  then have "ix_data ix \<noteq> []" by auto
  then show ?thesis by (simp add: decode_instruction_def Let_def d n reorg_reader_new_def)
qed

section \<open>Properties\<close>

abbreviation zeros :: "nat \<Rightarrow> bytes" where
  "zeros n \<equiv> replicate n 0"

definition example_js_header :: JsBridgeHeader where
  "example_js_header =
     (let state = \<lparr> js_blockHash = zeros 32, js_blockMerkleTreeRoot = zeros 32, js_pendingMintsFinalizedHash = zeros 32,
        js_txoOutputListFinalizedHash = zeros 32, js_autoClaimedTxoTreeRoot = zeros 32, js_autoClaimedDepositsTreeRoot = zeros 32,
        js_autoClaimedDepositsNextIndex = 3, js_blockHeight = 7 \<rparr>
      in \<lparr> js_tipState = state, js_finalizedState = state, js_bridgeStateHash = zeros 32, js_lastRollbackAtSecs = 0,
           js_pausedUntilSecs = 0, js_totalFinalizedFeesCollectedChainHistory = 0 \<rparr>)"

text \<open>C22. The TypeScript builders of the withdrawal, claim and mint instructions return exactly the instructions of the Rust
  builders, for every number, each taken modulo the width of its field, and for hashes, proofs and addresses of the right
  lengths. They never throw there.\<close>

theorem js_instructions_agree:
  assumes "length address = 20" and "length pf = 256" and "length (js_sighash r) = 32"
    and "length root = 32" and "length root' = 32" and "length root'' = 32" and "length tx = 32" and "length depositor = 32"
  shows "requestWithdrawal rt ids pid user mint token address amount ty =
      Inr (request_withdrawal_ix rt ids pid user mint token address (word_of_int amount) (word_of_int ty)) \<and>
    processWithdrawal rt ids pid payer buffer shim core pf r root idx =
      Inr (process_withdrawal_ix rt ids pid payer buffer shim core
        \<lparr> pw_proof = pf, pw_new_return_output = return_output_of r, pw_new_spent_txo_tree_root = root,
          pw_new_next_processed_withdrawals_index = word_of_int idx \<rparr>) \<and>
    processReplayWithdrawal rt ids pid payer buffer shim core = Inr (process_replay_withdrawal_ix rt ids pid payer buffer shim core) \<and>
    processManualDeposit rt ids pid claim mint token tx root root' idx depositor amount =
      Inr (process_manual_deposit_ix rt ids pid claim mint token
        \<lparr> md_tx_hash = tx, md_recent_block_merkle_tree_root = root, md_recent_auto_claim_txo_root = root',
          md_combined_txo_index = word_of_int idx, md_depositor_solana_public_key = depositor,
          md_deposit_amount_sats = word_of_int amount \<rparr>) \<and>
    manualClaimDeposit rt ids claim pid user payer mint token pf root root' root'' tx idx amount =
      Inr (manual_claim_deposit_instruction rt ids claim pid user payer mint token
        \<lparr> mc_proof = pf, mc_recent_block_merkle_tree_root = root, mc_recent_auto_claim_txo_root = root',
          mc_new_manual_claim_txo_root = root'', mc_tx_hash = tx, mc_combined_txo_index = word_of_int idx,
          mc_deposit_amount_sats = word_of_int amount \<rparr>) \<and>
    processMintGroup rt ids pid op mb mint recipients g b u (pid_pending_mint_buffer ids) =
      Inr (process_mint_group_ix rt ids pid op mb mint recipients (word_of_int g) (word_of_int b) u) \<and>
    operatorWithdrawFees rt ids pid op token mint = Inr (operator_withdraw_fees_ix rt ids pid op token mint) \<and>
    snapshotWithdrawals rt pid op payer = Inr (snapshot_withdrawals_ix rt pid op payer)"
  using assms by (simp add: js_request_withdrawal js_process_withdrawal js_replay js_manual_deposit js_manual_claim js_mint_group js_operator)

theorem js_instructions_agree_witness:
  "requestWithdrawal sample_runtime example_ids (zeros 32) (zeros 32) (zeros 32) (zeros 32) (zeros 20) 500 0 =
     Inr (request_withdrawal_ix sample_runtime example_ids (zeros 32) (zeros 32) (zeros 32) (zeros 32) (zeros 20) 500 0) \<and>
   manualClaimDeposit sample_runtime example_ids (zeros 32) (zeros 32) (zeros 32) (zeros 32) (zeros 32) (zeros 32) (zeros 256)
     (zeros 32) (zeros 32) (zeros 32) (zeros 32) 9 500 =
     Inr (manual_claim_deposit_instruction sample_runtime example_ids (zeros 32) (zeros 32) (zeros 32) (zeros 32) (zeros 32) (zeros 32)
       \<lparr> mc_proof = zeros 256, mc_recent_block_merkle_tree_root = zeros 32, mc_recent_auto_claim_txo_root = zeros 32,
         mc_new_manual_claim_txo_root = zeros 32, mc_tx_hash = zeros 32, mc_combined_txo_index = 9, mc_deposit_amount_sats = 500 \<rparr>)"
  using js_instructions_agree [of "zeros 20" "zeros 256" "\<lparr> js_sighash = zeros 32, js_outputIndex = 0, js_amountSats = 0 \<rparr>"
      "zeros 32" "zeros 32" "zeros 32" "zeros 32" "zeros 32" sample_runtime example_ids "zeros 32" "zeros 32" "zeros 32" "zeros 32" 500 0
      "zeros 32" "zeros 32" "zeros 32" "zeros 32" 9 "zeros 32"]
  by simp

text \<open>C21. The uploads of the TypeScript client return, and after the set-up of a missing account they send exactly the
  instructions that the Rust client sends for the same mints and output indices: the whole list of both buffers, with the batch
  of an existing output buffer raised by one.\<close>

theorem js_uploads_agree:
  assumes "\<forall>m \<in> set mints. length (js_recipient m) = 32" and "length locker = 32" and "length payer = 32"
    and "\<forall>data. txo_account = Some data \<longrightarrow> 44 \<le> length data"
  shows "\<exists>setup_mints setup_txos mint_ixs txo_ixs.
    createPendingMintBuffer rt (hc_pending_mint_program_id config) payer locker mints mint_account = Inr (setup_mints, mint_ixs) \<and>
    createTxoBuffer rt (hc_txo_buffer_program_id config) payer height indices txo_account = Inr (setup_txos, txo_ixs) \<and>
    mint_ixs @ txo_ixs = upload_list config payer
      (fst (rt_find_program_address rt [mint_buffer_seed, payer] (hc_pending_mint_program_id config)))
      (fst (rt_find_program_address rt [txo_buffer_seed, payer] (hc_txo_buffer_program_id config)))
      (map mint_of mints) (map word_of_int indices)
      (case txo_account of None \<Rightarrow> 0 | Some data \<Rightarrow> 1 + from_le_bytes (bslice data 40 44)) (word_of_int height)"
proof -
  obtain setup_mints where "createPendingMintBuffer rt (hc_pending_mint_program_id config) payer locker mints mint_account =
      Inr (setup_mints,
        (let buffer = fst (rt_find_program_address rt [mint_buffer_seed, payer] (hc_pending_mint_program_id config))
         in pending_mint_reinit (hc_pending_mint_program_id config) buffer payer (of_nat (length mints)) #
            map (\<lambda>g. pending_mint_insert (hc_pending_mint_program_id config) buffer payer (of_nat g)
                (builder_serialize_group (map mint_of mints) g)) [0..<builder_num_groups (map mint_of mints)]))"
    using js_mint_upload [OF assms(1-3)] by blast
  moreover obtain setup_txos where "createTxoBuffer rt (hc_txo_buffer_program_id config) payer height indices txo_account =
      Inr (setup_txos, drop (Suc (builder_num_groups (map mint_of mints))) (upload_list config payer
        (fst (rt_find_program_address rt [mint_buffer_seed, payer] (hc_pending_mint_program_id config)))
        (fst (rt_find_program_address rt [txo_buffer_seed, payer] (hc_txo_buffer_program_id config)))
        (map mint_of mints) (map word_of_int indices)
        (case txo_account of None \<Rightarrow> 0 | Some data \<Rightarrow> 1 + from_le_bytes (bslice data 40 44)) (word_of_int height)))"
    using js_txo_upload [OF assms(3,4), of rt "hc_txo_buffer_program_id config" height indices]
    by (fastforce simp: upload_list_def Let_def)
  ultimately show ?thesis by (simp add: upload_list_def Let_def)
qed

theorem js_uploads_agree_witness:
  "\<exists>mint_ixs txo_ixs.
    createPendingMintBuffer sample_runtime (replicate 32 11) (zeros 32) (zeros 32) [\<lparr> js_recipient = zeros 32, js_amount = 70 \<rparr>] (Some []) =
      Inr (None, mint_ixs) \<and>
    createTxoBuffer sample_runtime (replicate 32 12) (zeros 32) 8 [5, 6] (Some (zeros 48)) = Inr (None, txo_ixs) \<and>
    mint_ixs @ txo_ixs = upload_list example_history_config (zeros 32)
      (fst (rt_find_program_address sample_runtime [mint_buffer_seed, zeros 32] (replicate 32 11)))
      (fst (rt_find_program_address sample_runtime [txo_buffer_seed, zeros 32] (replicate 32 12)))
      [\<lparr> pm_recipient = zeros 32, pm_amount = 70 \<rparr>] [5, 6] 1 8"
proof -
  have batch: "1 + from_le_bytes (bslice (zeros 48) 40 44) = (1 :: u32)" by code_simp
  show ?thesis
    using js_uploads_agree [of "[\<lparr> js_recipient = zeros 32, js_amount = 70 \<rparr>]" "zeros 32" "zeros 32" "Some (zeros 48)" sample_runtime
        example_history_config "Some []" 8 "[5, 6]"]
    by (auto simp: example_history_config_def mint_of_def batch createPendingMintBuffer_def createTxoBuffer_def Let_def rbind_eq_Inr)
qed

text \<open>C40. The header of the TypeScript client has two full state commitments, and that of the bridge program has a short one
  for the tip. So whenever the client returns an initialization or a block update, the program refuses its data, whatever the
  accounts; and a reorganization is read with two more blocks than the caller gave.\<close>

theorem js_blocks_refused:
  "(initializeBridge rt payer op spender mint params pid = Inr ix \<longrightarrow>
      process_instruction e pid accounts (ix_data ix) = Inl (Err (bridge_error BridgeSerializationError))) \<and>
   (blockUpdate rt pid payer pf h op mb tb b1 b2 mp tp = Inr ix \<longrightarrow>
      process_instruction e pid accounts (ix_data ix) = Inl (Err (bridge_error BridgeSerializationError))) \<and>
   (processReorgBlocks rt pid payer pf h extra op mb tb b1 b2 mp tp = Inr ix \<longrightarrow>
      (\<exists>pf' h' blocks c1 c2. decode_instruction (ix_data ix) = Inr (ProcessReorgBlocks pf' h' blocks c1 c2) \<and>
        length blocks = length extra + 2))"
  using js_initialize_data js_block_update_data js_reorg_decoded by (simp add: process_instruction_def decode_refused)

theorem js_blocks_refused_witness:
  "\<exists>ix. blockUpdate sample_runtime (zeros 32) (zeros 32) (zeros 256) example_js_header (zeros 32) (zeros 32) (zeros 32) 254 255
      (zeros 32) (zeros 32) = Inr ix \<and>
    process_instruction (example_env (\<lambda>x. zeros 32)) (zeros 32) [] (ix_data ix) = Inl (Err (bridge_error BridgeSerializationError))"
proof -
  let ?state = "js_tipState example_js_header"
  have proof_bytes: "u8_set (zeros 704) 0 (zeros 256) = Inr (zeros 256 @ zeros 448)"
    by (simp add: u8_set_def write_at_def flip: replicate_add)
  have "\<exists>data pos. encodePsyBridgeHeader example_js_header (zeros 256 @ zeros 448) 256 = Inr (data, pos)"
    using set_fields_exact [of "state_commitment_fields ?state @ state_commitment_fields ?state @
        [(zeros 32, 32), (le32 0, 4), (le32 0, 4), (le64 0, 8)]" 448 "zeros 256"]
    by (simp add: encodePsyBridgeHeader_def example_js_header_def Let_def state_commitment_fields_def)
  then obtain ix where ix: "blockUpdate sample_runtime (zeros 32) (zeros 32) (zeros 256) example_js_header (zeros 32) (zeros 32) (zeros 32)
      254 255 (zeros 32) (zeros 32) = Inr ix"
    by (auto simp: blockUpdate_def proof_bytes header_bumps)
  then show ?thesis using js_blocks_refused by blast
qed

end
