(* ===== verification/Spec2Isabelle.thy ===== *)
theory Spec2Isabelle
  imports LockProtocol HistoryBlocks JsClient
begin

text \<open>
  Verification of the Psy Dogecoin--Solana bridge.

  \<^bold>\<open>The program.\<close> The bridge program (\<open>programs/doge-bridge\<close>) keeps a commitment to the
  Dogecoin chain, advanced by proved block transitions, and pays the deposits of each finalized block as tokens.
  The operator uploads the mints of a block into a buffer of the program
  \<open>programs/pending-mint-buffer\<close> and its outputs into one of \<open>programs/txo-buffer\<close>; the block
  transition compares the digests of both with the proved header and locks the mint buffer, and the mints are then
  paid in groups of 24. Deposits that are not paid automatically are claimed by their owner with
  \<open>programs/manual-claim\<close>, which calls the bridge. A withdrawal burns tokens and is queued; a
  proved withdrawal sends the Dogecoin transaction, uploaded to a buffer of \<open>programs/generic-buffer\<close>, to the
  message program (\<open>programs/noop-shim\<close> in tests), from where \<open>clients/rust\<close> reads it for the
  signer. The Rust client builds the instructions, uploads the buffers, watches both programs and rebuilds the
  history of blocks from the transactions of the operator.

  \<^bold>\<open>Conventions.\<close> A machine integer is a word of its width and wraps as in a release build; where the source
  uses checked arithmetic the check is written out; \<open>usize\<close> is \<open>nat\<close>. A fallible function returns
  \<open>'e fault + 'a\<close>: \<open>Inl (Err e)\<close> is a returned error and \<open>Inl Panic\<close> a panic. A handler
  takes the list of accounts and returns the accounts after it with the calls it makes to other programs, in their
  order. SHA-256 and RIPEMD-160 are parameters \<open>sha\<close> and \<open>ripemd\<close>, the proof verifier is \<open>zkv\<close>, and
  the address derivation, the clock and the rent of the runtime are the record \<open>runtime\<close>; \<open>runtime_ok\<close> and
  \<open>digest32\<close> say what is relied upon (lengths of addresses and digests). Where a collision would
  break a property its statement says so. Byte layouts are explicit encoders and decoders, with the fields at the
  offsets of the \<open>repr(C)\<close> structs.

  \<^bold>\<open>The theories and the code\<close> (paths under \<open>src/\<close>; the core library is \<open>libraries/\<close>).
  \<^item> \<open>Prelude\<close>: words, results, slices, the contracts \<open>fixed_codec\<close>, \<open>array_codec\<close> and
    \<open>step_invariant\<close>. \<open>Errors\<close>: \<open>error.rs\<close> with its codes.
  \<^item> \<open>ZeroHashes\<close>, \<open>Hashing\<close>, \<open>MerkleSpec\<close>, \<open>MerkleProof\<close>, \<open>AppendTree\<close>: \<open>psy-bridge-core/src/crypto/hash\<close>.
    \<open>MerkleSpec\<close> holds the reference tree, \<open>AppendTree\<close> proves that the fixed append tree is the tree of the
    list of appended leaves, that reverting truncates it, and \<open>MerkleProof\<close> that the proofs are sound and the raw
    routine for Dogecoin blocks agrees with the structured one.
  \<^item> \<open>Layouts\<close>, \<open>PublicInputs\<close>, \<open>Fees\<close>, \<open>TxoIndex\<close>: \<open>header.rs\<close>,
    \<open>public_inputs\<close>, \<open>utils/fees.rs\<close>, \<open>txo_constants.rs\<close>: what a public input binds, that fees are exact, that
    indices are packed without loss.
  \<^item> \<open>PendingMintData\<close>, \<open>MintGroup\<close>, \<open>BridgeState\<close>, \<open>BlockUpdate\<close>, \<open>AutoMint\<close>:
    \<open>psy-doge-solana-core/src/data_accounts\<close> and \<open>program_state\<close>. The invariant of the mint manager, block transitions,
    withdrawals and deposits with their accounting, and that every mint of a block is paid exactly once.
  \<^item> \<open>SolanaRuntime\<close>, \<open>ChunkUpload\<close>, \<open>PendingMintBuffer\<close>, \<open>TxoBuffer\<close>,
    \<open>GenericBuffer\<close>: the three buffer programs, every instruction. A locked mint buffer does not change and its
    digest commits to the mints; a finalized batch does not change; only the writer writes.
  \<^item> \<open>BridgeInstructions\<close>, \<open>StateLayout\<close>, \<open>BridgeMachine\<close>, \<open>DogeBridge\<close>,
    \<open>BridgeProgram\<close>: the bridge program. \<open>BridgeMachine\<close> is the abstract machine (the step relation
    \<open>bridge_step\<close>); every accepted instruction refines it, keeps the account well formed, and mints only when
    authorised. \<open>LockProtocol\<close> composes the bridge with the mint-buffer program.
  \<^item> \<open>ManualClaim\<close>: the claim program with the call it makes, and the client's instruction.
  \<^item> \<open>BufferClient\<close>, \<open>MintUpload\<close>: the uploads of \<open>clients/rust/src/buffer\<close>; run against the
    buffer programs, in any order of the parallel chunks, they leave the intended data.
  \<^item> \<open>ClientRpc\<close>: errors, retries and rate limit of \<open>clients/rust\<close>. \<open>SignatureFeed\<close>: the walks over
    the signatures of an address. \<open>ShimMonitor\<close>: the message program and \<open>noop_shim_monitor.rs\<close>.
    \<open>EventMonitor\<close>: \<open>monitor.rs\<close>. \<open>HistoryBuffers\<close>: the reconstruction of buffers in \<open>history.rs\<close>,
    which returns exactly what the uploads of \<open>BufferClient\<close> and \<open>MintUpload\<close> wrote.

  \<^bold>\<open>Loops and bounds.\<close> Loops over data are structural recursion. The loops that ask a node for pages and
  the retry loop are \<open>partial_function (option)\<close>, and that they return is proved: for every node that serves a finite
  ledger (\<open>serves\<close>), and for every operation when \<open>max_retries\<close> is below its greatest value.
  The monitor, which runs until it is stopped, is a function of the list of ledgers its polls meet. No definition has
  fuel. Sizes are those of the source: trees of height 32, 8 recent blocks, groups of 24 mints,
  chunks of 900 bytes.

  \<^bold>\<open>Not modelled.\<close> The verifiers of \<open>crypto/zk\<close> and \<open>crypto/secp256k1\<close> are wrappers of
  third-party crates; the token program, the system program and the message program of the main network are not in the
  repository, and the model keeps the calls made to them. The network side of the clients (\<open>client.rs\<close>,
  \<open>api/\<close>, the fetching part of \<open>history.rs\<close>, \<open>clients/rust_user\<close>), the
  TypeScript clients, the command line and the test helpers send requests and read files around the modelled functions.
\<close>

end
